(* ===== verification/Prelude.thy ===== *)
theory Prelude
  imports Main "HOL-Library.Word" "HOL-Library.List_Lexorder" "HOL-Library.Product_Lexorder"
    "HOL-Library.Option_ord"
begin

text \<open>
  Shared vocabulary of the development: bytes and machine integers, Rust's \<open>Result\<close> and
  its panics as sum types, the checked and saturating integer operations the sources call,
  the ordered collections of the Rust standard library (\<open>BTreeSet\<close> as a strictly sorted
  list, \<open>BTreeMap\<close> as an association list strictly sorted by key), lower-case hex, and the
  generic lemmas about them. The two ordered collections are specified by the locales
  \<open>ordered_set\<close> and \<open>ordered_map\<close>, which are interpreted on the definitions here and
  whose laws the component theories use.
\<close>

named_theorems result_simps \<open>unfolding of the result combinators\<close>
named_theorems wf_intros \<open>introduction rules for well-formedness invariants\<close>

section \<open>Bytes and integers\<close>

type_synonym byte = "8 word"
type_synonym bytes = "byte list"
type_synonym u64 = "64 word"

text \<open>Rust's checked and saturating operations on unsigned integers.\<close>

definition checked_add :: "'a::len word \<Rightarrow> 'a word \<Rightarrow> 'a word option" where
  "checked_add a b = (if unat a + unat b < 2 ^ LENGTH('a) then Some (a + b) else None)"

definition checked_sub :: "'a::len word \<Rightarrow> 'a word \<Rightarrow> 'a word option" where
  "checked_sub a b = (if unat b \<le> unat a then Some (a - b) else None)"

definition saturating_add :: "'a::len word \<Rightarrow> 'a word \<Rightarrow> 'a word" where
  "saturating_add a b = (case checked_add a b of Some c \<Rightarrow> c | None \<Rightarrow> - 1)"

lemma checked_add_Some_unat: "checked_add a b = Some c \<Longrightarrow> unat c = unat a + unat b"
  by (auto simp: checked_add_def unat_word_ariths split: if_splits)

lemma checked_add_None_iff: "checked_add (a :: 'a::len word) b = None \<longleftrightarrow> 2 ^ LENGTH('a) \<le> unat a + unat b"
  by (auto simp: checked_add_def)

lemma checked_sub_Some_unat: "checked_sub a b = Some c \<Longrightarrow> unat a = unat c + unat b"
  by (auto simp: checked_sub_def unat_sub word_le_nat_alt split: if_splits)

lemma checked_sub_None_iff: "checked_sub a b = None \<longleftrightarrow> unat a < unat b"
  by (auto simp: checked_sub_def)

lemma unat_saturating_add:
  "unat (saturating_add (a :: 'a::len word) b) = min (unat a + unat b) (2 ^ LENGTH('a) - 1)"
proof (cases "checked_add a b")
  case None
  then have "2 ^ LENGTH('a) \<le> unat a + unat b" by (simp add: checked_add_None_iff)
  with None show ?thesis by (simp add: saturating_add_def unsigned_minus_1_eq_mask mask_eq_exp_minus_1)
next
  case (Some c)
  then have "unat c = unat a + unat b" by (rule checked_add_Some_unat)
  moreover have "unat c < 2 ^ LENGTH('a)" by simp
  ultimately show ?thesis using Some by (simp add: saturating_add_def)
qed

section \<open>Results and panics\<close>

text \<open>
  A \<open>Result<T, E>\<close> is \<open>'e + 'a\<close>, with \<open>Inl\<close> the error. A function of the sources that
  can also panic has the error type \<open>'e failure\<close>: \<open>Err\<close> is a returned error and
  \<open>Panic\<close> an unwinding one.
\<close>

datatype 'e failure = Err 'e | Panic

definition bind_result :: "'e + 'a \<Rightarrow> ('a \<Rightarrow> 'e + 'b) \<Rightarrow> 'e + 'b" where
  [result_simps]: "bind_result m f = (case m of Inl e \<Rightarrow> Inl e | Inr x \<Rightarrow> f x)"

definition map_err :: "('e \<Rightarrow> 'f) \<Rightarrow> 'e + 'a \<Rightarrow> 'f + 'a" where
  [result_simps]: "map_err g m = (case m of Inl e \<Rightarrow> Inl (g e) | Inr x \<Rightarrow> Inr x)"

definition ok_or :: "'e \<Rightarrow> 'a option \<Rightarrow> 'e + 'a" where
  [result_simps]: "ok_or e m = (case m of None \<Rightarrow> Inl e | Some x \<Rightarrow> Inr x)"

definition is_ok :: "'e + 'a \<Rightarrow> bool" where
  [result_simps]: "is_ok m = (case m of Inl _ \<Rightarrow> False | Inr _ \<Rightarrow> True)"

lemma bind_result_Inr_iff [simp]:
  "bind_result m f = Inr y \<longleftrightarrow> (\<exists>x. m = Inr x \<and> f x = Inr y)"
  by (auto simp: bind_result_def split: sum.splits)

lemma bind_result_simps [simp]:
  "bind_result (Inl e) f = Inl e" "bind_result (Inr x) f = f x"
  by (simp_all add: bind_result_def)

lemma map_err_simps [simp]: "map_err g (Inl e) = Inl (g e)" "map_err g (Inr x) = Inr x"
  by (simp_all add: map_err_def)

lemma map_err_Inr_iff [simp]: "map_err g m = Inr x \<longleftrightarrow> m = Inr x"
  by (auto simp: map_err_def split: sum.splits)

lemma ok_or_simps [simp]: "ok_or e None = Inl e" "ok_or e (Some x) = Inr x"
  by (simp_all add: ok_or_def)

lemma ok_or_Inr_iff [simp]: "ok_or e m = Inr x \<longleftrightarrow> m = Some x"
  by (auto simp: ok_or_def split: option.splits)

lemma is_ok_simps [simp]: "is_ok (Inr x)" "\<not> is_ok (Inl e)"
  by (simp_all add: is_ok_def)

lemma is_ok_iff: "is_ok m \<longleftrightarrow> (\<exists>x. m = Inr x)"
  by (auto simp: is_ok_def split: sum.splits)

text \<open>
  \<open>try_fold\<close> is a \<open>for\<close> loop whose body may leave the function with \<open>?\<close>; the state it
  has reached is dropped with the error. \<open>try_all\<close> is the loop without a state.
\<close>

fun try_fold :: "('s \<Rightarrow> 'a \<Rightarrow> 'e + 's) \<Rightarrow> 's \<Rightarrow> 'a list \<Rightarrow> 'e + 's" where
  "try_fold f s [] = Inr s"
| "try_fold f s (x # xs) = bind_result (f s x) (\<lambda>s'. try_fold f s' xs)"

fun try_all :: "('a \<Rightarrow> 'e + unit) \<Rightarrow> 'a list \<Rightarrow> 'e + unit" where
  "try_all f [] = Inr ()"
| "try_all f (x # xs) = bind_result (f x) (\<lambda>_. try_all f xs)"

lemma try_all_Inr_iff: "try_all f xs = Inr () \<longleftrightarrow> (\<forall>x \<in> set xs. f x = Inr ())"
  by (induction xs) auto

lemma try_all_Inl: "try_all f xs = Inl e \<Longrightarrow> \<exists>x \<in> set xs. f x = Inl e"
  by (induction xs) (auto simp: bind_result_def split: sum.splits)

lemma try_fold_append:
  "try_fold f s (xs @ ys) = bind_result (try_fold f s xs) (\<lambda>s'. try_fold f s' ys)"
  by (induction xs arbitrary: s) (auto simp: bind_result_def split: sum.splits)

lemma try_fold_invariant:
  assumes "try_fold f s xs = Inr s'" and "I s"
    and step: "\<And>s x s'. x \<in> set xs \<Longrightarrow> I s \<Longrightarrow> f s x = Inr s' \<Longrightarrow> I s'"
  shows "I s'"
  using assms
proof (induction xs arbitrary: s)
  case Nil
  then show ?case by simp
next
  case (Cons x xs)
  then obtain t where "f s x = Inr t" and t: "try_fold f t xs = Inr s'" by auto
  with Cons.prems have "I t" by auto
  with t Cons.prems show ?case by (auto intro: Cons.IH)
qed

section \<open>Systems that run\<close>

text \<open>
  A component that is driven by a list of inputs runs \<open>fold step\<close>. \<open>guarded\<close> says that each input is
  allowed in the state it finds. What one step keeps, a run keeps; what the steps add to a level,
  the run adds in sum.
\<close>

fun guarded :: "('i \<Rightarrow> 's \<Rightarrow> bool) \<Rightarrow> ('i \<Rightarrow> 's \<Rightarrow> 's) \<Rightarrow> 'i list \<Rightarrow> 's \<Rightarrow> bool" where
  "guarded allowed step [] s \<longleftrightarrow> True"
| "guarded allowed step (i # tr) s \<longleftrightarrow> allowed i s \<and> guarded allowed step tr (step i s)"

lemma guarded_always [simp]: "guarded (\<lambda>_ _. True) step tr s"
  by (induction tr arbitrary: s) auto

lemma guarded_inputs [simp]: "guarded (\<lambda>i _. P i) step tr s \<longleftrightarrow> list_all P tr"
  by (induction tr arbitrary: s) auto

locale invariant_system =
  fixes step :: "'i \<Rightarrow> 's \<Rightarrow> 's" and allowed :: "'i \<Rightarrow> 's \<Rightarrow> bool" and inv :: "'s \<Rightarrow> bool"
  assumes step_inv: "inv s \<Longrightarrow> allowed i s \<Longrightarrow> inv (step i s)"
begin

lemma run_inv: "inv s \<Longrightarrow> guarded allowed step tr s \<Longrightarrow> inv (fold step tr s)"
  by (induction tr arbitrary: s) (auto intro: step_inv)

end

text \<open>
  A system refines an abstract one when each of its steps is a step, on the same input, of the
  abstraction of its state; then its runs are runs of the abstract system.
\<close>

fun abstract_run :: "('i \<Rightarrow> 'a \<Rightarrow> 'a \<Rightarrow> bool) \<Rightarrow> 'i list \<Rightarrow> 'a \<Rightarrow> 'a \<Rightarrow> bool" where
  "abstract_run astep [] a b \<longleftrightarrow> a = b"
| "abstract_run astep (i # tr) a b \<longleftrightarrow> (\<exists>c. astep i a c \<and> abstract_run astep tr c b)"

locale refining_system = invariant_system step allowed inv
  for step :: "'i \<Rightarrow> 's \<Rightarrow> 's" and allowed inv +
  fixes abs :: "'s \<Rightarrow> 'a" and astep :: "'i \<Rightarrow> 'a \<Rightarrow> 'a \<Rightarrow> bool"
  assumes step_refines: "inv s \<Longrightarrow> allowed i s \<Longrightarrow> astep i (abs s) (abs (step i s))"
begin

lemma run_refines: "inv s \<Longrightarrow> guarded allowed step tr s \<Longrightarrow> abstract_run astep tr (abs s) (abs (fold step tr s))"
  by (induction tr arbitrary: s) (auto intro: step_inv step_refines)

end

text \<open>A quantity of the state that every input changes by exactly its charge.\<close>

locale accounted_system = invariant_system step allowed inv
  for step :: "'i \<Rightarrow> 's \<Rightarrow> 's" and allowed inv +
  fixes level :: "'s \<Rightarrow> nat" and charge :: "'i \<Rightarrow> nat"
  assumes step_level: "inv s \<Longrightarrow> allowed i s \<Longrightarrow> level (step i s) = level s + charge i"
begin

lemma run_level: "inv s \<Longrightarrow> guarded allowed step tr s \<Longrightarrow> level (fold step tr s) = level s + sum_list (map charge tr)"
  by (induction tr arbitrary: s) (auto simp: step_level step_inv)

end

section \<open>Ordered sets\<close>

text \<open>
  A \<open>BTreeSet\<close> is the strictly sorted list of its elements: iteration, equality and the
  derived order of the Rust collection are those of the list.
\<close>

type_synonym 'a btree_set = "'a list"

definition bs_ok :: "'a::linorder btree_set \<Rightarrow> bool" where
  "bs_ok xs \<longleftrightarrow> sorted xs \<and> distinct xs"

definition bs_insert :: "'a::linorder \<Rightarrow> 'a btree_set \<Rightarrow> 'a btree_set" where
  "bs_insert x xs = insort_insert x xs"

definition bs_extend :: "'a::linorder btree_set \<Rightarrow> 'a list \<Rightarrow> 'a btree_set" where
  "bs_extend xs ys = fold bs_insert ys xs"

definition bs_collect :: "'a::linorder list \<Rightarrow> 'a btree_set" where
  "bs_collect ys = bs_extend [] ys"

locale ordered_set =
  fixes empty :: "'s" and insert :: "'a \<Rightarrow> 's \<Rightarrow> 's"
    and extend :: "'s \<Rightarrow> 'a list \<Rightarrow> 's" and elems :: "'s \<Rightarrow> 'a set" and ok :: "'s \<Rightarrow> bool"
  assumes ok_empty: "ok empty" and elems_empty: "elems empty = {}"
    and ok_insert: "ok s \<Longrightarrow> ok (insert x s)"
    and elems_insert: "elems (insert x s) = Set.insert x (elems s)"
    and extend_fold: "extend s xs = fold insert xs s"
    and canonical: "ok s \<Longrightarrow> ok t \<Longrightarrow> elems s = elems t \<Longrightarrow> s = t"
begin

lemma elems_extend: "elems (extend s xs) = elems s \<union> set xs"
  unfolding extend_fold by (induction xs arbitrary: s) (auto simp: elems_insert)

lemma ok_extend: "ok s \<Longrightarrow> ok (extend s xs)"
  unfolding extend_fold by (induction xs arbitrary: s) (auto simp: ok_insert)

lemma extend_absorb:
  assumes "ok s" and "set xs \<subseteq> elems s"
  shows "extend s xs = s"
  using assms by (intro canonical) (auto simp: elems_extend ok_extend)

lemma extend_set_cong:
  assumes "ok s" and "set xs = set ys"
  shows "extend s xs = extend s ys"
  using assms by (intro canonical) (auto simp: elems_extend ok_extend)

lemma extend_assoc:
  assumes "ok s"
  shows "extend (extend s xs) ys = extend s (xs @ ys)"
  using assms by (intro canonical) (auto simp: elems_extend ok_extend)

end

interpretation bs: ordered_set "[]" bs_insert bs_extend set bs_ok
  by unfold_locales
    (auto simp: bs_ok_def bs_insert_def bs_extend_def set_insort_insert distinct_insort_insert
      sorted_insort_insert intro: sorted_distinct_set_unique)

lemma bs_collect_ok [wf_intros]: "bs_ok (bs_collect xs)"
  by (simp add: bs_collect_def bs.ok_extend bs.ok_empty)

lemma set_bs_collect [simp]: "set (bs_collect xs) = set xs"
  by (simp add: bs_collect_def bs.elems_extend)

lemma bs_extend_commute:
  assumes "bs_ok xs" and "bs_ok ys"
  shows "bs_extend xs ys = bs_extend ys xs"
  by (rule bs.canonical) (use assms in \<open>auto simp: bs.ok_extend bs.elems_extend\<close>)

section \<open>Ordered maps\<close>

text \<open>
  A \<open>BTreeMap\<close> is the list of its entries, strictly sorted by key; \<open>values()\<close> and
  \<open>iter()\<close> enumerate it in that order.
\<close>

type_synonym ('k, 'v) btree_map = "('k \<times> 'v) list"

definition bm_ok :: "('k::linorder, 'v) btree_map \<Rightarrow> bool" where
  "bm_ok m \<longleftrightarrow> sorted_wrt (<) (map fst m)"

fun bm_insert :: "'k::linorder \<Rightarrow> 'v \<Rightarrow> ('k, 'v) btree_map \<Rightarrow> ('k, 'v) btree_map" where
  "bm_insert k v [] = [(k, v)]"
| "bm_insert k v ((k', v') # m) =
     (if k < k' then (k, v) # (k', v') # m
      else if k = k' then (k, v) # m
      else (k', v') # bm_insert k v m)"

definition bm_remove :: "'k \<Rightarrow> ('k, 'v) btree_map \<Rightarrow> ('k, 'v) btree_map" where
  "bm_remove k m = filter (\<lambda>(k', _). k' \<noteq> k) m"

abbreviation bm_get :: "('k, 'v) btree_map \<Rightarrow> 'k \<Rightarrow> 'v option" where
  "bm_get \<equiv> map_of"

definition bm_contains_key :: "('k, 'v) btree_map \<Rightarrow> 'k \<Rightarrow> bool" where
  "bm_contains_key m k \<longleftrightarrow> map_of m k \<noteq> None"

definition bm_values :: "('k, 'v) btree_map \<Rightarrow> 'v list" where
  "bm_values m = map snd m"

text \<open>\<open>append\<close> and \<open>extend\<close>: the entries of the second map replace those of the first.\<close>

definition bm_append :: "('k::linorder, 'v) btree_map \<Rightarrow> ('k \<times> 'v) list \<Rightarrow> ('k, 'v) btree_map" where
  "bm_append m es = fold (\<lambda>(k, v). bm_insert k v) es m"

definition bm_collect :: "('k::linorder \<times> 'v) list \<Rightarrow> ('k, 'v) btree_map" where
  "bm_collect es = bm_append [] es"

locale ordered_map =
  fixes empty :: "'m" and insert :: "'k \<Rightarrow> 'v \<Rightarrow> 'm \<Rightarrow> 'm" and remove :: "'k \<Rightarrow> 'm \<Rightarrow> 'm"
    and get :: "'m \<Rightarrow> 'k \<Rightarrow> 'v option" and append :: "'m \<Rightarrow> ('k \<times> 'v) list \<Rightarrow> 'm"
    and ok :: "'m \<Rightarrow> bool"
  assumes ok_empty: "ok empty" and get_empty: "get empty k = None"
    and ok_insert: "ok m \<Longrightarrow> ok (insert k v m)" and ok_remove: "ok m \<Longrightarrow> ok (remove k m)"
    and get_insert: "ok m \<Longrightarrow> get (insert k v m) = (get m)(k \<mapsto> v)"
    and get_remove: "ok m \<Longrightarrow> get (remove k m) = (get m)(k := None)"
    and append_fold: "append m es = fold (\<lambda>(k, v). insert k v) es m"
    and canonical: "ok m \<Longrightarrow> ok n \<Longrightarrow> get m = get n \<Longrightarrow> m = n"
begin

lemma ok_append: "ok m \<Longrightarrow> ok (append m es)"
  unfolding append_fold by (induction es arbitrary: m) (auto simp: ok_insert)

lemma get_append: "ok m \<Longrightarrow> get (append m es) = get m ++ map_of (rev es)"
  unfolding append_fold
  by (induction es arbitrary: m) (auto simp: ok_insert get_insert map_add_upd_left fun_eq_iff map_add_def split: option.splits)

lemma insert_same:
  assumes "ok m" and "get m k = Some v"
  shows "insert k v m = m"
  using assms by (intro canonical) (auto simp: ok_insert get_insert)

lemma insert_remove_other:
  assumes "ok m" and "k \<noteq> k'"
  shows "insert k v (remove k' m) = remove k' (insert k v m)"
  using assms by (intro canonical) (auto simp: ok_insert ok_remove get_insert get_remove)

end

lemma set_fst_bm_insert [simp]: "fst ` set (bm_insert k v m) = insert k (fst ` set m)"
  by (induction k v m rule: bm_insert.induct) auto

lemma bm_ok_Cons [simp]: "bm_ok ((k, v) # m) \<longleftrightarrow> (\<forall>k' \<in> fst ` set m. k < k') \<and> bm_ok m"
  by (simp add: bm_ok_def)

lemma bm_ok_Nil [simp]: "bm_ok []"
  by (simp add: bm_ok_def)

lemma bm_ok_insert: "bm_ok m \<Longrightarrow> bm_ok (bm_insert k v m)"
proof (induction k v m rule: bm_insert.induct)
  case (1 k v)
  show ?case by simp
next
  case (2 k v k' v' m)
  then show ?case by (cases "k < k'"; cases "k = k'") fastforce+
qed

lemma map_of_bm_insert: "bm_ok m \<Longrightarrow> map_of (bm_insert k v m) = (map_of m)(k \<mapsto> v)"
  by (induction k v m rule: bm_insert.induct) (auto simp: fun_eq_iff)

lemma bm_ok_remove: "bm_ok m \<Longrightarrow> bm_ok (bm_remove k m)"
  by (induction m) (auto simp: bm_remove_def)

lemma map_of_bm_remove: "map_of (bm_remove k m) = (map_of m)(k := None)"
  by (induction m) (auto simp: bm_remove_def fun_eq_iff)

lemma bm_ok_distinct: "bm_ok m \<Longrightarrow> distinct (map fst m)"
  by (simp add: bm_ok_def strict_sorted_iff)

lemma bm_canonical:
  assumes "bm_ok m" and "bm_ok n" and "map_of m = map_of n"
  shows "m = n"
proof (rule map_sorted_distinct_set_unique [where f = fst])
  have m: "(x, y) \<in> set m \<longleftrightarrow> map_of m x = Some y" for x y
    using assms(1) by (simp add: bm_ok_distinct)
  have n: "(x, y) \<in> set n \<longleftrightarrow> map_of n x = Some y" for x y
    using assms(2) by (simp add: bm_ok_distinct)
  show eq: "set m = set n"
    by (rule set_eqI) (metis m n assms(3) surj_pair)
  show "inj_on fst (set m \<union> set n)"
    using bm_ok_distinct [OF assms(1)] eq by (simp add: distinct_map)
qed (use assms in \<open>auto simp: bm_ok_def strict_sorted_iff\<close>)

interpretation bm: ordered_map "[]" bm_insert bm_remove bm_get bm_append bm_ok
  by unfold_locales
    (auto simp: bm_ok_insert bm_ok_remove map_of_bm_insert map_of_bm_remove bm_append_def
      intro: bm_canonical)

end
