(* ===== verification/Registers.thy ===== *)
theory Registers
  imports Prelude "HOL-Library.Multiset"
begin

text \<open>
  The crate sn_registers: addresses, permissions, register operations, the CRDT layer
  (\<open>RegisterCrdt\<close>), the access-controlled \<open>Register\<close> and the \<open>SignedRegister\<close> that the
  network stores. Keys, signatures and hashes of the libraries are represented by their byte
  strings. What the sources call from other crates (BLS keys, the Merkle register of crate
  \<open>crdts\<close>, \<open>bincode\<close>, \<open>hex\<close>, \<open>XorName::from_content\<close>, and the standard library's
  \<open>DefaultHasher\<close>, whose algorithm is documented as unspecified) is collected in the record
  \<open>reg_env\<close>, an argument of the definitions that use it.
\<close>

section \<open>Addresses, users, operations\<close>

type_synonym xorname = bytes
type_synonym public_key = bytes
type_synonym secret_key = bytes
type_synonym signature = bytes
type_synonym entry = bytes
type_synonym entry_hash = bytes

datatype register_address = RegisterAddress (meta: xorname) (addr_owner: public_key)

datatype user = Anyone | Key public_key

text \<open>A node of the Merkle register: the hashes of the entries it sits on and its value.\<close>

datatype merkle_node = MerkleNode (node_children: "bytes btree_set") (node_value: entry)

datatype register_op = RegisterOp (op_address: register_address) (op_crdt_op: merkle_node)
  (op_source: user) (op_signature: "signature option")

datatype reg_error =
    RegisterAddrMismatch register_address register_address
  | EntryTooBig nat nat
  | AccessDenied user
  | TooManyEntries nat
  | NoSuchEntry entry_hash
  | SerialisationFailed
  | DifferentBaseRegister
  | InvalidSignature
  | MissingSignature
  | InvalidSecretKey
  | InvalidRegisterAddress register_address register_address
  | HexDeserializeFailed

text \<open>
  The derived order of \<open>RegisterOp\<close> is lexicographic in its fields, and so are those of the
  types of the fields. It is pulled back along an injection into products, options and lists.
\<close>

fun user_key :: "user \<Rightarrow> bytes option" where
  "user_key Anyone = None"
| "user_key (Key pk) = Some pk"

lemma user_key_inject [simp]: "user_key u = user_key v \<longleftrightarrow> u = v"
  by (cases u; cases v) auto

instantiation user :: linorder
begin

definition less_eq_user :: "user \<Rightarrow> user \<Rightarrow> bool" where
  "less_eq_user a b \<longleftrightarrow> user_key a \<le> user_key b"

definition less_user :: "user \<Rightarrow> user \<Rightarrow> bool" where
  "less_user a b \<longleftrightarrow> user_key a < user_key b"

instance
  by standard (auto simp: less_eq_user_def less_user_def antisym_conv simp flip: user_key_inject)

end

definition op_key ::
  "register_op \<Rightarrow> (bytes \<times> bytes) \<times> (bytes list \<times> bytes) \<times> user \<times> bytes option" where
  "op_key op = ((meta (op_address op), addr_owner (op_address op)),
     (node_children (op_crdt_op op), node_value (op_crdt_op op)),
     op_source op, op_signature op)"

lemma op_key_inject [simp]: "op_key a = op_key b \<longleftrightarrow> a = b"
  by (auto simp: op_key_def register_op.expand register_address.expand merkle_node.expand)

instantiation register_op :: linorder
begin

definition less_eq_register_op :: "register_op \<Rightarrow> register_op \<Rightarrow> bool" where
  "less_eq_register_op a b \<longleftrightarrow> op_key a \<le> op_key b"

definition less_register_op :: "register_op \<Rightarrow> register_op \<Rightarrow> bool" where
  "less_register_op a b \<longleftrightarrow> op_key a < op_key b"

instance
  by standard (auto simp: less_eq_register_op_def less_register_op_def antisym_conv
      simp flip: op_key_inject)

end

section \<open>The environment of the crate\<close>

record 'd reg_env =
  pk_of :: "secret_key \<Rightarrow> public_key"
  bls_sign :: "secret_key \<Rightarrow> bytes \<Rightarrow> signature"
  bls_verify :: "public_key \<Rightarrow> signature \<Rightarrow> bytes \<Rightarrow> bool"
  pk_size :: nat
  pk_from_bytes :: "bytes \<Rightarrow> public_key option"
  from_content :: "bytes \<Rightarrow> xorname"
  hex_encode :: "bytes \<Rightarrow> string"
  hex_decode :: "string \<Rightarrow> bytes option"
  default_hash :: "register_address \<Rightarrow> bytes \<Rightarrow> user \<Rightarrow> u64"
  mr_new :: 'd
  mr_merge :: "'d \<Rightarrow> 'd \<Rightarrow> 'd"
  mr_num_nodes :: "'d \<Rightarrow> nat"
  mr_num_orphans :: "'d \<Rightarrow> nat"
  mr_write :: "'d \<Rightarrow> entry \<Rightarrow> bytes btree_set \<Rightarrow> merkle_node"
  mr_apply :: "'d \<Rightarrow> merkle_node \<Rightarrow> 'd"
  mr_node :: "'d \<Rightarrow> bytes \<Rightarrow> merkle_node option"
  mr_read :: "'d \<Rightarrow> (bytes \<times> merkle_node) list"
  node_hash :: "merkle_node \<Rightarrow> bytes"
  bincode_register :: "register_address \<Rightarrow> 'd \<Rightarrow> user btree_set \<Rightarrow> bytes option"

section \<open>RegisterAddress\<close>

definition XOR_NAME_LEN :: nat where
  "XOR_NAME_LEN = 32"

definition address_new :: "xorname \<Rightarrow> public_key \<Rightarrow> register_address" where
  "address_new m pk = RegisterAddress m pk"

definition address_xorname :: "'d reg_env \<Rightarrow> register_address \<Rightarrow> xorname" where
  "address_xorname E a = from_content E (meta a @ addr_owner a)"

definition address_to_hex :: "'d reg_env \<Rightarrow> register_address \<Rightarrow> string" where
  "address_to_hex E a = hex_encode E (meta a @ addr_owner a)"

text \<open>
  Slicing the decoded bytes at \<open>XOR_NAME_LEN\<close> panics when there are fewer; the rest must
  have exactly \<open>PK_SIZE\<close> bytes.
\<close>

definition address_from_hex :: "'d reg_env \<Rightarrow> string \<Rightarrow> reg_error failure + register_address" where
  "address_from_hex E s =
     (case hex_decode E s of
        None \<Rightarrow> Inl (Err HexDeserializeFailed)
      | Some bs \<Rightarrow>
          if length bs < XOR_NAME_LEN then Inl Panic
          else if length (drop XOR_NAME_LEN bs) \<noteq> pk_size E then Inl (Err HexDeserializeFailed)
          else (case pk_from_bytes E (drop XOR_NAME_LEN bs) of
                  None \<Rightarrow> Inl (Err HexDeserializeFailed)
                | Some pk \<Rightarrow> Inr (RegisterAddress (take XOR_NAME_LEN bs) pk)))"

section \<open>Permissions\<close>

record permissions =
  writers :: "user btree_set"

definition permissions_new_with :: "user list \<Rightarrow> permissions" where
  "permissions_new_with us = \<lparr>writers = bs_collect us\<rparr>"

definition permissions_new_anyone_can_write :: permissions where
  "permissions_new_anyone_can_write = \<lparr>writers = bs_collect [Anyone]\<rparr>"

definition permissions_new_owner_only :: permissions where
  "permissions_new_owner_only = \<lparr>writers = []\<rparr>"

definition everyone_can_write :: "permissions \<Rightarrow> bool" where
  "everyone_can_write p \<longleftrightarrow> Anyone \<in> set (writers p)"

definition can_write :: "permissions \<Rightarrow> user \<Rightarrow> bool" where
  "can_write p u \<longleftrightarrow> everyone_can_write p \<or> u \<in> set (writers p)"

section \<open>RegisterOp\<close>

definition to_ne_bytes :: "u64 \<Rightarrow> bytes" where
  "to_ne_bytes w = map (\<lambda>i. ucast (drop_bit (8 * i) w)) [0..<8]"

definition op_new :: "register_address \<Rightarrow> merkle_node \<Rightarrow> user \<Rightarrow> signature option \<Rightarrow> register_op" where
  "op_new a n u s = RegisterOp a n u s"

definition bytes_for_signing :: "'d reg_env \<Rightarrow> register_op \<Rightarrow> bytes" where
  "bytes_for_signing E op =
     to_ne_bytes (default_hash E (op_address op) (node_hash E (op_crdt_op op)) (op_source op))"

definition verify_signature :: "'d reg_env \<Rightarrow> register_op \<Rightarrow> public_key \<Rightarrow> reg_error + unit" where
  "verify_signature E op pk =
     (case op_signature op of
        None \<Rightarrow> Inl MissingSignature
      | Some sig \<Rightarrow> if bls_verify E pk sig (bytes_for_signing E op) then Inr () else Inl InvalidSignature)"

definition add_signature :: "register_op \<Rightarrow> public_key \<Rightarrow> signature \<Rightarrow> register_op" where
  "add_signature op pk sig = RegisterOp (op_address op) (op_crdt_op op) (Key pk) (Some sig)"

text \<open>
  \<open>sign_with\<close> first makes the signer the source, then signs the bytes of the operation with
  that source. (Its \<open>debug_assert\<close> is theorem \<open>sign_with_verifies\<close> below.)
\<close>

definition sign_with :: "'d reg_env \<Rightarrow> register_op \<Rightarrow> secret_key \<Rightarrow> register_op" where
  "sign_with E op sk =
     (let op' = RegisterOp (op_address op) (op_crdt_op op) (Key (pk_of E sk)) (op_signature op)
      in RegisterOp (op_address op') (op_crdt_op op') (op_source op')
           (Some (bls_sign E sk (bytes_for_signing E op'))))"

section \<open>RegisterCrdt\<close>

record 'd register_crdt =
  crdt_address :: register_address
  crdt_data :: 'd

definition crdt_new :: "'d reg_env \<Rightarrow> register_address \<Rightarrow> 'd register_crdt" where
  "crdt_new E a = \<lparr>crdt_address = a, crdt_data = mr_new E\<rparr>"

definition crdt_merge :: "'d reg_env \<Rightarrow> 'd register_crdt \<Rightarrow> 'd register_crdt \<Rightarrow> 'd register_crdt" where
  "crdt_merge E c other = c\<lparr>crdt_data := mr_merge E (crdt_data c) (crdt_data other)\<rparr>"

definition crdt_size :: "'d reg_env \<Rightarrow> 'd register_crdt \<Rightarrow> nat" where
  "crdt_size E c = mr_num_nodes E (crdt_data c) + mr_num_orphans E (crdt_data c)"

definition crdt_write :: "'d reg_env \<Rightarrow> 'd register_crdt \<Rightarrow> entry \<Rightarrow> entry_hash btree_set \<Rightarrow> user
    \<Rightarrow> reg_error + (entry_hash \<times> register_op) \<times> 'd register_crdt" where
  "crdt_write E c e children source =
     (let address = crdt_address c;
          crdt_op = mr_write E (crdt_data c) e (bs_collect children);
          c' = c\<lparr>crdt_data := mr_apply E (crdt_data c) crdt_op\<rparr>;
          op = op_new address crdt_op source None
      in Inr ((node_hash E crdt_op, op), c'))"

definition crdt_apply_op ::
  "'d reg_env \<Rightarrow> 'd register_crdt \<Rightarrow> register_op \<Rightarrow> reg_error + 'd register_crdt" where
  "crdt_apply_op E c op =
     (if crdt_address c \<noteq> op_address op
      then Inl (RegisterAddrMismatch (op_address op) (crdt_address c))
      else Inr (c\<lparr>crdt_data := mr_apply E (crdt_data c) (op_crdt_op op)\<rparr>))"

definition crdt_get :: "'d reg_env \<Rightarrow> 'd register_crdt \<Rightarrow> entry_hash \<Rightarrow> entry option" where
  "crdt_get E c h = map_option node_value (mr_node E (crdt_data c) h)"

definition crdt_read :: "'d reg_env \<Rightarrow> 'd register_crdt \<Rightarrow> (entry_hash \<times> entry) btree_set" where
  "crdt_read E c = bs_collect (map (\<lambda>(h, n). (h, node_value n)) (mr_read E (crdt_data c)))"

section \<open>Register\<close>

text \<open>\<open>MIN_ENCRYPTABLE_BYTES / 3\<close>, 1024 bytes as the source notes.\<close>

definition MAX_REG_ENTRY_SIZE :: nat where
  "MAX_REG_ENTRY_SIZE = 1024"

definition MAX_REG_NUM_ENTRIES :: nat where
  "MAX_REG_NUM_ENTRIES = 1024"

record 'd register =
  crdt :: "'d register_crdt"
  reg_permissions :: permissions

definition register_new :: "'d reg_env \<Rightarrow> public_key \<Rightarrow> xorname \<Rightarrow> permissions \<Rightarrow> 'd register" where
  "register_new E pk m perms =
     \<lparr>crdt = crdt_new E (RegisterAddress m pk),
      reg_permissions = perms\<lparr>writers := bs_insert (Key pk) (writers perms)\<rparr>\<rparr>"

definition register_address :: "'d register \<Rightarrow> register_address" where
  "register_address r = crdt_address (crdt r)"

definition register_owner :: "'d register \<Rightarrow> public_key" where
  "register_owner r = addr_owner (register_address r)"

definition register_bytes :: "'d reg_env \<Rightarrow> 'd register \<Rightarrow> reg_error + bytes" where
  "register_bytes E r = ok_or SerialisationFailed
     (bincode_register E (register_address r) (crdt_data (crdt r)) (writers (reg_permissions r)))"

definition register_sign :: "'d reg_env \<Rightarrow> 'd register \<Rightarrow> secret_key \<Rightarrow> reg_error + signature" where
  "register_sign E r sk =
     (if register_owner r \<noteq> pk_of E sk then Inl InvalidSecretKey
      else bind_result (register_bytes E r) (\<lambda>bs. Inr (bls_sign E sk bs)))"

definition register_size :: "'d reg_env \<Rightarrow> 'd register \<Rightarrow> nat" where
  "register_size E r = crdt_size E (crdt r)"

definition register_get :: "'d reg_env \<Rightarrow> 'd register \<Rightarrow> entry_hash \<Rightarrow> reg_error + entry" where
  "register_get E r h = ok_or (NoSuchEntry h) (crdt_get E (crdt r) h)"

definition register_read :: "'d reg_env \<Rightarrow> 'd register \<Rightarrow> (entry_hash \<times> entry) btree_set" where
  "register_read E r = crdt_read E (crdt r)"

definition check_entry_and_reg_sizes :: "'d reg_env \<Rightarrow> 'd register \<Rightarrow> entry \<Rightarrow> reg_error + unit" where
  "check_entry_and_reg_sizes E r e =
     (if length e > MAX_REG_ENTRY_SIZE then Inl (EntryTooBig (length e) MAX_REG_ENTRY_SIZE)
      else if crdt_size E (crdt r) \<ge> MAX_REG_NUM_ENTRIES then Inl (TooManyEntries (crdt_size E (crdt r)))
      else Inr ())"

definition check_user_permissions :: "'d register \<Rightarrow> user \<Rightarrow> reg_error + unit" where
  "check_user_permissions r requester =
     (if requester = Key (register_owner r) \<or> can_write (reg_permissions r) requester then Inr ()
      else Inl (AccessDenied requester))"

definition check_register_op :: "'d reg_env \<Rightarrow> 'd register \<Rightarrow> register_op \<Rightarrow> reg_error + unit" where
  "check_register_op E r op =
     bind_result (check_user_permissions r (op_source op)) (\<lambda>_.
       if everyone_can_write (reg_permissions r) then Inr ()
       else (case op_source op of Anyone \<Rightarrow> Inr () | Key pk \<Rightarrow> verify_signature E op pk))"

definition register_write :: "'d reg_env \<Rightarrow> 'd register \<Rightarrow> entry \<Rightarrow> entry_hash btree_set
    \<Rightarrow> reg_error + (entry_hash \<times> register_op) \<times> 'd register" where
  "register_write E r e children =
     bind_result (check_entry_and_reg_sizes E r e) (\<lambda>_.
     bind_result (crdt_write E (crdt r) e children (Key (register_owner r))) (\<lambda>(res, c).
       Inr (res, r\<lparr>crdt := c\<rparr>)))"

definition register_apply_op :: "'d reg_env \<Rightarrow> 'd register \<Rightarrow> register_op \<Rightarrow> reg_error + 'd register" where
  "register_apply_op E r op =
     bind_result (check_entry_and_reg_sizes E r (node_value (op_crdt_op op))) (\<lambda>_.
     bind_result (check_register_op E r op) (\<lambda>_.
     bind_result (crdt_apply_op E (crdt r) op) (\<lambda>c. Inr (r\<lparr>crdt := c\<rparr>))))"

definition register_merge :: "'d reg_env \<Rightarrow> 'd register \<Rightarrow> 'd register \<Rightarrow> 'd register" where
  "register_merge E r other = r\<lparr>crdt := crdt_merge E (crdt r) (crdt other)\<rparr>"

section \<open>SignedRegister\<close>

record 'd signed_register =
  base_register :: "'d register"
  sr_signature :: signature
  ops :: "register_op btree_set"

definition signed_register_new :: "'d register \<Rightarrow> signature \<Rightarrow> 'd signed_register" where
  "signed_register_new base sig = \<lparr>base_register = base, sr_signature = sig, ops = []\<rparr>"

definition into_signed :: "'d reg_env \<Rightarrow> 'd register \<Rightarrow> secret_key \<Rightarrow> reg_error + 'd signed_register" where
  "into_signed E r sk = bind_result (register_sign E r sk) (\<lambda>sig. Inr (signed_register_new r sig))"

definition signed_register_verify :: "'d reg_env \<Rightarrow> 'd signed_register \<Rightarrow> reg_error + unit" where
  "signed_register_verify E sr =
     bind_result (register_bytes E (base_register sr)) (\<lambda>bs.
       if \<not> bls_verify E (register_owner (base_register sr)) (sr_signature sr) bs
       then Inl InvalidSignature
       else try_all (check_register_op E (base_register sr)) (ops sr))"

definition verify_with_address ::
  "'d reg_env \<Rightarrow> 'd signed_register \<Rightarrow> register_address \<Rightarrow> reg_error + unit" where
  "verify_with_address E sr a =
     (if register_address (base_register sr) \<noteq> a
      then Inl (InvalidRegisterAddress a (register_address (base_register sr)))
      else signed_register_verify E sr)"

definition signed_register_register :: "'d reg_env \<Rightarrow> 'd signed_register \<Rightarrow> reg_error + 'd register" where
  "signed_register_register E sr = try_fold (register_apply_op E) (base_register sr) (ops sr)"

definition signed_register_merge ::
  "'d signed_register \<Rightarrow> 'd signed_register \<Rightarrow> reg_error + 'd signed_register" where
  "signed_register_merge sr other =
     (if base_register sr \<noteq> base_register other then Inl DifferentBaseRegister
      else Inr (sr\<lparr>ops := bs_extend (ops sr) (ops other)\<rparr>))"

definition verified_merge ::
  "'d reg_env \<Rightarrow> 'd signed_register \<Rightarrow> 'd signed_register \<Rightarrow> reg_error + 'd signed_register" where
  "verified_merge E sr other =
     (if base_register sr \<noteq> base_register other then Inl DifferentBaseRegister
      else bind_result (signed_register_verify E other) (\<lambda>_.
        Inr (sr\<lparr>ops := bs_extend (ops sr) (ops other)\<rparr>)))"

definition add_op ::
  "'d reg_env \<Rightarrow> 'd signed_register \<Rightarrow> register_op \<Rightarrow> reg_error + 'd signed_register" where
  "add_op E sr op =
     bind_result (check_register_op E (base_register sr) op) (\<lambda>_.
       Inr (sr\<lparr>ops := bs_insert op (ops sr)\<rparr>))"

section \<open>What the libraries promise\<close>

text \<open>
  Named hypotheses about code outside the repository: a signature made with a key verifies
  under its public key; applying nodes to the Merkle register commutes (its documented CRDT
  contract) and writing builds a node with the given value; hex decoding inverts encoding, and a public key survives the trip through its
  bytes.
\<close>

definition sig_correct :: "'d reg_env \<Rightarrow> bool" where
  "sig_correct E \<longleftrightarrow> (\<forall>sk m. bls_verify E (pk_of E sk) (bls_sign E sk m) m)"

definition merkle_commutes :: "'d reg_env \<Rightarrow> bool" where
  "merkle_commutes E \<longleftrightarrow>
     (\<forall>d m n. mr_apply E (mr_apply E d m) n = mr_apply E (mr_apply E d n) m)"

text \<open>
  Applying a node that is already there changes nothing, and a node adds at most one to the
  number of nodes and orphans.
\<close>

definition merkle_idempotent :: "'d reg_env \<Rightarrow> bool" where
  "merkle_idempotent E \<longleftrightarrow> (\<forall>d m. mr_apply E (mr_apply E d m) m = mr_apply E d m)"

definition merkle_grows_by_one :: "'d reg_env \<Rightarrow> bool" where
  "merkle_grows_by_one E \<longleftrightarrow> (\<forall>d m. mr_num_nodes E (mr_apply E d m) + mr_num_orphans E (mr_apply E d m)
     \<le> Suc (mr_num_nodes E d + mr_num_orphans E d))"

definition merkle_write_value :: "'d reg_env \<Rightarrow> bool" where
  "merkle_write_value E \<longleftrightarrow> (\<forall>d e ch. node_value (mr_write E d e ch) = e)"

definition hex_correct :: "'d reg_env \<Rightarrow> bool" where
  "hex_correct E \<longleftrightarrow> (\<forall>bs. hex_decode E (hex_encode E bs) = Some bs)"

section \<open>Lemmas\<close>

lemma check_user_permissions_ok_iff [simp]:
  "check_user_permissions r u = Inr () \<longleftrightarrow>
     u = Key (register_owner r) \<or> can_write (reg_permissions r) u"
  by (simp add: check_user_permissions_def)

lemma verify_signature_ok_iff [simp]:
  "verify_signature E op pk = Inr () \<longleftrightarrow>
     (\<exists>sig. op_signature op = Some sig \<and> bls_verify E pk sig (bytes_for_signing E op))"
  by (auto simp: verify_signature_def split: option.splits)

lemma check_sizes_ok_iff [simp]:
  "check_entry_and_reg_sizes E r e = Inr () \<longleftrightarrow>
     length e \<le> MAX_REG_ENTRY_SIZE \<and> register_size E r < MAX_REG_NUM_ENTRIES"
  by (auto simp: check_entry_and_reg_sizes_def register_size_def)

lemma crdt_apply_op_ok_iff [simp]:
  "crdt_apply_op E c op = Inr c' \<longleftrightarrow> op_address op = crdt_address c \<and>
     c' = c\<lparr>crdt_data := mr_apply E (crdt_data c) (op_crdt_op op)\<rparr>"
  by (auto simp: crdt_apply_op_def)

text \<open>The effect of an accepted operation, as a total function on registers.\<close>

definition apply_effect :: "'d reg_env \<Rightarrow> 'd register \<Rightarrow> register_op \<Rightarrow> 'd register" where
  "apply_effect E r op =
     r\<lparr>crdt := (crdt r)\<lparr>crdt_data := mr_apply E (crdt_data (crdt r)) (op_crdt_op op)\<rparr>\<rparr>"

lemma apply_effect_frame [simp]:
  "register_address (apply_effect E r op) = register_address r"
  "register_owner (apply_effect E r op) = register_owner r"
  "reg_permissions (apply_effect E r op) = reg_permissions r"
  by (simp_all add: apply_effect_def register_address_def register_owner_def)

lemma check_register_op_effect [simp]:
  "check_register_op E (apply_effect E r op') op = check_register_op E r op"
  by (simp add: check_register_op_def check_user_permissions_def)

lemma register_apply_op_eq:
  "register_apply_op E r op = Inr r' \<longleftrightarrow>
     length (node_value (op_crdt_op op)) \<le> MAX_REG_ENTRY_SIZE \<and>
     register_size E r < MAX_REG_NUM_ENTRIES \<and> check_register_op E r op = Inr () \<and>
     op_address op = register_address r \<and> r' = apply_effect E r op"
  by (auto simp: register_apply_op_def apply_effect_def register_address_def)

lemma apply_effect_commute:
  "merkle_commutes E \<Longrightarrow> apply_effect E (apply_effect E r a) b = apply_effect E (apply_effect E r b) a"
  by (simp add: apply_effect_def merkle_commutes_def)

text \<open>A loop that succeeds computes the fold of the effects, and met no foreign address.\<close>

lemma try_fold_apply_op:
  "try_fold (register_apply_op E) r os = Inr r' \<Longrightarrow>
     r' = foldl (apply_effect E) r os \<and> (\<forall>op \<in> set os. op_address op = register_address r)"
  by (induction os arbitrary: r) (auto simp: register_apply_op_eq)

lemma foldl_effect_snoc:
  "merkle_commutes E \<Longrightarrow> foldl (apply_effect E) (apply_effect E r a) os = apply_effect E (foldl (apply_effect E) r os) a"
  by (induction os arbitrary: r) (auto simp: apply_effect_commute)

lemma foldl_effect_mset:
  assumes "merkle_commutes E" and "mset xs = mset ys"
  shows "foldl (apply_effect E) r xs = foldl (apply_effect E) r ys"
  using assms(2)
proof (induction xs arbitrary: r ys)
  case Nil
  then show ?case by simp
next
  case (Cons x xs)
  then obtain us vs where ys: "ys = us @ x # vs"
    by (metis list.set_intros(1) mset_eq_setD split_list)
  with Cons.prems have "mset xs = mset (us @ vs)" by simp
  then have "foldl (apply_effect E) (apply_effect E r x) xs
      = foldl (apply_effect E) (apply_effect E r x) (us @ vs)"
    by (rule Cons.IH)
  also have "\<dots> = foldl (apply_effect E) r ys"
    using assms(1) by (simp add: ys foldl_effect_snoc)
  finally show ?case by simp
qed

lemma register_size_effect:
  "merkle_grows_by_one E \<Longrightarrow> register_size E (apply_effect E r op) \<le> Suc (register_size E r)"
  by (simp add: merkle_grows_by_one_def register_size_def crdt_size_def apply_effect_def)

text \<open>Operations that passed the checks replay in any order, as long as there is room for all.\<close>

definition op_fits :: "'d reg_env \<Rightarrow> 'd register \<Rightarrow> register_op \<Rightarrow> bool" where
  "op_fits E r op \<longleftrightarrow> check_register_op E r op = Inr () \<and> op_address op = register_address r \<and>
     length (node_value (op_crdt_op op)) \<le> MAX_REG_ENTRY_SIZE"

lemma op_fits_iff:
  "op_fits E r op \<longleftrightarrow> op_address op = register_address r \<and> length (node_value (op_crdt_op op)) \<le> MAX_REG_ENTRY_SIZE \<and>
     (op_source op = Key (register_owner r) \<or> can_write (reg_permissions r) (op_source op)) \<and>
     (everyone_can_write (reg_permissions r) \<or> op_source op = Anyone \<or>
       (\<exists>pk sig. op_source op = Key pk \<and> op_signature op = Some sig \<and> bls_verify E pk sig (bytes_for_signing E op)))"
  by (cases "op_source op") (auto simp: op_fits_def check_register_op_def)

lemma foldl_effect_data:
  "crdt_data (crdt (foldl (apply_effect E) r os)) = foldl (mr_apply E) (crdt_data (crdt r)) (map op_crdt_op os)"
  by (induction os arbitrary: r) (simp_all add: apply_effect_def)

lemma op_fits_effect [simp]: "op_fits E (apply_effect E r op') op = op_fits E r op"
  by (simp add: op_fits_def)

lemma try_fold_fits:
  assumes "merkle_grows_by_one E" and "\<forall>op \<in> set os. op_fits E r op"
    and "register_size E r + length os \<le> MAX_REG_NUM_ENTRIES"
  shows "try_fold (register_apply_op E) r os = Inr (foldl (apply_effect E) r os)"
  using assms(2,3)
proof (induction os arbitrary: r)
  case (Cons op os)
  then have "register_apply_op E r op = Inr (apply_effect E r op)"
    by (simp add: register_apply_op_eq op_fits_def)
  moreover have "try_fold (register_apply_op E) (apply_effect E r op) os = Inr (foldl (apply_effect E) (apply_effect E r op) os)"
    using Cons.prems register_size_effect [OF assms(1), of r op] by (intro Cons.IH) auto
  ultimately show ?case by simp
qed simp

lemma try_fold_fits_rev:
  "try_fold (register_apply_op E) r os = Inr r' \<Longrightarrow> \<forall>op \<in> set os. op_fits E r op"
proof (induction os arbitrary: r)
  case (Cons a os)
  then have a: "op_fits E r a" and "try_fold (register_apply_op E) (apply_effect E r a) os = Inr r'"
    by (auto simp: register_apply_op_eq op_fits_def)
  from Cons.IH [OF this(2)] a show ?case by simp
qed simp

lemma foldl_effect_absorb:
  assumes "merkle_commutes E" and "merkle_idempotent E" and "op \<in> set os"
  shows "apply_effect E (foldl (apply_effect E) r os) op = foldl (apply_effect E) r os"
  using assms(3)
proof (induction os arbitrary: r)
  case (Cons a os)
  have "apply_effect E (apply_effect E r a) a = apply_effect E r a"
    using assms(2) by (simp add: apply_effect_def merkle_idempotent_def)
  with Cons show ?case
    by (cases "op = a") (auto simp flip: foldl_effect_snoc [OF assms(1)])
qed simp

lemma foldl_effect_remdups:
  assumes "merkle_commutes E" and "merkle_idempotent E"
  shows "foldl (apply_effect E) r (remdups os) = foldl (apply_effect E) r os"
proof (induction os)
  case (Cons a os)
  then show ?case
    using foldl_effect_absorb [OF assms, of a os r] by (simp add: foldl_effect_snoc [OF assms(1)])
qed simp

lemma foldl_effect_set:
  assumes "merkle_commutes E" and "merkle_idempotent E" and "set xs = set ys"
  shows "foldl (apply_effect E) r xs = foldl (apply_effect E) r ys"
proof -
  have "mset (remdups xs) = mset (remdups ys)" using assms(3) by (simp add: set_eq_iff_mset_remdups_eq)
  from foldl_effect_mset [OF assms(1) this] show ?thesis by (simp add: foldl_effect_remdups [OF assms(1,2)])
qed

lemma signed_register_verify_ok_iff:
  "signed_register_verify E sr = Inr () \<longleftrightarrow>
     (\<exists>bs. register_bytes E (base_register sr) = Inr bs \<and>
        bls_verify E (register_owner (base_register sr)) (sr_signature sr) bs) \<and>
     (\<forall>op \<in> set (ops sr). check_register_op E (base_register sr) op = Inr ())"
  by (auto simp: signed_register_verify_def try_all_Inr_iff split: if_splits)

lemma sign_with_frame [simp]:
  "op_address (sign_with E op sk) = op_address op"
  "op_crdt_op (sign_with E op sk) = op_crdt_op op"
  "op_source (sign_with E op sk) = Key (pk_of E sk)"
  by (simp_all add: sign_with_def Let_def)

lemma verify_signature_sign_with:
  assumes "sig_correct E"
  shows "verify_signature E (sign_with E op sk) (pk_of E sk) = Inr ()"
  using assms by (simp add: sign_with_def Let_def sig_correct_def bytes_for_signing_def)

section \<open>Signed registers built by the API\<close>

text \<open>
  The signed registers a client or node holds: signed by the owner, then extended by checked
  operations and verified merges, in any order.
\<close>

inductive sr_built :: "'d reg_env \<Rightarrow> 'd signed_register \<Rightarrow> bool" for E where
  signed: "into_signed E r sk = Inr sr \<Longrightarrow> sr_built E sr"
| edited: "sr_built E sr \<Longrightarrow> add_op E sr op = Inr sr' \<Longrightarrow> sr_built E sr'"
| merged: "sr_built E sr \<Longrightarrow> verified_merge E sr other = Inr sr' \<Longrightarrow> sr_built E sr'"

lemma into_signed_ok:
  assumes "sig_correct E" and "into_signed E r sk = Inr sr"
  shows "signed_register_verify E sr = Inr () \<and> bs_ok (ops sr)"
  using assms
  by (auto simp: into_signed_def register_sign_def signed_register_new_def sig_correct_def
      signed_register_verify_ok_iff bs.ok_empty split: if_splits)

lemma add_op_ok:
  assumes "signed_register_verify E sr = Inr () \<and> bs_ok (ops sr)" and "add_op E sr op = Inr sr'"
  shows "signed_register_verify E sr' = Inr () \<and> bs_ok (ops sr')"
  using assms by (auto simp: add_op_def signed_register_verify_ok_iff bs.ok_insert bs.elems_insert)

lemma verified_merge_ok:
  assumes "signed_register_verify E sr = Inr () \<and> bs_ok (ops sr)"
    and "verified_merge E sr other = Inr sr'"
  shows "signed_register_verify E sr' = Inr () \<and> bs_ok (ops sr')"
  using assms
  by (auto simp: verified_merge_def signed_register_verify_ok_iff bs.ok_extend bs.elems_extend
      split: if_splits)

lemma verified_merge_eq:
  assumes "base_register a = base_register b" and "signed_register_verify E b = Inr ()"
  shows "verified_merge E a b = Inr (a\<lparr>ops := bs_extend (ops a) (ops b)\<rparr>)"
  using assms by (simp add: verified_merge_def)

section \<open>A concrete environment\<close>

text \<open>
  An environment in which the hypotheses hold, used to evaluate the theorems at concrete
  inputs: keys sign by prefixing themselves, and the Merkle register is the set of its nodes.
\<close>

definition demo_env :: "(bytes list \<times> bytes) btree_set reg_env" where
  "demo_env = \<lparr>pk_of = (\<lambda>sk. sk), bls_sign = (\<lambda>sk m. sk @ m), bls_verify = (\<lambda>pk sig m. sig = pk @ m),
     pk_size = 1, pk_from_bytes = Some, from_content = (\<lambda>bs. bs),
     hex_encode = map (\<lambda>b. char_of (unat b)), hex_decode = (\<lambda>s. Some (map (\<lambda>c. word_of_nat (of_char c)) s)),
     default_hash = (\<lambda>a h u. word_of_nat (length h)),
     mr_new = [], mr_merge = bs_extend, mr_num_nodes = length, mr_num_orphans = (\<lambda>_. 0),
     mr_write = (\<lambda>d e ch. MerkleNode ch e),
     mr_apply = (\<lambda>d n. bs_extend d [(node_children n, node_value n)]),
     mr_node = (\<lambda>d h. map_option (\<lambda>(c, v). MerkleNode c v) (find (\<lambda>(c, v). v = h) d)),
     mr_read = map (\<lambda>(c, v). (v, MerkleNode c v)), node_hash = node_value,
     bincode_register = (\<lambda>a d ws. Some (meta a @ addr_owner a))\<rparr>"

definition demo_register :: "(bytes list \<times> bytes) btree_set register" where
  "demo_register = register_new demo_env [1] [7] permissions_new_owner_only"

definition demo_op :: "byte \<Rightarrow> register_op" where
  "demo_op b = sign_with demo_env
     (op_new (register_address demo_register) (MerkleNode [] [b]) Anyone None) [1]"

definition demo_signed :: "byte \<Rightarrow> (bytes list \<times> bytes) btree_set signed_register" where
  "demo_signed b = (signed_register_new demo_register [1, 7, 1])\<lparr>ops := [demo_op b]\<rparr>"

lemma unat_byte_mod [simp]: "unat (b :: byte) mod 256 = unat b"
proof -
  have "unat b < 2 ^ LENGTH(8)" by (rule unsigned_less)
  then show ?thesis by simp
qed

lemma demo_env_laws: "sig_correct demo_env" "hex_correct demo_env" "merkle_commutes demo_env" "merkle_write_value demo_env"
proof -
  show "sig_correct demo_env" "hex_correct demo_env" "merkle_write_value demo_env"
    by (auto simp: sig_correct_def hex_correct_def merkle_write_value_def demo_env_def intro!: map_idI)
  have "bs_insert x (bs_insert y d) = bs_insert y (bs_insert x d)" for x y :: "bytes list \<times> bytes" and d
    by (auto simp: bs_insert_def insort_insert_key_def insort_left_comm set_insort_key)
  then show "merkle_commutes demo_env"
    by (simp add: merkle_commutes_def demo_env_def bs_extend_def)
qed

lemma demo_checks:
  "check_register_op demo_env demo_register (demo_op b) = Inr ()"
  "signed_register_verify demo_env (demo_signed b) = Inr ()"
  "bs_ok (ops (demo_signed b))"
  "base_register (demo_signed b) = demo_register"
proof -
  show op: "check_register_op demo_env demo_register (demo_op b) = Inr ()"
    using verify_signature_sign_with [OF demo_env_laws(1), of _ "[1]"]
    by (simp add: demo_op_def demo_register_def check_register_op_def demo_env_def register_new_def
        register_owner_def register_address_def crdt_new_def check_user_permissions_def
        everyone_can_write_def can_write_def permissions_new_owner_only_def)
  show base: "base_register (demo_signed b) = demo_register"
    by (simp add: demo_signed_def signed_register_new_def)
  show "bs_ok (ops (demo_signed b))"
    by (simp add: demo_signed_def bs_ok_def)
  show "signed_register_verify demo_env (demo_signed b) = Inr ()"
    using op unfolding signed_register_verify_ok_iff base
    by (simp add: demo_signed_def signed_register_new_def demo_register_def register_new_def
        register_bytes_def register_owner_def register_address_def crdt_new_def demo_env_def)
qed

section \<open>Properties\<close>

text \<open>C16: Every signed register obtained by signing a register with its owner's key and then
  adding checked operations and verified merges, in any order and number, passes
  \<open>verify\<close>, and its set of operations is well formed.\<close>

theorem sr_built_verifies:
  assumes "sig_correct E" and "sr_built E sr"
  shows "signed_register_verify E sr = Inr () \<and> bs_ok (ops sr)"
  using assms(2)
proof (induction rule: sr_built.induct)
  case (signed r sk sr)
  with assms(1) show ?case by (rule into_signed_ok)
next
  case (edited sr op sr')
  from edited(3,2) show ?case by (rule add_op_ok)
next
  case (merged sr other sr')
  from merged(3,2) show ?case by (rule verified_merge_ok)
qed

theorem sr_built_verifies_witness:
  "sr_built demo_env (demo_signed 3) \<and> signed_register_verify demo_env (demo_signed 3) = Inr ()"
proof -
  have "into_signed demo_env demo_register [1] = Inr (signed_register_new demo_register [1, 7, 1])"
    by (simp add: into_signed_def register_sign_def demo_register_def demo_env_def register_new_def
        register_owner_def register_address_def crdt_new_def register_bytes_def)
  then have built: "sr_built demo_env (signed_register_new demo_register [1, 7, 1])"
    by (rule sr_built.signed)
  have "add_op demo_env (signed_register_new demo_register [1, 7, 1]) (demo_op 3) = Inr (demo_signed 3)"
    by (simp add: add_op_def demo_checks signed_register_new_def demo_signed_def bs_insert_def
        insort_insert_key_def)
  with built have "sr_built demo_env (demo_signed 3)"
    by (rule sr_built.edited)
  with sr_built_verifies [OF demo_env_laws(1) this] show ?thesis by simp
qed

text \<open>C1: In a verified signed register whose permissions do not let everyone write, every
  operation comes from the owner or from a listed writer and carries a signature that verifies
  under that user's key over the operation's signing bytes.\<close>

theorem verified_ops_authorised:
  assumes "signed_register_verify E sr = Inr ()" and "op \<in> set (ops sr)"
    and "\<not> everyone_can_write (reg_permissions (base_register sr))"
  shows "\<exists>pk sig. op_source op = Key pk \<and>
    (pk = register_owner (base_register sr) \<or> Key pk \<in> set (writers (reg_permissions (base_register sr)))) \<and>
    op_signature op = Some sig \<and> bls_verify E pk sig (bytes_for_signing E op)"
proof -
  from assms have ok: "check_register_op E (base_register sr) op = Inr ()"
    by (simp add: signed_register_verify_ok_iff)
  with assms(3) obtain pk where "op_source op = Key pk"
    by (cases "op_source op") (auto simp: check_register_op_def can_write_def everyone_can_write_def)
  with ok assms(3) show ?thesis
    by (auto simp: check_register_op_def can_write_def)
qed

theorem verified_ops_authorised_witness:
  "\<exists>pk sig. op_source (demo_op 3) = Key pk \<and>
    (pk = register_owner (base_register (demo_signed 3)) \<or>
     Key pk \<in> set (writers (reg_permissions (base_register (demo_signed 3))))) \<and>
    op_signature (demo_op 3) = Some sig \<and> bls_verify demo_env pk sig (bytes_for_signing demo_env (demo_op 3))"
proof -
  have "demo_op 3 \<in> set (ops (demo_signed 3))" by (simp add: demo_signed_def)
  moreover have "\<not> everyone_can_write (reg_permissions (base_register (demo_signed 3)))"
    by (simp add: demo_checks demo_register_def register_new_def everyone_can_write_def
        permissions_new_owner_only_def bs_insert_def insort_insert_key_def)
  ultimately show ?thesis
    by (rule verified_ops_authorised [OF demo_checks(2)])
qed

text \<open>C17: Two verified signed registers over the same base merge successfully in both
  directions; both results verify, hold exactly the union of the operations, and yield the
  same \<open>Register\<close> (or the same error), so replicas that merge each other converge.\<close>

theorem verified_merge_converges:
  assumes "signed_register_verify E a = Inr ()" and "bs_ok (ops a)"
    and "signed_register_verify E b = Inr ()" and "bs_ok (ops b)"
    and "base_register a = base_register b"
  shows "\<exists>c d. verified_merge E a b = Inr c \<and> verified_merge E b a = Inr d \<and>
    signed_register_verify E c = Inr () \<and> signed_register_verify E d = Inr () \<and>
    ops c = ops d \<and> set (ops c) = set (ops a) \<union> set (ops b) \<and>
    signed_register_register E c = signed_register_register E d"
proof -
  let ?c = "a\<lparr>ops := bs_extend (ops a) (ops b)\<rparr>" and ?d = "b\<lparr>ops := bs_extend (ops b) (ops a)\<rparr>"
  have c: "verified_merge E a b = Inr ?c" and d: "verified_merge E b a = Inr ?d"
    using assms by (simp_all add: verified_merge_eq)
  have eq: "ops ?c = ops ?d"
    using assms(2,4) by (simp add: bs_extend_commute)
  have "signed_register_verify E ?c = Inr ()" "signed_register_verify E ?d = Inr ()"
    using verified_merge_ok [OF _ c] verified_merge_ok [OF _ d] assms by blast+
  moreover have "set (ops ?c) = set (ops a) \<union> set (ops b)"
    by (simp add: bs.elems_extend)
  moreover have "signed_register_register E ?c = signed_register_register E ?d"
    using eq assms(5) by (simp add: signed_register_register_def)
  ultimately show ?thesis using c d eq by blast
qed

theorem verified_merge_converges_witness:
  "\<exists>c d. verified_merge demo_env (demo_signed 3) (demo_signed 5) = Inr c \<and>
    verified_merge demo_env (demo_signed 5) (demo_signed 3) = Inr d \<and> ops c = ops d"
proof -
  have "base_register (demo_signed 3) = base_register (demo_signed 5)" by (simp add: demo_checks)
  from verified_merge_converges [OF demo_checks(2,3) demo_checks(2,3) this] show ?thesis by blast
qed

text \<open>C18: Replicas of a register that see the same operations, in any order and any number of times, end
  in the same state, and they agree on which to accept: with room for all of them, the operations
  are accepted exactly when each names this register, has an entry of at most 1024 bytes and comes
  from a user who may write, and, unless everyone may write, is signed by the key it names as its source;
  a full register accepts none. (Given that updates of the Merkle register
  commute, are idempotent and add at most one entry. An operation with the source \<open>Anyone\<close> is not
  signed.)\<close>

theorem register_replicas_converge:
  assumes "merkle_commutes E" and "merkle_idempotent E" and "merkle_grows_by_one E" and "set xs = set ys"
  shows "(try_fold (register_apply_op E) r xs = Inr r1 \<and> try_fold (register_apply_op E) r ys = Inr r2 \<longrightarrow> r1 = r2) \<and>
    (register_size E r + max (length xs) (length ys) \<le> MAX_REG_NUM_ENTRIES \<longrightarrow>
      (if \<forall>op \<in> set xs. op_address op = register_address r \<and> length (node_value (op_crdt_op op)) \<le> MAX_REG_ENTRY_SIZE \<and>
           (op_source op = Key (register_owner r) \<or> can_write (reg_permissions r) (op_source op)) \<and>
           (everyone_can_write (reg_permissions r) \<or> op_source op = Anyone \<or>
             (\<exists>pk sig. op_source op = Key pk \<and> op_signature op = Some sig \<and> bls_verify E pk sig (bytes_for_signing E op)))
       then \<exists>r'. try_fold (register_apply_op E) r xs = Inr r' \<and> try_fold (register_apply_op E) r ys = Inr r' \<and>
         crdt_data (crdt r') = foldl (mr_apply E) (crdt_data (crdt r)) (map op_crdt_op xs)
       else \<forall>r'. try_fold (register_apply_op E) r xs \<noteq> Inr r' \<and> try_fold (register_apply_op E) r ys \<noteq> Inr r')) \<and>
    (register_size E r \<ge> MAX_REG_NUM_ENTRIES \<and> xs \<noteq> [] \<longrightarrow>
      (\<forall>r'. try_fold (register_apply_op E) r xs \<noteq> Inr r' \<and> try_fold (register_apply_op E) r ys \<noteq> Inr r'))"
proof (intro conjI impI)
  have eq: "foldl (apply_effect E) r xs = foldl (apply_effect E) r ys" by (rule foldl_effect_set [OF assms(1,2,4)])
  show "r1 = r2" if "try_fold (register_apply_op E) r xs = Inr r1 \<and> try_fold (register_apply_op E) r ys = Inr r2"
    using that try_fold_apply_op [of E r xs r1] try_fold_apply_op [of E r ys r2] eq by simp
  assume room: "register_size E r + max (length xs) (length ys) \<le> MAX_REG_NUM_ENTRIES"
  show "if \<forall>op \<in> set xs. op_address op = register_address r \<and> length (node_value (op_crdt_op op)) \<le> MAX_REG_ENTRY_SIZE \<and>
           (op_source op = Key (register_owner r) \<or> can_write (reg_permissions r) (op_source op)) \<and>
           (everyone_can_write (reg_permissions r) \<or> op_source op = Anyone \<or>
             (\<exists>pk sig. op_source op = Key pk \<and> op_signature op = Some sig \<and> bls_verify E pk sig (bytes_for_signing E op)))
       then \<exists>r'. try_fold (register_apply_op E) r xs = Inr r' \<and> try_fold (register_apply_op E) r ys = Inr r' \<and>
         crdt_data (crdt r') = foldl (mr_apply E) (crdt_data (crdt r)) (map op_crdt_op xs)
       else \<forall>r'. try_fold (register_apply_op E) r xs \<noteq> Inr r' \<and> try_fold (register_apply_op E) r ys \<noteq> Inr r'"
    unfolding op_fits_iff [symmetric]
    using try_fold_fits [OF assms(3), of xs r] try_fold_fits [OF assms(3), of ys r] try_fold_fits_rev [of E r xs]
      try_fold_fits_rev [of E r ys] assms(4) room eq
      foldl_effect_data [of E r xs] by auto
next
  assume "register_size E r \<ge> MAX_REG_NUM_ENTRIES \<and> xs \<noteq> []"
  moreover from this assms(4) have "ys \<noteq> []" by auto
  ultimately show "\<forall>r'. try_fold (register_apply_op E) r xs \<noteq> Inr r' \<and> try_fold (register_apply_op E) r ys \<noteq> Inr r'"
    by (cases xs; cases ys) (auto simp: register_apply_op_eq)
qed

lemma demo_op_fields [simp]:
  "op_address (demo_op b) = register_address demo_register" "op_crdt_op (demo_op b) = MerkleNode [] [b]"
  by (simp_all add: demo_op_def op_new_def)

lemma demo_sizes:
  "register_size demo_env demo_register = 0"
  "register_size demo_env (apply_effect demo_env demo_register (demo_op b)) = 1"
  by (simp_all add: register_size_def crdt_size_def apply_effect_def, simp_all add: demo_register_def
      register_new_def crdt_new_def demo_env_def bs_extend_def bs_insert_def insort_insert_key_def)

lemma demo_apply:
  "register_apply_op demo_env demo_register (demo_op b) = Inr (apply_effect demo_env demo_register (demo_op b))"
  "register_apply_op demo_env (apply_effect demo_env demo_register (demo_op b)) (demo_op c)
     = Inr (apply_effect demo_env (apply_effect demo_env demo_register (demo_op b)) (demo_op c))"
  by (simp_all add: register_apply_op_eq demo_checks demo_sizes MAX_REG_ENTRY_SIZE_def MAX_REG_NUM_ENTRIES_def)

lemma demo_crdt_laws [simp]: "merkle_idempotent demo_env" "merkle_grows_by_one demo_env"
proof -
  have "length (bs_insert x d) \<le> Suc (length d)" "bs_insert x (bs_insert x d) = bs_insert x d" for x :: "bytes list \<times> bytes" and d
    by (simp_all add: bs_insert_def insort_insert_key_def set_insort_key)
  then show "merkle_idempotent demo_env" "merkle_grows_by_one demo_env"
    by (simp_all add: merkle_idempotent_def merkle_grows_by_one_def demo_env_def bs_extend_def)
qed

theorem register_replicas_converge_witness:
  "\<exists>r'. try_fold (register_apply_op demo_env) demo_register [demo_op 3, demo_op 5] = Inr r' \<and>
     try_fold (register_apply_op demo_env) demo_register [demo_op 5, demo_op 3, demo_op 5] = Inr r' \<and>
     crdt_data (crdt r') = [([], [3]), ([], [5])]"
proof -
  have fits: "\<forall>op \<in> set [demo_op 3, demo_op 5]. op_fits demo_env demo_register op"
    by (simp add: op_fits_def demo_checks MAX_REG_ENTRY_SIZE_def)
  have "set [demo_op 3, demo_op 5] = set [demo_op 5, demo_op 3, demo_op 5]" by auto
  note conv = register_replicas_converge [OF demo_env_laws(3) demo_crdt_laws this, of demo_register, unfolded op_fits_iff [symmetric]]
  have "register_size demo_env demo_register + max (length [demo_op 3, demo_op 5]) (length [demo_op 5, demo_op 3, demo_op 5]) \<le> MAX_REG_NUM_ENTRIES"
    using demo_sizes(1) by (simp add: MAX_REG_NUM_ENTRIES_def)
  with conv fits have "\<exists>r'. try_fold (register_apply_op demo_env) demo_register [demo_op 3, demo_op 5] = Inr r' \<and>
     try_fold (register_apply_op demo_env) demo_register [demo_op 5, demo_op 3, demo_op 5] = Inr r' \<and>
     crdt_data (crdt r') = foldl (mr_apply demo_env) (crdt_data (crdt demo_register)) (map op_crdt_op [demo_op 3, demo_op 5])"
    by presburger
  moreover have "foldl (mr_apply demo_env) (crdt_data (crdt demo_register)) (map op_crdt_op [demo_op 3, demo_op 5]) = [([], [3]), ([], [5])]"
    by (simp add: demo_env_def demo_register_def register_new_def crdt_new_def bs_extend_def bs_insert_def insort_insert_key_def)
  ultimately show ?thesis by simp
qed

text \<open>A local write and its replication agree: the operation returned by \<open>write\<close>, once
  signed with the owner's key, is accepted by \<open>apply_op\<close> on a replica in the same state and
  takes it to the writer's new state.\<close>

theorem write_then_apply_elsewhere:
  assumes "sig_correct E" and "merkle_write_value E" and "pk_of E sk = register_owner r"
    and "register_write E r e children = Inr ((h, op), r')"
  shows "register_apply_op E r (sign_with E op sk) = Inr r'"
proof -
  from assms(4) have sizes: "length e \<le> MAX_REG_ENTRY_SIZE" "register_size E r < MAX_REG_NUM_ENTRIES"
    and op: "op = op_new (register_address r) (mr_write E (crdt_data (crdt r)) e (bs_collect children))
               (Key (register_owner r)) None"
    and r': "r' = apply_effect E r op"
    by (auto simp: register_write_def crdt_write_def Let_def register_address_def apply_effect_def op_new_def)
  have "check_register_op E r (sign_with E op sk) = Inr ()"
    using assms(3) verify_signature_sign_with [OF assms(1), of op sk]
    by (simp add: check_register_op_def del: verify_signature_ok_iff)
  moreover have "r' = apply_effect E r (sign_with E op sk)"
    by (simp add: r' apply_effect_def)
  moreover have "length (node_value (op_crdt_op op)) \<le> MAX_REG_ENTRY_SIZE"
    using sizes(1) assms(2) by (simp add: op op_new_def merkle_write_value_def)
  ultimately show ?thesis
    using sizes by (simp add: register_apply_op_eq op op_new_def)
qed

theorem write_then_apply_elsewhere_witness:
  "\<exists>h op r'. register_write demo_env demo_register [9] [] = Inr ((h, op), r') \<and>
     register_apply_op demo_env demo_register (sign_with demo_env op [1]) = Inr r'"
proof -
  have "check_entry_and_reg_sizes demo_env demo_register [9] = Inr ()"
    by (simp add: demo_sizes MAX_REG_ENTRY_SIZE_def MAX_REG_NUM_ENTRIES_def)
  then obtain h op r' where w: "register_write demo_env demo_register [9] [] = Inr ((h, op), r')"
    by (simp add: register_write_def crdt_write_def Let_def)
  have "pk_of demo_env [1] = register_owner demo_register"
    by (simp add: demo_env_def demo_register_def register_new_def register_owner_def
        register_address_def crdt_new_def)
  from write_then_apply_elsewhere [OF demo_env_laws(1,4) this w] w show ?thesis by blast
qed

text \<open>\<open>add_op\<close> and \<open>verify\<close> do not look at the address of an operation. An operation
  addressed to another register that passes the permission check is added, the result still
  verifies, and from then on it yields no \<open>Register\<close> any more.\<close>

theorem foreign_op_blocks_register:
  assumes "signed_register_verify E sr = Inr ()" and "bs_ok (ops sr)"
    and "check_register_op E (base_register sr) op = Inr ()"
    and "op_address op \<noteq> register_address (base_register sr)"
  shows "\<exists>sr'. add_op E sr op = Inr sr' \<and> signed_register_verify E sr' = Inr () \<and>
    (\<forall>r. signed_register_register E sr' \<noteq> Inr r)"
proof -
  let ?sr = "sr\<lparr>ops := bs_insert op (ops sr)\<rparr>"
  have add: "add_op E sr op = Inr ?sr" using assms(3) by (simp add: add_op_def)
  have "signed_register_verify E ?sr = Inr ()"
    using add_op_ok [OF _ add] assms(1,2) by blast
  moreover have "signed_register_register E ?sr \<noteq> Inr r" for r
    using try_fold_apply_op [of E "base_register sr" "bs_insert op (ops sr)" r] assms(4)
    by (auto simp: signed_register_register_def bs.elems_insert)
  ultimately show ?thesis using add by blast
qed

theorem foreign_op_blocks_register_witness:
  "\<exists>op sr'. add_op demo_env (demo_signed 3) op = Inr sr' \<and> signed_register_verify demo_env sr' = Inr () \<and>
    (\<forall>r. signed_register_register demo_env sr' \<noteq> Inr r)"
proof -
  let ?op = "sign_with demo_env (op_new (RegisterAddress [8] [1]) (MerkleNode [] [3]) Anyone None) [1]"
  have check: "check_register_op demo_env (base_register (demo_signed 3)) ?op = Inr ()"
    using verify_signature_sign_with [OF demo_env_laws(1), of _ "[1]"]
    by (simp add: demo_checks demo_register_def check_register_op_def demo_env_def register_new_def
        register_owner_def register_address_def crdt_new_def del: verify_signature_ok_iff)
  have "op_address ?op \<noteq> register_address (base_register (demo_signed 3))"
    by (simp add: demo_checks op_new_def demo_register_def register_new_def register_address_def crdt_new_def)
  from foreign_op_blocks_register [OF demo_checks(2,3) check this] show ?thesis by blast
qed

text \<open>\<open>to_hex\<close> and \<open>from_hex\<close> of a register address are inverse, for addresses with a
  name of 32 bytes and a public key of the library's size.\<close>

theorem address_hex_roundtrip:
  assumes "hex_correct E" and "length (meta a) = XOR_NAME_LEN" and "length (addr_owner a) = pk_size E"
    and "pk_from_bytes E (addr_owner a) = Some (addr_owner a)"
  shows "address_from_hex E (address_to_hex E a) = Inr a"
  using assms by (cases a) (simp add: address_from_hex_def address_to_hex_def hex_correct_def)

theorem address_hex_roundtrip_witness:
  "address_from_hex demo_env (address_to_hex demo_env (RegisterAddress (replicate 32 7) [1]))
     = Inr (RegisterAddress (replicate 32 7) [1])"
  by (rule address_hex_roundtrip [OF demo_env_laws(2)]) (simp_all add: XOR_NAME_LEN_def demo_env_def)

text \<open>\<open>from_hex\<close> panics on exactly the valid hex strings that decode to fewer than 32
  bytes, although its signature promises an error for every malformed address.\<close>

theorem address_from_hex_panics_iff:
  "address_from_hex E s = Inl Panic \<longleftrightarrow> (\<exists>bs. hex_decode E s = Some bs \<and> length bs < XOR_NAME_LEN)"
  by (auto simp: address_from_hex_def split: option.splits if_splits)

end
