(* ===== verification/Transfers.thy ===== *)
theory Transfers
  imports Registers "HOL-Library.Sublist"
begin

text \<open>
  The module client_transfers of sn_transfers: choosing the DBCs to spend for an amount,
  building the transaction, pairing every signed spend with the transaction its DBC was
  created in, and splitting the created DBCs into change and outputs. Token amounts are 64-bit
  words. The crate \<open>sn_dbc\<close> (DBCs, keys, the transaction builder) is the record
  \<open>dbc_env\<close>; a signed spend is a value of an ordered type, as its \<open>Ord\<close> instance provides.
\<close>

type_synonym token = u64
type_synonym dbc_id = bytes
type_synonym public_address = bytes
type_synonym main_key = bytes
type_synonym derived_key = bytes
type_synonym derivation_index = bytes
type_synonym hash = bytes
type_synonym dbc_error = string

record tx_input =
  in_dbc_id :: dbc_id
  in_token :: token

record tx_output =
  out_dbc_id :: dbc_id
  out_token :: token

record fee_output =
  fee_id :: hash
  fee_token :: token
  fee_root_hash :: hash

record dbc_tx =
  inputs :: "tx_input list"
  outputs :: "tx_output list"
  fee :: fee_output

type_synonym recipient = "token \<times> public_address \<times> derivation_index"

text \<open>
  What the transaction builder has been given when \<open>build\<close> is called on it, and what a
  built transaction offers.
\<close>

record tx_builder =
  tb_inputs :: "(tx_input \<times> derived_key \<times> dbc_tx) list"
  tb_outputs :: "recipient list"
  tb_fee :: "fee_output option"

record ('dbc, 's, 'b) dbc_env =
  dbc_id_of :: "'dbc \<Rightarrow> dbc_id"
  dbc_token :: "'dbc \<Rightarrow> dbc_error + token"
  dbc_derived_key :: "'dbc \<Rightarrow> main_key \<Rightarrow> dbc_error + derived_key"
  dbc_src_tx :: "'dbc \<Rightarrow> dbc_tx"
  dbc_public_address :: "'dbc \<Rightarrow> public_address"
  main_public_address :: "main_key \<Rightarrow> public_address"
  new_dbc_id :: "public_address \<Rightarrow> derivation_index \<Rightarrow> dbc_id"
  sn_hash :: "bytes \<Rightarrow> hash"
  tb_build :: "tx_builder \<Rightarrow> hash \<Rightarrow> dbc_error + 'b"
  built_tx :: "'b \<Rightarrow> dbc_tx"
  built_spends :: "'b \<Rightarrow> 's list"
  built_dbcs :: "'b \<Rightarrow> dbc_error + ('dbc \<times> token) list"
  ss_dbc_id :: "'s \<Rightarrow> dbc_id"

datatype transfer_error =
    NotEnoughBalance token token
  | Dbcs dbc_error
  | DbcReissueFailed string

record ('dbc, 's) transfer_inputs =
  dbcs_to_spend :: "('dbc \<times> derived_key) list"
  recipients :: "recipient list"
  change :: "token \<times> public_address"

record 's spend_request =
  signed_spend :: 's
  parent_tx :: dbc_tx

record ('dbc, 's) transfer_outputs =
  tx :: dbc_tx
  created_dbcs :: "'dbc list"
  change_dbc :: "'dbc option"
  all_spend_requests :: "'s spend_request list"

section \<open>Selecting inputs\<close>

text \<open>
  The loop of \<open>select_inputs\<close>. \<open>change_amount\<close> counts the amount still to be covered down
  to zero; when a DBC overshoots, it becomes the change and the loop stops.
\<close>

fun select_loop :: "('dbc, 's, 'b) dbc_env \<Rightarrow> ('dbc \<times> derived_key) list \<Rightarrow> token \<Rightarrow> token
    \<Rightarrow> ('dbc \<times> derived_key) list \<Rightarrow> transfer_error + ('dbc \<times> derived_key) list \<times> token \<times> token" where
  "select_loop D to_spend total_input change_amount [] = Inr (to_spend, total_input, change_amount)"
| "select_loop D to_spend total_input change_amount ((dbc, key) # available) =
     (case dbc_token D dbc of
        Inl err \<Rightarrow> select_loop D to_spend total_input change_amount available
      | Inr dbc_balance \<Rightarrow>
          bind_result (ok_or (DbcReissueFailed ''Overflow occurred while increasing total input amount while trying to cover the output DBCs.'')
              (checked_add total_input dbc_balance)) (\<lambda>total_input'.
            case checked_sub change_amount dbc_balance of
              Some pending_output \<Rightarrow>
                if pending_output = 0 then Inr (to_spend @ [(dbc, key)], total_input', pending_output)
                else select_loop D (to_spend @ [(dbc, key)]) total_input' pending_output available
            | None \<Rightarrow> Inr (to_spend @ [(dbc, key)], total_input', dbc_balance - change_amount)))"

definition select_inputs :: "('dbc, 's, 'b) dbc_env \<Rightarrow> ('dbc \<times> derived_key) list \<Rightarrow> token
    \<Rightarrow> transfer_error + ('dbc \<times> derived_key) list \<times> token" where
  "select_inputs D available_dbcs total_output_amount =
     bind_result (select_loop D [] 0 total_output_amount available_dbcs)
       (\<lambda>(to_spend, total_input_amount, change_amount).
         if total_output_amount > total_input_amount
         then Inl (NotEnoughBalance total_input_amount total_output_amount)
         else Inr (to_spend, change_amount))"

section \<open>Building the transfer\<close>

text \<open>The first loop: the builder's inputs, and the source transaction of every DBC spent.\<close>

fun collect_inputs :: "('dbc, 's, 'b) dbc_env \<Rightarrow> ('dbc \<times> derived_key) list
    \<Rightarrow> (tx_input \<times> derived_key \<times> dbc_tx) list \<Rightarrow> (dbc_id, dbc_tx) btree_map
    \<Rightarrow> (tx_input \<times> derived_key \<times> dbc_tx) list \<times> (dbc_id, dbc_tx) btree_map" where
  "collect_inputs D [] ins src_txs = (ins, src_txs)"
| "collect_inputs D ((dbc, key) # rest) ins src_txs =
     (case dbc_token D dbc of
        Inl err \<Rightarrow> collect_inputs D rest ins src_txs
      | Inr t \<Rightarrow> collect_inputs D rest
          (ins @ [(\<lparr>in_dbc_id = dbc_id_of D dbc, in_token = t\<rparr>, key, dbc_src_tx D dbc)])
          (bm_insert (dbc_id_of D dbc) (dbc_src_tx D dbc) src_txs))"

text \<open>The loop over the signed spends, in the order of their DBC ids.\<close>

fun build_spend_requests :: "(dbc_id, dbc_tx) btree_map \<Rightarrow> (dbc_id \<times> 's) list
    \<Rightarrow> transfer_error + 's spend_request list" where
  "build_spend_requests src_txs [] = Inr []"
| "build_spend_requests src_txs ((i, sp) # rest) =
     bind_result (ok_or (DbcReissueFailed ''Missing source dbc tx'') (bm_get src_txs i)) (\<lambda>ptx.
     bind_result (build_spend_requests src_txs rest) (\<lambda>reqs.
       Inr (\<lparr>signed_spend = sp, parent_tx = ptx\<rparr> # reqs)))"

text \<open>\<open>retain\<close> with the closure that moves the change DBC out: the last match is kept.\<close>

fun split_change :: "('dbc, 's, 'b) dbc_env \<Rightarrow> dbc_id \<Rightarrow> 'dbc option \<Rightarrow> 'dbc list \<Rightarrow> 'dbc option \<times> 'dbc list" where
  "split_change D change_id ch [] = (ch, [])"
| "split_change D change_id ch (dbc # rest) =
     (if dbc_id_of D dbc = change_id then split_change D change_id (Some dbc) rest
      else (case split_change D change_id ch rest of (ch', kept) \<Rightarrow> (ch', dbc # kept)))"

definition transfer_builder :: "('dbc, 's, 'b) dbc_env \<Rightarrow> ('dbc, 's) transfer_inputs \<Rightarrow> fee_output option
    \<Rightarrow> derivation_index \<Rightarrow> tx_builder" where
  "transfer_builder D sel fee_opt index =
     \<lparr>tb_inputs = fst (collect_inputs D (dbcs_to_spend sel) [] []),
      tb_outputs = recipients sel @
        (if fst (change sel) = 0 then [] else [(fst (change sel), snd (change sel), index)]),
      tb_fee = fee_opt\<rparr>"

definition create_transfer_with :: "('dbc, 's::linorder, 'b) dbc_env \<Rightarrow> ('dbc, 's) transfer_inputs \<Rightarrow> hash
    \<Rightarrow> fee_output option \<Rightarrow> derivation_index \<Rightarrow> transfer_error + ('dbc, 's) transfer_outputs" where
  "create_transfer_with D sel reason_hash fee_opt index =
     (let src_txs = snd (collect_inputs D (dbcs_to_spend sel) [] []);
          change_id = new_dbc_id D (snd (change sel)) index
      in bind_result (map_err Dbcs (tb_build D (transfer_builder D sel fee_opt index) reason_hash)) (\<lambda>dbc_builder.
         let signed_spends = bm_collect (map (\<lambda>sp. (ss_dbc_id D sp, sp)) (built_spends D dbc_builder))
         in if \<not> list_all (\<lambda>(i, _). bm_contains_key src_txs i) signed_spends
            then Inl (DbcReissueFailed ''Not all signed spends could be matched to a source dbc transaction.'')
            else bind_result (build_spend_requests src_txs signed_spends) (\<lambda>reqs.
              bind_result (map_err Dbcs (built_dbcs D dbc_builder)) (\<lambda>dbcs.
                let (ch, created) = split_change D change_id None (map fst dbcs)
                in Inr \<lparr>tx = built_tx D dbc_builder, created_dbcs = created, change_dbc = ch,
                        all_spend_requests = reqs\<rparr>))))"

definition total_amount :: "recipient list \<Rightarrow> token option" where
  "total_amount rs = foldl (\<lambda>total (amount, _, _). Option.bind total (\<lambda>t. checked_add t amount)) (Some 0) rs"

definition create_transfer :: "('dbc, 's::linorder, 'b) dbc_env \<Rightarrow> ('dbc \<times> derived_key) list \<Rightarrow> recipient list
    \<Rightarrow> public_address \<Rightarrow> hash \<Rightarrow> derivation_index \<Rightarrow> transfer_error + ('dbc, 's) transfer_outputs" where
  "create_transfer D available_dbcs rs change_to reason_hash index =
     bind_result (ok_or (DbcReissueFailed ''Overflow occurred while summing the amounts for the recipients.'')
         (total_amount rs)) (\<lambda>total_output_amount.
     bind_result (select_inputs D available_dbcs total_output_amount) (\<lambda>(to_spend, change_amount).
       create_transfer_with D
         \<lparr>dbcs_to_spend = to_spend, recipients = rs, change = (change_amount, change_to)\<rparr>
         reason_hash None index))"

definition storage_fee_id :: "('dbc, 's, 'b) dbc_env \<Rightarrow> hash \<Rightarrow> ('dbc \<times> derived_key) list \<Rightarrow> hash" where
  "storage_fee_id D root_hash to_spend =
     sn_hash D (root_hash @ concat (map (\<lambda>(dbc, _). dbc_id_of D dbc) to_spend))"

definition create_storage_payment_transfer :: "('dbc, 's::linorder, 'b) dbc_env \<Rightarrow> ('dbc \<times> derived_key) list
    \<Rightarrow> public_address \<Rightarrow> token \<Rightarrow> hash \<Rightarrow> hash \<Rightarrow> derivation_index
    \<Rightarrow> transfer_error + ('dbc, 's) transfer_outputs" where
  "create_storage_payment_transfer D available_dbcs change_to storage_payment root_hash reason_hash index =
     bind_result (select_inputs D available_dbcs storage_payment) (\<lambda>(to_spend, change_amount).
       create_transfer_with D
         \<lparr>dbcs_to_spend = to_spend, recipients = [], change = (change_amount, change_to)\<rparr>
         reason_hash
         (Some \<lparr>fee_id = storage_fee_id D root_hash to_spend, fee_token = storage_payment,
                fee_root_hash = root_hash\<rparr>) index)"

section \<open>Lemmas on input selection\<close>

definition token_value :: "('dbc, 's, 'b) dbc_env \<Rightarrow> 'dbc \<Rightarrow> nat" where
  "token_value D d = (case dbc_token D d of Inl _ \<Rightarrow> 0 | Inr t \<Rightarrow> unat t)"

definition funds :: "('dbc, 's, 'b) dbc_env \<Rightarrow> ('dbc \<times> derived_key) list \<Rightarrow> nat" where
  "funds D xs = sum_list (map (\<lambda>(d, _). token_value D d) xs)"

lemma funds_simps [simp]:
  "funds D [] = 0" "funds D ((d, k) # xs) = token_value D d + funds D xs"
  "funds D (xs @ ys) = funds D xs + funds D ys"
  by (simp_all add: funds_def)

lemma token_value_simps [simp]:
  "dbc_token D d = Inl e \<Longrightarrow> token_value D d = 0" "dbc_token D d = Inr t \<Longrightarrow> token_value D d = unat t"
  by (simp_all add: token_value_def)

text \<open>
  Induction along a run of the loop that returns: the list is used up, a DBC that cannot be read is
  skipped, a DBC covers what is left, or it is taken and something is left.
\<close>

lemma select_loop_run [consumes 1, case_names stop skip cover more]:
  fixes P :: "('dbc \<times> derived_key) list \<Rightarrow> token \<Rightarrow> token \<Rightarrow> ('dbc \<times> derived_key) list \<Rightarrow> bool"
  assumes run: "select_loop D sel tin ch xs = Inr (sel', tin', ch')"
    and stop: "P sel' tin' ch' []"
    and skip: "\<And>sel tin ch d k xs e. dbc_token D d = Inl e \<Longrightarrow> P sel tin ch xs \<Longrightarrow> P sel tin ch ((d, k) # xs)"
    and cover: "\<And>sel tin ch d k xs bal. dbc_token D d = Inr bal \<Longrightarrow> sel' = sel @ [(d, k)] \<Longrightarrow> unat tin' = unat tin + unat bal \<Longrightarrow>
      unat bal = unat ch + unat ch' \<Longrightarrow> P sel tin ch ((d, k) # xs)"
    and more: "\<And>sel tin ch d k xs bal tin2 rest. dbc_token D d = Inr bal \<Longrightarrow> unat tin2 = unat tin + unat bal \<Longrightarrow> rest \<noteq> 0 \<Longrightarrow>
      unat ch = unat bal + unat rest \<Longrightarrow> P (sel @ [(d, k)]) tin2 rest xs \<Longrightarrow> P sel tin ch ((d, k) # xs)"
  shows "P sel tin ch xs"
  using run
proof (induction xs arbitrary: sel tin ch)
  case Nil
  with stop show ?case by simp
next
  case (Cons x xs)
  obtain d k where x: "x = (d, k)" by fastforce
  show ?case
  proof (cases "dbc_token D d")
    case (Inl e)
    with Cons x skip show ?thesis by simp
  next
    case (Inr bal)
    with Cons.prems x obtain tin2 where add: "checked_add tin bal = Some tin2" by auto
    note tin2 = checked_add_Some_unat [OF add]
    show ?thesis
    proof (cases "\<exists>rest. checked_sub ch bal = Some rest \<and> rest \<noteq> 0")
      case True
      then obtain rest where r: "checked_sub ch bal = Some rest" "rest \<noteq> 0" by blast
      with Cons.prems x Inr add have "select_loop D (sel @ [(d, k)]) tin2 rest xs = Inr (sel', tin', ch')" by simp
      from more [OF Inr tin2 r(2) _ Cons.IH [OF this]] checked_sub_Some_unat [OF r(1)] x show ?thesis by simp
    next
      case False
      with Cons.prems x Inr add have "sel' = sel @ [(d, k)]" "tin' = tin2" "unat bal = unat ch + unat ch'"
        by (auto simp: checked_sub_None_iff unat_sub word_le_nat_alt dest: checked_sub_Some_unat split: option.splits)
      with cover [OF Inr] tin2 x show ?thesis by simp
    qed
  qed
qed

text \<open>The loop either uses up the list with the rest still to be covered, or covers it.\<close>

lemma select_loop_balance:
  assumes "select_loop D sel tin ch xs = Inr (sel', tin', ch')" and "funds D sel = unat tin"
  shows "funds D sel' = unat tin' \<and>
    (unat tin' + unat ch' = unat tin + unat ch \<and> unat tin' = unat tin + funds D xs \<or>
     unat tin' = unat tin + unat ch + unat ch')"
  using assms by (induction rule: select_loop_run) auto

lemma select_loop_total:
  assumes "unat tin + funds D xs < 2 ^ 64"
  shows "\<exists>r. select_loop D sel tin ch xs = Inr r"
  using assms
proof (induction D sel tin ch xs rule: select_loop.induct)
  case (2 D sel tin ch d k xs)
  show ?case
  proof (cases "dbc_token D d")
    case (Inl e)
    with 2 show ?thesis by simp
  next
    case (Inr bal)
    with "2.prems" have "unat tin + unat bal < 2 ^ LENGTH(64)" by simp
    then have add: "checked_add tin bal = Some (tin + bal)" by (simp add: checked_add_def)
    from checked_add_Some_unat [OF this] "2.prems" Inr have "unat (tin + bal) + funds D xs < 2 ^ 64"
      by simp
    with "2.IH"(2) [OF Inr] Inr add show ?thesis by (auto split: option.splits)
  qed
qed simp

text \<open>The last element of the selection is needed.\<close>

lemma select_loop_minimal:
  assumes "select_loop D sel tin ch xs = Inr (sel', tin', ch')" and "funds D sel = unat tin" and "ch \<noteq> 0"
  shows "\<exists>ys. sel' = sel @ ys \<and>
    (ys \<noteq> [] \<longrightarrow> funds D (butlast sel') < unat tin + unat ch)"
  using assms
proof (induction rule: select_loop_run)
  case (more sel tin ch d k xs bal tin2 rest)
  then obtain ys where "sel' = sel @ (d, k) # ys" "ys \<noteq> [] \<longrightarrow> funds D (butlast sel') < unat tin + unat ch" by auto
  with more show ?case by (intro exI [of _ "(d, k) # ys"]) (cases "ys = []"; simp add: unat_gt_0)
qed (auto simp: unat_gt_0)

lemma select_loop_subseq:
  assumes "select_loop D sel tin ch xs = Inr (sel', tin', ch')"
  shows "\<exists>ys. sel' = sel @ ys \<and> subseq ys xs \<and> list_all (\<lambda>(d, _). is_ok (dbc_token D d)) ys"
  using assms
proof (induction rule: select_loop_run)
  case (more sel tin ch d k xs bal tin2 rest)
  then obtain ys where "sel' = sel @ (d, k) # ys" "subseq ((d, k) # ys) ((d, k) # xs)"
    "list_all (\<lambda>(d, _). is_ok (dbc_token D d)) ((d, k) # ys)" by auto
  then show ?case by blast
qed (auto intro: list_emb_Cons simp: subseq_singleton_left)

lemma subseq_set: "subseq xs ys \<Longrightarrow> set xs \<subseteq> set ys"
  by (induction rule: list_emb.induct) auto

lemma funds_subseq: "subseq xs ys \<Longrightarrow> funds D xs \<le> funds D ys"
  unfolding funds_def by (induction rule: list_emb.induct) auto

lemma select_inputs_subseq:
  assumes "select_inputs D av amt = Inr (sel, ch)"
  shows "subseq sel av" "list_all (\<lambda>(d, _). is_ok (dbc_token D d)) sel"
  using assms select_loop_subseq [of D "[]" 0 amt av sel] by (auto simp: select_inputs_def split: if_splits)

lemma select_inputs_Inr:
  assumes "select_inputs D av amt = Inr (sel, ch)"
  shows "funds D sel = unat amt + unat ch"
proof -
  from assms obtain tin where loop: "select_loop D [] 0 amt av = Inr (sel, tin, ch)" and le: "\<not> tin < amt"
    by (auto simp: select_inputs_def split: if_splits)
  from select_loop_balance [OF loop] have "funds D sel = unat tin"
    "unat tin + unat ch = unat amt \<or> unat tin = unat amt + unat ch" by auto
  with le show ?thesis by (auto simp: word_less_nat_alt)
qed

section \<open>Lemmas on building a transfer\<close>

lemma collect_inputs_fst:
  "fst (collect_inputs D xs ins m) = ins @
    concat (map (\<lambda>(d, k). case dbc_token D d of Inl _ \<Rightarrow> [] |
      Inr t \<Rightarrow> [(\<lparr>in_dbc_id = dbc_id_of D d, in_token = t\<rparr>, k, dbc_src_tx D d)]) xs)"
  by (induction D xs ins m rule: collect_inputs.induct) (simp_all split: sum.splits)

definition input_sum :: "tx_builder \<Rightarrow> nat" where
  "input_sum B = sum_list (map (\<lambda>(i, _, _). unat (in_token i)) (tb_inputs B))"

definition output_sum :: "tx_builder \<Rightarrow> nat" where
  "output_sum B = sum_list (map (\<lambda>(t, _, _). unat t) (tb_outputs B))"

lemma input_sum_transfer_builder [simp]:
  "input_sum (transfer_builder D sel f i) = funds D (dbcs_to_spend sel)"
proof -
  have "sum_list (map (\<lambda>(i, _, _). unat (in_token i)) (concat (map (\<lambda>(d, k). case dbc_token D d of Inl _ \<Rightarrow> [] |
      Inr t \<Rightarrow> [(\<lparr>in_dbc_id = dbc_id_of D d, in_token = t\<rparr>, k, dbc_src_tx D d)]) xs))) = funds D xs" for xs
    by (induction xs) (auto simp: token_value_def split: sum.splits)
  then show ?thesis
    by (simp add: input_sum_def transfer_builder_def collect_inputs_fst)
qed

lemma output_sum_transfer_builder [simp]:
  "output_sum (transfer_builder D sel f i) =
    sum_list (map (\<lambda>(t, _, _). unat t) (recipients sel)) + unat (fst (change sel))"
  by (simp add: output_sum_def transfer_builder_def)

lemma total_amount_sum:
  assumes "total_amount rs = Some t"
  shows "unat t = sum_list (map (\<lambda>(a, _, _). unat a) rs)"
proof -
  have none: "foldl (\<lambda>total (amount, _, _). Option.bind total (\<lambda>t. checked_add t amount)) None rs = None"
    for rs :: "recipient list" by (induction rs) auto
  note none' = none [unfolded case_prod_beta]
  have "foldl (\<lambda>total (amount, _, _). Option.bind total (\<lambda>t. checked_add t amount)) (Some s) rs = Some t
    \<Longrightarrow> unat t = unat s + sum_list (map (\<lambda>(a, _, _). unat a) rs)" for s
  proof (induction rs arbitrary: s)
    case (Cons r rs)
    obtain a b c where r: "r = (a, b, c)" by (cases r)
    with Cons.prems none' [of rs] obtain s' where s': "checked_add s a = Some s'"
      by (cases "checked_add s a") (auto simp: case_prod_beta)
    with Cons.prems r have "unat t = unat s' + sum_list (map (\<lambda>(a, _, _). unat a) rs)"
      by (intro Cons.IH) simp
    with checked_add_Some_unat [OF s'] r show ?case by (simp add: case_prod_beta')
  qed simp
  from this [of 0] assms show ?thesis by (simp add: total_amount_def)
qed

text \<open>The source transactions recorded are those of the DBCs to spend.\<close>

lemma collect_inputs_src:
  assumes "bm_ok m" and "map_of (snd (collect_inputs D xs ins m)) i = Some t"
  shows "map_of m i = Some t \<or> (\<exists>(d, k) \<in> set xs. i = dbc_id_of D d \<and> t = dbc_src_tx D d)"
  using assms
proof (induction D xs ins m rule: collect_inputs.induct)
  case (2 D d k xs ins m)
  show ?case
  proof (cases "dbc_token D d")
    case (Inr t)
    with 2 show ?thesis by (fastforce simp: map_of_bm_insert bm_ok_insert split: if_splits)
  qed (use 2 in auto)
qed simp

lemma build_spend_requests_Inr:
  assumes "build_spend_requests m xs = Inr reqs"
  shows "map signed_spend reqs = map snd xs \<and>
    list_all2 (\<lambda>r (i, _). map_of m i = Some (parent_tx r)) reqs xs"
  using assms by (induction m xs arbitrary: reqs rule: build_spend_requests.induct) auto

lemma build_spend_requests_total:
  "list_all (\<lambda>(i, _). bm_contains_key m i) xs \<Longrightarrow> \<exists>reqs. build_spend_requests m xs = Inr reqs"
  by (induction m xs rule: build_spend_requests.induct) (auto simp: bm_contains_key_def)

lemma split_change_Inr:
  assumes "split_change D cid c xs = (c', kept)"
  shows "kept = filter (\<lambda>d. dbc_id_of D d \<noteq> cid) xs \<and>
    c' = (case filter (\<lambda>d. dbc_id_of D d = cid) xs of [] \<Rightarrow> c | ds \<Rightarrow> Some (last ds))"
  using assms
  by (induction D cid c xs arbitrary: c' kept rule: split_change.induct)
    (auto split: prod.splits if_splits list.splits)

lemma create_transfer_with_Inr:
  assumes "create_transfer_with D sel rh f idx = Inr out"
  obtains b dbcs where
    "tb_build D (transfer_builder D sel f idx) rh = Inr b" "tx out = built_tx D b"
    "build_spend_requests (snd (collect_inputs D (dbcs_to_spend sel) [] []))
       (bm_collect (map (\<lambda>sp. (ss_dbc_id D sp, sp)) (built_spends D b))) = Inr (all_spend_requests out)"
    "built_dbcs D b = Inr dbcs"
    "split_change D (new_dbc_id D (snd (change sel)) idx) None (map fst dbcs) = (change_dbc out, created_dbcs out)"
proof -
  from assms obtain b reqs dbcs where b: "tb_build D (transfer_builder D sel f idx) rh = Inr b"
    and reqs: "build_spend_requests (snd (collect_inputs D (dbcs_to_spend sel) [] []))
       (bm_collect (map (\<lambda>sp. (ss_dbc_id D sp, sp)) (built_spends D b))) = Inr reqs"
    and dbcs: "built_dbcs D b = Inr dbcs"
    and out: "(case split_change D (new_dbc_id D (snd (change sel)) idx) None (map fst dbcs) of
        (ch, created) \<Rightarrow> Inr \<lparr>tx = built_tx D b, created_dbcs = created, change_dbc = ch,
          all_spend_requests = reqs\<rparr>) = (Inr out :: transfer_error + (_, _) transfer_outputs)"
    by (auto simp: create_transfer_with_def Let_def split: if_splits)
  obtain ch created where sc:
    "split_change D (new_dbc_id D (snd (change sel)) idx) None (map fst dbcs) = (ch, created)" by fastforce
  with out have "out = \<lparr>tx = built_tx D b, created_dbcs = created, change_dbc = ch, all_spend_requests = reqs\<rparr>"
    by simp
  with b reqs dbcs sc show ?thesis by (intro that) simp_all
qed

lemma map_of_bm_collect: "map_of (bm_collect xs) = map_of (rev xs)"
  by (simp add: bm_collect_def bm.get_append)

lemma bm_collect_ok [simp]: "bm_ok (bm_collect xs)"
  by (simp add: bm_collect_def bm.ok_append)

lemma set_bm_collect_subset: "set (bm_collect xs) \<subseteq> set xs"
proof
  fix x assume "x \<in> set (bm_collect xs)"
  then have "map_of (bm_collect xs) (fst x) = Some (snd x)"
    by (intro map_of_is_SomeI) (auto simp: bm_ok_distinct)
  then show "x \<in> set xs"
    by (auto simp: map_of_bm_collect dest: map_of_SomeD)
qed

lemma create_transfer_with_requests:
  assumes "create_transfer_with D sel rh f idx = Inr out"
  shows "(\<forall>r \<in> set (all_spend_requests out). \<exists>(d, k) \<in> set (dbcs_to_spend sel).
      ss_dbc_id D (signed_spend r) = dbc_id_of D d \<and> parent_tx r = dbc_src_tx D d) \<and>
    distinct (map (ss_dbc_id D \<circ> signed_spend) (all_spend_requests out))"
proof -
  let ?m = "snd (collect_inputs D (dbcs_to_spend sel) [] [])"
  from assms obtain b where
    b: "build_spend_requests ?m (bm_collect (map (\<lambda>sp. (ss_dbc_id D sp, sp)) (built_spends D b))) = Inr (all_spend_requests out)"
    by (rule create_transfer_with_Inr)
  let ?sp = "bm_collect (map (\<lambda>sp. (ss_dbc_id D sp, sp)) (built_spends D b))"
  from build_spend_requests_Inr [OF b] have
    sp: "map signed_spend (all_spend_requests out) = map snd ?sp" and
    par: "list_all2 (\<lambda>r (i, _). map_of ?m i = Some (parent_tx r)) (all_spend_requests out) ?sp" by auto
  have ids: "\<forall>(i, s) \<in> set ?sp. i = ss_dbc_id D s"
    using set_bm_collect_subset [of "map (\<lambda>sp. (ss_dbc_id D sp, sp)) (built_spends D b)"] by auto
  have "map (ss_dbc_id D \<circ> signed_spend) (all_spend_requests out) = map (ss_dbc_id D) (map snd ?sp)"
    unfolding sp [symmetric] by simp
  also have "\<dots> = map fst ?sp" using ids by auto
  finally have keys: "map (ss_dbc_id D \<circ> signed_spend) (all_spend_requests out) = map fst ?sp" .
  have "\<exists>(d, k) \<in> set (dbcs_to_spend sel). ss_dbc_id D (signed_spend r) = dbc_id_of D d \<and> parent_tx r = dbc_src_tx D d"
    if "r \<in> set (all_spend_requests out)" for r
  proof -
    from that obtain j where j: "j < length (all_spend_requests out)" "r = all_spend_requests out ! j"
      by (auto simp: in_set_conv_nth)
    have len: "length (all_spend_requests out) = length ?sp" using par by (rule list_all2_lengthD)
    from par j have "map_of ?m (fst (?sp ! j)) = Some (parent_tx r)"
      by (auto simp: list_all2_conv_all_nth case_prod_beta)
    moreover have "fst (?sp ! j) = ss_dbc_id D (signed_spend r)"
      using arg_cong [OF keys, of "\<lambda>l. l ! j"] j len by simp
    ultimately have "map_of ?m (ss_dbc_id D (signed_spend r)) = Some (parent_tx r)" by simp
    from collect_inputs_src [OF _ this] show ?thesis by simp
  qed
  moreover have "distinct (map fst ?sp)" by (simp add: bm_ok_distinct)
  ultimately show ?thesis by (simp add: keys)
qed

lemma create_transfer_with_change:
  assumes "create_transfer_with D sel rh f idx = Inr out"
  shows "(\<forall>d \<in> set (created_dbcs out). dbc_id_of D d \<noteq> new_dbc_id D (snd (change sel)) idx) \<and>
    (\<forall>d. change_dbc out = Some d \<longrightarrow> dbc_id_of D d = new_dbc_id D (snd (change sel)) idx)"
proof -
  let ?c = "new_dbc_id D (snd (change sel)) idx"
  from assms obtain dbcs :: "(_ \<times> token) list" where "split_change D ?c None (map fst dbcs) = (change_dbc out, created_dbcs out)"
    by (rule create_transfer_with_Inr)
  note sc = split_change_Inr [OF this]
  have "dbc_id_of D d = ?c" if "change_dbc out = Some d" for d
  proof -
    let ?ds = "filter (\<lambda>d. dbc_id_of D d = ?c) (map fst dbcs)"
    from sc that have "?ds \<noteq> []" "d = last ?ds" by (auto split: list.splits)
    then have "d \<in> set ?ds" using last_in_set by blast
    then show ?thesis by simp
  qed
  moreover have "created_dbcs out = filter (\<lambda>d. dbc_id_of D d \<noteq> ?c) (map fst dbcs)" using sc by simp
  ultimately show ?thesis by simp
qed

section \<open>A concrete instance of the DBC crate\<close>

text \<open>DBCs are pairs of an id, which starts with the owner's address, and an amount; signatures are
  the ids.\<close>

definition demo_tx :: dbc_tx where
  "demo_tx = \<lparr>inputs = [], outputs = [], fee = \<lparr>fee_id = [], fee_token = 0, fee_root_hash = []\<rparr>\<rparr>"

definition demo_dbc_env :: "(dbc_id \<times> token, bytes, tx_builder) dbc_env" where
  "demo_dbc_env = \<lparr>dbc_id_of = fst, dbc_token = (\<lambda>d. Inr (snd d)),
     dbc_derived_key = (\<lambda>d k. if prefix k (fst d) then Inr k else Inl ''not the owner''), dbc_src_tx = (\<lambda>d. demo_tx), dbc_public_address = (\<lambda>d. take 1 (fst d)),
     main_public_address = (\<lambda>k. k), new_dbc_id = (\<lambda>a i. a @ i), sn_hash = (\<lambda>b. b),
     tb_build = (\<lambda>B rh. Inr B), built_tx = (\<lambda>B. demo_tx\<lparr>inputs := map fst (tb_inputs B)\<rparr>),
     built_spends = (\<lambda>B. map (\<lambda>(i, _, _). in_dbc_id i) (tb_inputs B)),
     built_dbcs = (\<lambda>B. Inr (map (\<lambda>(t, a, i). ((a @ i, t), t)) (tb_outputs B))),
     ss_dbc_id = (\<lambda>s. s)\<rparr>"

definition demo_available :: "((dbc_id \<times> token) \<times> derived_key) list" where
  "demo_available = [(([1, 10], 5), [1]), (([1, 11], 7), [1]), (([1, 12], 9), [1])]"

lemma demo_dbc_env_sel [simp]:
  "dbc_id_of demo_dbc_env = fst" "dbc_token demo_dbc_env d = Inr (snd d)"
  "dbc_derived_key demo_dbc_env d k = (if prefix k (fst d) then Inr k else Inl ''not the owner'')" "dbc_src_tx demo_dbc_env d = demo_tx"
  "dbc_public_address demo_dbc_env d = take 1 (fst d)" "main_public_address demo_dbc_env k = k"
  "new_dbc_id demo_dbc_env a i = a @ i" "sn_hash demo_dbc_env b = b" "tb_build demo_dbc_env B rh = Inr B"
  "built_tx demo_dbc_env B = demo_tx\<lparr>inputs := map fst (tb_inputs B)\<rparr>"
  "built_spends demo_dbc_env B = map (\<lambda>(i, _, _). in_dbc_id i) (tb_inputs B)"
  "built_dbcs demo_dbc_env B = Inr (map (\<lambda>(t, a, i). ((a @ i, t), t)) (tb_outputs B))"
  "ss_dbc_id demo_dbc_env sp = sp"
  by (simp_all add: demo_dbc_env_def)

lemma demo_select:
  "select_inputs demo_dbc_env demo_available 8 = Inr ([(([1, 10], 5), [1]), (([1, 11], 7), [1])], 4)"
  by (simp add: select_inputs_def demo_available_def checked_add_def checked_sub_def)

lemma demo_total: "total_amount [(8, a, i)] = Some 8"
  by (simp add: total_amount_def checked_add_def)

lemma demo_transfer:
  "is_ok (create_transfer demo_dbc_env demo_available [(8, [2], [3])] [1] [] [4])"
  "is_ok (create_storage_payment_transfer demo_dbc_env demo_available [1] 8 [9] [] [4])"
  by (simp_all add: create_transfer_def create_storage_payment_transfer_def demo_total demo_select
      create_transfer_with_def transfer_builder_def bm_collect_def bm_append_def bm_contains_key_def)

section \<open>Properties\<close>

text \<open>C2: When \<open>select_inputs\<close> succeeds, the selected DBCs are a subsequence of the available
  ones, all with a readable amount; they are worth exactly the amount asked for plus the change;
  and, for a non-zero amount, all but the last of them would not have covered it.\<close>

theorem select_inputs_exact:
  assumes "select_inputs D available amt = Inr (sel, ch)"
  shows "subseq sel available \<and> funds D sel = unat amt + unat ch \<and>
    list_all (\<lambda>(d, _). is_ok (dbc_token D d)) sel \<and>
    (amt \<noteq> 0 \<longrightarrow> sel \<noteq> [] \<and> funds D (butlast sel) < unat amt)"
proof (cases "amt = 0")
  case True
  with select_inputs_Inr [OF assms] select_inputs_subseq [OF assms] show ?thesis by simp
next
  case False
  from assms obtain tin where loop: "select_loop D [] 0 amt available = Inr (sel, tin, ch)"
    by (auto simp: select_inputs_def split: if_splits)
  from select_loop_minimal [OF this] False have *: "sel \<noteq> [] \<longrightarrow> funds D (butlast sel) < unat amt" by auto
  have total: "funds D sel = unat amt + unat ch" by (rule select_inputs_Inr [OF assms])
  with False have "sel \<noteq> []" by (auto simp: unat_eq_zero)
  with * total select_inputs_subseq [OF assms] show ?thesis by simp
qed

theorem select_inputs_exact_witness:
  "funds demo_dbc_env [(([1, 10], 5), [1]), (([1, 11], 7), [1])] = unat (8 :: token) + unat (4 :: token) \<and>
   funds demo_dbc_env [(([1, 10], 5), [1])] < unat (8 :: token)"
  using select_inputs_exact [OF demo_select] by simp

text \<open>C19: If the available DBCs are worth less than 2^64 together, \<open>select_inputs\<close> succeeds exactly
  when they cover the amount, and otherwise fails with \<open>NotEnoughBalance\<close> carrying their exact
  worth and the amount.\<close>

theorem select_inputs_complete:
  assumes "funds D available < 2 ^ 64"
  shows "if unat amt \<le> funds D available then is_ok (select_inputs D available amt)
    else select_inputs D available amt = Inl (NotEnoughBalance (word_of_nat (funds D available)) amt)"
proof -
  from select_loop_total [of 0 D available "[]" amt] assms
  obtain sel tin ch where loop: "select_loop D [] 0 amt available = Inr (sel, tin, ch)" by fastforce
  from select_loop_balance [OF this] have
    cases: "unat tin + unat ch = unat amt \<and> unat tin = funds D available \<or> unat tin = unat amt + unat ch"
    by simp
  have sub: "unat tin \<le> funds D available"
    using select_loop_subseq [OF loop] funds_subseq [of sel available D] select_loop_balance [OF loop] by auto
  show ?thesis
  proof (cases "unat amt \<le> funds D available")
    case True
    with cases have "\<not> amt > tin" by (auto simp: word_less_nat_alt)
    with loop True show ?thesis by (simp add: select_inputs_def)
  next
    case False
    with cases sub have tin: "unat tin = funds D available" and "amt > tin"
      by (auto simp: word_less_nat_alt)
    moreover from tin have "tin = word_of_nat (funds D available)" by (simp flip: tin)
    ultimately show ?thesis using loop False by (simp add: select_inputs_def)
  qed
qed

theorem select_inputs_complete_witness:
  "is_ok (select_inputs demo_dbc_env demo_available 21) \<and>
   select_inputs demo_dbc_env demo_available 22 = Inl (NotEnoughBalance 21 22)"
proof -
  have funds: "funds demo_dbc_env demo_available = 21" by (simp add: demo_available_def)
  with select_inputs_complete [of demo_dbc_env demo_available 21]
    select_inputs_complete [of demo_dbc_env demo_available 22]
  show ?thesis by simp
qed

text \<open>A successful \<open>create_transfer\<close> hands the transaction builder inputs, taken from the
  available DBCs in order, worth exactly the outputs it hands it: the recipients as given,
  followed by one change output to \<open>change_to\<close> when the change is not zero. No fee is set,
  and the transaction returned is the one the builder built.\<close>

theorem create_transfer_conserves:
  assumes "create_transfer D available rs change_to rh idx = Inr out"
  shows "\<exists>B b sel ch. tb_build D B rh = Inr b \<and> tx out = built_tx D b \<and> subseq sel available \<and>
    tb_inputs B = fst (collect_inputs D sel [] []) \<and> tb_fee B = None \<and>
    tb_outputs B = rs @ (if ch = 0 then [] else [(ch, change_to, idx)]) \<and>
    input_sum B = output_sum B"
proof -
  from assms obtain t sel ch where t: "total_amount rs = Some t"
    and sel: "select_inputs D available t = Inr (sel, ch)"
    and out: "create_transfer_with D \<lparr>dbcs_to_spend = sel, recipients = rs, change = (ch, change_to)\<rparr> rh None idx = Inr out"
    by (auto simp: create_transfer_def)
  let ?S = "\<lparr>dbcs_to_spend = sel, recipients = rs, change = (ch, change_to)\<rparr>"
  from out obtain b where "tb_build D (transfer_builder D ?S None idx) rh = Inr b" "tx out = built_tx D b"
    by (rule create_transfer_with_Inr)
  moreover have "input_sum (transfer_builder D ?S None idx) = output_sum (transfer_builder D ?S None idx)"
    using select_inputs_Inr [OF sel] total_amount_sum [OF t] by simp
  ultimately show ?thesis
    using select_inputs_subseq [OF sel]
    by (intro exI [of _ "transfer_builder D ?S None idx"] exI [of _ b] exI [of _ sel] exI [of _ ch])
      (simp add: transfer_builder_def)
qed

theorem create_transfer_conserves_witness:
  "\<exists>out B. create_transfer demo_dbc_env demo_available [(8, [2], [3])] [1] [] [4] = Inr out \<and>
    tb_build demo_dbc_env B [] = Inr B \<and> input_sum B = output_sum B \<and> (8, [2], [3]) \<in> set (tb_outputs B)"
proof -
  obtain out where out: "create_transfer demo_dbc_env demo_available [(8, [2], [3])] [1] [] [4] = Inr out"
    using demo_transfer(1) by (auto simp: is_ok_iff)
  from create_transfer_conserves [OF this] obtain B where "input_sum B = output_sum B" "(8, [2], [3]) \<in> set (tb_outputs B)"
    by auto
  with out show ?thesis by auto
qed

text \<open>C22: A successful storage payment hands the builder inputs worth exactly the fee plus the
  change; the fee output carries the payment, the root hash and the hash of the root hash
  followed by the ids of the DBCs spent, in order.\<close>

theorem create_storage_payment_conserves:
  assumes "create_storage_payment_transfer D available change_to amount root rh idx = Inr out"
  shows "\<exists>B b f sel. tb_build D B rh = Inr b \<and> tx out = built_tx D b \<and> subseq sel available \<and>
    tb_inputs B = fst (collect_inputs D sel [] []) \<and> tb_fee B = Some f \<and>
    input_sum B = unat (fee_token f) + output_sum B \<and> fee_token f = amount \<and> fee_root_hash f = root \<and>
    fee_id f = sn_hash D (root @ concat (map (\<lambda>(d, _). dbc_id_of D d) sel)) \<and>
    (\<forall>(t, a, i) \<in> set (tb_outputs B). a = change_to)"
proof -
  from assms obtain sel ch where sel: "select_inputs D available amount = Inr (sel, ch)"
    and out: "create_transfer_with D \<lparr>dbcs_to_spend = sel, recipients = [], change = (ch, change_to)\<rparr> rh
      (Some \<lparr>fee_id = storage_fee_id D root sel, fee_token = amount, fee_root_hash = root\<rparr>) idx = Inr out"
    by (auto simp: create_storage_payment_transfer_def)
  let ?S = "\<lparr>dbcs_to_spend = sel, recipients = [], change = (ch, change_to)\<rparr>"
  let ?f = "\<lparr>fee_id = storage_fee_id D root sel, fee_token = amount, fee_root_hash = root\<rparr>"
  let ?B = "transfer_builder D ?S (Some ?f) idx"
  from out obtain b where "tb_build D ?B rh = Inr b" "tx out = built_tx D b"
    by (rule create_transfer_with_Inr)
  moreover have "input_sum ?B = unat (fee_token ?f) + output_sum ?B"
    using select_inputs_Inr [OF sel] by simp
  ultimately show ?thesis
    using select_inputs_subseq [OF sel]
    by (intro exI [of _ ?B] exI [of _ b] exI [of _ ?f] exI [of _ sel])
      (simp add: transfer_builder_def storage_fee_id_def)
qed

theorem create_storage_payment_conserves_witness:
  "\<exists>out B f. create_storage_payment_transfer demo_dbc_env demo_available [1] 8 [9] [] [4] = Inr out \<and>
    tb_fee B = Some f \<and> input_sum B = 8 + output_sum B \<and> fee_token f = 8"
proof -
  obtain out where out: "create_storage_payment_transfer demo_dbc_env demo_available [1] 8 [9] [] [4] = Inr out"
    using demo_transfer(2) by (auto simp: is_ok_iff)
  from create_storage_payment_conserves [OF this] obtain B f where "tb_fee B = Some f"
    "input_sum B = unat (fee_token f) + output_sum B" "fee_token f = 8" by blast
  moreover from this have "input_sum B = 8 + output_sum B" by simp
  ultimately show ?thesis using out by blast
qed

text \<open>Whatever the builder returns, a successful transfer pairs every spend request with the
  source transaction of an available DBC whose id is the id of the spend, gives each id one
  request, and never lists the change DBC among the created ones: these are the built DBCs
  without those at the change id, in order.\<close>

theorem create_transfer_requests:
  assumes "create_transfer D available rs change_to rh idx = Inr out"
  shows "(\<forall>r \<in> set (all_spend_requests out). \<exists>d k. (d, k) \<in> set available \<and>
      ss_dbc_id D (signed_spend r) = dbc_id_of D d \<and> parent_tx r = dbc_src_tx D d) \<and>
    distinct (map (ss_dbc_id D \<circ> signed_spend) (all_spend_requests out)) \<and>
    (\<forall>d \<in> set (created_dbcs out). dbc_id_of D d \<noteq> new_dbc_id D change_to idx) \<and>
    (\<forall>d. change_dbc out = Some d \<longrightarrow> dbc_id_of D d = new_dbc_id D change_to idx)"
proof -
  from assms obtain t sel ch where sel: "select_inputs D available t = Inr (sel, ch)"
    and out: "create_transfer_with D \<lparr>dbcs_to_spend = sel, recipients = rs, change = (ch, change_to)\<rparr> rh None idx = Inr out"
    by (auto simp: create_transfer_def)
  have "set sel \<subseteq> set available" by (rule subseq_set [OF select_inputs_subseq(1) [OF sel]])
  then show ?thesis
    using create_transfer_with_requests [OF out] create_transfer_with_change [OF out] by fastforce
qed

theorem create_transfer_requests_witness:
  "\<exists>out. create_transfer demo_dbc_env demo_available [(8, [2], [3])] [1] [] [4] = Inr out \<and>
    (\<forall>d. change_dbc out = Some d \<longrightarrow> fst d = [1, 4])"
proof -
  obtain out where out: "create_transfer demo_dbc_env demo_available [(8, [2], [3])] [1] [] [4] = Inr out"
    using demo_transfer(1) by (auto simp: is_ok_iff)
  with create_transfer_requests [OF this] show ?thesis by auto
qed

end
