(* ===== verification/Payment_Proof.thy ===== *)
theory Payment_Proof
  imports Transfers
begin

text \<open>
  The module payment_proof of sn_transfers: the Merkle tree over the content addresses paid
  for by one transfer, the audit trail handed out for every address, and the check a node
  makes of such a trail. The crate \<open>merkletree\<close> with the SHA3 hasher is the record
  \<open>merkle_env\<close>; \<open>usize\<close> is a 64-bit word in a proof's path and an unbounded index where the
  code only counts list elements.
\<close>

type_synonym merkle_tree_nodes_type = bytes

record payment_proof =
  spent_ids :: "dbc_id list"
  audit_trail :: "merkle_tree_nodes_type list"
  proof_path :: "u64 list"

record ('t, 'p) merkle_env =
  next_pow2 :: "nat \<Rightarrow> nat"
  mt_new :: "merkle_tree_nodes_type list \<Rightarrow> string + 't"
  mt_root :: "'t \<Rightarrow> hash"
  mt_gen_proof :: "'t \<Rightarrow> nat \<Rightarrow> string + 'p"
  pf_new :: "merkle_tree_nodes_type list \<Rightarrow> u64 list \<Rightarrow> string + 'p"
  pf_lemma :: "'p \<Rightarrow> merkle_tree_nodes_type list"
  pf_path :: "'p \<Rightarrow> u64 list"
  pf_item :: "'p \<Rightarrow> hash"
  pf_root :: "'p \<Rightarrow> hash"
  pf_validate :: "'p \<Rightarrow> string + bool"
  hash_leaf :: "bytes \<Rightarrow> hash"

datatype proof_error =
    ProofTree string
  | GenAuditTrail nat string
  | InvalidAuditTrail string
  | AuditTrailSelfValidation string
  | AuditTrailItemMismatch xorname
  | RootHashMismatch hash

type_synonym trail_info_map = "(xorname, merkle_tree_nodes_type list \<times> u64 list) btree_map"

section \<open>Operations\<close>

text \<open>The blank leaves added up to a power of two, and at least two leaves.\<close>

definition blank_leaf :: merkle_tree_nodes_type where
  "blank_leaf = replicate 32 0"

definition pad_leaves :: "('t, 'p) merkle_env \<Rightarrow> xorname list \<Rightarrow> merkle_tree_nodes_type list" where
  "pad_leaves M addrs =
     (let num_of_leaves = max 2 (next_pow2 M (length addrs))
      in addrs @ replicate (num_of_leaves - length addrs) blank_leaf)"

fun gen_proofs :: "('t, 'p) merkle_env \<Rightarrow> 't \<Rightarrow> nat \<Rightarrow> xorname list \<Rightarrow> trail_info_map
    \<Rightarrow> proof_error + trail_info_map" where
  "gen_proofs M t index [] payment_proofs = Inr payment_proofs"
| "gen_proofs M t index (addr # addrs) payment_proofs =
     bind_result (map_err (GenAuditTrail index) (mt_gen_proof M t index)) (\<lambda>p.
       gen_proofs M t (Suc index) addrs (bm_insert addr (pf_lemma M p, pf_path M p) payment_proofs))"

definition build_payment_proofs :: "('t, 'p) merkle_env \<Rightarrow> xorname list \<Rightarrow> proof_error + hash \<times> trail_info_map" where
  "build_payment_proofs M content_addrs =
     (if content_addrs = [] then Inl (ProofTree ''Cannot build payment proofs with an empty list of addresses'')
      else bind_result (map_err ProofTree (mt_new M (pad_leaves M content_addrs))) (\<lambda>merkletree.
        bind_result (gen_proofs M merkletree 0 content_addrs []) (\<lambda>payment_proofs.
          Inr (mt_root M merkletree, payment_proofs))))"

definition leaf_index :: "u64 list \<Rightarrow> u64" where
  "leaf_index path = fold (\<lambda>p leaf_index. push_bit 1 leaf_index + p) (rev path) 0"

definition validate_payment_proof :: "('t, 'p) merkle_env \<Rightarrow> xorname \<Rightarrow> hash \<Rightarrow> merkle_tree_nodes_type list
    \<Rightarrow> u64 list \<Rightarrow> proof_error + u64" where
  "validate_payment_proof M addr_name root_hash trail path =
     bind_result (map_err InvalidAuditTrail (pf_new M trail path)) (\<lambda>p.
       if hash_leaf M addr_name \<noteq> pf_item M p then Inl (AuditTrailItemMismatch addr_name)
       else if root_hash \<noteq> pf_root M p then Inl (RootHashMismatch root_hash)
       else bind_result (map_err AuditTrailSelfValidation (pf_validate M p)) (\<lambda>ok.
         if \<not> ok then Inl (AuditTrailSelfValidation ''inclusion proof validation failed'')
         else Inr (leaf_index path)))"

section \<open>What the Merkle tree crate provides\<close>

text \<open>
  \<open>next_pow2\<close> is a power of two that is not smaller; a tree is built from a power of two
  of at least two leaves; the proof for an index can be generated, read back from its lemma
  and path, holds the leaf's hash and the tree's root, validates, and its path is the index in
  binary from the leaf upwards.
\<close>

definition bit_path :: "nat \<Rightarrow> nat \<Rightarrow> u64 list" where
  "bit_path k i = map (\<lambda>j. of_bool (bit i j)) [0..<k]"

definition merkle_laws :: "('t, 'p) merkle_env \<Rightarrow> bool" where
  "merkle_laws M \<longleftrightarrow>
     (\<forall>n. n > 0 \<longrightarrow> (\<exists>k. next_pow2 M n = 2 ^ k \<and> n \<le> 2 ^ k)) \<and>
     (\<forall>k xs. k > 0 \<longrightarrow> length xs = 2 ^ k \<longrightarrow> (\<exists>t. mt_new M xs = Inr t \<and>
        (\<forall>i < 2 ^ k. \<exists>p. mt_gen_proof M t i = Inr p \<and> pf_path M p = bit_path k i \<and>
           (\<exists>q. pf_new M (pf_lemma M p) (pf_path M p) = Inr q \<and> pf_item M q = hash_leaf M (xs ! i) \<and>
              pf_root M q = mt_root M t \<and> pf_validate M q = Inr True))))"

section \<open>Lemmas\<close>

lemma leaf_index_simps [simp]:
  "leaf_index [] = 0" "leaf_index (p # ps) = push_bit 1 (leaf_index ps) + p"
  by (simp_all add: leaf_index_def)

lemma bit_path_Suc: "bit_path (Suc k) i = of_bool (odd i) # bit_path k (i div 2)"
  by (simp add: bit_path_def upt_conv_Cons bit_Suc bit_0 comp_def del: upt_Suc flip: map_Suc_upt)

lemma leaf_index_bit_path: "leaf_index (bit_path k i) = word_of_nat (i mod 2 ^ k)"
proof (induction k arbitrary: i)
  case 0
  then show ?case by (simp add: bit_path_def)
next
  case (Suc k)
  have "i mod 2 ^ Suc k = 2 * (i div 2 mod 2 ^ k) + i mod 2"
    by (simp add: mod_mult2_eq)
  then have "word_of_nat (i mod 2 ^ Suc k) = 2 * word_of_nat (i div 2 mod 2 ^ k) + (word_of_nat (i mod 2) :: u64)"
    by (simp only: of_nat_add of_nat_mult of_nat_numeral)
  with Suc show ?case
    by (simp add: bit_path_Suc push_bit_eq_mult mod_2_eq_odd)
qed

lemma pad_leaves_length:
  assumes "merkle_laws M" and "xs \<noteq> []"
  obtains k where "k > 0" "length (pad_leaves M xs) = 2 ^ k" "length xs \<le> 2 ^ k"
proof -
  from assms have "length xs > 0" by simp
  with assms(1) obtain k where k: "next_pow2 M (length xs) = 2 ^ k" "length xs \<le> 2 ^ k"
    unfolding merkle_laws_def by blast
  show thesis
  proof (cases "k = 0")
    case True
    with k show ?thesis by (intro that [of 1]) (simp_all add: pad_leaves_def)
  next
    case False
    then have "2 ^ 1 \<le> (2 :: nat) ^ k" by (intro power_increasing) simp_all
    with k False show ?thesis by (intro that [of k]) (simp_all add: pad_leaves_def max_def)
  qed
qed

text \<open>The loop that collects the proofs of distinct addresses.\<close>

lemma gen_proofs_collect:
  assumes "\<forall>j < length addrs. mt_gen_proof M t (i + j) = Inr (pf j)" and "distinct addrs" and "bm_ok m"
  shows "\<exists>m'. gen_proofs M t i addrs m = Inr m' \<and> bm_ok m' \<and>
    (\<forall>j < length addrs. map_of m' (addrs ! j) = Some (pf_lemma M (pf j), pf_path M (pf j))) \<and>
    (\<forall>a. a \<notin> set addrs \<longrightarrow> map_of m' a = map_of m a)"
  using assms
proof (induction addrs arbitrary: i m pf)
  case Nil
  then show ?case by simp
next
  case (Cons a addrs)
  let ?v = "(pf_lemma M (pf 0), pf_path M (pf 0))"
  from Cons.prems(1) have p0: "mt_gen_proof M t i = Inr (pf 0)"
    by (metis add.right_neutral length_greater_0_conv list.distinct(1))
  have "\<forall>j < length addrs. mt_gen_proof M t (Suc i + j) = Inr (pf (Suc j))"
    using Cons.prems(1) by (auto dest: spec [of _ "Suc _"])
  from Cons.IH [OF this, of "bm_insert a ?v m"] Cons.prems obtain m' where
    m': "gen_proofs M t (Suc i) addrs (bm_insert a ?v m) = Inr m'" "bm_ok m'"
    "\<forall>j < length addrs. map_of m' (addrs ! j) = Some (pf_lemma M (pf (Suc j)), pf_path M (pf (Suc j)))"
    "\<forall>b. b \<notin> set addrs \<longrightarrow> map_of m' b = map_of (bm_insert a ?v m) b"
    by (auto simp: bm_ok_insert)
  from m'(4) Cons.prems have "map_of m' a = Some ?v" by (simp add: map_of_bm_insert)
  with m' Cons.prems p0 show ?case
    by (auto simp: map_of_bm_insert less_Suc_eq_0_disj)
qed

lemma leaf_index_bits:
  assumes "set p \<subseteq> {0, 1}" and "length p \<le> 64"
  shows "\<exists>i < 2 ^ length p. p = bit_path (length p) i \<and> unat (leaf_index p) = i"
  using assms
proof (induction p)
  case Nil
  then show ?case by (simp add: bit_path_def)
next
  case (Cons b p)
  then obtain i where i: "i < 2 ^ length p" "p = bit_path (length p) i" by auto
  let ?i = "2 * i + (if b = 1 then 1 else 0)"
  have path: "b # p = bit_path (length (b # p)) ?i"
    using Cons.prems(1) i by (auto simp: bit_path_Suc)
  have lt: "?i < 2 ^ length (b # p)" using i(1) by simp
  have "?i < 2 ^ 64"
    using lt Cons.prems(2) by (meson less_le_trans one_le_numeral power_increasing)
  moreover have "leaf_index (b # p) = word_of_nat ?i"
    using leaf_index_bit_path [of "length (b # p)" ?i] lt unfolding path [symmetric] by (metis mod_less)
  ultimately have "unat (leaf_index (b # p)) = ?i" by (simp only: unat_of_nat) simp
  with path lt show ?case by blast
qed

lemma built_proofs_validate:
  assumes "merkle_laws M" and "addrs \<noteq> []" and "distinct addrs"
  shows "\<exists>root proofs. build_payment_proofs M addrs = Inr (root, proofs) \<and>
    fst ` set proofs = set addrs \<and>
    (\<forall>i < length addrs. \<exists>trail path. map_of proofs (addrs ! i) = Some (trail, path) \<and>
       validate_payment_proof M (addrs ! i) root trail path = Inr (word_of_nat i))"
proof -
  from assms(1,2) obtain k where k: "k > 0" "length (pad_leaves M addrs) = 2 ^ k" "length addrs \<le> 2 ^ k"
    by (rule pad_leaves_length)
  with assms(1) obtain t where t: "mt_new M (pad_leaves M addrs) = Inr t"
    and pfs: "\<forall>i < 2 ^ k. \<exists>p. mt_gen_proof M t i = Inr p \<and> pf_path M p = bit_path k i \<and>
      (\<exists>q. pf_new M (pf_lemma M p) (pf_path M p) = Inr q \<and>
         pf_item M q = hash_leaf M (pad_leaves M addrs ! i) \<and> pf_root M q = mt_root M t \<and> pf_validate M q = Inr True)"
    unfolding merkle_laws_def by blast
  then obtain pf where pf: "\<And>i. i < 2 ^ k \<Longrightarrow> mt_gen_proof M t i = Inr (pf i) \<and> pf_path M (pf i) = bit_path k i \<and>
      (\<exists>q. pf_new M (pf_lemma M (pf i)) (pf_path M (pf i)) = Inr q \<and>
         pf_item M q = hash_leaf M (pad_leaves M addrs ! i) \<and> pf_root M q = mt_root M t \<and> pf_validate M q = Inr True)"
    by metis
  have "\<forall>j < length addrs. mt_gen_proof M t (0 + j) = Inr (pf j)" using pf k(3) by auto
  from gen_proofs_collect [OF this assms(3), of "[]"] obtain m where
    m: "gen_proofs M t 0 addrs [] = Inr m"
    "\<forall>j < length addrs. map_of m (addrs ! j) = Some (pf_lemma M (pf j), pf_path M (pf j))"
    "\<forall>a. a \<notin> set addrs \<longrightarrow> map_of m a = None" by auto
  have "validate_payment_proof M (addrs ! i) (mt_root M t) (pf_lemma M (pf i)) (pf_path M (pf i)) = Inr (word_of_nat i)"
    if "i < length addrs" for i
  proof -
    have "pad_leaves M addrs ! i = addrs ! i" using that by (simp add: pad_leaves_def Let_def nth_append)
    with that pf [of i] k(3) leaf_index_bit_path [of k i] show ?thesis
      by (auto simp: validate_payment_proof_def simp del: bind_result_Inr_iff)
  qed
  moreover have "dom (map_of m) = set addrs"
  proof
    show "dom (map_of m) \<subseteq> set addrs" using m(3) by (auto simp: dom_def)
    show "set addrs \<subseteq> dom (map_of m)" using m(2) by (auto simp: in_set_conv_nth)
  qed
  then have "fst ` set m = set addrs" by (simp add: dom_map_of_conv_image_fst)
  ultimately show ?thesis
    using m t assms(2) by (auto simp: build_payment_proofs_def)
qed

section \<open>A concrete instance of the Merkle tree crate\<close>

definition demo_merkle :: "(bytes list, bytes list \<times> u64 list) merkle_env" where
  "demo_merkle = \<lparr>next_pow2 = (\<lambda>n. 2 ^ n), mt_new = Inr, mt_root = concat,
     mt_gen_proof = (\<lambda>t i. Inr ([t ! i, concat t], map (\<lambda>j. of_bool (bit i j)) (filter (\<lambda>j. 2 ^ j < length t) [0..<length t]))),
     pf_new = (\<lambda>l p. Inr (l, p)), pf_lemma = fst, pf_path = snd, pf_item = (\<lambda>q. hd (fst q)),
     pf_root = (\<lambda>q. last (fst q)), pf_validate = (\<lambda>q. Inr True), hash_leaf = (\<lambda>b. b)\<rparr>"

lemma filter_pow_upt: "filter (\<lambda>j. j < k) [0..<2 ^ k] = [0..<k]"
proof -
  have "k \<le> 2 ^ k" by (simp add: less_imp_le)
  then have "[0..<2 ^ k] = [0..<k] @ [k..<2 ^ k]" using upt_add_eq_append [of 0 k "2 ^ k - k"] by simp
  then show ?thesis by (simp add: filter_empty_conv)
qed

lemma demo_merkle_laws: "merkle_laws demo_merkle"
proof -
  have "n \<le> 2 ^ n" for n :: nat by (simp add: less_imp_le)
  then show ?thesis
    unfolding merkle_laws_def
    by (auto simp: demo_merkle_def bit_path_def filter_pow_upt)
qed

section \<open>Properties\<close>

text \<open>C23: For a non-empty list of distinct content addresses, \<open>build_payment_proofs\<close> succeeds and
  every address gets an audit trail that \<open>validate_payment_proof\<close> accepts against the root
  hash, returning the address's position in the list; no other address gets a trail.\<close>

theorem payment_proofs_roundtrip:
  assumes "merkle_laws M" and "addrs \<noteq> []" and "distinct addrs"
  shows "\<exists>root proofs. build_payment_proofs M addrs = Inr (root, proofs) \<and>
    fst ` set proofs = set addrs \<and>
    (\<forall>i < length addrs. \<exists>trail path. map_of proofs (addrs ! i) = Some (trail, path) \<and>
       validate_payment_proof M (addrs ! i) root trail path = Inr (word_of_nat i))"
  by (rule built_proofs_validate [OF assms])

theorem payment_proofs_roundtrip_witness:
  "\<exists>root proofs trail path. build_payment_proofs demo_merkle [[1], [2], [3]] = Inr (root, proofs) \<and>
    map_of proofs [3] = Some (trail, path) \<and> validate_payment_proof demo_merkle [3] root trail path = Inr 2"
proof -
  from payment_proofs_roundtrip [OF demo_merkle_laws, of "[[1], [2], [3]]"] obtain root proofs where
    ok: "build_payment_proofs demo_merkle [[1], [2], [3]] = Inr (root, proofs)" and
    all: "\<forall>i < length [[1], [2], [3 :: byte]]. \<exists>trail path. map_of proofs ([[1], [2], [3]] ! i) = Some (trail, path) \<and>
       validate_payment_proof demo_merkle ([[1], [2], [3]] ! i) root trail path = Inr (word_of_nat i)" by auto
  from all [rule_format, of 2] ok show ?thesis by auto
qed

text \<open>On paths of left and right turns no longer than the word size, \<open>leaf_index\<close> is a
  bijection onto the positions below two to the length: it never wraps around, and two
  different paths of the same length name different leaves.\<close>

theorem leaf_index_injective:
  assumes "set p \<subseteq> {0, 1}" and "set q \<subseteq> {0, 1}" and "length p = length q" and "length p \<le> 64"
  shows "unat (leaf_index p) < 2 ^ length p \<and> (leaf_index p = leaf_index q \<longleftrightarrow> p = q)"
  using leaf_index_bits [of p] leaf_index_bits [of q] assms by (metis order.trans)

theorem leaf_index_injective_witness:
  "leaf_index [0, 1, 1] \<noteq> leaf_index [1, 1, 0] \<and> unat (leaf_index [0, 1, 1]) < 8"
  using leaf_index_injective [of "[0, 1, 1]" "[1, 1, 0]"] by simp

end
