(* ===== verification/Wallet.thy ===== *)
theory Wallet
  imports Payment_Proof
begin

text \<open>
  The module wallet of sn_transfers: the local wallet with its available and spent DBCs, its
  balance and cached payment proofs, the offline sends, and its files on disk (key pair,
  wallet, received and created DBCs). A file system is a list of files in the order a directory
  walk meets them together with the existing directories; which of its operations fail is an
  argument.
\<close>

section \<open>State\<close>

type_synonym payment_proofs_map = "(xorname, payment_proof) btree_map"

record 'dbc keyless_wallet =
  balance :: token
  spent_dbcs :: "(dbc_id, 'dbc) btree_map"
  available_dbcs :: "(dbc_id, 'dbc) btree_map"
  dbcs_created_for_others :: "'dbc list"
  paymet_proofs :: payment_proofs_map

type_synonym path = "string list"

record 'dbc local_wallet =
  wal_key :: main_key
  wallet :: "'dbc keyless_wallet"
  wallet_dir :: path

datatype wallet_error =
    NoDbcsAvailable
  | CreateTransfer transfer_error
  | StoragePaymentProof proof_error
  | CouldNotSendTokens string
  | CouldNotGetStoreCost string
  | CouldNotVerifyTransfer string
  | UnconfirmedTxAfterRetries
  | FailedToParseBlsKey
  | FailedToDecodeHexToKey
  | FailedToHexEncodeKey string
  | DbcErr dbc_error
  | BlsErr string
  | BincodeErr string
  | IoErr string

section \<open>The wallet without its key\<close>

definition keyless_wallet_new :: "'dbc keyless_wallet" where
  "keyless_wallet_new = \<lparr>balance = 0, spent_dbcs = [], available_dbcs = [], dbcs_created_for_others = [],
     paymet_proofs = []\<rparr>"

text \<open>
  The balance is summed up with the wrapping addition of a release build. A DBC whose key
  cannot be derived or whose amount cannot be read does not count.
\<close>

definition available_sum :: "('dbc, 's, 'b) dbc_env \<Rightarrow> main_key \<Rightarrow> (dbc_id, 'dbc) btree_map \<Rightarrow> token" where
  "available_sum D key m =
     fold (\<lambda>(_, dbc) total. if is_ok (dbc_derived_key D dbc key)
             then (case dbc_token D dbc of Inr t \<Rightarrow> total + t | Inl _ \<Rightarrow> total) else total) m 0"

definition keyless_deposit :: "('dbc, 's, 'b) dbc_env \<Rightarrow> 'dbc keyless_wallet \<Rightarrow> 'dbc list \<Rightarrow> main_key
    \<Rightarrow> 'dbc keyless_wallet" where
  "keyless_deposit D w dbcs key =
     (if dbcs = [] then w
      else let received = filter (\<lambda>(_, dbc). is_ok (dbc_derived_key D dbc key))
                 (filter (\<lambda>(i, _). \<not> bm_contains_key (spent_dbcs w) i) (map (\<lambda>dbc. (dbc_id_of D dbc, dbc)) dbcs));
               available = bm_append (available_dbcs w) (bm_collect received)
           in w\<lparr>available_dbcs := available, balance := available_sum D key available\<rparr>)"

section \<open>The local wallet\<close>

definition wallet_address :: "('dbc, 's, 'b) dbc_env \<Rightarrow> 'dbc local_wallet \<Rightarrow> public_address" where
  "wallet_address D w = main_public_address D (wal_key w)"

definition wallet_balance :: "'dbc local_wallet \<Rightarrow> token" where
  "wallet_balance w = balance (wallet w)"

definition deposit :: "('dbc, 's, 'b) dbc_env \<Rightarrow> 'dbc local_wallet \<Rightarrow> 'dbc list \<Rightarrow> 'dbc local_wallet" where
  "deposit D w dbcs = w\<lparr>wallet := keyless_deposit D (wallet w) dbcs (wal_key w)\<rparr>"

fun with_derived_keys :: "('dbc, 's, 'b) dbc_env \<Rightarrow> main_key \<Rightarrow> 'dbc list \<Rightarrow> ('dbc \<times> derived_key) list" where
  "with_derived_keys D key [] = []"
| "with_derived_keys D key (dbc # dbcs) =
     (case dbc_derived_key D dbc key of
        Inr k \<Rightarrow> (dbc, k) # with_derived_keys D key dbcs
      | Inl _ \<Rightarrow> with_derived_keys D key dbcs)"

definition wallet_available_dbcs :: "('dbc, 's, 'b) dbc_env \<Rightarrow> 'dbc local_wallet \<Rightarrow> ('dbc \<times> derived_key) list" where
  "wallet_available_dbcs D w = with_derived_keys D (wal_key w) (bm_values (available_dbcs (wallet w)))"

text \<open>The loop of \<open>largest_dbc\<close>; the amounts are only read from the second DBC on.\<close>

definition largest_step :: "('dbc, 's, 'b) dbc_env \<Rightarrow> ('dbc \<times> derived_key) option \<Rightarrow> 'dbc \<times> derived_key
    \<Rightarrow> wallet_error + ('dbc \<times> derived_key) option" where
  "largest_step D largest dk =
     (case largest of
        None \<Rightarrow> Inr (Some dk)
      | Some (big, _) \<Rightarrow>
          bind_result (map_err DbcErr (dbc_token D (fst dk))) (\<lambda>t.
          bind_result (map_err DbcErr (dbc_token D big)) (\<lambda>tb.
            Inr (if t > tb then Some dk else largest))))"

definition largest_dbc :: "('dbc, 's, 'b) dbc_env \<Rightarrow> 'dbc local_wallet \<Rightarrow> wallet_error + 'dbc \<times> derived_key" where
  "largest_dbc D w =
     bind_result (try_fold (largest_step D) None (wallet_available_dbcs D w)) (ok_or NoDbcsAvailable)"

definition add_payment_proofs :: "'dbc local_wallet \<Rightarrow> payment_proofs_map \<Rightarrow> 'dbc local_wallet" where
  "add_payment_proofs w proofs =
     w\<lparr>wallet := (wallet w)\<lparr>paymet_proofs := bm_append (paymet_proofs (wallet w)) proofs\<rparr>\<rparr>"

definition get_payment_proof :: "'dbc local_wallet \<Rightarrow> xorname \<Rightarrow> payment_proof option" where
  "get_payment_proof w name = bm_get (paymet_proofs (wallet w)) name"

text \<open>Removing the spent ids one by one, collecting the DBCs that were there.\<close>

fun take_spent :: "dbc_id list \<Rightarrow> (dbc_id, 'dbc) btree_map \<Rightarrow> (dbc_id \<times> 'dbc) list \<times> (dbc_id, 'dbc) btree_map" where
  "take_spent [] m = ([], m)"
| "take_spent (i # ids) m =
     (case bm_get m i of
        None \<Rightarrow> take_spent ids m
      | Some dbc \<Rightarrow> (case take_spent ids (bm_remove i m) of (taken, m') \<Rightarrow> ((i, dbc) # taken, m')))"

definition update_local_wallet :: "('dbc, 's, 'b) dbc_env \<Rightarrow> 'dbc local_wallet \<Rightarrow> ('dbc, 's) transfer_outputs
    \<Rightarrow> 'dbc local_wallet" where
  "update_local_wallet D w transfer =
     (let spent_dbc_ids = bs_collect (map in_dbc_id (inputs (tx transfer)));
          (taken, available) = take_spent spent_dbc_ids (available_dbcs (wallet w));
          w1 = w\<lparr>wallet := (wallet w)\<lparr>available_dbcs := available\<rparr>\<rparr>;
          w2 = deposit D w1 (case change_dbc transfer of None \<Rightarrow> [] | Some dbc \<Rightarrow> [dbc])
      in w2\<lparr>wallet := (wallet w2)\<lparr>spent_dbcs := bm_append (spent_dbcs (wallet w2)) (bm_collect taken),
              dbcs_created_for_others := dbcs_created_for_others (wallet w2) @ created_dbcs transfer\<rparr>\<rparr>)"

text \<open>
  The derivation indices drawn at random are arguments: one for every recipient and one for
  the change. \<open>Hash::default()\<close> stands in for a missing reason.
\<close>

definition hash_default :: hash where
  "hash_default = replicate 32 0"

definition local_send :: "('dbc, 's::linorder, 'b) dbc_env \<Rightarrow> 'dbc local_wallet \<Rightarrow> (token \<times> public_address) list
    \<Rightarrow> hash option \<Rightarrow> derivation_index list \<Rightarrow> derivation_index
    \<Rightarrow> wallet_error + 'dbc local_wallet \<times> ('dbc, 's) transfer_outputs" where
  "local_send D w to reason_hash indices idx =
     bind_result (map_err CreateTransfer
       (create_transfer D (wallet_available_dbcs D w)
          (map (\<lambda>((amount, address), i). (amount, address, i)) (zip to indices))
          (wallet_address D w) (case reason_hash of None \<Rightarrow> hash_default | Some h \<Rightarrow> h) idx)) (\<lambda>transfer.
     Inr (update_local_wallet D w transfer, transfer))"

definition local_send_storage_payment :: "('dbc, 's::linorder, 'b) dbc_env \<Rightarrow> 'dbc local_wallet \<Rightarrow> token \<Rightarrow> hash
    \<Rightarrow> hash option \<Rightarrow> derivation_index \<Rightarrow> wallet_error + 'dbc local_wallet \<times> ('dbc, 's) transfer_outputs" where
  "local_send_storage_payment D w storage_payment root_hash reason_hash idx =
     bind_result (map_err CreateTransfer
       (create_storage_payment_transfer D (wallet_available_dbcs D w) (wallet_address D w)
          storage_payment root_hash (case reason_hash of None \<Rightarrow> hash_default | Some h \<Rightarrow> h) idx)) (\<lambda>transfer.
     Inr (update_local_wallet D w transfer, transfer))"

section \<open>Files\<close>

datatype io_op = WriteFile path | ReadFile path | CreateDir path

record file_system =
  fs_files :: "(path \<times> bytes) list"
  fs_dirs :: "path list"

text \<open>\<open>io_op \<Rightarrow> string option\<close> says which operations fail, and how.\<close>

type_synonym io_faults = "io_op \<Rightarrow> string option"

definition fs_put :: "path \<Rightarrow> bytes \<Rightarrow> (path \<times> bytes) list \<Rightarrow> (path \<times> bytes) list" where
  "fs_put p bs files = (if p \<in> fst ` set files then map (\<lambda>(q, cs). (q, if q = p then bs else cs)) files
     else files @ [(p, bs)])"

definition fs_write :: "io_faults \<Rightarrow> path \<Rightarrow> bytes \<Rightarrow> file_system \<Rightarrow> wallet_error + file_system" where
  "fs_write F p bs fs =
     (case F (WriteFile p) of
        Some e \<Rightarrow> Inl (IoErr e)
      | None \<Rightarrow> if butlast p \<in> set (fs_dirs fs) \<and> p \<notin> set (fs_dirs fs)
                then Inr (fs\<lparr>fs_files := fs_put p bs (fs_files fs)\<rparr>)
                else Inl (IoErr ''not found''))"

definition fs_read :: "io_faults \<Rightarrow> path \<Rightarrow> file_system \<Rightarrow> wallet_error + bytes" where
  "fs_read F p fs =
     (case F (ReadFile p) of
        Some e \<Rightarrow> Inl (IoErr e)
      | None \<Rightarrow> ok_or (IoErr ''not found'') (map_of (fs_files fs) p))"

definition fs_is_file :: "path \<Rightarrow> file_system \<Rightarrow> bool" where
  "fs_is_file p fs \<longleftrightarrow> map_of (fs_files fs) p \<noteq> None"

definition fs_create_dir_all :: "io_faults \<Rightarrow> path \<Rightarrow> file_system \<Rightarrow> wallet_error + file_system" where
  "fs_create_dir_all F p fs =
     (case F (CreateDir p) of
        Some e \<Rightarrow> Inl (IoErr e)
      | None \<Rightarrow> if \<exists>k \<in> set [0..<Suc (length p)]. fs_is_file (take k p) fs then Inl (IoErr ''not a directory'')
                else Inr (fs\<lparr>fs_dirs := remdups (map (\<lambda>k. take k p) [0..<Suc (length p)] @ fs_dirs fs)\<rparr>))"

text \<open>The encodings of other crates and of the standard library the files rely on.\<close>

record 'dbc codec =
  to_hex_text :: "bytes \<Rightarrow> bytes"
  from_hex_text :: "bytes \<Rightarrow> bytes option"
  hex_name :: "bytes \<Rightarrow> string"
  SK_SIZE :: nat
  PK_SIZE :: nat
  sk_from_bytes :: "bytes \<Rightarrow> string + main_key"
  pk_of_bytes :: "bytes \<Rightarrow> string + public_address"
  main_key_to_bytes :: "main_key \<Rightarrow> bytes"
  public_address_to_bytes :: "public_address \<Rightarrow> bytes"
  wallet_serialize :: "'dbc keyless_wallet \<Rightarrow> string + bytes"
  wallet_deserialize :: "bytes \<Rightarrow> string + 'dbc keyless_wallet"
  dbc_to_hex :: "'dbc \<Rightarrow> dbc_error + bytes"
  dbc_from_hex :: "bytes \<Rightarrow> dbc_error + 'dbc"
  str_from_utf8 :: "bytes \<Rightarrow> bytes option"
  str_trim :: "bytes \<Rightarrow> bytes"
  xor_from_content :: "bytes \<Rightarrow> xorname"

definition bls_secret_from_hex :: "'dbc codec \<Rightarrow> bytes \<Rightarrow> wallet_error + main_key" where
  "bls_secret_from_hex K hex =
     bind_result (ok_or FailedToDecodeHexToKey (from_hex_text K hex)) (\<lambda>bs.
       if length bs \<noteq> SK_SIZE K then Inl FailedToParseBlsKey else map_err BlsErr (sk_from_bytes K bs))"

definition bls_public_from_hex :: "'dbc codec \<Rightarrow> bytes \<Rightarrow> wallet_error + public_address" where
  "bls_public_from_hex K hex =
     bind_result (ok_or FailedToDecodeHexToKey (from_hex_text K hex)) (\<lambda>bs.
       if length bs \<noteq> PK_SIZE K then Inl FailedToParseBlsKey else map_err BlsErr (pk_of_bytes K bs))"

definition parse_public_address :: "'dbc codec \<Rightarrow> bytes \<Rightarrow> wallet_error + public_address" where
  "parse_public_address K hex = bls_public_from_hex K hex"

definition store_new_keypair :: "('dbc, 's, 'b) dbc_env \<Rightarrow> 'dbc codec \<Rightarrow> io_faults \<Rightarrow> path \<Rightarrow> main_key
    \<Rightarrow> file_system \<Rightarrow> wallet_error + file_system" where
  "store_new_keypair D K F dir main_key fs =
     bind_result (fs_write F (dir @ [''main_key'']) (to_hex_text K (main_key_to_bytes K main_key)) fs) (\<lambda>fs.
       map_err (\<lambda>e. case e of IoErr msg \<Rightarrow> FailedToHexEncodeKey msg | _ \<Rightarrow> e)
         (fs_write F (dir @ [''public_address''])
            (to_hex_text K (public_address_to_bytes K (main_public_address D main_key))) fs))"

definition get_main_key :: "'dbc codec \<Rightarrow> io_faults \<Rightarrow> path \<Rightarrow> file_system \<Rightarrow> wallet_error + main_key option" where
  "get_main_key K F dir fs =
     (if \<not> fs_is_file (dir @ [''main_key'']) fs then Inr None
      else bind_result (fs_read F (dir @ [''main_key'']) fs) (\<lambda>secret_hex.
        bind_result (bls_secret_from_hex K secret_hex) (\<lambda>secret. Inr (Some secret))))"

definition create_received_dbcs_dir :: "io_faults \<Rightarrow> path \<Rightarrow> file_system \<Rightarrow> wallet_error + file_system" where
  "create_received_dbcs_dir F dir fs = fs_create_dir_all F (dir @ [''received_dbcs'']) fs"

definition store_wallet :: "'dbc codec \<Rightarrow> io_faults \<Rightarrow> path \<Rightarrow> 'dbc keyless_wallet \<Rightarrow> file_system
    \<Rightarrow> wallet_error + file_system" where
  "store_wallet K F dir w fs =
     bind_result (map_err BincodeErr (wallet_serialize K w)) (\<lambda>bs. fs_write F (dir @ [''wallet'']) bs fs)"

definition get_wallet :: "'dbc codec \<Rightarrow> io_faults \<Rightarrow> path \<Rightarrow> file_system \<Rightarrow> wallet_error + 'dbc keyless_wallet option" where
  "get_wallet K F dir fs =
     (if \<not> fs_is_file (dir @ [''wallet'']) fs then Inr None
      else bind_result (fs_read F (dir @ [''wallet'']) fs) (\<lambda>bs.
        bind_result (map_err BincodeErr (wallet_deserialize K bs)) (\<lambda>w. Inr (Some w))))"

definition public_address_name :: "'dbc codec \<Rightarrow> public_address \<Rightarrow> xorname" where
  "public_address_name K a = xor_from_content K (public_address_to_bytes K a)"

definition dbc_file_path :: "('dbc, 's, 'b) dbc_env \<Rightarrow> 'dbc codec \<Rightarrow> path \<Rightarrow> 'dbc \<Rightarrow> path \<times> string" where
  "dbc_file_path D K dir dbc =
     (dir @ [''created_dbcs'', ''public_address_'' @ hex_name K (public_address_name K (dbc_public_address D dbc))],
      hex_name K (xor_from_content K (dbc_id_of D dbc)) @ ''.dbc'')"

definition store_created_dbcs :: "('dbc, 's, 'b) dbc_env \<Rightarrow> 'dbc codec \<Rightarrow> io_faults \<Rightarrow> 'dbc list \<Rightarrow> path
    \<Rightarrow> file_system \<Rightarrow> wallet_error + file_system" where
  "store_created_dbcs D K F dbcs dir fs =
     try_fold (\<lambda>fs dbc. case dbc_file_path D K dir dbc of (address_dir, name) \<Rightarrow>
         bind_result (fs_create_dir_all F address_dir fs) (\<lambda>fs.
         bind_result (map_err DbcErr (dbc_to_hex K dbc)) (\<lambda>hex.
           fs_write F (address_dir @ [name]) hex fs))) fs dbcs"

text \<open>\<open>received_path\<close> is the value of \<open>RECEIVED_DBCS_PATH\<close>, if set.\<close>

definition load_received_dbcs :: "'dbc codec \<Rightarrow> io_faults \<Rightarrow> path option \<Rightarrow> path \<Rightarrow> file_system
    \<Rightarrow> wallet_error + 'dbc list" where
  "load_received_dbcs K F received_path dir fs =
     (let root = (case received_path of Some p \<Rightarrow> p | None \<Rightarrow> dir @ [''received_dbcs''])
      in try_fold (\<lambda>deposits p.
           bind_result (fs_read F p fs) (\<lambda>bs.
           bind_result (ok_or (IoErr ''stream did not contain valid UTF-8'') (str_from_utf8 K bs)) (\<lambda>dbc_data.
             Inr (case dbc_from_hex K (str_trim K dbc_data) of Inr dbc \<Rightarrow> deposits @ [dbc] | Inl _ \<Rightarrow> deposits))))
         [] (filter (prefix root) (map fst (fs_files fs))))"

text \<open>\<open>random_key\<close> is the key drawn when the wallet directory has none.\<close>

definition load_from_path :: "('dbc, 's, 'b) dbc_env \<Rightarrow> 'dbc codec \<Rightarrow> io_faults \<Rightarrow> main_key \<Rightarrow> path \<Rightarrow> file_system
    \<Rightarrow> wallet_error + (main_key \<times> 'dbc keyless_wallet) \<times> file_system" where
  "load_from_path D K F random_key dir fs =
     bind_result (get_main_key K F dir fs) (\<lambda>found.
     bind_result (case found of Some key \<Rightarrow> Inr (key, fs)
        | None \<Rightarrow> bind_result (store_new_keypair D K F dir random_key fs) (\<lambda>fs. Inr (random_key, fs))) (\<lambda>(key, fs).
     bind_result (get_wallet K F dir fs) (\<lambda>found_wallet.
       case found_wallet of
         Some w \<Rightarrow> Inr ((key, w), fs)
       | None \<Rightarrow>
           bind_result (store_wallet K F dir keyless_wallet_new fs) (\<lambda>fs.
           bind_result (create_received_dbcs_dir F dir fs) (\<lambda>fs.
             Inr ((key, keyless_wallet_new), fs))))))"

definition load_from :: "('dbc, 's, 'b) dbc_env \<Rightarrow> 'dbc codec \<Rightarrow> io_faults \<Rightarrow> main_key \<Rightarrow> path \<Rightarrow> file_system
    \<Rightarrow> wallet_error + 'dbc local_wallet \<times> file_system" where
  "load_from D K F random_key root_dir fs =
     (let dir = root_dir @ [''wallet'']
      in bind_result (fs_create_dir_all F dir fs) (\<lambda>fs.
         bind_result (load_from_path D K F random_key dir fs) (\<lambda>((key, w), fs).
           Inr (\<lparr>wal_key = key, wallet = w, wallet_dir = dir\<rparr>, fs))))"

definition wallet_store :: "'dbc codec \<Rightarrow> io_faults \<Rightarrow> 'dbc local_wallet \<Rightarrow> file_system \<Rightarrow> wallet_error + file_system" where
  "wallet_store K F w fs = store_wallet K F (wallet_dir w) (wallet w) fs"

definition store_created_dbc :: "('dbc, 's, 'b) dbc_env \<Rightarrow> 'dbc codec \<Rightarrow> io_faults \<Rightarrow> 'dbc local_wallet \<Rightarrow> 'dbc
    \<Rightarrow> file_system \<Rightarrow> wallet_error + file_system" where
  "store_created_dbc D K F w dbc fs = store_created_dbcs D K F [dbc] (wallet_dir w) fs"

definition try_load_deposits :: "('dbc, 's, 'b) dbc_env \<Rightarrow> 'dbc codec \<Rightarrow> io_faults \<Rightarrow> path option \<Rightarrow> file_system
    \<Rightarrow> 'dbc local_wallet \<Rightarrow> wallet_error + 'dbc local_wallet" where
  "try_load_deposits D K F received_path fs w =
     bind_result (load_received_dbcs K F received_path (wallet_dir w) fs) (\<lambda>deposited. Inr (deposit D w deposited))"

section \<open>The wallet invariant\<close>

text \<open>
  Both maps are keyed by the ids of their DBCs, no id is both available and spent, and every
  available DBC can be spent with the wallet's key.
\<close>

definition dbc_map_ok :: "('dbc, 's, 'b) dbc_env \<Rightarrow> (dbc_id, 'dbc) btree_map \<Rightarrow> bool" where
  "dbc_map_ok D m \<longleftrightarrow> bm_ok m \<and> list_all (\<lambda>(i, d). i = dbc_id_of D d) m"

definition wallet_ok :: "('dbc, 's, 'b) dbc_env \<Rightarrow> 'dbc local_wallet \<Rightarrow> bool" where
  "wallet_ok D w \<longleftrightarrow> dbc_map_ok D (available_dbcs (wallet w)) \<and> dbc_map_ok D (spent_dbcs (wallet w)) \<and>
     list_all (\<lambda>(i, d). is_ok (dbc_derived_key D d (wal_key w)) \<and> \<not> bm_contains_key (spent_dbcs (wallet w)) i)
       (available_dbcs (wallet w))"

definition wallet_value :: "('dbc, 's, 'b) dbc_env \<Rightarrow> 'dbc local_wallet \<Rightarrow> nat" where
  "wallet_value D w = funds D (wallet_available_dbcs D w)"

lemma bm_ok_in_set: "bm_ok m \<Longrightarrow> (i, d) \<in> set m \<longleftrightarrow> map_of m i = Some d"
  by (simp add: bm_ok_distinct)

lemma dbc_map_ok_iff:
  "dbc_map_ok D m \<longleftrightarrow> bm_ok m \<and> (\<forall>i d. map_of m i = Some d \<longrightarrow> i = dbc_id_of D d)"
  by (auto simp: dbc_map_ok_def list_all_iff bm_ok_in_set)

lemma wallet_ok_iff:
  "wallet_ok D w \<longleftrightarrow> dbc_map_ok D (available_dbcs (wallet w)) \<and> dbc_map_ok D (spent_dbcs (wallet w)) \<and>
     (\<forall>i d. map_of (available_dbcs (wallet w)) i = Some d \<longrightarrow>
        is_ok (dbc_derived_key D d (wal_key w)) \<and> map_of (spent_dbcs (wallet w)) i = None)"
  by (auto simp: wallet_ok_def list_all_iff bm_ok_in_set dbc_map_ok_iff bm_contains_key_def)

lemma dbc_map_ok_append:
  assumes "dbc_map_ok D m" and "\<forall>(i, d) \<in> set es. i = dbc_id_of D d"
  shows "dbc_map_ok D (bm_append m es)"
  using assms by (auto simp: dbc_map_ok_iff bm.ok_append bm.get_append map_add_Some_iff dest!: map_of_SomeD)

lemma map_of_rev_bm_collect: "map_of (rev (bm_collect es)) = map_of (rev es)"
proof -
  have "map_of (rev (bm_collect es)) = map_of (bm_collect es)"
    by (subst map_of_inject_set) (simp_all add: bm_ok_distinct flip: rev_map)
  then show ?thesis by (simp add: map_of_bm_collect)
qed

lemma map_add_idem: "m ++ n ++ n = m ++ n"
  by (auto simp: fun_eq_iff map_add_def split: option.splits)

section \<open>Lemmas on deposits\<close>

lemma with_derived_keys_append [simp]:
  "with_derived_keys D k (xs @ ys) = with_derived_keys D k xs @ with_derived_keys D k ys"
  by (induction xs) (auto split: sum.splits)

lemma available_sum_funds:
  "available_sum D k m = word_of_nat (funds D (with_derived_keys D k (map snd m)))"
proof (induction m rule: rev_induct)
  case Nil
  then show ?case by (simp add: available_sum_def)
next
  case (snoc x m)
  obtain i d where x: "x = (i, d)" by fastforce
  have "available_sum D k (m @ [(i, d)]) =
    (if is_ok (dbc_derived_key D d k)
     then (case dbc_token D d of Inr t \<Rightarrow> available_sum D k m + t | Inl _ \<Rightarrow> available_sum D k m)
     else available_sum D k m)"
    by (simp add: available_sum_def split: sum.splits)
  with snoc x show ?case by (auto simp: is_ok_def token_value_def split: sum.splits)
qed

definition received :: "('dbc, 's, 'b) dbc_env \<Rightarrow> 'dbc local_wallet \<Rightarrow> 'dbc list \<Rightarrow> (dbc_id \<times> 'dbc) list" where
  "received D w dbcs = filter (\<lambda>(_, dbc). is_ok (dbc_derived_key D dbc (wal_key w)))
     (filter (\<lambda>(i, _). \<not> bm_contains_key (spent_dbcs (wallet w)) i) (map (\<lambda>dbc. (dbc_id_of D dbc, dbc)) dbcs))"

lemma deposit_eq:
  assumes "dbcs \<noteq> []"
  shows "deposit D w dbcs = w\<lparr>wallet := (wallet w)\<lparr>
      available_dbcs := bm_append (available_dbcs (wallet w)) (bm_collect (received D w dbcs)),
      balance := available_sum D (wal_key w) (bm_append (available_dbcs (wallet w)) (bm_collect (received D w dbcs)))\<rparr>\<rparr>"
  using assms by (simp add: deposit_def keyless_deposit_def received_def Let_def)

lemma deposit_Nil [simp]: "deposit D w [] = w"
  by (simp add: deposit_def keyless_deposit_def)

lemma deposit_sel [simp]:
  "wal_key (deposit D w dbcs) = wal_key w" "wallet_dir (deposit D w dbcs) = wallet_dir w"
  "spent_dbcs (wallet (deposit D w dbcs)) = spent_dbcs (wallet w)"
  "dbcs_created_for_others (wallet (deposit D w dbcs)) = dbcs_created_for_others (wallet w)"
  "paymet_proofs (wallet (deposit D w dbcs)) = paymet_proofs (wallet w)"
  by (simp_all add: deposit_def keyless_deposit_def Let_def)

lemma received_in_set:
  "(i, d) \<in> set (received D w dbcs) \<longleftrightarrow> d \<in> set dbcs \<and> i = dbc_id_of D d \<and>
     is_ok (dbc_derived_key D d (wal_key w)) \<and> map_of (spent_dbcs (wallet w)) i = None"
  by (auto simp: received_def bm_contains_key_def)

lemma deposit_available:
  assumes "bm_ok (available_dbcs (wallet w))"
  shows "map_of (available_dbcs (wallet (deposit D w dbcs))) =
    map_of (available_dbcs (wallet w)) ++ map_of (rev (received D w dbcs))"
proof (cases "dbcs = []")
  case False
  with assms show ?thesis by (simp add: deposit_eq bm.get_append map_of_rev_bm_collect)
qed (simp add: received_def)

lemma bm_ok_deposit: "bm_ok (available_dbcs (wallet w)) \<Longrightarrow> bm_ok (available_dbcs (wallet (deposit D w dbcs)))"
  by (cases "dbcs = []") (simp_all add: deposit_eq bm.ok_append)

lemma wallet_ok_deposit [wf_intros]:
  assumes "wallet_ok D w"
  shows "wallet_ok D (deposit D w dbcs)"
proof -
  have ok: "bm_ok (available_dbcs (wallet w))" using assms by (simp add: wallet_ok_iff dbc_map_ok_iff)
  have new: "d \<in> set dbcs \<and> i = dbc_id_of D d \<and> is_ok (dbc_derived_key D d (wal_key w)) \<and>
      map_of (spent_dbcs (wallet w)) i = None"
    if "map_of (rev (received D w dbcs)) i = Some d" for i d
    using that received_in_set [of i d D w dbcs] by (auto dest: map_of_SomeD)
  show ?thesis
    using assms ok unfolding wallet_ok_iff dbc_map_ok_iff
    by (auto simp: deposit_available bm_ok_deposit map_add_Some_iff dest: new)
qed

section \<open>Lemmas on spending\<close>

lemma take_spent_eq:
  assumes "take_spent ids m = (taken, m')" and "distinct ids" and "bm_ok m"
  shows "m' = filter (\<lambda>(i, _). i \<notin> set ids) m \<and> set taken = {(i, d). i \<in> set ids \<and> map_of m i = Some d}"
  using assms
proof (induction ids m arbitrary: taken m' rule: take_spent.induct)
  case (1 m)
  then show ?case by (simp add: case_prod_beta)
next
  case (2 i ids m)
  show ?case
  proof (cases "map_of m i")
    case None
    then have "i \<notin> fst ` set m" by (simp add: map_of_eq_None_iff)
    then have "filter (\<lambda>(j, _). j \<notin> set (i # ids)) m = filter (\<lambda>(j, _). j \<notin> set ids) m"
      by (intro filter_cong) force+
    with None 2 show ?thesis by auto
  next
    case (Some d)
    with "2.prems" obtain taken' where t: "take_spent ids (bm_remove i m) = (taken', m')"
      and taken: "taken = (i, d) # taken'" by (auto split: prod.splits)
    from "2.IH"(2) [OF Some t] "2.prems" have
      m': "m' = filter (\<lambda>(j, _). j \<notin> set ids) (bm_remove i m)" and
      taken': "set taken' = {(j, e). j \<in> set ids \<and> map_of (bm_remove i m) j = Some e}"
      by (auto simp: bm_ok_remove)
    from m' have "m' = filter (\<lambda>(j, _). j \<notin> set (i # ids)) m"
      by (auto simp: bm_remove_def intro: filter_cong)
    with taken taken' Some "2.prems" show ?thesis by (auto simp: map_of_bm_remove split: if_splits)
  qed
qed

definition input_ids :: "('dbc, 's) transfer_outputs \<Rightarrow> dbc_id set" where
  "input_ids t = in_dbc_id ` set (inputs (tx t))"

definition without_spent :: "'dbc local_wallet \<Rightarrow> ('dbc, 's) transfer_outputs \<Rightarrow> 'dbc local_wallet" where
  "without_spent w t = w\<lparr>wallet := (wallet w)\<lparr>available_dbcs :=
     filter (\<lambda>(i, _). i \<notin> input_ids t) (available_dbcs (wallet w))\<rparr>\<rparr>"

abbreviation change_list :: "('dbc, 's) transfer_outputs \<Rightarrow> 'dbc list" where
  "change_list t \<equiv> (case change_dbc t of None \<Rightarrow> [] | Some d \<Rightarrow> [d])"

lemma update_local_wallet_eq:
  assumes "bm_ok (available_dbcs (wallet w))"
  obtains taken where "update_local_wallet D w t =
      (deposit D (without_spent w t) (change_list t))\<lparr>wallet := (wallet (deposit D (without_spent w t) (change_list t)))\<lparr>
         spent_dbcs := bm_append (spent_dbcs (wallet w)) (bm_collect taken),
         dbcs_created_for_others := dbcs_created_for_others (wallet w) @ created_dbcs t\<rparr>\<rparr>"
    and "set taken = {(i, d). i \<in> input_ids t \<and> map_of (available_dbcs (wallet w)) i = Some d}"
proof -
  let ?ids = "bs_collect (map in_dbc_id (inputs (tx t)))"
  obtain taken m' where ts: "take_spent ?ids (available_dbcs (wallet w)) = (taken, m')" by fastforce
  have "distinct ?ids" using bs_collect_ok by (auto simp: bs_ok_def)
  from take_spent_eq [OF ts this assms] have
    "m' = available_dbcs (wallet (without_spent w t))"
    "set taken = {(i, d). i \<in> input_ids t \<and> map_of (available_dbcs (wallet w)) i = Some d}"
    by (simp_all add: without_spent_def input_ids_def)
  then show thesis
    using ts by (intro that [of taken]) (simp_all add: update_local_wallet_def without_spent_def Let_def)
qed

lemma map_of_filter_keys: "map_of (filter (\<lambda>(i, _). P i) m) i = (if P i then map_of m i else None)"
  by (induction m) auto

lemma bm_ok_filter: "bm_ok m \<Longrightarrow> bm_ok (filter P m)"
  by (simp add: bm_ok_def sorted_wrt_filter sorted_wrt_map)

lemma wallet_ok_without_spent:
  "wallet_ok D w \<Longrightarrow> wallet_ok D (without_spent w t)"
  by (auto simp: wallet_ok_iff dbc_map_ok_iff without_spent_def bm_ok_filter map_of_filter_keys
      split: if_splits)

lemma wallet_ok_update [wf_intros]:
  assumes ok: "wallet_ok D w" and fresh: "\<forall>d. change_dbc t = Some d \<longrightarrow> dbc_id_of D d \<notin> input_ids t"
  shows "wallet_ok D (update_local_wallet D w t)"
proof -
  let ?w = "deposit D (without_spent w t) (change_list t)"
  from ok have av: "dbc_map_ok D (available_dbcs (wallet w))" by (simp add: wallet_ok_iff)
  then have "bm_ok (available_dbcs (wallet w))" by (simp add: dbc_map_ok_iff)
  then obtain taken where upd: "update_local_wallet D w t = ?w\<lparr>wallet := (wallet ?w)\<lparr>
         spent_dbcs := bm_append (spent_dbcs (wallet w)) (bm_collect taken),
         dbcs_created_for_others := dbcs_created_for_others (wallet w) @ created_dbcs t\<rparr>\<rparr>"
    and taken: "set taken = {(i, d). i \<in> input_ids t \<and> map_of (available_dbcs (wallet w)) i = Some d}"
    by (rule update_local_wallet_eq)
  have okd: "wallet_ok D ?w" by (intro wf_intros wallet_ok_without_spent ok)
  have spent: "map_of (bm_append (spent_dbcs (wallet w)) (bm_collect taken)) =
      map_of (spent_dbcs (wallet w)) ++ map_of (rev taken)"
    using ok by (simp add: wallet_ok_iff dbc_map_ok_iff bm.get_append map_of_rev_bm_collect)
  have keys: "i \<notin> input_ids t" if "map_of (available_dbcs (wallet ?w)) i = Some d" for i d
  proof -
    from ok have "bm_ok (available_dbcs (wallet (without_spent w t)))"
      by (simp add: wallet_ok_iff dbc_map_ok_iff without_spent_def bm_ok_filter)
    with that have "map_of (available_dbcs (wallet (without_spent w t))) i = Some d \<or>
        (i, d) \<in> set (received D (without_spent w t) (change_list t))"
      by (auto simp: deposit_available map_add_Some_iff dest: map_of_SomeD)
    then show ?thesis
      using fresh by (auto simp: without_spent_def map_of_filter_keys received_in_set split: if_splits option.splits)
  qed
  then have disj: "map_of (rev taken) i = None" if "map_of (available_dbcs (wallet ?w)) i = Some d" for i d
    using that taken by (auto simp: map_of_eq_None_iff)
  have "dbc_map_ok D (bm_append (spent_dbcs (wallet w)) (bm_collect taken))"
  proof (rule dbc_map_ok_append)
    show "\<forall>(i, d) \<in> set (bm_collect taken). i = dbc_id_of D d"
      using taken av set_bm_collect_subset [of taken] by (auto simp: dbc_map_ok_iff)
  qed (use ok in \<open>simp add: wallet_ok_iff\<close>)
  moreover have sp: "spent_dbcs (wallet ?w) = spent_dbcs (wallet w)" by (simp add: without_spent_def)
  then have "(map_of (spent_dbcs (wallet w)) ++ map_of (rev taken)) i = None"
    if "map_of (available_dbcs (wallet ?w)) i = Some d" for i d
    using okd disj [OF that] that by (auto simp: wallet_ok_iff map_add_None)
  ultimately show ?thesis
    using okd unfolding wallet_ok_iff upd by (simp add: spent)
qed

section \<open>Lemmas on value\<close>

text \<open>
  What \<open>sn_dbc\<close> documents of its transaction builder: the transaction it builds has the inputs
  it was given, and one DBC comes out per output, with the output's amount, at the id derived
  for its owner, and usable by the owner's key.
\<close>

definition builder_faithful :: "('dbc, 's, 'b) dbc_env \<Rightarrow> bool" where
  "builder_faithful D \<longleftrightarrow> (\<forall>B rh b. tb_build D B rh = Inr b \<longrightarrow>
     inputs (built_tx D b) = map fst (tb_inputs B) \<and>
     (\<forall>dbcs. built_dbcs D b = Inr dbcs \<longrightarrow>
        list_all2 (\<lambda>(d, _) (t, a, i). dbc_id_of D d = new_dbc_id D a i \<and> dbc_token D d = Inr t \<and>
          (\<forall>key. main_public_address D key = a \<longrightarrow> is_ok (dbc_derived_key D d key))) dbcs (tb_outputs B)))"

lemma funds_filter_subseq:
  assumes "subseq ys xs" and "distinct (map f xs)"
  shows "funds D (filter (\<lambda>x. f x \<notin> f ` set ys) xs) + funds D ys = funds D xs"
  using assms
proof (induction rule: list_emb.induct)
  case (list_emb_Cons ys xs x)
  then have "f x \<notin> f ` set ys" using subseq_set by fastforce
  with list_emb_Cons show ?case by (cases x) auto
next
  case (list_emb_Cons2 y x ys xs)
  then have "f z \<noteq> f x" if "z \<in> set xs" for z using that by (metis distinct.simps(2) image_eqI list.set_map list.simps(9))
  then have "filter (\<lambda>z. f z \<notin> f ` set (x # ys)) xs = filter (\<lambda>z. f z \<notin> f ` set ys) xs"
    by (intro filter_cong) simp_all
  with list_emb_Cons2 show ?case by (cases x) auto
qed simp

lemma with_derived_keys_filter:
  "list_all (\<lambda>(i, d). i = dbc_id_of D d) m \<Longrightarrow>
   with_derived_keys D k (map snd (filter (\<lambda>(i, _). P i) m)) =
     filter (\<lambda>x. P (dbc_id_of D (fst x))) (with_derived_keys D k (map snd m))"
  by (induction m) (auto split: sum.splits)

lemma set_with_derived_keys: "fst ` set (with_derived_keys D k ds) \<subseteq> set ds"
  by (induction ds) (auto split: sum.splits)

lemma distinct_with_derived_keys:
  assumes "dbc_map_ok D m"
  shows "distinct (map (\<lambda>x. dbc_id_of D (fst x)) (with_derived_keys D k (map snd m)))"
  using assms
proof (induction m)
  case (Cons x m)
  obtain i d where x: "x = (i, d)" by fastforce
  with Cons.prems have i: "i = dbc_id_of D d" "\<forall>j \<in> fst ` set m. i < j" and m: "dbc_map_ok D m"
    by (auto simp: dbc_map_ok_def)
  have "dbc_id_of D d' \<noteq> dbc_id_of D d" if "d' \<in> fst ` set (with_derived_keys D k (map snd m))" for d'
  proof -
    from that set_with_derived_keys [of D k "map snd m"] have "d' \<in> set (map snd m)" by blast
    with m i show ?thesis by (fastforce simp: dbc_map_ok_def list_all_iff)
  qed
  then have "dbc_id_of D d \<notin> (\<lambda>x. dbc_id_of D (fst x)) ` set (with_derived_keys D k (map snd m))"
    by (metis (no_types, lifting) imageE imageI)
  with Cons.IH [OF m] x show ?case by (simp split: sum.splits)
qed simp

lemma value_without_spent:
  assumes "wallet_ok D w" and "subseq sel (wallet_available_dbcs D w)"
    and "input_ids t = dbc_id_of D ` fst ` set sel"
  shows "wallet_value D (without_spent w t) + funds D sel = wallet_value D w"
proof -
  have ok: "dbc_map_ok D (available_dbcs (wallet w))" using assms(1) by (simp add: wallet_ok_iff)
  have eq: "wallet_available_dbcs D (without_spent w t) =
      filter (\<lambda>x. dbc_id_of D (fst x) \<notin> (\<lambda>x. dbc_id_of D (fst x)) ` set sel) (wallet_available_dbcs D w)"
    using ok assms(3)
    by (simp add: wallet_available_dbcs_def without_spent_def bm_values_def dbc_map_ok_def
        with_derived_keys_filter image_image)
  show ?thesis
    unfolding wallet_value_def eq
    by (rule funds_filter_subseq [OF assms(2)])
      (use distinct_with_derived_keys [OF ok] in \<open>simp add: wallet_available_dbcs_def bm_values_def\<close>)
qed

lemma funds_bm_insert:
  "i \<notin> fst ` set m \<Longrightarrow> funds D (with_derived_keys D k (map snd (bm_insert i d m))) =
     funds D (with_derived_keys D k (map snd m)) + funds D (with_derived_keys D k [d])"
  by (induction i d m rule: bm_insert.induct) (auto split: sum.splits)

lemma value_deposit_fresh:
  assumes "map_of (available_dbcs (wallet w)) (dbc_id_of D d) = None"
    and "map_of (spent_dbcs (wallet w)) (dbc_id_of D d) = None"
    and "is_ok (dbc_derived_key D d (wal_key w))" and "dbc_token D d = Inr t"
  shows "wallet_value D (deposit D w [d]) = wallet_value D w + unat t"
proof -
  have "received D w [d] = [(dbc_id_of D d, d)]" using assms by (simp add: received_def bm_contains_key_def)
  moreover have "funds D (with_derived_keys D (wal_key w) [d]) = unat t"
    using assms(3,4) by (auto simp: is_ok_iff)
  ultimately show ?thesis
    using assms(1) funds_bm_insert [of "dbc_id_of D d" "available_dbcs (wallet w)" D "wal_key w" d]
    by (simp add: wallet_value_def wallet_available_dbcs_def deposit_eq bm_collect_def bm_append_def
        bm_values_def map_of_eq_None_iff)
qed

lemma deposit_balance:
  "dbcs \<noteq> [] \<Longrightarrow> wallet_balance (deposit D w dbcs) = word_of_nat (wallet_value D (deposit D w dbcs))"
  by (simp add: wallet_balance_def deposit_eq wallet_value_def wallet_available_dbcs_def available_sum_funds bm_values_def)

lemma without_spent_balance: "wallet_balance (without_spent w t) = wallet_balance w"
  by (simp add: wallet_balance_def without_spent_def)

lemma update_local_wallet_value:
  assumes "bm_ok (available_dbcs (wallet w))"
  shows "wallet_value D (update_local_wallet D w t) = wallet_value D (deposit D (without_spent w t) (change_list t))"
    and "wallet_balance (update_local_wallet D w t) = wallet_balance (deposit D (without_spent w t) (change_list t))"
  using assms
  by (auto elim: update_local_wallet_eq [where D = D and t = t]
      simp: wallet_value_def wallet_available_dbcs_def wallet_balance_def)

lemma collect_inputs_ids:
  "list_all (\<lambda>(d, _). is_ok (dbc_token D d)) xs \<Longrightarrow>
   map (in_dbc_id \<circ> fst) (fst (collect_inputs D xs [] m)) = map (dbc_id_of D \<circ> fst) xs"
  unfolding collect_inputs_fst by (induction xs) (auto simp: is_ok_iff)

lemma transfer_input_ids:
  assumes "builder_faithful D" and "create_transfer_with D S rh f idx = Inr out"
    and "list_all (\<lambda>(d, _). is_ok (dbc_token D d)) (dbcs_to_spend S)"
  shows "input_ids out = dbc_id_of D ` fst ` set (dbcs_to_spend S)"
proof -
  from assms(2) obtain b where "tb_build D (transfer_builder D S f idx) rh = Inr b" and out: "tx out = built_tx D b"
    by (rule create_transfer_with_Inr)
  with assms(1) have "inputs (tx out) = map fst (fst (collect_inputs D (dbcs_to_spend S) [] []))"
    by (simp add: builder_faithful_def transfer_builder_def)
  then have "input_ids out = set (map (in_dbc_id \<circ> fst) (fst (collect_inputs D (dbcs_to_spend S) [] [])))"
    by (simp add: input_ids_def image_image image_comp)
  also have "\<dots> = dbc_id_of D ` fst ` set (dbcs_to_spend S)"
    unfolding collect_inputs_ids [OF assms(3)] by (simp add: image_comp)
  finally show ?thesis .
qed

definition change_id :: "('dbc, 's, 'b) dbc_env \<Rightarrow> 'dbc local_wallet \<Rightarrow> derivation_index \<Rightarrow> dbc_id" where
  "change_id D w idx = new_dbc_id D (wallet_address D w) idx"

lemma transfer_change_dbc:
  assumes "builder_faithful D" and "create_transfer_with D S rh f idx = Inr out"
    and "\<forall>(t, a, i) \<in> set (recipients S). new_dbc_id D a i \<noteq> new_dbc_id D (snd (change S)) idx"
  shows "if fst (change S) = 0 then change_dbc out = None
    else \<exists>d. change_dbc out = Some d \<and> dbc_id_of D d = new_dbc_id D (snd (change S)) idx \<and>
      dbc_token D d = Inr (fst (change S)) \<and>
      (\<forall>key. main_public_address D key = snd (change S) \<longrightarrow> is_ok (dbc_derived_key D d key))"
proof -
  let ?c = "new_dbc_id D (snd (change S)) idx" and ?B = "transfer_builder D S f idx"
  let ?R = "\<lambda>(d, _ :: token) (t, a, i). dbc_id_of D d = new_dbc_id D a i \<and> dbc_token D d = Inr t \<and>
    (\<forall>key. main_public_address D key = a \<longrightarrow> is_ok (dbc_derived_key D d key))"
  from assms(2) obtain b dbcs where b: "tb_build D ?B rh = Inr b" "built_dbcs D b = Inr dbcs"
    and sc: "split_change D ?c None (map fst dbcs) = (change_dbc out, created_dbcs out)"
    by (rule create_transfer_with_Inr)
  from assms(1) b have rel: "list_all2 ?R dbcs (tb_outputs ?B)" by (simp add: builder_faithful_def)
  note ch = split_change_Inr [OF sc, THEN conjunct2]
  have "filter (\<lambda>d. dbc_id_of D d = ?c) (map fst ds) = []"
    if "list_all2 ?R ds rs" "\<forall>(t, a, i) \<in> set rs. new_dbc_id D a i \<noteq> ?c" for ds rs
    using that by (induction ds rs rule: list_all2_induct) auto
  note none = this [OF _ assms(3)]
  show ?thesis
  proof (cases "fst (change S) = 0")
    case True
    with rel have "list_all2 ?R dbcs (recipients S)" by (simp add: transfer_builder_def)
    from none [OF this] ch True show ?thesis by simp
  next
    case False
    with rel obtain ds e where dbcs: "dbcs = ds @ [e]" and ds: "list_all2 ?R ds (recipients S)"
      and e: "?R e (fst (change S), snd (change S), idx)"
      by (auto simp: transfer_builder_def list_all2_append2 list_all2_Cons2)
    from e none [OF ds] dbcs have "filter (\<lambda>d. dbc_id_of D d = ?c) (map fst dbcs) = [fst e]"
      by (auto simp: case_prod_beta)
    with ch have "change_dbc out = Some (fst e)" by simp
    with e False show ?thesis by (auto simp: case_prod_beta)
  qed
qed

text \<open>The index drawn for the change is new: no DBC known to the wallet or created here has its id.\<close>

definition fresh_change :: "('dbc, 's, 'b) dbc_env \<Rightarrow> 'dbc local_wallet \<Rightarrow> recipient list \<Rightarrow> derivation_index \<Rightarrow> bool" where
  "fresh_change D w rs idx \<longleftrightarrow> \<not> bm_contains_key (available_dbcs (wallet w)) (change_id D w idx) \<and>
     \<not> bm_contains_key (spent_dbcs (wallet w)) (change_id D w idx) \<and>
     list_all (\<lambda>(_, a, i). new_dbc_id D a i \<noteq> change_id D w idx) rs"

lemma selected_available:
  assumes "wallet_ok D w" and "subseq sel (wallet_available_dbcs D w)"
  shows "dbc_id_of D ` fst ` set sel \<subseteq> fst ` set (available_dbcs (wallet w))"
proof -
  have "fst ` set sel \<subseteq> snd ` set (available_dbcs (wallet w))"
    using subseq_set [OF assms(2)] set_with_derived_keys [of D "wal_key w" "bm_values (available_dbcs (wallet w))"]
    by (auto simp: wallet_available_dbcs_def bm_values_def)
  moreover have "dbc_id_of D d \<in> fst ` set (available_dbcs (wallet w))"
    if "d \<in> snd ` set (available_dbcs (wallet w))" for d
    using that assms(1) by (force simp: wallet_ok_def dbc_map_ok_def list_all_iff)
  ultimately show ?thesis by blast
qed

lemma send_effect:
  assumes faithful: "builder_faithful D" and ok: "wallet_ok D w"
    and sel: "subseq sel (wallet_available_dbcs D w)" "list_all (\<lambda>(d, _). is_ok (dbc_token D d)) sel"
    and out: "create_transfer_with D \<lparr>dbcs_to_spend = sel, recipients = rs, change = (ch, wallet_address D w)\<rparr> rh f idx = Inr t"
    and fresh: "fresh_change D w rs idx"
  shows "wallet_ok D (update_local_wallet D w t) \<and>
    wallet_value D (update_local_wallet D w t) + funds D sel = wallet_value D w + unat ch \<and>
    (ch = 0 \<longrightarrow> wallet_balance (update_local_wallet D w t) = wallet_balance w) \<and>
    (ch \<noteq> 0 \<longrightarrow> wallet_balance (update_local_wallet D w t) = word_of_nat (wallet_value D (update_local_wallet D w t)))"
proof -
  let ?w = "without_spent w t"
  have ids: "input_ids t = dbc_id_of D ` fst ` set sel"
    using transfer_input_ids [OF faithful out] sel(2) by simp
  have av: "bm_ok (available_dbcs (wallet w))" using ok by (simp add: wallet_ok_iff dbc_map_ok_iff)
  have val: "wallet_value D ?w + funds D sel = wallet_value D w" by (rule value_without_spent [OF ok sel(1) ids])
  have notin: "change_id D w idx \<notin> input_ids t"
    using selected_available [OF ok sel(1)] fresh
    by (auto simp: ids fresh_change_def bm_contains_key_def map_of_eq_None_iff)
  note ch = transfer_change_dbc [OF faithful out, simplified]
  have rs: "\<forall>(t, a, i) \<in> set rs. new_dbc_id D a i \<noteq> change_id D w idx"
    using fresh by (auto simp: fresh_change_def list_all_iff)
  show ?thesis
  proof (cases "ch = 0")
    case True
    with ch rs have "change_dbc t = None" by (simp add: change_id_def)
    with True val ok show ?thesis
      by (simp add: update_local_wallet_value [OF av] wallet_ok_update without_spent_balance)
  next
    case False
    with ch rs obtain d where d: "change_dbc t = Some d" "dbc_id_of D d = change_id D w idx" "dbc_token D d = Inr ch"
      "is_ok (dbc_derived_key D d (wal_key w))" by (auto simp: change_id_def wallet_address_def)
    have "wallet_value D (deposit D ?w [d]) = wallet_value D ?w + unat ch"
      using fresh d by (intro value_deposit_fresh)
        (auto simp: without_spent_def map_of_filter_keys fresh_change_def bm_contains_key_def)
    moreover have "wallet_ok D (update_local_wallet D w t)" using ok d(1,2) notin by (auto intro: wallet_ok_update)
    ultimately show ?thesis
      using False val d(1) by (simp add: update_local_wallet_value [OF av] deposit_balance)
  qed
qed

lemma total_amount_zip:
  assumes "length indices = length to"
    and "total_amount (map (\<lambda>((amount, address), i). (amount, address, i)) (zip to indices)) = Some amt"
  shows "unat amt = sum_list (map (unat \<circ> fst) to)"
proof -
  let ?rs = "map (\<lambda>((amount, address), i). (amount, address, i)) (zip to indices)"
  have "map (\<lambda>(a, _, _). unat a) ?rs = map (unat \<circ> fst) (map fst (zip to indices))"
    by (simp add: case_prod_beta comp_def)
  then have "map (\<lambda>(a, _, _). unat a) ?rs = map (unat \<circ> fst) to"
    using assms(1) by (simp add: map_fst_zip)
  with total_amount_sum [OF assms(2)] show ?thesis by simp
qed

lemma local_send_cases:
  assumes "local_send D w to rh indices idx = Inr (w', t)"
  obtains amt sel ch where
    "total_amount (map (\<lambda>((amount, address), i). (amount, address, i)) (zip to indices)) = Some amt"
    "select_inputs D (wallet_available_dbcs D w) amt = Inr (sel, ch)"
    "create_transfer_with D \<lparr>dbcs_to_spend = sel,
       recipients = map (\<lambda>((amount, address), i). (amount, address, i)) (zip to indices),
       change = (ch, wallet_address D w)\<rparr> (case rh of None \<Rightarrow> hash_default | Some h \<Rightarrow> h) None idx = Inr t"
    "w' = update_local_wallet D w t"
  using assms by (auto simp: local_send_def create_transfer_def)

lemma local_send_storage_payment_cases:
  assumes "local_send_storage_payment D w amt root rh idx = Inr (w', t)"
  obtains sel ch f where
    "select_inputs D (wallet_available_dbcs D w) amt = Inr (sel, ch)"
    "create_transfer_with D \<lparr>dbcs_to_spend = sel, recipients = [], change = (ch, wallet_address D w)\<rparr>
       (case rh of None \<Rightarrow> hash_default | Some h \<Rightarrow> h) f idx = Inr t"
    "w' = update_local_wallet D w t"
  using assms by (auto simp: local_send_storage_payment_def create_storage_payment_transfer_def)

lemma created_dbc_amount:
  assumes "builder_faithful D" and "local_send D w [(amt, to)] rh [idx] cidx = Inr (w', t)" and "created_dbcs t = d # ds"
  shows "dbc_token D d = Inr amt \<and> (\<forall>key. main_public_address D key = to \<longrightarrow> is_ok (dbc_derived_key D d key))"
proof -
  let ?c = "new_dbc_id D (wallet_address D w) cidx"
  let ?R = "\<lambda>(d, _ :: token) (t, a, i). dbc_id_of D d = new_dbc_id D a i \<and> dbc_token D d = Inr t \<and>
    (\<forall>key. main_public_address D key = a \<longrightarrow> is_ok (dbc_derived_key D d key))"
  from assms(2) obtain sel ch where
    out: "create_transfer_with D \<lparr>dbcs_to_spend = sel, recipients = [(amt, to, idx)], change = (ch, wallet_address D w)\<rparr>
       (case rh of None \<Rightarrow> hash_default | Some h \<Rightarrow> h) None cidx = Inr t"
    by (rule local_send_cases) auto
  let ?S = "\<lparr>dbcs_to_spend = sel, recipients = [(amt, to, idx)], change = (ch, wallet_address D w)\<rparr>"
  from out obtain b dbcs where "tb_build D (transfer_builder D ?S None cidx) (case rh of None \<Rightarrow> hash_default | Some h \<Rightarrow> h) = Inr b"
    "built_dbcs D b = Inr dbcs" and sc: "split_change D ?c None (map fst dbcs) = (change_dbc t, created_dbcs t)"
    by (rule create_transfer_with_Inr) auto
  with assms(1) have "list_all2 ?R dbcs (tb_outputs (transfer_builder D ?S None cidx))" by (simp add: builder_faithful_def)
  then obtain e es where dbcs: "dbcs = e # es" and e: "?R e (amt, to, idx)" and es: "\<forall>x \<in> set es. dbc_id_of D (fst x) = ?c"
    by (auto simp: transfer_builder_def list_all2_Cons2 split: if_splits)
  have "filter (\<lambda>d. dbc_id_of D d \<noteq> ?c) (map fst es) = []" using es by (auto simp: filter_empty_conv)
  with split_change_Inr [OF sc] dbcs assms(3) have "d = fst e" by (auto split: if_splits)
  with e show ?thesis by (cases e) simp
qed

lemma update_local_wallet_sel: "wallet_dir (update_local_wallet D w t) = wallet_dir w" "wal_key (update_local_wallet D w t) = wal_key w"
  by (simp_all add: update_local_wallet_def Let_def split: prod.splits)

section \<open>Wallet histories\<close>

text \<open>One step of a wallet: a deposit, a send, a storage payment, or caching proofs.\<close>

inductive wallet_step :: "('dbc, 's::linorder, 'b) dbc_env \<Rightarrow> 'dbc local_wallet \<Rightarrow> 'dbc local_wallet \<Rightarrow> bool" for D where
  step_deposit: "wallet_step D w (deposit D w dbcs)"
| step_send: "local_send D w to rh indices idx = Inr (w', t) \<Longrightarrow>
    fresh_change D w (map (\<lambda>((amount, address), i). (amount, address, i)) (zip to indices)) idx \<Longrightarrow> wallet_step D w w'"
| step_payment: "local_send_storage_payment D w amt root rh idx = Inr (w', t) \<Longrightarrow> fresh_change D w [] idx \<Longrightarrow>
    wallet_step D w w'"
| step_proofs: "wallet_step D w (add_payment_proofs w proofs)"

inductive_cases wallet_stepE: "wallet_step D w w'"

lemma wallet_ok_step:
  assumes "builder_faithful D" and "wallet_step D w w'" and "wallet_ok D w"
  shows "wallet_ok D w'"
  using assms(2)
proof (cases rule: wallet_step.cases)
  case (step_deposit dbcs)
  with assms(3) show ?thesis by (auto intro: wf_intros)
next
  case (step_send to rh indices idx t)
  from step_send(1) show ?thesis
    by (rule local_send_cases)
      (use send_effect [OF assms(1,3)] select_inputs_subseq step_send(2) in blast)
next
  case (step_payment amt root rh idx t)
  from step_payment(1) show ?thesis
    by (rule local_send_storage_payment_cases)
      (use send_effect [OF assms(1,3)] select_inputs_subseq step_payment(2) in blast)
next
  case (step_proofs proofs)
  with assms(3) show ?thesis by (simp add: wallet_ok_def add_payment_proofs_def)
qed

definition new_wallet :: "main_key \<Rightarrow> path \<Rightarrow> 'dbc local_wallet" where
  "new_wallet key dir = \<lparr>wal_key = key, wallet = keyless_wallet_new, wallet_dir = dir\<rparr>"

lemma wallet_ok_new: "wallet_ok D (new_wallet key dir)"
  by (simp add: wallet_ok_def dbc_map_ok_def new_wallet_def keyless_wallet_new_def)

lemma wallet_ok_history:
  assumes "builder_faithful D" and "(wallet_step D)\<^sup>*\<^sup>* w w'" and "wallet_ok D w"
  shows "wallet_ok D w'"
  using assms(2,3) by (induction rule: rtranclp_induct) (auto intro: wallet_ok_step [OF assms(1)])

section \<open>A concrete wallet\<close>

definition demo_wallet :: "(dbc_id \<times> token) local_wallet" where
  "demo_wallet = deposit demo_dbc_env (new_wallet [1] [''wallet'']) [([1, 10], 5), ([1, 11], 7), ([1, 12], 9)]"

lemma demo_builder_faithful: "builder_faithful demo_dbc_env"
proof -
  have "list_all2 (\<lambda>(d, _) (t, a, i). fst d = a @ i \<and> snd d = t \<and> prefix a (fst d))
      (map (\<lambda>(t, a, i). ((a @ i, t), t)) rs) rs" for rs :: "recipient list"
    by (induction rs) auto
  then have "list_all2 (\<lambda>(d, _) (t, a, i). dbc_id_of demo_dbc_env d = new_dbc_id demo_dbc_env a i \<and>
      dbc_token demo_dbc_env d = Inr t \<and>
      (\<forall>key. main_public_address demo_dbc_env key = a \<longrightarrow> is_ok (dbc_derived_key demo_dbc_env d key)))
      (map (\<lambda>(t, a, i). ((a @ i, t), t)) rs) rs" for rs :: "recipient list"
    by (rule list_all2_mono) auto
  then show ?thesis by (simp add: builder_faithful_def)
qed

lemma demo_wallet_eq:
  "demo_wallet = \<lparr>wal_key = [1], wallet = \<lparr>balance = 21, spent_dbcs = [],
     available_dbcs = [([1, 10], ([1, 10], 5)), ([1, 11], ([1, 11], 7)), ([1, 12], ([1, 12], 9))],
     dbcs_created_for_others = [], paymet_proofs = []\<rparr>, wallet_dir = [''wallet'']\<rparr>"
  by (simp add: demo_wallet_def deposit_def keyless_deposit_def new_wallet_def keyless_wallet_new_def
      bm_contains_key_def bm_collect_def bm_append_def available_sum_def)

lemma demo_wallet_ok: "wallet_ok demo_dbc_env demo_wallet"
  unfolding demo_wallet_def by (intro wf_intros wallet_ok_new)

lemma demo_wallet_available:
  "wallet_available_dbcs demo_dbc_env demo_wallet = demo_available" "wallet_address demo_dbc_env demo_wallet = [1]"
  by (simp_all add: demo_wallet_eq wallet_available_dbcs_def bm_values_def demo_available_def wallet_address_def)

lemma demo_wallet_send:
  "is_ok (local_send demo_dbc_env demo_wallet [(8, [2])] None [[3]] [4])"
  "is_ok (local_send demo_dbc_env demo_wallet [(12, [2])] None [[3]] [4])"
  "fresh_change demo_dbc_env demo_wallet [(n, [2], [3])] [4]"
proof -
  show "is_ok (local_send demo_dbc_env demo_wallet [(8, [2])] None [[3]] [4])"
    by (simp add: local_send_def demo_wallet_available create_transfer_def demo_total demo_select
      create_transfer_with_def transfer_builder_def bm_collect_def bm_append_def bm_contains_key_def)
  have "select_inputs demo_dbc_env demo_available 12 = Inr ([(([1, 10], 5), [1]), (([1, 11], 7), [1])], 0)"
    by (simp add: select_inputs_def demo_available_def checked_add_def checked_sub_def)
  moreover have "total_amount [(12, a, i)] = Some 12" for a i by (simp add: total_amount_def checked_add_def)
  ultimately show "is_ok (local_send demo_dbc_env demo_wallet [(12, [2])] None [[3]] [4])"
    by (simp add: local_send_def demo_wallet_available create_transfer_def
      create_transfer_with_def transfer_builder_def bm_collect_def bm_append_def bm_contains_key_def)
  show "fresh_change demo_dbc_env demo_wallet [(n, [2], [3])] [4]"
    by (simp add: fresh_change_def change_id_def demo_wallet_available demo_wallet_eq bm_contains_key_def)
qed

section \<open>Properties\<close>

text \<open>C24: Starting from a new wallet, after any sequence of deposits, sends, storage payments and
  cached proofs, the available and the spent DBCs are keyed by their ids, no DBC is both
  available and spent, and every available DBC can be spent with the wallet's key.\<close>

theorem wallet_history_ok:
  assumes "builder_faithful D" and "(wallet_step D)\<^sup>*\<^sup>* (new_wallet key dir) w"
  shows "wallet_ok D w"
  using assms wallet_ok_new by (rule wallet_ok_history)

theorem wallet_history_ok_witness: "wallet_ok demo_dbc_env demo_wallet"
  by (rule wallet_history_ok [OF demo_builder_faithful, of "[1]" "[''wallet'']"])
    (auto simp: demo_wallet_def intro: step_deposit)

text \<open>A successful \<open>local_send\<close> from a consistent wallet, with a new index for the change, takes
  exactly the amounts sent out of the value of the available DBCs and keeps the wallet
  consistent.\<close>

theorem local_send_value:
  assumes "builder_faithful D" and "wallet_ok D w" and "length indices = length to"
    and "local_send D w to rh indices idx = Inr (w', t)"
    and "fresh_change D w (map (\<lambda>((amount, address), i). (amount, address, i)) (zip to indices)) idx"
  shows "wallet_ok D w' \<and> wallet_value D w = wallet_value D w' + sum_list (map (unat \<circ> fst) to)"
proof -
  let ?rs = "map (\<lambda>((amount, address), i). (amount, address, i)) (zip to indices)"
  from assms(4) obtain amt sel ch where amt: "total_amount ?rs = Some amt"
    and sel: "select_inputs D (wallet_available_dbcs D w) amt = Inr (sel, ch)"
    and out: "create_transfer_with D \<lparr>dbcs_to_spend = sel, recipients = ?rs, change = (ch, wallet_address D w)\<rparr>
      (case rh of None \<Rightarrow> hash_default | Some h \<Rightarrow> h) None idx = Inr t"
    and w': "w' = update_local_wallet D w t"
    by (rule local_send_cases)
  have "unat amt = sum_list (map (unat \<circ> fst) to)" by (rule total_amount_zip [OF assms(3) amt])
  with send_effect [OF assms(1,2) select_inputs_subseq [OF sel] out assms(5)] select_inputs_Inr [OF sel] w'
  show ?thesis by simp
qed

theorem local_send_value_witness:
  "\<exists>w' t. local_send demo_dbc_env demo_wallet [(8, [2])] None [[3]] [4] = Inr (w', t) \<and>
    wallet_value demo_dbc_env demo_wallet = wallet_value demo_dbc_env w' + 8"
proof -
  obtain w' t where ok: "local_send demo_dbc_env demo_wallet [(8, [2])] None [[3]] [4] = Inr (w', t)"
    using demo_wallet_send(1) by (auto simp: is_ok_iff)
  with local_send_value [OF demo_builder_faithful demo_wallet_ok _ ok] demo_wallet_send(3) show ?thesis by auto
qed

text \<open>A successful storage payment from a consistent wallet takes exactly the payment out of
  the value of the available DBCs; when there is change, the balance shown afterwards is the
  value of the available DBCs, modulo two to the 64.\<close>

theorem storage_payment_value:
  assumes "builder_faithful D" and "wallet_ok D w"
    and "local_send_storage_payment D w amt root rh idx = Inr (w', t)" and "fresh_change D w [] idx"
  shows "wallet_ok D w' \<and> wallet_value D w = wallet_value D w' + unat amt \<and>
    (change_dbc t \<noteq> None \<longrightarrow> wallet_balance w' = word_of_nat (wallet_value D w'))"
proof -
  from assms(3) obtain sel ch f where sel: "select_inputs D (wallet_available_dbcs D w) amt = Inr (sel, ch)"
    and out: "create_transfer_with D \<lparr>dbcs_to_spend = sel, recipients = [], change = (ch, wallet_address D w)\<rparr>
       (case rh of None \<Rightarrow> hash_default | Some h \<Rightarrow> h) f idx = Inr t"
    and w': "w' = update_local_wallet D w t"
    by (rule local_send_storage_payment_cases)
  have "ch = 0 \<Longrightarrow> change_dbc t = None"
    using transfer_change_dbc [OF assms(1) out] by simp
  with send_effect [OF assms(1,2) select_inputs_subseq [OF sel] out assms(4)] select_inputs_Inr [OF sel] w'
  show ?thesis by auto
qed

theorem storage_payment_value_witness:
  "\<exists>w' t. local_send_storage_payment demo_dbc_env demo_wallet 8 [9] None [4] = Inr (w', t) \<and>
    wallet_value demo_dbc_env demo_wallet = wallet_value demo_dbc_env w' + 8"
proof -
  have "is_ok (local_send_storage_payment demo_dbc_env demo_wallet 8 [9] None [4])"
    by (simp add: local_send_storage_payment_def create_storage_payment_transfer_def demo_wallet_available
      demo_select create_transfer_with_def transfer_builder_def bm_collect_def bm_append_def bm_contains_key_def)
  then obtain w' t where ok: "local_send_storage_payment demo_dbc_env demo_wallet 8 [9] None [4] = Inr (w', t)"
    by (auto simp: is_ok_iff)
  have "fresh_change demo_dbc_env demo_wallet [] [4]"
    using demo_wallet_send(3) by (simp add: fresh_change_def)
  with storage_payment_value [OF demo_builder_faithful demo_wallet_ok ok] ok show ?thesis by auto
qed

text \<open>A send that needs no change leaves the displayed balance as it was: if the balance was
  right before and something was sent, it is wrong afterwards, although the DBCs themselves are
  gone from the available ones. (\<open>deposit\<close> returns early on the empty change list and never
  recomputes the balance.)\<close>

theorem local_send_without_change_stale_balance:
  assumes "builder_faithful D" and "wallet_ok D w" and "length indices = length to"
    and "local_send D w to rh indices idx = Inr (w', t)"
    and "fresh_change D w (map (\<lambda>((amount, address), i). (amount, address, i)) (zip to indices)) idx"
    and "change_dbc t = None" and "sum_list (map (unat \<circ> fst) to) > 0"
    and "unat (wallet_balance w) = wallet_value D w"
  shows "wallet_balance w' = wallet_balance w \<and> wallet_value D w' < unat (wallet_balance w')"
proof -
  let ?rs = "map (\<lambda>((amount, address), i). (amount, address, i)) (zip to indices)"
  from assms(4) obtain amt sel ch where amt: "total_amount ?rs = Some amt"
    and sel: "select_inputs D (wallet_available_dbcs D w) amt = Inr (sel, ch)"
    and out: "create_transfer_with D \<lparr>dbcs_to_spend = sel, recipients = ?rs, change = (ch, wallet_address D w)\<rparr>
      (case rh of None \<Rightarrow> hash_default | Some h \<Rightarrow> h) None idx = Inr t"
    and w': "w' = update_local_wallet D w t"
    by (rule local_send_cases)
  have "\<forall>(t, a, i) \<in> set ?rs. new_dbc_id D a i \<noteq> new_dbc_id D (wallet_address D w) idx"
    using assms(5) by (auto simp: fresh_change_def change_id_def list_all_iff)
  with transfer_change_dbc [OF assms(1) out] assms(6) have "ch = 0" by (auto split: if_splits)
  have "unat amt = sum_list (map (unat \<circ> fst) to)" by (rule total_amount_zip [OF assms(3) amt])
  with send_effect [OF assms(1,2) select_inputs_subseq [OF sel] out assms(5)] select_inputs_Inr [OF sel] w' assms(7,8) \<open>ch = 0\<close>
  show ?thesis by simp
qed

theorem local_send_without_change_stale_balance_witness:
  "\<exists>w' t. local_send demo_dbc_env demo_wallet [(12, [2])] None [[3]] [4] = Inr (w', t) \<and>
    wallet_value demo_dbc_env w' < unat (wallet_balance w')"
proof -
  obtain w' t where ok: "local_send demo_dbc_env demo_wallet [(12, [2])] None [[3]] [4] = Inr (w', t)"
    using demo_wallet_send(2) by (auto simp: is_ok_iff)
  have sel: "select_inputs demo_dbc_env demo_available 12 = Inr ([(([1, 10], 5), [1]), (([1, 11], 7), [1])], 0)"
    by (simp add: select_inputs_def demo_available_def checked_add_def checked_sub_def)
  moreover have "total_amount [(12, a, i)] = Some 12" for a i by (simp add: total_amount_def checked_add_def)
  ultimately have "change_dbc t = None"
    using ok transfer_change_dbc [OF demo_builder_faithful, of
      "\<lparr>dbcs_to_spend = [(([1, 10], 5), [1]), (([1, 11], 7), [1])], recipients = [(12, [2], [3])], change = (0, [1])\<rparr>"]
    by (auto simp: local_send_def demo_wallet_available create_transfer_def)
  moreover have "unat (wallet_balance demo_wallet) = wallet_value demo_dbc_env demo_wallet"
    by (simp add: wallet_value_def demo_wallet_available demo_available_def) (simp add: wallet_balance_def demo_wallet_eq)
  ultimately show ?thesis
    using local_send_without_change_stale_balance [OF demo_builder_faithful demo_wallet_ok _ ok] ok demo_wallet_send(3)
    by auto
qed

text \<open>A non-empty deposit adds exactly the deposited DBCs that the wallet has not spent and whose
  key it can derive, leaves the others out, recomputes the balance as the value of all
  available DBCs (modulo two to the 64), and depositing the same DBCs again changes nothing.\<close>

theorem deposit_exact:
  assumes "wallet_ok D w" and "dbcs \<noteq> []"
  shows "fst ` set (available_dbcs (wallet (deposit D w dbcs))) = fst ` set (available_dbcs (wallet w)) \<union>
      {dbc_id_of D d | d. d \<in> set dbcs \<and> is_ok (dbc_derived_key D d (wal_key w)) \<and>
         \<not> bm_contains_key (spent_dbcs (wallet w)) (dbc_id_of D d)} \<and>
    wallet_balance (deposit D w dbcs) = word_of_nat (wallet_value D (deposit D w dbcs)) \<and>
    deposit D (deposit D w dbcs) dbcs = deposit D w dbcs"
proof -
  let ?w = "deposit D w dbcs"
  have ok: "bm_ok (available_dbcs (wallet w))" using assms(1) by (simp add: wallet_ok_iff dbc_map_ok_iff)
  have rec: "received D ?w dbcs = received D w dbcs" by (simp add: received_def)
  have "fst ` set (available_dbcs (wallet ?w)) = dom (map_of (available_dbcs (wallet ?w)))"
    by (simp add: dom_map_of_conv_image_fst)
  also have "\<dots> = fst ` set (available_dbcs (wallet w)) \<union> fst ` set (received D w dbcs)"
    by (simp add: deposit_available [OF ok] dom_map_of_conv_image_fst Un_commute)
  also have "fst ` set (received D w dbcs) = {dbc_id_of D d | d. d \<in> set dbcs \<and>
      is_ok (dbc_derived_key D d (wal_key w)) \<and> \<not> bm_contains_key (spent_dbcs (wallet w)) (dbc_id_of D d)}"
    by (force simp: received_def)
  finally have keys: "fst ` set (available_dbcs (wallet ?w)) = fst ` set (available_dbcs (wallet w)) \<union>
    {dbc_id_of D d | d. d \<in> set dbcs \<and> is_ok (dbc_derived_key D d (wal_key w)) \<and>
       \<not> bm_contains_key (spent_dbcs (wallet w)) (dbc_id_of D d)}" .
  have same: "available_dbcs (wallet (deposit D ?w dbcs)) = available_dbcs (wallet ?w)"
    by (rule bm_canonical) (simp_all add: bm_ok_deposit ok deposit_available [OF bm_ok_deposit [OF ok]] rec
        deposit_available [OF ok] map_add_idem)
  have "deposit D ?w dbcs = ?w"
    using same deposit_balance [OF assms(2), of D ?w] deposit_balance [OF assms(2), of D w]
    by (simp add: wallet_balance_def wallet_value_def wallet_available_dbcs_def deposit_def keyless_deposit_def
        Let_def assms(2))
  with keys deposit_balance [OF assms(2)] show ?thesis by blast
qed

theorem deposit_exact_witness:
  "wallet_balance (deposit demo_dbc_env demo_wallet [([1, 13], 4), ([2, 1], 4)]) =
     word_of_nat (wallet_value demo_dbc_env (deposit demo_dbc_env demo_wallet [([1, 13], 4), ([2, 1], 4)]))"
  using deposit_exact [OF demo_wallet_ok, of "[([1, 13], 4), ([2, 1], 4)]"] by simp

end
