(* ===== verification/Wallet_Disk.thy ===== *)
theory Wallet_Disk
  imports Wallet
begin

text \<open>
  The files of a wallet: what loading and storing make of a directory. The interface
  \<open>persistent\<close> states what a load and a store promise to a program that loads a value, changes it
  and stores it back; the wallet's files implement it.
\<close>

section \<open>Lemmas on files\<close>

definition codec_ok :: "'dbc codec \<Rightarrow> bool" where
  "codec_ok K \<longleftrightarrow> (\<forall>b. from_hex_text K (to_hex_text K b) = Some b) \<and>
     (\<forall>k. length k = SK_SIZE K \<longrightarrow>
        length (main_key_to_bytes K k) = SK_SIZE K \<and> sk_from_bytes K (main_key_to_bytes K k) = Inr k) \<and>
     (\<forall>w bs. wallet_serialize K w = Inr bs \<longrightarrow> wallet_deserialize K bs = Inr w)"

abbreviation no_faults :: io_faults where
  "no_faults \<equiv> \<lambda>_. None"

lemma map_of_fs_put: "map_of (fs_put p bs files) = (map_of files)(p \<mapsto> bs)"
proof (cases "p \<in> fst ` set files")
  case True
  have "map_of (map (\<lambda>(q, cs). (q, if q = p then bs else cs)) files) x =
      map_option (\<lambda>c. if x = p then bs else c) (map_of files x)" for x
    by (induction files) auto
  moreover obtain c where "map_of files p = Some c" using True by (metis map_of_eq_None_iff option.exhaust)
  ultimately show ?thesis using True by (auto simp: fs_put_def fun_eq_iff option.map_ident)
next
  case False
  then have "map_of files p = None" by (simp add: map_of_eq_None_iff)
  with False show ?thesis by (auto simp: fs_put_def fun_eq_iff map_add_def split: option.splits)
qed

lemma fs_write_files:
  "fs_write F p bs fs = Inr fs' \<Longrightarrow> map_of (fs_files fs') = (map_of (fs_files fs))(p \<mapsto> bs) \<and> fs_dirs fs' = fs_dirs fs"
  by (auto simp: fs_write_def map_of_fs_put split: option.splits if_splits)

lemma fs_create_dir_files: "fs_create_dir_all F p fs = Inr fs' \<Longrightarrow> fs_files fs' = fs_files fs"
  by (auto simp: fs_create_dir_all_def split: option.splits if_splits)

definition dir_clear :: "path \<Rightarrow> file_system \<Rightarrow> bool" where
  "dir_clear p fs \<longleftrightarrow> (\<forall>k \<le> length p. \<not> fs_is_file (take k p) fs)"

lemma fs_create_dir_all_ok: "is_ok (fs_create_dir_all no_faults p fs) \<longleftrightarrow> dir_clear p fs"
  by (auto simp: fs_create_dir_all_def dir_clear_def less_Suc_eq_le Ball_def simp del: upt_Suc)

lemma dir_clear_write:
  "dir_clear p fs \<Longrightarrow> fs_write F (p @ [n]) bs fs = Inr fs' \<Longrightarrow> dir_clear p fs'"
  by (auto simp: dir_clear_def fs_is_file_def dest!: fs_write_files)
    (metis append_self_conv length_append_singleton length_take min.absorb2 not_Cons_self2 Suc_n_not_le_n nat_le_linear take_all)

text \<open>After a load, the directory holds the key the wallet got.\<close>

definition key_stored :: "'dbc codec \<Rightarrow> path \<Rightarrow> main_key \<Rightarrow> file_system \<Rightarrow> bool" where
  "key_stored K dir key fs \<longleftrightarrow> get_main_key K no_faults dir fs = Inr (Some key)"

lemma key_stored_iff:
  "key_stored K dir key fs \<longleftrightarrow>
     (\<exists>hex. map_of (fs_files fs) (dir @ [''main_key'']) = Some hex \<and> bls_secret_from_hex K hex = Inr key)"
  by (auto simp: key_stored_def get_main_key_def fs_is_file_def fs_read_def split: if_splits)

lemma store_new_keypair_key:
  assumes "codec_ok K" and "store_new_keypair D K no_faults dir key fs = Inr fs'" and "dir_clear dir fs"
    and "length key = SK_SIZE K"
  shows "key_stored K dir key fs' \<and> dir_clear dir fs'"
proof -
  let ?hex = "to_hex_text K (main_key_to_bytes K key)"
  from assms(2) obtain fs1 where w1: "fs_write no_faults (dir @ [''main_key'']) ?hex fs = Inr fs1"
    and w2: "fs_write no_faults (dir @ [''public_address''])
      (to_hex_text K (public_address_to_bytes K (main_public_address D key))) fs1 = Inr fs'"
    by (auto simp: store_new_keypair_def)
  from fs_write_files [OF w1] fs_write_files [OF w2]
  have "map_of (fs_files fs') (dir @ [''main_key'']) = Some ?hex" by simp
  with assms(1,4) have "key_stored K dir key fs'"
    by (simp add: key_stored_iff bls_secret_from_hex_def codec_ok_def)
  with dir_clear_write [OF dir_clear_write [OF assms(3) w1] w2] show ?thesis by simp
qed

lemma key_stored_write:
  assumes "key_stored K dir key fs" and "fs_write F (dir @ [n]) bs fs = Inr fs'" and "n \<noteq> ''main_key''"
  shows "key_stored K dir key fs'"
  using assms fs_write_files [OF assms(2)] by (simp add: key_stored_iff)

lemma load_from_path_key:
  assumes "codec_ok K" and "load_from_path D K no_faults rk dir fs = Inr ((key, w), fs')" and "dir_clear dir fs"
    and "length rk = SK_SIZE K"
  shows "key_stored K dir key fs' \<and> dir_clear dir fs'"
proof -
  from assms(2) obtain found k1 fs1 found_wallet where found: "get_main_key K no_faults dir fs = Inr found"
    and new: "(case found of Some key \<Rightarrow> Inr (key, fs)
        | None \<Rightarrow> bind_result (store_new_keypair D K no_faults dir rk fs) (\<lambda>fs. Inr (rk, fs))) = Inr (k1, fs1)"
    and rest: "(case found_wallet of Some w \<Rightarrow> Inr ((k1, w), fs1) | None \<Rightarrow>
           bind_result (store_wallet K no_faults dir keyless_wallet_new fs1) (\<lambda>fs.
           bind_result (create_received_dbcs_dir no_faults dir fs) (\<lambda>fs.
             Inr ((k1, keyless_wallet_new), fs)))) = Inr ((key, w), fs')"
    unfolding load_from_path_def bind_result_Inr_iff by auto
  have "k1 = key" using rest by (auto split: option.splits)
  moreover have "key_stored K dir k1 fs1 \<and> dir_clear dir fs1"
  proof (cases found)
    case None
    with new have "store_new_keypair D K no_faults dir rk fs = Inr fs1" and "k1 = rk" by auto
    with store_new_keypair_key [OF assms(1) _ assms(3,4)] show ?thesis by blast
  next
    case (Some k)
    with new found assms(3) show ?thesis by (simp add: key_stored_def)
  qed
  ultimately have key: "key_stored K dir key fs1 \<and> dir_clear dir fs1" by simp
  show ?thesis
  proof (cases found_wallet)
    case None
    with rest obtain fs2 where w: "store_wallet K no_faults dir keyless_wallet_new fs1 = Inr fs2"
      and d: "create_received_dbcs_dir no_faults dir fs2 = Inr fs'" by auto
    from w obtain bs where w': "fs_write no_faults (dir @ [''wallet'']) bs fs1 = Inr fs2"
      by (auto simp: store_wallet_def)
    with key have "key_stored K dir key fs2" "dir_clear dir fs2"
      by (auto intro: key_stored_write dir_clear_write)
    with d show ?thesis
      by (auto simp: create_received_dbcs_dir_def key_stored_iff dir_clear_def fs_is_file_def
          dest!: fs_create_dir_files)
  qed (use rest key in auto)
qed

text \<open>What a load finds in a directory that holds a key and a wallet.\<close>

definition wallet_stored :: "'dbc codec \<Rightarrow> path \<Rightarrow> 'dbc keyless_wallet \<Rightarrow> file_system \<Rightarrow> bool" where
  "wallet_stored K dir w fs \<longleftrightarrow>
     (\<exists>bs. map_of (fs_files fs) (dir @ [''wallet'']) = Some bs \<and> wallet_deserialize K bs = Inr w)"

lemma wallet_stored_write:
  "codec_ok K \<Longrightarrow> wallet_serialize K w = Inr bs \<Longrightarrow> fs_write F (dir @ [''wallet'']) bs fs = Inr fs' \<Longrightarrow> wallet_stored K dir w fs'"
  by (auto simp: wallet_stored_def codec_ok_def dest!: fs_write_files)

lemma load_from_stored:
  assumes "key_stored K (root @ [''wallet'']) key fs" and "dir_clear (root @ [''wallet'']) fs"
    and "wallet_stored K (root @ [''wallet'']) w fs"
  shows "\<exists>fs'. load_from D K no_faults rk root fs
    = Inr (\<lparr>wal_key = key, wallet = w, wallet_dir = root @ [''wallet'']\<rparr>, fs') \<and> fs_files fs' = fs_files fs"
proof -
  let ?dir = "root @ [''wallet'']"
  obtain fs1 where fs1: "fs_create_dir_all no_faults ?dir fs = Inr fs1"
    using assms(2) fs_create_dir_all_ok by (auto simp: is_ok_iff)
  note files = fs_create_dir_files [OF fs1]
  from assms(1,3) have "key_stored K ?dir key fs1" and "get_wallet K no_faults ?dir fs1 = Inr (Some w)"
    by (auto simp: key_stored_iff wallet_stored_def get_wallet_def fs_is_file_def fs_read_def files)
  with fs1 files show ?thesis by (simp add: load_from_def load_from_path_def Let_def key_stored_def)
qed

lemma load_from_keeps_key:
  assumes "codec_ok K" and "length rk = SK_SIZE K" and "load_from D K no_faults rk root fs = Inr (w, fs1)"
  shows "key_stored K (root @ [''wallet'']) (wal_key w) fs1" and "dir_clear (root @ [''wallet'']) fs1"
    and "wallet_dir w = root @ [''wallet'']"
proof -
  let ?dir = "root @ [''wallet'']"
  from assms(3) obtain fs0 key w0 where dir: "fs_create_dir_all no_faults ?dir fs = Inr fs0"
    and path: "load_from_path D K no_faults rk ?dir fs0 = Inr ((key, w0), fs1)"
    and w: "w = \<lparr>wal_key = key, wallet = w0, wallet_dir = ?dir\<rparr>"
    by (auto simp: load_from_def Let_def)
  have "dir_clear ?dir fs0"
    using dir fs_create_dir_all_ok [of ?dir fs] fs_create_dir_files [OF dir]
    by (simp add: dir_clear_def fs_is_file_def)
  from load_from_path_key [OF assms(1) path this assms(2)] w
  show "key_stored K ?dir (wal_key w) fs1" "dir_clear ?dir fs1" "wallet_dir w = ?dir" by auto
qed

lemma store_stored:
  assumes "codec_ok K" and "key_stored K (wallet_dir w) key fs" and "dir_clear (wallet_dir w) fs"
    and "wallet_store K no_faults w fs = Inr fs1"
  shows "key_stored K (wallet_dir w) key fs1" and "dir_clear (wallet_dir w) fs1" and "wallet_stored K (wallet_dir w) (wallet w) fs1"
proof -
  from assms(4) obtain bs where bs: "wallet_serialize K (wallet w) = Inr bs"
    and wr: "fs_write no_faults (wallet_dir w @ [''wallet'']) bs fs = Inr fs1"
    by (auto simp: wallet_store_def store_wallet_def)
  show "key_stored K (wallet_dir w) key fs1" by (rule key_stored_write [OF assms(2) wr]) simp
  show "dir_clear (wallet_dir w) fs1" by (rule dir_clear_write [OF assms(3) wr])
  show "wallet_stored K (wallet_dir w) (wallet w) fs1" using assms(1) bs wr by (rule wallet_stored_write)
qed

section \<open>Load, change, store\<close>

text \<open>
  The interface a program relies on when it loads a value, changes it and stores it back:
  \<open>held x fs\<close> says that the files hold \<open>x\<close>, \<open>alike\<close> what a change must leave alone. Once something
  was loaded it is held, a store makes the new value held, and a held value is what a load returns.
\<close>

locale persistent =
  fixes load :: "'f \<Rightarrow> 'e + 'x \<times> 'f" and stores :: "'x \<Rightarrow> 'f \<Rightarrow> 'e + 'f"
    and held :: "'x \<Rightarrow> 'f \<Rightarrow> bool" and alike :: "'x \<Rightarrow> 'x \<Rightarrow> bool"
  assumes load_held: "held x fs \<Longrightarrow> \<exists>fs'. load fs = Inr (x, fs') \<and> held x fs'"
    and store_held: "held x fs \<Longrightarrow> alike x y \<Longrightarrow> stores y fs = Inr fs' \<Longrightarrow> held y fs'"
    and alike_refl: "alike x x"
    and alike_trans: "alike x y \<Longrightarrow> alike y z \<Longrightarrow> alike x z"
begin

lemma load_unique: "held x fs \<Longrightarrow> load fs = Inr (y, fs') \<Longrightarrow> y = x \<and> held x fs'"
  using load_held by fastforce

text \<open>One session: load, change by \<open>f\<close>, store.\<close>

lemma session:
  assumes "held x fs" and "load fs = Inr (y, fs1)" and "alike y (f y)" and "stores (f y) fs1 = Inr fs2"
  shows "held (f x) fs2"
  using load_unique [OF assms(1,2)] assms(3,4) store_held by blast

text \<open>Several sessions one after the other compose their changes.\<close>

lemma sessions:
  assumes "held x fs" and "\<forall>f \<in> set cs. \<forall>y. alike y (f y)"
    and "try_fold (\<lambda>fs f. bind_result (load fs) (\<lambda>(y, fs1). stores (f y) fs1)) fs cs = Inr fs'"
  shows "held (fold (\<lambda>f. f) cs x) fs'"
  using assms
proof (induction cs arbitrary: x fs)
  case (Cons f cs)
  from Cons.prems(3) obtain fs1 where one: "bind_result (load fs) (\<lambda>(y, fs1). stores (f y) fs1) = Inr fs1"
    and more: "try_fold (\<lambda>fs f. bind_result (load fs) (\<lambda>(y, fs1). stores (f y) fs1)) fs1 cs = Inr fs'" by auto
  from one obtain y fs0 where "load fs = Inr (y, fs0)" "stores (f y) fs0 = Inr fs1" by auto
  then have "held (f x) fs1" using session Cons.prems(1,2) by simp
  from Cons.IH [OF this] more Cons.prems(2) show ?case by simp
qed simp

end

definition wallet_held :: "'dbc codec \<Rightarrow> path \<Rightarrow> 'dbc local_wallet \<Rightarrow> file_system \<Rightarrow> bool" where
  "wallet_held K root w fs \<longleftrightarrow> codec_ok K \<and> wallet_dir w = root @ [''wallet''] \<and> key_stored K (wallet_dir w) (wal_key w) fs \<and>
     dir_clear (wallet_dir w) fs \<and> wallet_stored K (wallet_dir w) (wallet w) fs"

definition same_owner :: "'dbc local_wallet \<Rightarrow> 'dbc local_wallet \<Rightarrow> bool" where
  "same_owner v w \<longleftrightarrow> wal_key v = wal_key w \<and> wallet_dir v = wallet_dir w"

lemma wallet_held_files: "fs_files fs' = fs_files fs \<Longrightarrow> wallet_held K root w fs' \<longleftrightarrow> wallet_held K root w fs"
  by (simp add: wallet_held_def key_stored_iff dir_clear_def wallet_stored_def fs_is_file_def)

lemma wallet_load_held:
  assumes "wallet_held K root w fs"
  shows "\<exists>fs'. load_from D K no_faults rk root fs = Inr (w, fs') \<and> wallet_held K root w fs'"
proof -
  from assms load_from_stored [of K root "wal_key w" fs "wallet w" D rk]
  obtain fs' where "load_from D K no_faults rk root fs = Inr (w, fs')" "fs_files fs' = fs_files fs"
    by (cases w) (auto simp: wallet_held_def)
  moreover from this(2) assms have "wallet_held K root w fs'" by (rule wallet_held_files [THEN iffD2])
  ultimately show ?thesis by blast
qed

lemma wallet_store_held:
  assumes "wallet_held K root w fs" and "same_owner w v" and "wallet_store K no_faults v fs = Inr fs'"
  shows "wallet_held K root v fs'"
  using assms store_stored [OF _ _ _ assms(3), of "wal_key w"] by (auto simp: wallet_held_def same_owner_def)

interpretation disk: persistent "load_from D K no_faults rk root" "wallet_store K no_faults" "wallet_held K root" same_owner
  for D :: "('dbc, 's, 'b) dbc_env" and K rk root
  by unfold_locales (auto simp: same_owner_def intro: wallet_load_held wallet_store_held)

text \<open>Whatever was loaded is held: a load of a directory without a wallet writes the key and the empty wallet.\<close>

lemma load_from_path_stores:
  assumes "codec_ok K" and "load_from_path D K no_faults rk dir fs = Inr ((key, w), fs')"
  shows "wallet_stored K dir w fs'"
proof -
  from assms(2) obtain fs1 found where
    "found = None \<longrightarrow> (\<exists>fs2. store_wallet K no_faults dir keyless_wallet_new fs1 = Inr fs2 \<and> create_received_dbcs_dir no_faults dir fs2 = Inr fs' \<and> w = keyless_wallet_new)"
    "\<forall>v. found = Some v \<longrightarrow> w = v \<and> fs' = fs1" and found: "get_wallet K no_faults dir fs1 = Inr found"
    unfolding load_from_path_def bind_result_Inr_iff by (auto split: option.splits)
  then show ?thesis
    using assms(1)
    by (cases found) (auto simp: get_wallet_def store_wallet_def create_received_dbcs_dir_def wallet_stored_def codec_ok_def fs_read_def
      fs_is_file_def split: if_splits option.splits dest!: fs_write_files fs_create_dir_files)
qed

lemma load_from_held:
  assumes "codec_ok K" and "length rk = SK_SIZE K" and "load_from D K no_faults rk root fs = Inr (w, fs1)"
  shows "wallet_held K root w fs1"
  using assms load_from_keeps_key [OF assms] load_from_path_stores [OF assms(1)]
  by (fastforce simp: wallet_held_def load_from_def Let_def)

section \<open>Files a wallet touches\<close>

text \<open>Everything a wallet writes is below its directory.\<close>

definition fs_frame :: "path \<Rightarrow> file_system \<Rightarrow> file_system \<Rightarrow> bool" where
  "fs_frame root fs fs' \<longleftrightarrow> (\<forall>p. \<not> prefix root p \<longrightarrow> map_of (fs_files fs') p = map_of (fs_files fs) p)"

lemma fs_frame_refl [simp]: "fs_frame root fs fs"
  by (simp add: fs_frame_def)

lemma fs_frame_trans: "fs_frame root a b \<Longrightarrow> fs_frame root b c \<Longrightarrow> fs_frame root a c"
  by (simp add: fs_frame_def)

lemma fs_frame_write: "fs_write F p bs fs = Inr fs' \<Longrightarrow> prefix root p \<Longrightarrow> fs_frame root fs fs'"
  by (auto simp: fs_frame_def dest!: fs_write_files)

lemma fs_frame_dir: "fs_create_dir_all F p fs = Inr fs' \<Longrightarrow> fs_frame root fs fs'"
  by (simp add: fs_frame_def fs_create_dir_files)

lemma fs_frame_store_wallet: "store_wallet K F dir w fs = Inr fs' \<Longrightarrow> prefix root dir \<Longrightarrow> fs_frame root fs fs'"
  by (auto simp: store_wallet_def intro: fs_frame_write)

lemma fs_frame_keypair:
  assumes "store_new_keypair D K F dir key fs = Inr fs'" and "prefix root dir"
  shows "fs_frame root fs fs'"
proof -
  from assms(1) obtain fs1 a b where "fs_write F (dir @ [''main_key'']) a fs = Inr fs1"
    "fs_write F (dir @ [''public_address'']) b fs1 = Inr fs'"
    by (auto simp: store_new_keypair_def)
  with assms(2) show ?thesis by (meson fs_frame_trans fs_frame_write prefix_prefix)
qed

lemma fs_frame_load_from:
  assumes "load_from D K F rk root fs = Inr (w, fs')"
  shows "fs_frame root fs fs'"
proof -
  let ?dir = "root @ [''wallet'']"
  from assms obtain fs1 key w1 where d: "fs_create_dir_all F ?dir fs = Inr fs1"
    and l: "load_from_path D K F rk ?dir fs1 = Inr ((key, w1), fs')"
    by (auto simp: load_from_def Let_def)
  from l obtain found key2 fs2 found_wallet where
    k: "(case found of Some key \<Rightarrow> Inr (key, fs1)
        | None \<Rightarrow> bind_result (store_new_keypair D K F ?dir rk fs1) (\<lambda>fs. Inr (rk, fs))) = Inr (key2, fs2)"
    and r: "(case found_wallet of Some w \<Rightarrow> Inr ((key2, w), fs2) | None \<Rightarrow>
           bind_result (store_wallet K F ?dir keyless_wallet_new fs2) (\<lambda>fs.
           bind_result (create_received_dbcs_dir F ?dir fs) (\<lambda>fs.
             Inr ((key2, keyless_wallet_new), fs)))) = Inr ((key, w1), fs')"
    unfolding load_from_path_def bind_result_Inr_iff by auto
  have "fs_frame root fs1 fs2"
    using k by (auto split: option.splits intro: fs_frame_keypair)
  moreover have "fs_frame root fs2 fs'"
    using r by (auto simp: create_received_dbcs_dir_def split: option.splits)
      (meson fs_frame_dir fs_frame_store_wallet fs_frame_trans prefixI)
  ultimately show ?thesis using fs_frame_dir [OF d] by (blast intro: fs_frame_trans)
qed

lemma fs_frame_store_created:
  assumes "store_created_dbc D K F w dbc fs = Inr fs'" and "prefix root (wallet_dir w)"
  shows "fs_frame root fs fs'"
proof -
  obtain dir name where p: "dbc_file_path D K (wallet_dir w) dbc = (dir, name)" by fastforce
  then have "prefix root (dir @ [name])" using assms(2) by (auto simp: dbc_file_path_def prefix_def)
  moreover from assms(1) p obtain fs1 hex where "fs_create_dir_all F dir fs = Inr fs1"
    "fs_write F (dir @ [name]) hex fs1 = Inr fs'"
    by (auto simp: store_created_dbc_def store_created_dbcs_def)
  ultimately show ?thesis by (blast intro: fs_frame_trans fs_frame_write fs_frame_dir)
qed

text \<open>A directory without a wallet file gives an empty wallet with the key stored there or a new one.\<close>

lemma load_from_fresh:
  assumes "load_from D K F rk root fs = Inr (w, fs')" and "\<not> fs_is_file (root @ [''wallet'', ''wallet'']) fs"
  shows "w = new_wallet (wal_key w) (root @ [''wallet''])"
proof -
  let ?dir = "root @ [''wallet'']"
  from assms(1) obtain fs1 key w1 where d: "fs_create_dir_all F ?dir fs = Inr fs1"
    and l: "load_from_path D K F rk ?dir fs1 = Inr ((key, w1), fs')"
    and w: "w = \<lparr>wal_key = key, wallet = w1, wallet_dir = ?dir\<rparr>"
    by (auto simp: load_from_def Let_def)
  from assms(2) have none: "map_of (fs_files fs1) (?dir @ [''wallet'']) = None"
    using fs_create_dir_files [OF d] by (simp add: fs_is_file_def)
  have "map_of (fs_files fs2) (?dir @ [''wallet'']) = None" if "store_new_keypair D K F ?dir rk fs1 = Inr fs2" for fs2
    using that none by (auto simp: store_new_keypair_def dest!: fs_write_files)
  with l none have "w1 = keyless_wallet_new"
    by (auto simp: load_from_path_def get_wallet_def fs_is_file_def split: option.splits if_splits)
  with w show ?thesis by (simp add: new_wallet_def)
qed


lemma load_from_key:
  assumes "load_from D K no_faults rk root fs = Inr (w, fs')" and "key_stored K (root @ [''wallet'']) key fs"
  shows "wal_key w = key"
proof -
  let ?dir = "root @ [''wallet'']"
  from assms(1) obtain fs1 k w1 where d: "fs_create_dir_all no_faults ?dir fs = Inr fs1"
    and l: "load_from_path D K no_faults rk ?dir fs1 = Inr ((k, w1), fs')" and "wal_key w = k"
    by (auto simp: load_from_def Let_def)
  moreover from assms(2) have "key_stored K ?dir key fs1" by (simp add: key_stored_iff fs_create_dir_files [OF d])
  ultimately show ?thesis by (auto simp: load_from_path_def key_stored_def split: option.splits)
qed

section \<open>Properties\<close>

text \<open>C25: With a working disk, a wallet that was loaded from a directory and then stored is what the
  next load from that directory returns, key included, whatever key would be drawn for an
  empty directory.\<close>

theorem wallet_store_load:
  assumes "codec_ok K" and "length rk = SK_SIZE K" and "load_from D K no_faults rk root fs = Inr (w, fs1)"
    and "wallet_store K no_faults (w\<lparr>wallet := contents\<rparr>) fs1 = Inr fs2"
  shows "\<exists>fs3. load_from D K no_faults rk' root fs2 = Inr (w\<lparr>wallet := contents\<rparr>, fs3)"
proof -
  have "wallet_held K root w fs1" by (rule load_from_held [OF assms(1-3)])
  then have "wallet_held K root (w\<lparr>wallet := contents\<rparr>) fs2"
    by (rule disk.store_held [OF _ _ assms(4)]) (simp add: same_owner_def)
  from disk.load_held [OF this] show ?thesis by blast
qed

definition demo_codec :: "(dbc_id \<times> token) codec" where
  "demo_codec = \<lparr>to_hex_text = (\<lambda>b. b), from_hex_text = Some, hex_name = (\<lambda>b. ''x''), SK_SIZE = 1, PK_SIZE = 1,
     sk_from_bytes = Inr, pk_of_bytes = Inr, main_key_to_bytes = (\<lambda>k. k), public_address_to_bytes = (\<lambda>a. a),
     wallet_serialize = (\<lambda>w. if w = keyless_wallet_new then Inr [0] else if w = wallet demo_wallet then Inr [1]
       else Inl ''unsupported''),
     wallet_deserialize = (\<lambda>b. Inr (if b = [0] then keyless_wallet_new else wallet demo_wallet)),
     dbc_to_hex = (\<lambda>d. Inr (fst d)), dbc_from_hex = (\<lambda>b. Inr (b, 1)), str_from_utf8 = Some, str_trim = (\<lambda>b. b),
     xor_from_content = (\<lambda>b. b)\<rparr>"


theorem wallet_store_load_witness:
  "\<exists>w fs1 fs2 fs3. load_from demo_dbc_env demo_codec no_faults [1] [''home''] \<lparr>fs_files = [], fs_dirs = []\<rparr> = Inr (w, fs1) \<and>
    wallet_store demo_codec no_faults (w\<lparr>wallet := wallet demo_wallet\<rparr>) fs1 = Inr fs2 \<and>
    load_from demo_dbc_env demo_codec no_faults [7] [''home''] fs2 = Inr (w\<lparr>wallet := wallet demo_wallet\<rparr>, fs3)"
proof -
  have codec: "codec_ok demo_codec" by (simp add: codec_ok_def demo_codec_def)
  have "is_ok (load_from demo_dbc_env demo_codec no_faults [1] [''home''] \<lparr>fs_files = [], fs_dirs = []\<rparr>)"
    by (simp add: load_from_def load_from_path_def fs_create_dir_all_def fs_is_file_def get_main_key_def
        store_new_keypair_def fs_write_def fs_put_def get_wallet_def store_wallet_def demo_codec_def
        create_received_dbcs_dir_def Let_def atLeastLessThanSuc)
  then obtain w fs1 where load: "load_from demo_dbc_env demo_codec no_faults [1] [''home''] \<lparr>fs_files = [], fs_dirs = []\<rparr> = Inr (w, fs1)"
    by (auto simp: is_ok_iff)
  then have "is_ok (wallet_store demo_codec no_faults (w\<lparr>wallet := wallet demo_wallet\<rparr>) fs1)"
    by (auto simp: load_from_def load_from_path_def fs_create_dir_all_def fs_is_file_def get_main_key_def
        store_new_keypair_def fs_write_def fs_put_def get_wallet_def store_wallet_def demo_codec_def
        create_received_dbcs_dir_def wallet_store_def Let_def atLeastLessThanSuc)
  then obtain fs2 where store: "wallet_store demo_codec no_faults (w\<lparr>wallet := wallet demo_wallet\<rparr>) fs1 = Inr fs2"
    by (auto simp: is_ok_iff)
  from wallet_store_load [OF codec _ load store, of "[7]"] load store show ?thesis
    by (auto simp: demo_codec_def)
qed

end
