(* ===== verification/Protocol.thy ===== *)
theory Protocol
  imports Payment_Proof
begin

text \<open>
  The crate sn_protocol: network addresses and the record keys and distances derived from them,
  chunks, the record header and the encoding of record values, the messages nodes exchange,
  encrypted transfers, and the protocol's errors. MessagePack (\<open>rmp_serde\<close>), the content hash,
  libp2p's key distance and peer ids, and BLS encryption are fields of the record
  \<open>wire_env\<close>.
\<close>

type_synonym peer_id = bytes
type_synonym record_key = bytes
type_synonym chunk_address = xorname
type_synonym dbc_address = xorname
type_synonym distance = nat
type_synonym ciphertext = bytes

section \<open>Data\<close>

datatype network_address =
    PeerIdAddr bytes
  | ChunkAddr chunk_address
  | DbcAddr dbc_address
  | RegisterAddr register_address
  | RecordKeyAddr bytes

datatype record_kind = ChunkKind | DbcSpendKind | RegisterKind

record kad_record =
  rec_key :: record_key
  rec_value :: bytes
  rec_publisher :: "peer_id option"
  rec_expires :: "nat option"

record chunk =
  chunk_address :: chunk_address
  chunk_value :: bytes

record chunk_with_payment =
  cwp_chunk :: chunk
  cwp_payment :: payment_proof

record utxo =
  derivation_index :: derivation_index
  parent_spend :: dbc_address

record transfer =
  encrypted_utxos :: "ciphertext list"

datatype 's protocol_error =
    ChunkNotFound chunk_address
  | ChunkNotStored xorname
  | RegisterNotStored register_address
  | RegisterNotFound register_address
  | RegisterInvalid register_address
  | RegisterError reg_error
  | RegisterAlreadyClaimed public_key
  | SpendNotFound dbc_address
  | SpendNotStored string
  | DoubleSpendAttempt 's 's
  | SpendSignatureInvalid string
  | SpendParentTxInvalid string
  | SpendIsEmpty
  | GetStoreCostFailed
  | SignStoreCostFailed
  | PaymentProofInsufficientAmount token token
  | PaymentProofTxMismatch xorname
  | PaymentProofWithoutInputs xorname
  | PaymentProofInvalidFeeOutput hash
  | InvalidPaymentProof xorname proof_error
  | UtxoSerialisationFailed
  | UtxoDecryptionFailed
  | ReplicatedDataNotFound network_address network_address
  | RecordHeaderParsingFailed
  | RecordParsingFailed
  | RecordKeyMismatch
  | RecordKindMismatch record_kind

datatype cmd = Replicate network_address "network_address list"

datatype query =
    GetStoreCost network_address
  | GetReplicatedData network_address network_address

datatype request = CmdReq cmd | QueryReq query

datatype ('d, 's) replicated_data =
    RepChunk chunk_with_payment
  | RepDbcSpend "'s list"
  | RepRegister "'d signed_register"

datatype ('d, 's) query_response =
    StoreCostResp "'s protocol_error + token"
  | ReplicatedDataResp "'s protocol_error + network_address \<times> ('d, 's) replicated_data"

datatype 's cmd_response = ReplicateResp "'s protocol_error + unit"

datatype ('d, 's) response = CmdResp "'s cmd_response" | QueryResp "('d, 's) query_response"

datatype cmd_ok = StoredSuccessfully | DataAlreadyPresent

datatype 'd register_cmd = RegCreate "'d register" signature | RegEdit register_op

record ('d, 's) wire_env =
  w_reg :: "'d reg_env"
  xor_content :: "bytes \<Rightarrow> xorname"
  spend_dbc_id :: "'s \<Rightarrow> dbc_id"
  peer_from_bytes :: "bytes \<Rightarrow> peer_id option"
  kad_distance :: "bytes \<Rightarrow> bytes \<Rightarrow> distance"
  rmp_u32_enc :: "32 word \<Rightarrow> bytes option"
  rmp_u32_dec :: "bytes \<Rightarrow> 32 word option"
  rmp_chunk_enc :: "bytes \<times> payment_proof \<Rightarrow> bytes option"
  rmp_chunk_dec :: "bytes \<Rightarrow> (bytes \<times> payment_proof) option"
  rmp_spends_enc :: "'s list \<Rightarrow> bytes option"
  rmp_spends_dec :: "bytes \<Rightarrow> 's list option"
  rmp_register_enc :: "'d signed_register \<Rightarrow> bytes option"
  rmp_register_dec :: "bytes \<Rightarrow> 'd signed_register option"
  rmp_utxo_enc :: "utxo \<Rightarrow> bytes option"
  rmp_utxo_dec :: "bytes \<Rightarrow> utxo option"
  pk_encrypt :: "public_key \<Rightarrow> bytes \<Rightarrow> ciphertext"
  sk_decrypt :: "secret_key \<Rightarrow> ciphertext \<Rightarrow> bytes option"

section \<open>Addresses\<close>

definition dbc_address_from_dbc_id :: "('d, 's) wire_env \<Rightarrow> dbc_id \<Rightarrow> dbc_address" where
  "dbc_address_from_dbc_id W i = xor_content W i"

definition from_peer :: "peer_id \<Rightarrow> network_address" where
  "from_peer p = PeerIdAddr p"

definition from_record_key :: "record_key \<Rightarrow> network_address" where
  "from_record_key k = RecordKeyAddr k"

definition from_chunk_address :: "chunk_address \<Rightarrow> network_address" where
  "from_chunk_address a = ChunkAddr a"

definition from_dbc_address :: "dbc_address \<Rightarrow> network_address" where
  "from_dbc_address a = DbcAddr a"

definition from_register_address :: "register_address \<Rightarrow> network_address" where
  "from_register_address a = RegisterAddr a"

fun as_bytes :: "('d, 's) wire_env \<Rightarrow> network_address \<Rightarrow> bytes" where
  "as_bytes W (PeerIdAddr b) = b"
| "as_bytes W (RecordKeyAddr b) = b"
| "as_bytes W (ChunkAddr a) = a"
| "as_bytes W (DbcAddr a) = a"
| "as_bytes W (RegisterAddr a) = address_xorname (w_reg W) a"

fun as_peer_id :: "('d, 's) wire_env \<Rightarrow> network_address \<Rightarrow> peer_id option" where
  "as_peer_id W (PeerIdAddr b) = peer_from_bytes W b"
| "as_peer_id W _ = None"

fun as_record_key :: "network_address \<Rightarrow> record_key option" where
  "as_record_key (RecordKeyAddr b) = Some b"
| "as_record_key _ = None"

fun to_record_key :: "('d, 's) wire_env \<Rightarrow> network_address \<Rightarrow> record_key" where
  "to_record_key W (RecordKeyAddr b) = b"
| "to_record_key W (ChunkAddr a) = a"
| "to_record_key W (RegisterAddr a) = address_xorname (w_reg W) a"
| "to_record_key W (DbcAddr a) = a"
| "to_record_key W (PeerIdAddr b) = b"

text \<open>A \<open>KBucketKey\<close> is made of the bytes, hashed; the distance is the exclusive or of the hashes.\<close>

definition as_kbucket_key :: "('d, 's) wire_env \<Rightarrow> network_address \<Rightarrow> bytes" where
  "as_kbucket_key W a = as_bytes W a"

definition addr_distance :: "('d, 's) wire_env \<Rightarrow> network_address \<Rightarrow> network_address \<Rightarrow> distance" where
  "addr_distance W a b = kad_distance W (as_kbucket_key W a) (as_kbucket_key W b)"

section \<open>Chunks\<close>

definition chunk_new :: "('d, 's) wire_env \<Rightarrow> bytes \<Rightarrow> chunk" where
  "chunk_new W v = \<lparr>chunk_address = xor_content W v, chunk_value = v\<rparr>"

definition chunk_name :: "chunk \<Rightarrow> xorname" where
  "chunk_name c = chunk_address c"

text \<open>Only the value is serialised; the address is derived from it when deserialising.\<close>

definition chunk_serialize :: "chunk \<Rightarrow> bytes" where
  "chunk_serialize c = chunk_value c"

definition chunk_deserialize :: "('d, 's) wire_env \<Rightarrow> bytes \<Rightarrow> chunk" where
  "chunk_deserialize W v = chunk_new W v"

section \<open>Record headers and values\<close>

definition RECORD_HEADER_SIZE :: nat where
  "RECORD_HEADER_SIZE = 2"

fun kind_to_u32 :: "record_kind \<Rightarrow> 32 word" where
  "kind_to_u32 ChunkKind = 0"
| "kind_to_u32 DbcSpendKind = 1"
| "kind_to_u32 RegisterKind = 2"

definition kind_from_u32 :: "32 word \<Rightarrow> record_kind option" where
  "kind_from_u32 n = (if n = 0 then Some ChunkKind else if n = 1 then Some DbcSpendKind
     else if n = 2 then Some RegisterKind else None)"

definition header_try_serialize :: "('d, 's) wire_env \<Rightarrow> record_kind \<Rightarrow> 's protocol_error + bytes" where
  "header_try_serialize W kind = ok_or RecordHeaderParsingFailed (rmp_u32_enc W (kind_to_u32 kind))"

definition header_try_deserialize :: "('d, 's) wire_env \<Rightarrow> bytes \<Rightarrow> 's protocol_error + record_kind" where
  "header_try_deserialize W bs =
     ok_or RecordHeaderParsingFailed (Option.bind (rmp_u32_dec W bs) kind_from_u32)"

text \<open>Slicing out of bounds panics.\<close>

definition header_from_record :: "('d, 's) wire_env \<Rightarrow> kad_record \<Rightarrow> 's protocol_error failure + record_kind" where
  "header_from_record W r =
     (if length (rec_value r) < RECORD_HEADER_SIZE + 1 then Inl Panic
      else map_err (\<lambda>_. Err RecordHeaderParsingFailed)
        (header_try_deserialize W (take (RECORD_HEADER_SIZE + 1) (rec_value r))))"

definition try_deserialize_record :: "(bytes \<Rightarrow> 'a option) \<Rightarrow> kad_record \<Rightarrow> 's protocol_error failure + 'a" where
  "try_deserialize_record dec r =
     (if length (rec_value r) < RECORD_HEADER_SIZE then Inl Panic
      else ok_or (Err RecordParsingFailed) (dec (drop RECORD_HEADER_SIZE (rec_value r))))"

definition try_serialize_record :: "('d, 's) wire_env \<Rightarrow> bytes option \<Rightarrow> record_kind \<Rightarrow> 's protocol_error + bytes" where
  "try_serialize_record W payload kind =
     bind_result (ok_or RecordParsingFailed payload) (\<lambda>payload.
     bind_result (header_try_serialize W kind) (\<lambda>record_value. Inr (record_value @ payload)))"

text \<open>The three payload types, with the chunk's own (de)serialisation.\<close>

definition enc_chunk :: "('d, 's) wire_env \<Rightarrow> chunk_with_payment \<Rightarrow> bytes option" where
  "enc_chunk W c = rmp_chunk_enc W (chunk_serialize (cwp_chunk c), cwp_payment c)"

definition dec_chunk :: "('d, 's) wire_env \<Rightarrow> bytes \<Rightarrow> chunk_with_payment option" where
  "dec_chunk W bs = map_option (\<lambda>(v, p). \<lparr>cwp_chunk = chunk_deserialize W v, cwp_payment = p\<rparr>) (rmp_chunk_dec W bs)"

section \<open>Messages\<close>

fun cmd_dst :: "cmd \<Rightarrow> network_address" where
  "cmd_dst (Replicate holder keys) = holder"

fun query_dst :: "query \<Rightarrow> network_address" where
  "query_dst (GetStoreCost a) = a"
| "query_dst (GetReplicatedData requester a) = a"

fun request_dst :: "request \<Rightarrow> network_address" where
  "request_dst (CmdReq c) = cmd_dst c"
| "request_dst (QueryReq q) = query_dst q"

definition sr_address :: "'d signed_register \<Rightarrow> register_address" where
  "sr_address sr = register_address (base_register sr)"

fun replicated_name :: "('d, 's) wire_env \<Rightarrow> ('d, 's) replicated_data \<Rightarrow> 's protocol_error + xorname" where
  "replicated_name W (RepChunk c) = Inr (chunk_name (cwp_chunk c))"
| "replicated_name W (RepDbcSpend []) = Inl SpendIsEmpty"
| "replicated_name W (RepDbcSpend (sp # _)) = Inr (dbc_address_from_dbc_id W (spend_dbc_id W sp))"
| "replicated_name W (RepRegister sr) = Inr (address_xorname (w_reg W) (sr_address sr))"

fun replicated_dst :: "('d, 's) wire_env \<Rightarrow> ('d, 's) replicated_data \<Rightarrow> 's protocol_error + network_address" where
  "replicated_dst W (RepChunk c) = Inr (from_chunk_address (chunk_address (cwp_chunk c)))"
| "replicated_dst W (RepDbcSpend []) = Inl SpendIsEmpty"
| "replicated_dst W (RepDbcSpend (sp # _)) =
     Inr (from_dbc_address (dbc_address_from_dbc_id W (spend_dbc_id W sp)))"
| "replicated_dst W (RepRegister sr) = Inr (from_register_address (sr_address sr))"

fun register_cmd_dst :: "'d register_cmd \<Rightarrow> register_address" where
  "register_cmd_dst (RegCreate r sig) = register_address r"
| "register_cmd_dst (RegEdit op) = op_address op"

section \<open>Encrypted transfers\<close>

definition utxo_new :: "derivation_index \<Rightarrow> dbc_address \<Rightarrow> utxo" where
  "utxo_new i a = \<lparr>derivation_index = i, parent_spend = a\<rparr>"

definition utxo_to_bytes :: "('d, 's) wire_env \<Rightarrow> utxo \<Rightarrow> 's protocol_error + bytes" where
  "utxo_to_bytes W u = ok_or UtxoSerialisationFailed (rmp_utxo_enc W u)"

definition utxo_from_bytes :: "('d, 's) wire_env \<Rightarrow> bytes \<Rightarrow> 's protocol_error + utxo" where
  "utxo_from_bytes W bs = ok_or UtxoSerialisationFailed (rmp_utxo_dec W bs)"

definition utxo_encrypt :: "('d, 's) wire_env \<Rightarrow> utxo \<Rightarrow> public_key \<Rightarrow> 's protocol_error + ciphertext" where
  "utxo_encrypt W u pk = bind_result (utxo_to_bytes W u) (\<lambda>bs. Inr (pk_encrypt W pk bs))"

definition utxo_decrypt :: "('d, 's) wire_env \<Rightarrow> ciphertext \<Rightarrow> secret_key \<Rightarrow> 's protocol_error + utxo" where
  "utxo_decrypt W c sk = bind_result (ok_or UtxoDecryptionFailed (sk_decrypt W sk c)) (utxo_from_bytes W)"

fun map_result :: "('a \<Rightarrow> 'e + 'b) \<Rightarrow> 'a list \<Rightarrow> 'e + 'b list" where
  "map_result f [] = Inr []"
| "map_result f (x # xs) = bind_result (f x) (\<lambda>y. bind_result (map_result f xs) (\<lambda>ys. Inr (y # ys)))"

definition transfer_create :: "('d, 's) wire_env \<Rightarrow> utxo list \<Rightarrow> public_key \<Rightarrow> 's protocol_error + transfer" where
  "transfer_create W utxos recipient =
     bind_result (map_result (\<lambda>u. utxo_encrypt W u recipient) utxos) (\<lambda>cs. Inr \<lparr>encrypted_utxos = cs\<rparr>)"

definition transfer_utxos :: "('d, 's) wire_env \<Rightarrow> transfer \<Rightarrow> secret_key \<Rightarrow> 's protocol_error + utxo list" where
  "transfer_utxos W t sk = map_result (\<lambda>c. utxo_decrypt W c sk) (encrypted_utxos t)"

section \<open>What the other crates provide\<close>

definition codec_law :: "('a \<Rightarrow> bytes option) \<Rightarrow> (bytes \<Rightarrow> 'a option) \<Rightarrow> bool" where
  "codec_law enc dec \<longleftrightarrow> (\<forall>x bs. enc x = Some bs \<longrightarrow> bs \<noteq> [] \<and> dec bs = Some x)"

text \<open>
  MessagePack writes a header with a small number in two bytes and reads it back from a longer
  slice, and reads every other value back from the non-empty bytes it wrote.
\<close>

definition rmp_laws :: "('d, 's) wire_env \<Rightarrow> bool" where
  "rmp_laws W \<longleftrightarrow>
     (\<forall>n. unat n < 128 \<longrightarrow> (\<exists>h. rmp_u32_enc W n = Some h \<and> length h = 2 \<and> (\<forall>b. rmp_u32_dec W (h @ [b]) = Some n))) \<and>
     codec_law (rmp_chunk_enc W) (rmp_chunk_dec W) \<and> codec_law (rmp_spends_enc W) (rmp_spends_dec W) \<and>
     codec_law (rmp_register_enc W) (rmp_register_dec W) \<and> codec_law (rmp_utxo_enc W) (rmp_utxo_dec W)"

definition encryption_law :: "('d, 's) wire_env \<Rightarrow> bool" where
  "encryption_law W \<longleftrightarrow> (\<forall>sk bs. sk_decrypt W sk (pk_encrypt W (pk_of (w_reg W) sk) bs) = Some bs)"

definition distance_law :: "('d, 's) wire_env \<Rightarrow> bool" where
  "distance_law W \<longleftrightarrow> (\<forall>a b. kad_distance W a b = kad_distance W b a)"

section \<open>Lemmas\<close>

definition chunk_ok :: "('d, 's) wire_env \<Rightarrow> chunk \<Rightarrow> bool" where
  "chunk_ok W c \<longleftrightarrow> chunk_address c = xor_content W (chunk_value c)"

lemma chunk_new_ok [simp]: "chunk_ok W (chunk_new W v)" "chunk_value (chunk_new W v) = v"
  by (simp_all add: chunk_ok_def chunk_new_def)

lemma chunk_deserialize_serialize: "chunk_ok W c \<Longrightarrow> chunk_deserialize W (chunk_serialize c) = c"
  by (cases c) (simp add: chunk_ok_def chunk_deserialize_def chunk_new_def chunk_serialize_def)

lemma as_bytes_to_record_key: "to_record_key W a = as_bytes W a"
  by (cases a) simp_all

lemma distance_via_record_key: "addr_distance W (from_record_key (to_record_key W a)) b = addr_distance W a b"
  by (simp add: addr_distance_def as_kbucket_key_def from_record_key_def as_bytes_to_record_key)

lemma kind_u32_roundtrip [simp]: "kind_from_u32 (kind_to_u32 k) = Some k" "unat (kind_to_u32 k) < 128"
  by (cases k; simp add: kind_from_u32_def)+

lemma dec_chunk_enc_chunk:
  assumes "codec_law (rmp_chunk_enc W) (rmp_chunk_dec W)" and "enc_chunk W c = Some bs" and "chunk_ok W (cwp_chunk c)"
  shows "bs \<noteq> [] \<and> dec_chunk W bs = Some c"
  using assms by (auto simp: codec_law_def enc_chunk_def dec_chunk_def chunk_deserialize_serialize)

lemma header_serialize_ok:
  assumes "rmp_laws W"
  shows "\<exists>h. header_try_serialize W kind = Inr h \<and> length h = 2 \<and> (\<forall>b. header_try_deserialize W (h @ [b]) = Inr kind)"
proof -
  from assms kind_u32_roundtrip(2) [of kind] obtain h where "rmp_u32_enc W (kind_to_u32 kind) = Some h"
    "length h = 2" "\<forall>b. rmp_u32_dec W (h @ [b]) = Some (kind_to_u32 kind)"
    unfolding rmp_laws_def by blast
  then show ?thesis by (simp add: header_try_serialize_def header_try_deserialize_def)
qed

lemma payload_roundtrip:
  assumes "rmp_laws W" and "rec_value r = v" and "try_serialize_record W (e) kind = Inr v"
    and "\<And>bs. e = Some bs \<Longrightarrow> bs \<noteq> [] \<and> dec bs = Some x"
  shows "header_from_record W r = Inr kind" and "try_deserialize_record dec r = Inr x"
proof -
  from header_serialize_ok [OF assms(1), of kind] obtain h where h: "header_try_serialize W kind = Inr h"
    "length h = 2" "\<forall>b. header_try_deserialize W (h @ [b]) = Inr kind" by blast
  from assms(3) h(1) obtain bs where bs: "e = Some bs" and v: "v = h @ bs"
    by (auto simp: try_serialize_record_def)
  from assms(4) [OF bs] obtain b rest where p: "bs = b # rest" by (cases bs) auto
  have "take 3 v = h @ [b]" using v h(2) p by simp
  with v h p assms(2) show "header_from_record W r = Inr kind"
    by (simp add: header_from_record_def RECORD_HEADER_SIZE_def)
  show "try_deserialize_record dec r = Inr x"
    using assms(4) [OF bs] v h(2) assms(2) by (simp add: try_deserialize_record_def RECORD_HEADER_SIZE_def)
qed

lemma map_result_roundtrip:
  assumes "\<And>x y. f x = Inr y \<Longrightarrow> g y = Inr x" and "map_result f xs = Inr ys"
  shows "map_result g ys = Inr xs"
  using assms(2) by (induction xs arbitrary: ys) (auto simp: assms(1))

section \<open>A concrete wire format\<close>

definition demo_wire :: "((bytes list \<times> bytes) btree_set, bytes) wire_env" where
  "demo_wire = \<lparr>w_reg = demo_env, xor_content = (\<lambda>b. b), spend_dbc_id = (\<lambda>s. s), peer_from_bytes = Some,
     kad_distance = (\<lambda>a b. max (sum_list (map unat a)) (sum_list (map unat b)) - min (sum_list (map unat a)) (sum_list (map unat b))),
     rmp_u32_enc = (\<lambda>n. if unat n < 128 then Some [0x91, word_of_nat (unat n)] else None),
     rmp_u32_dec = (\<lambda>b. if length b \<ge> 2 then Some (word_of_nat (unat (b ! 1))) else None),
     rmp_chunk_enc = (\<lambda>(v, p). if p = \<lparr>spent_ids = [], audit_trail = [], proof_path = []\<rparr> then Some (1 # v) else None),
     rmp_chunk_dec = (\<lambda>b. Some (tl b, \<lparr>spent_ids = [], audit_trail = [], proof_path = []\<rparr>)),
     rmp_spends_enc = (\<lambda>s. case s of [x] \<Rightarrow> Some (1 # x) | _ \<Rightarrow> None), rmp_spends_dec = (\<lambda>b. Some [tl b]),
     rmp_register_enc = (\<lambda>r. if r = demo_signed 3 then Some [1] else None), rmp_register_dec = (\<lambda>b. Some (demo_signed 3)),
     rmp_utxo_enc = (\<lambda>u. if length (derivation_index u) < 256 then Some (word_of_nat (length (derivation_index u)) # derivation_index u @ parent_spend u) else None),
     rmp_utxo_dec = (\<lambda>b. Some \<lparr>derivation_index = take (unat (hd b)) (tl b), parent_spend = drop (unat (hd b)) (tl b)\<rparr>),
     pk_encrypt = (\<lambda>pk b. pk @ b), sk_decrypt = (\<lambda>sk c. if prefix sk c then Some (drop (length sk) c) else None)\<rparr>"

lemma demo_wire_laws: "rmp_laws demo_wire" "encryption_law demo_wire" "distance_law demo_wire"
proof -
  have "unat (word_of_nat (unat n) :: byte) = unat n" if "unat n < 128" for n :: "32 word"
    using that by (simp only: unat_of_nat) simp
  then have "(word_of_nat (unat (word_of_nat (unat n) :: byte)) :: 32 word) = n" if "unat n < 128" for n :: "32 word"
    using that by simp
  moreover have "unat (word_of_nat n :: byte) = n" if "n < 256" for n using that by (simp add: unat_of_nat)
  ultimately show "rmp_laws demo_wire"
    by (auto simp: rmp_laws_def codec_law_def demo_wire_def split: if_splits list.splits)
  show "encryption_law demo_wire" by (simp add: encryption_law_def demo_wire_def demo_env_def)
  show "distance_law demo_wire" by (simp add: distance_law_def demo_wire_def max.commute min.commute)
qed

section \<open>Properties\<close>

text \<open>A record value written by \<open>try_serialize_record\<close> is read back: \<open>from_record\<close> returns the
  kind it was written with and \<open>try_deserialize_record\<close> the chunk with its payment, the spends
  or the signed register that was written.\<close>

theorem record_roundtrip:
  assumes "rmp_laws W" and "rec_value r = v"
  shows "(\<forall>c. chunk_ok W (cwp_chunk c) \<and> try_serialize_record W (enc_chunk W c) ChunkKind = Inr v \<longrightarrow>
      header_from_record W r = Inr ChunkKind \<and>
      try_deserialize_record (dec_chunk W) r = (Inr c :: 's protocol_error failure + chunk_with_payment)) \<and>
    (\<forall>ss. try_serialize_record W (rmp_spends_enc W ss) DbcSpendKind = Inr v \<longrightarrow>
      header_from_record W r = Inr DbcSpendKind \<and>
      try_deserialize_record (rmp_spends_dec W) r = (Inr ss :: 's protocol_error failure + 's list)) \<and>
    (\<forall>sr. try_serialize_record W (rmp_register_enc W sr) RegisterKind = Inr v \<longrightarrow>
      header_from_record W r = Inr RegisterKind \<and>
      try_deserialize_record (rmp_register_dec W) r = (Inr sr :: 's protocol_error failure + 'd signed_register))"
proof -
  note rt = payload_roundtrip [OF assms]
  have laws: "codec_law (rmp_chunk_enc W) (rmp_chunk_dec W)" "codec_law (rmp_spends_enc W) (rmp_spends_dec W)"
    "codec_law (rmp_register_enc W) (rmp_register_dec W)" using assms(1) by (simp_all add: rmp_laws_def)
  have "header_from_record W r = Inr ChunkKind \<and>
      try_deserialize_record (dec_chunk W) r = (Inr c :: 's protocol_error failure + chunk_with_payment)"
    if "chunk_ok W (cwp_chunk c)" "try_serialize_record W (enc_chunk W c) ChunkKind = Inr v" for c
    using that(1) laws(1) by (intro conjI rt [OF that(2)]) (simp_all add: dec_chunk_enc_chunk)
  moreover have "header_from_record W r = Inr DbcSpendKind \<and>
      try_deserialize_record (rmp_spends_dec W) r = (Inr ss :: 's protocol_error failure + 's list)"
    if "try_serialize_record W (rmp_spends_enc W ss) DbcSpendKind = Inr v" for ss
    using laws(2) by (intro conjI rt [OF that]) (simp_all add: codec_law_def)
  moreover have "header_from_record W r = Inr RegisterKind \<and>
      try_deserialize_record (rmp_register_dec W) r = (Inr sr :: 's protocol_error failure + 'd signed_register)"
    if "try_serialize_record W (rmp_register_enc W sr) RegisterKind = Inr v" for sr
    using laws(3) by (intro conjI rt [OF that]) (simp_all add: codec_law_def)
  ultimately show ?thesis by blast
qed

theorem record_roundtrip_witness:
  "header_from_record demo_wire \<lparr>rec_key = [], rec_value = [0x91, 1, 1, 7], rec_publisher = None, rec_expires = None\<rparr>
     = Inr DbcSpendKind"
proof -
  have "try_serialize_record demo_wire (rmp_spends_enc demo_wire [[7]]) DbcSpendKind = Inr [0x91, 1, 1, 7]"
    by (simp add: try_serialize_record_def header_try_serialize_def demo_wire_def)
  with record_roundtrip [OF demo_wire_laws(1), of
      "\<lparr>rec_key = [], rec_value = [0x91, 1, 1, 7], rec_publisher = None, rec_expires = None\<rparr>"]
  show ?thesis by simp
qed

text \<open>Reading the header of a record panics exactly when its value is shorter than three bytes,
  and deserialising its payload exactly when it is shorter than two: a value of one or two
  bytes received from the network is not rejected with an error.\<close>

theorem short_record_panics:
  "(header_from_record W r = Inl Panic \<longleftrightarrow> length (rec_value r) < 3) \<and>
   (try_deserialize_record dec r = (Inl Panic :: 's protocol_error failure + 'a) \<longleftrightarrow> length (rec_value r) < 2)"
  by (auto simp: header_from_record_def try_deserialize_record_def RECORD_HEADER_SIZE_def map_err_def ok_or_def
      split: sum.splits option.splits)

text \<open>Whoever sent it, a deserialised chunk has the hash of its value as its address, so a
  record key compared with it binds the content.\<close>

theorem deserialized_chunk_content_addressed:
  assumes "try_deserialize_record (dec_chunk W) r = (Inr c :: 's protocol_error failure + chunk_with_payment)"
  shows "chunk_name (cwp_chunk c) = xor_content W (chunk_value (cwp_chunk c)) \<and>
    replicated_dst W (RepChunk c) = Inr (ChunkAddr (xor_content W (chunk_value (cwp_chunk c))))"
  using assms
  by (auto simp: try_deserialize_record_def dec_chunk_def chunk_deserialize_def chunk_new_def chunk_name_def
      from_chunk_address_def split: if_splits)

theorem deserialized_chunk_content_addressed_witness:
  "chunk_name (chunk_new demo_wire [5, 6]) = xor_content demo_wire [5, 6]"
proof -
  have "try_deserialize_record (dec_chunk demo_wire)
      \<lparr>rec_key = [], rec_value = [0x91, 0, 1, 5, 6], rec_publisher = None, rec_expires = None\<rparr> =
    (Inr \<lparr>cwp_chunk = chunk_new demo_wire [5, 6], cwp_payment = \<lparr>spent_ids = [], audit_trail = [], proof_path = []\<rparr>\<rparr>
      :: bytes protocol_error failure + chunk_with_payment)"
    by (simp add: try_deserialize_record_def RECORD_HEADER_SIZE_def dec_chunk_def chunk_deserialize_def demo_wire_def)
  from deserialized_chunk_content_addressed [OF this] show ?thesis by simp
qed

text \<open>The holder of the recipient's secret key reads from a transfer exactly the outputs it was
  created with, in order.\<close>

theorem transfer_roundtrip:
  assumes "rmp_laws W" and "encryption_law W" and "transfer_create W utxos (pk_of (w_reg W) sk) = Inr t"
  shows "transfer_utxos W t sk = Inr utxos"
proof -
  from assms(3) have "map_result (\<lambda>u. utxo_encrypt W u (pk_of (w_reg W) sk)) utxos = Inr (encrypted_utxos t)"
    by (auto simp: transfer_create_def)
  moreover have "utxo_decrypt W c sk = Inr u" if "utxo_encrypt W u (pk_of (w_reg W) sk) = Inr c" for u c
    using that assms(1,2)
    by (auto simp: utxo_encrypt_def utxo_to_bytes_def utxo_decrypt_def utxo_from_bytes_def encryption_law_def
        rmp_laws_def codec_law_def)
  ultimately show ?thesis
    unfolding transfer_utxos_def by (rule map_result_roundtrip [rotated])
qed

theorem transfer_roundtrip_witness:
  "\<exists>t. transfer_create demo_wire [utxo_new [1, 2] [3]] (pk_of demo_env [9]) = Inr t \<and>
    transfer_utxos demo_wire t [9] = Inr [utxo_new [1, 2] [3]]"
proof -
  have reg: "w_reg demo_wire = demo_env" by (simp add: demo_wire_def)
  obtain t where t: "transfer_create demo_wire [utxo_new [1, 2] [3]] (pk_of demo_env [9]) = Inr t"
    by (simp add: transfer_create_def utxo_encrypt_def utxo_to_bytes_def demo_wire_def utxo_new_def)
  with transfer_roundtrip [OF demo_wire_laws(1,2), of _ "[9]" t] show ?thesis by (auto simp: reg)
qed

end
