(* ===== verification/Record_Store.thy ===== *)
theory Record_Store
  imports Protocol "HOL-Library.Char_ord"
begin

text \<open>
  The disk-backed record store and the circular buffer of sn_networking. The store's key set is a
  strictly sorted list; the files it writes are the map \<open>disk\<close>. The tasks it spawns for the
  file system are the list \<open>tasks\<close>: each of them runs later, in any order, and may fail.
\<close>

section \<open>State\<close>

definition MAX_RECORDS_COUNT :: nat where
  "MAX_RECORDS_COUNT = 2048"

definition PUTS_PER_PRICE_STEP :: nat where
  "PUTS_PER_PRICE_STEP = 100"

record store_config =
  storage_dir :: string
  max_records :: nat
  max_value_bytes :: nat
  replication_interval :: nat

datatype disk_task = WriteTask string bytes | RemoveTask string

datatype store_event = UnverifiedRecord kad_record

record record_store =
  local_key :: bytes
  config :: store_config
  records :: "record_key btree_set"
  event_sender :: bool
  distance_range :: "distance option"
  disk :: "(string, bytes) btree_map"
  tasks :: "disk_task list"
  sent_events :: "store_event list"

datatype store_error = ValueTooLarge | MaxRecords

definition default_config :: "nat \<Rightarrow> string \<Rightarrow> store_config" where
  "default_config interval temp_dir =
     \<lparr>storage_dir = temp_dir, max_records = MAX_RECORDS_COUNT, max_value_bytes = 65 * 1024,
      replication_interval = interval\<rparr>"

definition with_config :: "peer_id \<Rightarrow> store_config \<Rightarrow> bool \<Rightarrow> record_store" where
  "with_config local_id cfg sender =
     \<lparr>local_key = local_id, config = cfg, records = [], event_sender = sender, distance_range = None,
      disk = [], tasks = [], sent_events = []\<rparr>"

section \<open>Operations\<close>

definition rs_contains :: "record_store \<Rightarrow> record_key \<Rightarrow> bool" where
  "rs_contains s k \<longleftrightarrow> k \<in> set (records s)"

definition hex_digit :: "nat \<Rightarrow> char" where
  "hex_digit n = ''0123456789abcdef'' ! n"

definition key_to_hex :: "record_key \<Rightarrow> string" where
  "key_to_hex k = concat (map (\<lambda>b. [hex_digit (unat b div 16), hex_digit (unat b mod 16)]) k)"

definition record_addresses :: "record_store \<Rightarrow> network_address list" where
  "record_addresses s = map from_record_key (records s)"

definition read_from_disk :: "record_key \<Rightarrow> (string, bytes) btree_map \<Rightarrow> kad_record option" where
  "read_from_disk k d =
     map_option (\<lambda>v. \<lparr>rec_key = k, rec_value = v, rec_publisher = None, rec_expires = None\<rparr>) (bm_get d (key_to_hex k))"

definition remove_record :: "record_store \<Rightarrow> record_key \<Rightarrow> record_store" where
  "remove_record s k = s\<lparr>records := remove1 k (records s), tasks := tasks s @ [RemoveTask (key_to_hex k)]\<rparr>"

definition key_distance :: "('d, 's) wire_env \<Rightarrow> record_store \<Rightarrow> record_key \<Rightarrow> distance" where
  "key_distance W s k = kad_distance W (local_key s) k"

text \<open>
  The keys are collected in the iteration order of the hash set, given as \<open>iter\<close>, and sorted by
  distance; the last one is the furthest. Comparisons use the distance in the other direction.
\<close>

definition prune_storage_if_needed_for_record ::
  "('d, 's) wire_env \<Rightarrow> record_key list \<Rightarrow> record_store \<Rightarrow> record_key \<Rightarrow> store_error + record_store" where
  "prune_storage_if_needed_for_record W iter s r =
     (if length (records s) < max_records (config s) then Inr s
      else let sorted_records = sort_key (key_distance W s) iter
           in if sorted_records = [] then Inr s
              else let furthest_record = last sorted_records
                   in if kad_distance W r (local_key s) < kad_distance W furthest_record (local_key s)
                      then Inr (remove_record s furthest_record)
                      else Inl MaxRecords)"

definition put_verified :: "('d, 's) wire_env \<Rightarrow> record_key list \<Rightarrow> record_store \<Rightarrow> kad_record
    \<Rightarrow> store_error + record_store" where
  "put_verified W iter s r =
     bind_result (prune_storage_if_needed_for_record W iter s (rec_key r)) (\<lambda>s.
       Inr (s\<lparr>records := bs_insert (rec_key r) (records s),
              tasks := tasks s @ [WriteTask (key_to_hex (rec_key r)) (rec_value r)]\<rparr>))"

definition rs_get :: "record_store \<Rightarrow> record_key \<Rightarrow> kad_record option" where
  "rs_get s k = (if \<not> rs_contains s k then None else read_from_disk k (disk s))"

definition rs_put :: "record_store \<Rightarrow> kad_record \<Rightarrow> store_error + record_store" where
  "rs_put s r =
     (if length (rec_value r) \<ge> max_value_bytes (config s) then Inl ValueTooLarge
      else if event_sender s then Inr (s\<lparr>sent_events := sent_events s @ [UnverifiedRecord r]\<rparr>)
      else Inr s)"

definition set_distance_range :: "record_store \<Rightarrow> distance \<Rightarrow> record_store" where
  "set_distance_range s d = s\<lparr>distance_range := Some d\<rparr>"

definition rs_records :: "record_store \<Rightarrow> kad_record list" where
  "rs_records s = List.map_filter (\<lambda>k. read_from_disk k (disk s)) (records s)"

text \<open>
  The spawned task at position \<open>i\<close> runs; \<open>ok\<close> says whether its file system call succeeds.
\<close>

definition run_disk_task :: "bool \<Rightarrow> disk_task \<Rightarrow> (string, bytes) btree_map \<Rightarrow> (string, bytes) btree_map" where
  "run_disk_task ok t d =
     (if \<not> ok then d else (case t of WriteTask f v \<Rightarrow> bm_insert f v d | RemoveTask f \<Rightarrow> bm_remove f d))"

definition run_task :: "bool \<Rightarrow> nat \<Rightarrow> record_store \<Rightarrow> record_store" where
  "run_task ok i s =
     (if i < length (tasks s)
      then s\<lparr>disk := run_disk_task ok (tasks s ! i) (disk s), tasks := take i (tasks s) @ drop (Suc i) (tasks s)\<rparr>
      else s)"

section \<open>Pricing\<close>

text \<open>
  The factor is \<open>10f64.powf(2048.0 / 100.0 - 2.0) as u64\<close>, that is ten to the power 18.48; the
  value the standard library's \<open>powf\<close> returns is the argument \<open>factor\<close>, and the total supply
  is \<open>u32::MAX * 10^9\<close>.
\<close>

definition TOTAL_SUPPLY :: u64 where
  "TOTAL_SUPPLY = 4294967295 * 1000000000"

definition relevant_records_len :: "('d, 's) wire_env \<Rightarrow> record_store \<Rightarrow> nat" where
  "relevant_records_len W s =
     (case distance_range s of
        Some limit \<Rightarrow> length (filter (\<lambda>k. limit \<ge> key_distance W s k) (records s))
      | None \<Rightarrow> MAX_RECORDS_COUNT)"

definition store_cost :: "('d, 's) wire_env \<Rightarrow> u64 \<Rightarrow> record_store \<Rightarrow> token" where
  "store_cost W factor s =
     (let current_step = relevant_records_len W s div PUTS_PER_PRICE_STEP + 1
      in ((\<lambda>cost. saturating_add cost cost) ^^ current_step) (TOTAL_SUPPLY div factor))"

section \<open>The circular buffer\<close>

record 'a circular_vec =
  cv_inner :: "'a list"
  cv_capacity :: nat

definition circular_vec_new :: "nat \<Rightarrow> 'a circular_vec" where
  "circular_vec_new capacity = \<lparr>cv_inner = [], cv_capacity = capacity\<rparr>"

text \<open>\<open>None\<close> is \<open>CircularVecPopFrontError\<close>.\<close>

definition circular_vec_push :: "'a circular_vec \<Rightarrow> 'a \<Rightarrow> 'a circular_vec option" where
  "circular_vec_push v x =
     (if length (cv_inner v) = cv_capacity v
      then (case cv_inner v of [] \<Rightarrow> None | _ # rest \<Rightarrow> Some (v\<lparr>cv_inner := rest @ [x]\<rparr>))
      else Some (v\<lparr>cv_inner := cv_inner v @ [x]\<rparr>))"

definition circular_vec_contains :: "'a circular_vec \<Rightarrow> 'a \<Rightarrow> bool" where
  "circular_vec_contains v x \<longleftrightarrow> x \<in> set (cv_inner v)"

section \<open>Invariant\<close>

text \<open>The key set is well formed and within the configured capacity.\<close>

definition store_ok :: "record_store \<Rightarrow> bool" where
  "store_ok s \<longleftrightarrow> bs_ok (records s) \<and> length (records s) \<le> max_records (config s) \<and> max_records (config s) > 0"

definition iterates :: "record_key list \<Rightarrow> record_store \<Rightarrow> bool" where
  "iterates iter s \<longleftrightarrow> distinct iter \<and> set iter = set (records s)"

lemma bs_ok_remove1: "bs_ok xs \<Longrightarrow> bs_ok (remove1 x xs)"
  by (simp add: bs_ok_def sorted_remove1)

lemma length_bs_insert_le: "length (bs_insert x xs) \<le> Suc (length xs)"
  by (simp add: bs_insert_def insort_insert_key_def)

lemma remove_record_sel [simp]:
  "local_key (remove_record s k) = local_key s" "config (remove_record s k) = config s"
  "records (remove_record s k) = remove1 k (records s)" "disk (remove_record s k) = disk s"
  "tasks (remove_record s k) = tasks s @ [RemoveTask (key_to_hex k)]"
  "distance_range (remove_record s k) = distance_range s"
  by (simp_all add: remove_record_def)

lemma last_sort_key_max:
  assumes "iter \<noteq> []"
  shows "last (sort_key f iter) \<in> set iter" and "k \<in> set iter \<Longrightarrow> f k \<le> f (last (sort_key f iter))"
proof -
  have ne: "sort_key f iter \<noteq> []" using assms by (metis length_0_conv length_sort)
  then show "last (sort_key f iter) \<in> set iter" by (metis last_in_set set_sort)
  assume "k \<in> set iter"
  then obtain j where j: "j < length (sort_key f iter)" "sort_key f iter ! j = k"
    by (metis in_set_conv_nth set_sort)
  have "sorted (map f (sort_key f iter))" by simp
  then have "map f (sort_key f iter) ! j \<le> map f (sort_key f iter) ! (length (sort_key f iter) - 1)"
    using j ne by (intro sorted_nth_mono) auto
  with j ne show "f k \<le> f (last (sort_key f iter))" by (simp add: last_conv_nth)
qed

text \<open>Pruning leaves the store alone, or removes one furthest key, or refuses.\<close>

lemma prune_cases:
  assumes "iterates iter s" and "store_ok s" and "distance_law W"
  obtains (room) "length (records s) < max_records (config s)" "prune_storage_if_needed_for_record W iter s r = Inr s"
  | (evict) far where "length (records s) = max_records (config s)" "far \<in> set (records s)"
      "\<forall>k \<in> set (records s). key_distance W s k \<le> key_distance W s far"
      "key_distance W s r < key_distance W s far"
      "prune_storage_if_needed_for_record W iter s r = Inr (remove_record s far)"
  | (full) "length (records s) = max_records (config s)" "prune_storage_if_needed_for_record W iter s r = Inl MaxRecords"
      "\<forall>k \<in> set (records s). key_distance W s k \<le> key_distance W s r"
proof (cases "length (records s) < max_records (config s)")
  case True
  then show thesis by (intro room) (simp_all add: prune_storage_if_needed_for_record_def)
next
  case False
  with assms(2) have len: "length (records s) = max_records (config s)" "max_records (config s) > 0"
    by (auto simp: store_ok_def)
  then have ne: "iter \<noteq> []" using assms(1) by (auto simp: iterates_def)
  let ?far = "last (sort_key (key_distance W s) iter)"
  note far = last_sort_key_max [where f = "key_distance W s", OF ne]
  have max: "?far \<in> set (records s)" "\<forall>k \<in> set (records s). key_distance W s k \<le> key_distance W s ?far"
    using far assms(1) by (auto simp: iterates_def)
  have dist: "kad_distance W k (local_key s) = key_distance W s k" for k
    using assms(3) by (simp add: distance_law_def key_distance_def)
  have ne': "sort_key (key_distance W s) iter \<noteq> []" using ne by (metis length_0_conv length_sort)
  show thesis
  proof (cases "key_distance W s r < key_distance W s ?far")
    case True
    with False len ne' max show thesis
      by (intro evict [of ?far]) (simp_all add: prune_storage_if_needed_for_record_def Let_def dist)
  next
    case nlt: False
    with False len ne' max show thesis
      by (intro full) (auto simp: prune_storage_if_needed_for_record_def Let_def dist)
  qed
qed

lemma put_verified_cases:
  assumes "iterates iter s" and "store_ok s" and "distance_law W"
  obtains (stored) "put_verified W iter s r = Inr (s\<lparr>records := bs_insert (rec_key r) (records s),
        tasks := tasks s @ [WriteTask (key_to_hex (rec_key r)) (rec_value r)]\<rparr>)" "length (records s) < max_records (config s)"
  | (evicted) far where "put_verified W iter s r = Inr (s\<lparr>records := bs_insert (rec_key r) (remove1 far (records s)),
        tasks := tasks s @ [RemoveTask (key_to_hex far), WriteTask (key_to_hex (rec_key r)) (rec_value r)]\<rparr>)"
      "length (records s) = max_records (config s)" "far \<in> set (records s)"
      "\<forall>k \<in> set (records s). key_distance W s k \<le> key_distance W s far"
      "key_distance W s (rec_key r) < key_distance W s far"
  | (refused) "put_verified W iter s r = Inl MaxRecords" "length (records s) = max_records (config s)"
      "\<forall>k \<in> set (records s). key_distance W s k \<le> key_distance W s (rec_key r)"
  using assms
proof (cases rule: prune_cases [where r = "rec_key r"])
  case room
  then show thesis by (intro stored) (simp_all add: put_verified_def)
next
  case (evict far)
  then show thesis by (intro evicted [of far]) (simp_all add: put_verified_def remove_record_def)
next
  case full
  then show thesis by (intro refused) (simp_all add: put_verified_def)
qed

lemma bs_ok_insert: "bs_ok xs \<Longrightarrow> bs_ok (bs_insert x xs)"
  by (rule bs.ok_insert)

lemma set_bs_insert [simp]: "set (bs_insert x xs) = insert x (set xs)"
  by (rule bs.elems_insert)

lemma store_ok_put_verified [wf_intros]:
  assumes "put_verified W iter s r = Inr s'" and "iterates iter s" and "store_ok s" and "distance_law W"
  shows "store_ok s'"
  using assms(2-4)
proof (cases rule: put_verified_cases [where r = r])
  case stored
  with assms show ?thesis
    using length_bs_insert_le [of "rec_key r" "records s"] by (auto simp: store_ok_def bs_ok_insert)
next
  case (evicted far)
  with assms have "length (remove1 far (records s)) = max_records (config s) - 1"
    by (simp add: length_remove1)
  with evicted assms show ?thesis
    using length_bs_insert_le [of "rec_key r" "remove1 far (records s)"]
    by (auto simp: store_ok_def bs_ok_insert bs_ok_remove1)
qed (use assms in auto)

lemma store_ok_remove [wf_intros]: "store_ok s \<Longrightarrow> store_ok (remove_record s k)"
  by (auto simp: store_ok_def bs_ok_remove1 length_remove1)

section \<open>Lemmas on files\<close>

lemma hex_digit_inj: "m < 16 \<Longrightarrow> n < 16 \<Longrightarrow> hex_digit m = hex_digit n \<Longrightarrow> m = n"
proof -
  have "distinct ''0123456789abcdef''" by simp
  then show "m < 16 \<Longrightarrow> n < 16 \<Longrightarrow> hex_digit m = hex_digit n \<Longrightarrow> m = n"
    unfolding hex_digit_def by (subst (asm) nth_eq_iff_index_eq) simp_all
qed

lemma key_to_hex_simps [simp]:
  "key_to_hex [] = []"
  "key_to_hex (b # k) = hex_digit (unat b div 16) # hex_digit (unat b mod 16) # key_to_hex k"
  by (simp_all add: key_to_hex_def)

lemma key_to_hex_inj [simp]: "key_to_hex k = key_to_hex k' \<longleftrightarrow> k = k'"
proof (induction k arbitrary: k')
  case Nil
  then show ?case by (cases k') simp_all
next
  case (Cons b k)
  show ?case
  proof (cases k')
    case (Cons b' k'')
    have "unat b = unat b'" if "hex_digit (unat b div 16) = hex_digit (unat b' div 16)"
      "hex_digit (unat b mod 16) = hex_digit (unat b' mod 16)"
    proof -
      have "unat b < 2 ^ LENGTH(8)" "unat b' < 2 ^ LENGTH(8)" by (rule unsigned_less)+
      then have "unat b div 16 < 16" "unat b' div 16 < 16" by simp_all
      with that have "unat b div 16 = unat b' div 16" "unat b mod 16 = unat b' mod 16"
        by (auto intro: hex_digit_inj)
      then show ?thesis by (metis div_mult_mod_eq)
    qed
    then have eq: "hex_digit (unat b div 16) = hex_digit (unat b' div 16) \<and>
        hex_digit (unat b mod 16) = hex_digit (unat b' mod 16) \<longleftrightarrow> b = b'"
      by (metis word_unat_eq_iff)
    show ?thesis unfolding Cons key_to_hex_simps list.inject Cons.IH using eq by blast
  qed simp
qed

fun task_file :: "disk_task \<Rightarrow> string" where
  "task_file (WriteTask f v) = f"
| "task_file (RemoveTask f) = f"

text \<open>A schedule runs pending tasks by position; all its file system calls succeed.\<close>

definition run_schedule :: "nat list \<Rightarrow> record_store \<Rightarrow> record_store" where
  "run_schedule is s = fold (run_task True) is s"

lemma run_task_sel [simp]:
  "records (run_task ok i s) = records s" "config (run_task ok i s) = config s"
  "local_key (run_task ok i s) = local_key s"
  by (simp_all add: run_task_def)

lemma run_schedule_sel [simp]:
  "records (run_schedule is s) = records s" "config (run_schedule is s) = config s"
  unfolding run_schedule_def by (induction "is" arbitrary: s) simp_all

text \<open>The only pending task of a file is one write, or its content is there and none is pending.\<close>

definition settles :: "string \<Rightarrow> bytes \<Rightarrow> record_store \<Rightarrow> bool" where
  "settles f v s \<longleftrightarrow> bm_ok (disk s) \<and>
     (filter (\<lambda>t. task_file t = f) (tasks s) = [WriteTask f v] \<or>
      filter (\<lambda>t. task_file t = f) (tasks s) = [] \<and> bm_get (disk s) f = Some v)"

lemma filter_drop_nth:
  assumes "i < length xs"
  shows "filter P xs = filter P (take i xs) @ (if P (xs ! i) then [xs ! i] else []) @ filter P (drop (Suc i) xs)"
proof -
  have "filter P xs = filter P (take i xs @ xs ! i # drop (Suc i) xs)"
    using id_take_nth_drop [OF assms] by simp
  then show ?thesis by simp
qed

lemma settles_run_task:
  assumes "settles f v s"
  shows "settles f v (run_task True i s)"
proof (cases "i < length (tasks s)")
  case True
  note split = filter_drop_nth [OF True, of "\<lambda>t. task_file t = f"]
  show ?thesis
  proof (cases "task_file (tasks s ! i) = f")
    case this: True
    with split assms have "tasks s ! i = WriteTask f v" "filter (\<lambda>t. task_file t = f) (take i (tasks s)) = []"
      "filter (\<lambda>t. task_file t = f) (drop (Suc i) (tasks s)) = []"
      by (auto simp: settles_def append_eq_Cons_conv)
    with True assms show ?thesis
      by (simp add: settles_def run_task_def run_disk_task_def map_of_bm_insert bm_ok_insert)
  next
    case False
    then have "bm_get (run_disk_task True (tasks s ! i) (disk s)) f = bm_get (disk s) f"
      "bm_ok (run_disk_task True (tasks s ! i) (disk s))"
      using assms by (cases "tasks s ! i";
          auto simp: settles_def run_disk_task_def map_of_bm_insert map_of_bm_remove bm_ok_insert bm_ok_remove)+
    with True False split assms show ?thesis by (auto simp: settles_def run_task_def)
  qed
qed (use assms in \<open>simp add: run_task_def\<close>)

interpretation settling: invariant_system "run_task True" "\<lambda>_ _. True" "settles f v"
  by unfold_locales (rule settles_run_task)

lemma settles_run_schedule: "settles f v s \<Longrightarrow> settles f v (run_schedule order s)"
  unfolding run_schedule_def by (rule settling.run_inv) simp_all

lemma put_verified_settles:
  assumes "distance_law W" and "store_ok s" and "iterates iter s" and "bm_ok (disk s)"
    and "\<forall>t \<in> set (tasks s). task_file t \<noteq> key_to_hex (rec_key r)" and "put_verified W iter s r = Inr s'"
  shows "settles (key_to_hex (rec_key r)) (rec_value r) s' \<and> rec_key r \<in> set (records s')"
proof -
  let ?f = "key_to_hex (rec_key r)"
  have none: "filter (\<lambda>t. task_file t = ?f) (tasks s) = []" using assms(5) by (simp add: filter_empty_conv)
  show ?thesis
    using assms(3,2,1)
  proof (cases rule: put_verified_cases [where r = r])
    case stored
    with assms(4,6) none show ?thesis by (auto simp: settles_def)
  next
    case (evicted far)
    then have "far \<noteq> rec_key r" by auto
    with evicted assms(4,6) none show ?thesis by (auto simp: settles_def)
  qed (use assms(6) in simp)
qed

lemma settled_get:
  assumes "settles (key_to_hex k) v s" and "k \<in> set (records s)" and "tasks (run_schedule order s) = []"
  shows "rs_get (run_schedule order s) k = Some \<lparr>rec_key = k, rec_value = v, rec_publisher = None, rec_expires = None\<rparr>"
  using settles_run_schedule [OF assms(1), of order] assms(2,3)
  by (simp add: settles_def rs_get_def rs_contains_def read_from_disk_def)

section \<open>Lemmas on pricing\<close>

lemma saturating_doubling:
  "unat (((\<lambda>c. saturating_add c c) ^^ n) (c :: u64)) = min (2 ^ n * unat c) (2 ^ 64 - 1)"
proof (induction n)
  case 0
  have "unat c < 2 ^ LENGTH(64)" by (rule unsigned_less)
  then show ?case by simp
next
  case (Suc n)
  have "unat (((\<lambda>c. saturating_add c c) ^^ Suc n) c) =
      min (2 * unat (((\<lambda>c. saturating_add c c) ^^ n) c)) (2 ^ LENGTH(64) - 1)"
    by (simp only: funpow.simps comp_def unat_saturating_add mult_2)
  also have "\<dots> = min (2 * min (2 ^ n * unat c) (2 ^ 64 - 1)) (2 ^ 64 - 1)"
    by (simp only: Suc) simp
  also have "\<dots> = min (2 ^ Suc n * unat c) (2 ^ 64 - 1)" by (simp add: min_def)
  finally show ?case .
qed

lemma circular_vec_fold:
  assumes "cap > 0"
  shows "fold (\<lambda>x v. Option.bind v (\<lambda>v. circular_vec_push v x)) xs (Some (circular_vec_new cap)) =
    Some \<lparr>cv_inner = drop (length xs - cap) xs, cv_capacity = cap\<rparr>"
proof (induction xs rule: rev_induct)
  case Nil
  then show ?case by (simp add: circular_vec_new_def)
next
  case (snoc x xs)
  let ?v = "\<lparr>cv_inner = drop (length xs - cap) xs, cv_capacity = cap\<rparr>"
  have "circular_vec_push ?v x = Some \<lparr>cv_inner = drop (length (xs @ [x]) - cap) (xs @ [x]), cv_capacity = cap\<rparr>"
  proof (cases "length xs < cap")
    case True
    then show ?thesis by (simp add: circular_vec_push_def)
  next
    case False
    then have lt: "length xs - cap < length xs" using assms by simp
    then have "drop (length xs - cap) xs = xs ! (length xs - cap) # drop (Suc (length xs - cap)) xs"
      by (rule Cons_nth_drop_Suc [symmetric])
    moreover have "Suc (length xs - cap) = Suc (length xs) - cap" using False by simp
    ultimately show ?thesis using False assms by (simp add: circular_vec_push_def)
  qed
  with snoc show ?case by simp
qed

section \<open>A concrete store\<close>

definition demo_store :: record_store where
  "demo_store = (with_config [0] ((default_config 200 ''tmp'')\<lparr>max_records := 2\<rparr>) True)\<lparr>records := [[1], [9]]\<rparr>"

lemma demo_store_ok: "store_ok demo_store" "iterates [[9], [1]] demo_store" "tasks demo_store = []"
  by (auto simp: store_ok_def bs_ok_def demo_store_def with_config_def default_config_def iterates_def)

section \<open>Properties\<close>

text \<open>C4: Storing a verified record keeps the store within its capacity and holds the new key; at
  most one key is evicted, only when the store is full, and it is a furthest one and further than
  the new key. The only error is \<open>MaxRecords\<close>, returned exactly when the store is full and no
  stored key is further than the new one.\<close>

theorem put_verified_capacity:
  assumes "distance_law W" and "store_ok s" and "iterates iter s"
  shows "case put_verified W iter s r of
      Inr s' \<Rightarrow> store_ok s' \<and> rs_contains s' (rec_key r) \<and>
        (set (records s') = insert (rec_key r) (set (records s)) \<and> length (records s) < max_records (config s) \<or>
         (\<exists>far \<in> set (records s). set (records s') = insert (rec_key r) (set (records s) - {far}) \<and>
            length (records s) = max_records (config s) \<and> key_distance W s (rec_key r) < key_distance W s far \<and>
            (\<forall>k \<in> set (records s). key_distance W s k \<le> key_distance W s far)))
    | Inl e \<Rightarrow> e = MaxRecords \<and> length (records s) = max_records (config s) \<and>
        (\<forall>k \<in> set (records s). key_distance W s k \<le> key_distance W s (rec_key r))"
  using assms(3,2,1)
proof (cases rule: put_verified_cases [where r = r])
  case stored
  then show ?thesis
    using store_ok_put_verified [OF stored(1) assms(3,2,1)] by (simp add: rs_contains_def)
next
  case (evicted far)
  have "distinct (records s)" using assms(2) by (simp add: store_ok_def bs_ok_def)
  with evicted show ?thesis
    using store_ok_put_verified [OF evicted(1) assms(3,2,1)] by (auto simp: rs_contains_def)
next
  case refused
  then show ?thesis by simp
qed

theorem put_verified_capacity_witness:
  "\<exists>s'. put_verified demo_wire [[9], [1]] demo_store \<lparr>rec_key = [5], rec_value = [7], rec_publisher = None, rec_expires = None\<rparr>
     = Inr s' \<and> store_ok s' \<and> set (records s') = {[1], [5]}"
proof -
  let ?r = "\<lparr>rec_key = [5], rec_value = [7], rec_publisher = None, rec_expires = None\<rparr>"
  have "put_verified demo_wire [[9], [1]] demo_store ?r \<noteq> Inl MaxRecords"
    by (simp add: put_verified_def prune_storage_if_needed_for_record_def demo_store_def with_config_def default_config_def
        demo_wire_def key_distance_def Let_def)
  with put_verified_capacity [OF demo_wire_laws(3) demo_store_ok(1,2), of ?r]
  obtain s' where s': "put_verified demo_wire [[9], [1]] demo_store ?r = Inr s'" "store_ok s'"
    by (auto split: sum.splits)
  moreover have "set (records s') = {[1], [5]}"
    using s'(1) by (auto simp: put_verified_def prune_storage_if_needed_for_record_def demo_store_def with_config_def
        default_config_def demo_wire_def key_distance_def Let_def remove_record_def split: if_splits)
  ultimately show ?thesis by blast
qed

text \<open>After a record is stored in a store with no pending task for its file, every schedule of
  the spawned disk tasks that runs them all without an error, in whatever order, leaves the
  record readable with the value stored.\<close>

theorem put_then_get:
  assumes "distance_law W" and "store_ok s" and "iterates iter s" and "bm_ok (disk s)"
    and "\<forall>t \<in> set (tasks s). task_file t \<noteq> key_to_hex (rec_key r)"
    and "put_verified W iter s r = Inr s'" and "tasks (run_schedule order s') = []"
  shows "rs_get (run_schedule order s') (rec_key r) =
    Some \<lparr>rec_key = rec_key r, rec_value = rec_value r, rec_publisher = None, rec_expires = None\<rparr>"
  using put_verified_settles [OF assms(1-6)] assms(7) by (auto intro: settled_get)

theorem put_then_get_witness:
  "\<exists>s'. put_verified demo_wire [[9], [1]] demo_store \<lparr>rec_key = [5], rec_value = [7], rec_publisher = None, rec_expires = None\<rparr>
     = Inr s' \<and> rs_get (run_schedule [1, 0] s') [5] =
       Some \<lparr>rec_key = [5], rec_value = [7], rec_publisher = None, rec_expires = None\<rparr>"
proof -
  let ?r = "\<lparr>rec_key = [5], rec_value = [7], rec_publisher = None, rec_expires = None\<rparr>"
  let ?s = "demo_store\<lparr>records := [[1], [5]], tasks := [RemoveTask (key_to_hex [9]), WriteTask (key_to_hex [5]) [7]]\<rparr>"
  have s': "put_verified demo_wire [[9], [1]] demo_store ?r = Inr ?s"
    by (simp add: put_verified_def prune_storage_if_needed_for_record_def demo_store_def with_config_def
        default_config_def demo_wire_def key_distance_def Let_def remove_record_def bs_insert_def insort_insert_key_def)
  have "tasks (run_schedule [1, 0] ?s) = []" by (simp add: run_schedule_def run_task_def)
  moreover have "bm_ok (disk demo_store)" by (simp add: demo_store_def with_config_def)
  ultimately show ?thesis
    using put_then_get [OF demo_wire_laws(3) demo_store_ok(1,2) _ _ s', of "[1, 0]"] s' demo_store_ok(3) by auto
qed

text \<open>Removing a key and storing it again spawns two tasks for one file. If the write runs before
  the removal, the store lists the key while the record cannot be read: the order of the
  spawned tasks is not the order of the calls.\<close>

theorem remove_put_race:
  assumes "bm_ok (disk s)" and "tasks s = []" and "length (records s) < max_records (config s)"
    and "put_verified W iter (remove_record s (rec_key r)) r = Inr s'"
  shows "rs_contains (run_schedule [1, 0] s') (rec_key r) \<and> rs_get (run_schedule [1, 0] s') (rec_key r) = None \<and>
    rs_get (run_schedule [0, 0] s') (rec_key r) =
      Some \<lparr>rec_key = rec_key r, rec_value = rec_value r, rec_publisher = None, rec_expires = None\<rparr>"
proof -
  let ?f = "key_to_hex (rec_key r)"
  have "length (remove1 (rec_key r) (records s)) < max_records (config s)"
    using assms(3) by (auto simp: length_remove1)
  with assms(2,4) have s': "s' = s\<lparr>records := bs_insert (rec_key r) (remove1 (rec_key r) (records s)),
      tasks := [RemoveTask ?f, WriteTask ?f (rec_value r)]\<rparr>"
    by (auto simp: put_verified_def prune_storage_if_needed_for_record_def remove_record_def)
  show ?thesis
    using assms(1) by (simp add: s' run_schedule_def run_task_def run_disk_task_def rs_get_def rs_contains_def
        read_from_disk_def map_of_bm_remove map_of_bm_insert bm_ok_remove)
qed

theorem remove_put_race_witness:
  "\<exists>s'. put_verified demo_wire [[9]] (remove_record (demo_store\<lparr>records := [[1]]\<rparr>) [1])
      \<lparr>rec_key = [1], rec_value = [7], rec_publisher = None, rec_expires = None\<rparr> = Inr s' \<and>
    rs_contains (run_schedule [1, 0] s') [1] \<and> rs_get (run_schedule [1, 0] s') [1] = None"
proof -
  let ?r = "\<lparr>rec_key = [1], rec_value = [7], rec_publisher = None, rec_expires = None\<rparr>"
  let ?s = "demo_store\<lparr>records := [[1]]\<rparr>"
  have "is_ok (put_verified demo_wire [[9]] (remove_record ?s [1]) ?r)"
    by (simp add: put_verified_def prune_storage_if_needed_for_record_def demo_store_def with_config_def
        default_config_def remove_record_def)
  then obtain s' where "put_verified demo_wire [[9]] (remove_record ?s (rec_key ?r)) ?r = Inr s'" by (auto simp: is_ok_iff)
  with remove_put_race [OF _ _ _ this] show ?thesis by (auto simp: demo_store_def with_config_def default_config_def)
qed

text \<open>The store cost doubles with every hundred relevant records and saturates at the largest
  64-bit value instead of wrapping around; before the distance range is known, the price is that
  of a full store; and a store with more relevant records is never cheaper.\<close>

theorem store_cost_formula:
  "unat (store_cost W factor s) =
     min (2 ^ (relevant_records_len W s div 100 + 1) * unat (TOTAL_SUPPLY div factor)) (2 ^ 64 - 1) \<and>
   (distance_range s = None \<longrightarrow>
     unat (store_cost W factor s) = min (2 ^ 21 * unat (TOTAL_SUPPLY div factor)) (2 ^ 64 - 1)) \<and>
   (relevant_records_len W s \<le> relevant_records_len W s' \<longrightarrow> store_cost W factor s \<le> store_cost W factor s')"
proof -
  have cost: "unat (store_cost W factor s) =
      min (2 ^ (relevant_records_len W s div 100 + 1) * unat (TOTAL_SUPPLY div factor)) (2 ^ 64 - 1)" for s
    unfolding store_cost_def Let_def saturating_doubling PUTS_PER_PRICE_STEP_def by (rule refl)
  have "unat (store_cost W factor s) \<le> unat (store_cost W factor s')"
    if "relevant_records_len W s \<le> relevant_records_len W s'"
  proof -
    have "relevant_records_len W s div 100 + 1 \<le> relevant_records_len W s' div 100 + 1"
      using that by (simp add: div_le_mono)
    then have "2 ^ (relevant_records_len W s div 100 + 1) \<le> (2 :: nat) ^ (relevant_records_len W s' div 100 + 1)"
      by (intro power_increasing) simp_all
    then show ?thesis unfolding cost by (intro min.mono mult_right_mono) simp_all
  qed
  moreover have "relevant_records_len W s = 2048" if "distance_range s = None"
    using that by (simp add: relevant_records_len_def MAX_RECORDS_COUNT_def)
  ultimately show ?thesis unfolding word_le_nat_alt cost by simp
qed

theorem store_cost_formula_witness:
  "unat (store_cost demo_wire 1000000000000000000 demo_store) = 2 ^ 21 * 4"
proof -
  have "distance_range demo_store = None" by (simp add: demo_store_def with_config_def)
  moreover have "unat (TOTAL_SUPPLY div 1000000000000000000) = 4"
    by (simp add: TOTAL_SUPPLY_def unat_div_distrib)
  ultimately show ?thesis
    using store_cost_formula [of demo_wire 1000000000000000000 demo_store demo_store] by simp
qed

text \<open>A circular buffer of positive capacity holds, after any sequence of pushes, exactly the last
  elements pushed, up to its capacity, and no push fails.\<close>

theorem circular_vec_holds_last:
  assumes "cap > 0"
  shows "\<exists>v. fold (\<lambda>x v. Option.bind v (\<lambda>v. circular_vec_push v x)) xs (Some (circular_vec_new cap)) = Some v \<and>
    (\<forall>x. circular_vec_contains v x \<longleftrightarrow> x \<in> set (drop (length xs - cap) xs)) \<and> length (cv_inner v) = min cap (length xs)"
  using circular_vec_fold [OF assms, of xs] by (auto simp: circular_vec_contains_def)

theorem circular_vec_holds_last_witness:
  "\<exists>v. fold (\<lambda>x v. Option.bind v (\<lambda>v. circular_vec_push v x)) [1, 2, 3 :: nat] (Some (circular_vec_new 2)) = Some v \<and>
    circular_vec_contains v 3 \<and> \<not> circular_vec_contains v 1"
  using circular_vec_holds_last [of 2 "[1, 2, 3 :: nat]"] by auto

end
