(* ===== verification/Replication_Fetcher.thy ===== *)
theory Replication_Fetcher
  imports Protocol
begin

text \<open>
  The replication fetcher of sn_networking: which holders offered which missing records, which
  fetches are under way, and which keys to ask for next. The hash map is a strictly sorted
  association list; the order its entries are visited in after the shuffle is the argument
  \<open>shuffle\<close>; every \<open>Instant::now()\<close> of one call is the argument \<open>now\<close>, in seconds.
\<close>

section \<open>State\<close>

definition MAX_PARALLEL_FETCH :: nat where
  "MAX_PARALLEL_FETCH = 8"

definition FETCH_TIMEOUT :: nat where
  "FETCH_TIMEOUT = 15"

definition MAX_RETRIES_PER_PEER :: "8 word" where
  "MAX_RETRIES_PER_PEER = 1"

definition PEERS_TRIED_BEFORE_NETWORK_FETCH :: nat where
  "PEERS_TRIED_BEFORE_NETWORK_FETCH = 3"

datatype holder_status = Pending | OnGoing

type_synonym holder = "nat \<times> holder_status \<times> 8 word"
type_synonym holders = "(peer_id, holder) btree_map"
type_synonym fetch_list = "(record_key, peer_id option) btree_map"

record fetcher =
  to_be_fetched :: "(record_key, holders) btree_map"
  on_going_fetches :: nat

definition fetcher_new :: fetcher where
  "fetcher_new = \<lparr>to_be_fetched = [], on_going_fetches = 0\<rparr>"

section \<open>Operations\<close>

fun is_on_going :: "peer_id \<times> holder \<Rightarrow> bool" where
  "is_on_going (_, _, st, _) \<longleftrightarrow> st = OnGoing"

text \<open>\<open>Some timed_out\<close> when a holder of the key is being asked, by the first such holder's time.\<close>

definition fetch_for_key_is_ongoing :: "nat \<Rightarrow> holders \<Rightarrow> bool option" where
  "fetch_for_key_is_ongoing now hs = map_option (\<lambda>(_, t, _, _). now > t + FETCH_TIMEOUT) (find is_on_going hs)"

text \<open>
  What the loops update: the holders seen so far, the counter, the keys to fetch and whether the
  current key was added.
\<close>

record loop_state =
  ls_counter :: nat
  ls_fetch :: fetch_list
  ls_added :: bool

fun holder_step :: "nat \<Rightarrow> bool \<Rightarrow> nat \<Rightarrow> bool option \<Rightarrow> record_key \<Rightarrow> peer_id \<times> holder \<Rightarrow> loop_state
    \<Rightarrow> (peer_id \<times> holder) \<times> loop_state" where
  "holder_step now no_more fetches_left ongoing key (peer, t, Pending, failed) ls =
     (if no_more \<or> ls_added ls \<or> length (ls_fetch ls) \<ge> fetches_left \<or> failed \<ge> MAX_RETRIES_PER_PEER \<or>
         ongoing = Some False
      then ((peer, t, Pending, failed), ls)
      else ((peer, now, OnGoing, failed),
            ls\<lparr>ls_fetch := bm_insert key (Some peer) (ls_fetch ls), ls_counter := ls_counter ls + 1, ls_added := True\<rparr>))"
| "holder_step now no_more fetches_left ongoing key (peer, t, OnGoing, failed) ls =
     (if now > t + FETCH_TIMEOUT
      then ((peer, t, Pending, failed + 1), ls\<lparr>ls_counter := ls_counter ls - 1\<rparr>)
      else ((peer, t, OnGoing, failed), ls))"

fun holders_loop :: "nat \<Rightarrow> bool \<Rightarrow> nat \<Rightarrow> bool option \<Rightarrow> record_key \<Rightarrow> holders \<Rightarrow> loop_state \<Rightarrow> holders \<times> loop_state" where
  "holders_loop now no_more fetches_left ongoing key [] ls = ([], ls)"
| "holders_loop now no_more fetches_left ongoing key (h # hs) ls =
     (case holder_step now no_more fetches_left ongoing key h ls of (h', ls') \<Rightarrow>
      case holders_loop now no_more fetches_left ongoing key hs ls' of (hs', ls'') \<Rightarrow> (h' # hs', ls''))"

definition failed_holders_count :: "holders \<Rightarrow> nat" where
  "failed_holders_count hs = length (filter (\<lambda>(_, _, _, failed). failed \<ge> MAX_RETRIES_PER_PEER) hs)"

text \<open>One key: its new holders, or \<open>None\<close> when it is handed to the network and removed.\<close>

definition key_step :: "nat \<Rightarrow> bool \<Rightarrow> nat \<Rightarrow> record_key \<times> holders \<Rightarrow> nat \<times> fetch_list
    \<Rightarrow> (record_key \<times> holders) option \<times> nat \<times> fetch_list" where
  "key_step now no_more fetches_left kh cf =
     (let (key, hs) = kh;
          (hs', ls) = holders_loop now no_more fetches_left (fetch_for_key_is_ongoing now hs) key hs
            \<lparr>ls_counter = fst cf, ls_fetch = snd cf, ls_added = False\<rparr>
      in if failed_holders_count hs' = length hs' \<or> failed_holders_count hs' \<ge> PEERS_TRIED_BEFORE_NETWORK_FETCH
         then (None, ls_counter ls - 1, bm_insert key None (ls_fetch ls))
         else (Some (key, hs'), ls_counter ls, ls_fetch ls))"

fun keys_loop :: "nat \<Rightarrow> bool \<Rightarrow> nat \<Rightarrow> (record_key \<times> holders) list \<Rightarrow> nat \<times> fetch_list
    \<Rightarrow> (record_key \<times> holders) list \<times> nat \<times> fetch_list" where
  "keys_loop now no_more fetches_left [] cf = ([], cf)"
| "keys_loop now no_more fetches_left (kh # khs) cf =
     (case key_step now no_more fetches_left kh cf of (kept, cf') \<Rightarrow>
      case keys_loop now no_more fetches_left khs cf' of (khs', cf'') \<Rightarrow>
        ((case kept of None \<Rightarrow> khs' | Some x \<Rightarrow> x # khs'), cf''))"

text \<open>
  \<open>fetches_left\<close> is a \<open>usize\<close> subtraction, which wraps around in a release build when the
  counter exceeds the limit.
\<close>

definition fetches_left :: "nat \<Rightarrow> nat" where
  "fetches_left counter = (if counter \<le> MAX_PARALLEL_FETCH then MAX_PARALLEL_FETCH - counter
     else 2 ^ 64 + MAX_PARALLEL_FETCH - counter)"

type_synonym shuffle = "(record_key \<times> holders) list \<Rightarrow> (record_key \<times> holders) list"

definition next_keys_to_fetch :: "nat \<Rightarrow> shuffle \<Rightarrow> fetcher \<Rightarrow> fetcher \<times> fetch_list" where
  "next_keys_to_fetch now shuffle f =
     (let no_more = on_going_fetches f \<ge> MAX_PARALLEL_FETCH;
          (kept, counter, keys) = keys_loop now no_more (fetches_left (on_going_fetches f))
            (shuffle (to_be_fetched f)) (on_going_fetches f, [])
      in (\<lparr>to_be_fetched = bm_collect kept, on_going_fetches = counter\<rparr>, keys))"

definition retain_keys :: "record_key list \<Rightarrow> fetcher \<Rightarrow> fetcher" where
  "retain_keys existing_keys f = f\<lparr>to_be_fetched := filter (\<lambda>(k, _). k \<notin> set existing_keys) (to_be_fetched f)\<rparr>"

definition add_holder_pey_key :: "nat \<Rightarrow> record_key \<Rightarrow> peer_id \<Rightarrow> fetcher \<Rightarrow> fetcher" where
  "add_holder_pey_key now key peer f =
     (let hs = (case bm_get (to_be_fetched f) key of None \<Rightarrow> [] | Some hs \<Rightarrow> hs);
          hs' = (if bm_contains_key hs peer then hs else bm_insert peer (now, Pending, 0) hs)
      in f\<lparr>to_be_fetched := bm_insert key hs' (to_be_fetched f)\<rparr>)"

definition fetcher_add_keys :: "nat \<Rightarrow> shuffle \<Rightarrow> peer_id \<Rightarrow> network_address list \<Rightarrow> record_key list \<Rightarrow> fetcher
    \<Rightarrow> fetcher \<times> fetch_list" where
  "fetcher_add_keys now shuffle peer incoming_keys locally_stored_keys f =
     (let f1 = retain_keys locally_stored_keys f;
          incoming = filter (\<lambda>k. k \<notin> set locally_stored_keys) (List.map_filter as_record_key incoming_keys);
          f2 = fold (\<lambda>k. add_holder_pey_key now k peer) incoming f1
      in next_keys_to_fetch now shuffle f2)"

definition notify_about_new_put :: "nat \<Rightarrow> shuffle \<Rightarrow> record_key \<Rightarrow> fetcher \<Rightarrow> fetcher \<times> fetch_list" where
  "notify_about_new_put now shuffle new_put f =
     (let counter = (case bm_get (to_be_fetched f) new_put of
            Some hs \<Rightarrow> if list_ex is_on_going hs then on_going_fetches f - 1 else on_going_fetches f
          | None \<Rightarrow> on_going_fetches f)
      in next_keys_to_fetch now shuffle
           \<lparr>to_be_fetched = bm_remove new_put (to_be_fetched f), on_going_fetches = counter\<rparr>)"

section \<open>Invariant\<close>

text \<open>The counter never exceeds the limit and no key is asked from two holders at once.\<close>

definition one_on_going :: "holders \<Rightarrow> bool" where
  "one_on_going hs \<longleftrightarrow> length (filter is_on_going hs) \<le> 1"

definition fetcher_ok :: "fetcher \<Rightarrow> bool" where
  "fetcher_ok f \<longleftrightarrow> bm_ok (to_be_fetched f) \<and> list_all (\<lambda>(_, hs). bm_ok hs \<and> one_on_going hs) (to_be_fetched f) \<and>
     on_going_fetches f \<le> MAX_PARALLEL_FETCH"

definition permutes_entries :: "shuffle \<Rightarrow> bool" where
  "permutes_entries sh \<longleftrightarrow> (\<forall>xs. mset (sh xs) = mset xs)"

definition in_flight :: "fetcher \<Rightarrow> nat" where
  "in_flight f = length (filter (\<lambda>(_, hs). list_ex is_on_going hs) (to_be_fetched f))"

lemma bm_insert_length: "bm_ok m \<Longrightarrow> length (bm_insert k v m) = (if k \<in> fst ` set m then length m else Suc (length m))"
  by (induction k v m rule: bm_insert.induct) auto

lemma bm_insert_keys: "(a, b) \<in> set (bm_insert k v m) \<Longrightarrow> a = k \<or> a \<in> fst ` set m"
  by (metis fst_conv image_eqI insert_iff set_fst_bm_insert)

lemma holder_step_peer: "holder_step now nm fl og key h ls = (h', ls') \<Longrightarrow> fst h' = fst h"
  by (induction now nm fl og key h ls rule: holder_step.induct) (auto split: if_splits)

lemma holders_loop_peers: "holders_loop now nm fl og key hs ls = (hs', ls') \<Longrightarrow> map fst hs' = map fst hs"
  by (induction now nm fl og key hs ls arbitrary: hs' ls' rule: holders_loop.induct)
    (auto split: prod.splits dest: holder_step_peer)

text \<open>
  The bookkeeping of the loops: \<open>c\<close> is the counter the call started with. Until the key of the
  current iteration is added it is not in the list.
\<close>

definition loop_inv :: "nat \<Rightarrow> nat \<Rightarrow> record_key \<Rightarrow> loop_state \<Rightarrow> bool" where
  "loop_inv c fl key ls \<longleftrightarrow> bm_ok (ls_fetch ls) \<and> ls_counter ls \<le> c + length (ls_fetch ls) \<and>
     ls_counter ls \<le> c + fl \<and> (\<not> ls_added ls \<longrightarrow> key \<notin> fst ` set (ls_fetch ls))"

lemma holder_step_inv:
  assumes "loop_inv c fl key ls" and "holder_step now nm fl og key h ls = (h', ls')"
  shows "loop_inv c fl key ls' \<and> fst ` set (ls_fetch ls') \<subseteq> insert key (fst ` set (ls_fetch ls))"
  using assms
  by (induction now nm fl og key h ls rule: holder_step.induct)
    (auto simp: loop_inv_def bm_insert_length bm_ok_insert split: if_splits dest: bm_insert_keys)

lemma holders_loop_inv:
  assumes "loop_inv c fl key ls" and "holders_loop now nm fl og key hs ls = (hs', ls')"
  shows "loop_inv c fl key ls' \<and> fst ` set (ls_fetch ls') \<subseteq> insert key (fst ` set (ls_fetch ls))"
  using assms
proof (induction now nm fl og key hs ls arbitrary: hs' ls' rule: holders_loop.induct)
  case (1 now nm fl og key ls)
  then show ?case by auto
next
  case (2 now nm fl og key h hs ls)
  obtain h1 ls1 where s1: "holder_step now nm fl og key h ls = (h1, ls1)" by fastforce
  obtain hs2 ls2 where s2: "holders_loop now nm fl og key hs ls1 = (hs2, ls2)" by fastforce
  from "2.prems"(2) s1 s2 have ls': "ls' = ls2" by simp
  from holder_step_inv [OF "2.prems"(1) s1] have i1: "loop_inv c fl key ls1"
    "fst ` set (ls_fetch ls1) \<subseteq> insert key (fst ` set (ls_fetch ls))" by auto
  from "2.IH" [OF s1 [symmetric] i1(1) s2] i1(2) ls' show ?case by blast
qed

text \<open>At most one holder is asked: nothing starts unless nothing is under way or it just timed out.\<close>

lemma holders_loop_on_going_false:
  assumes "holders_loop now nm fl (Some False) key hs ls = (hs', ls')" and "one_on_going hs"
  shows "one_on_going hs'"
proof -
  have "length (filter is_on_going hs') \<le> length (filter is_on_going hs)"
    using assms(1)
  proof (induction hs arbitrary: ls hs' ls')
    case (Cons h hs)
    obtain p t st a where h: "h = (p, t, st, a)" by (cases h)
    obtain h1 ls1 where s1: "holder_step now nm fl (Some False) key h ls = (h1, ls1)" by fastforce
    obtain hs2 ls2 where s2: "holders_loop now nm fl (Some False) key hs ls1 = (hs2, ls2)" by fastforce
    have "is_on_going h1 \<Longrightarrow> is_on_going h" using s1 h by (cases st) (auto split: if_splits)
    with Cons.prems s1 s2 Cons.IH [OF s2] show ?case by auto
  qed simp
  with assms(2) show ?thesis by (simp add: one_on_going_def)
qed

lemma holders_loop_on_going_fresh:
  assumes "holders_loop now nm fl og key hs ls = (hs', ls')"
    and "\<forall>(p, t, st, a) \<in> set hs. st = OnGoing \<longrightarrow> now > t + FETCH_TIMEOUT"
  shows "length (filter is_on_going hs') \<le> (if ls_added ls then 0 else 1) \<and>
    (length (filter is_on_going hs') = 1 \<longrightarrow> \<not> ls_added ls) \<and> (ls_added ls \<longrightarrow> ls_added ls')"
  using assms
proof (induction hs arbitrary: ls hs' ls')
  case (Cons h hs)
  obtain p t st a where h: "h = (p, t, st, a)" by (cases h)
  obtain h1 ls1 where s1: "holder_step now nm fl og key h ls = (h1, ls1)" by fastforce
  obtain hs2 ls2 where s2: "holders_loop now nm fl og key hs ls1 = (hs2, ls2)" by fastforce
  have "\<forall>(p, t, st, a) \<in> set hs. st = OnGoing \<longrightarrow> now > t + FETCH_TIMEOUT" using Cons.prems(2) by simp
  note IH = Cons.IH [OF s2 this]
  have "is_on_going h1 \<longrightarrow> \<not> ls_added ls \<and> ls_added ls1" "\<not> is_on_going h1 \<longrightarrow> ls_added ls1 = ls_added ls"
    using s1 h Cons.prems(2) by (cases st; auto split: if_splits)+
  with IH Cons.prems(1) s1 s2 show ?case by (auto split: if_splits)
qed simp

lemma one_on_going_holders_loop:
  assumes "holders_loop now nm fl (fetch_for_key_is_ongoing now hs) key hs ls = (hs', ls')" and "one_on_going hs"
  shows "one_on_going hs'"
proof (cases "fetch_for_key_is_ongoing now hs = Some False")
  case True
  with assms show ?thesis by (auto intro: holders_loop_on_going_false)
next
  case False
  have "now > t + FETCH_TIMEOUT" if "(p, t, OnGoing, a) \<in> set hs" for p t a
  proof -
    from that have mem: "(p, t, OnGoing, a) \<in> set (filter is_on_going hs)" by simp
    with assms(2) have "filter is_on_going hs = [(p, t, OnGoing, a)]"
      by (cases "filter is_on_going hs"; cases "tl (filter is_on_going hs)") (auto simp: one_on_going_def)
    then have "find is_on_going hs = Some (p, t, OnGoing, a)"
      by (induction hs) (auto split: if_splits)
    with False show ?thesis by (auto simp: fetch_for_key_is_ongoing_def)
  qed
  then have "\<forall>(p, t, st, a) \<in> set hs. st = OnGoing \<longrightarrow> now > t + FETCH_TIMEOUT" by auto
  from holders_loop_on_going_fresh [OF assms(1) this] show ?thesis by (auto simp: one_on_going_def split: if_splits)
qed

section \<open>Preservation\<close>

definition entry_ok :: "record_key \<times> holders \<Rightarrow> bool" where
  "entry_ok kh \<longleftrightarrow> bm_ok (snd kh) \<and> one_on_going (snd kh)"

definition keys_inv :: "nat \<Rightarrow> nat \<Rightarrow> record_key set \<Rightarrow> nat \<times> fetch_list \<Rightarrow> bool" where
  "keys_inv c fl ks cf \<longleftrightarrow> bm_ok (snd cf) \<and> fst cf \<le> c + length (snd cf) \<and> fst cf \<le> c + fl \<and>
     fst ` set (snd cf) \<inter> ks = {}"

lemma key_step_inv:
  assumes "key_step now nm fl (key, hs) cf = (kept, cf')" and "keys_inv c fl (insert key ks) cf"
    and "key \<notin> ks" and "entry_ok (key, hs)"
  shows "keys_inv c fl ks cf' \<and> (\<forall>x. kept = Some x \<longrightarrow> fst x = key \<and> entry_ok x)"
proof -
  let ?ls = "\<lparr>ls_counter = fst cf, ls_fetch = snd cf, ls_added = False\<rparr>"
  obtain hs' ls where loop: "holders_loop now nm fl (fetch_for_key_is_ongoing now hs) key hs ?ls = (hs', ls)"
    by fastforce
  have "loop_inv c fl key ?ls" using assms(2) by (auto simp: keys_inv_def loop_inv_def)
  from holders_loop_inv [OF this loop] have inv: "loop_inv c fl key ls"
    "fst ` set (ls_fetch ls) \<subseteq> insert key (fst ` set (snd cf))" by auto
  have "entry_ok (key, hs')"
    using assms(4) one_on_going_holders_loop [OF loop] holders_loop_peers [OF loop]
    by (simp add: entry_ok_def bm_ok_def)
  moreover have "keys_inv c fl ks (ls_counter ls, ls_fetch ls)"
    using inv assms(2,3) by (auto simp: loop_inv_def keys_inv_def)
  moreover from this assms(3) have "keys_inv c fl ks (ls_counter ls - 1, bm_insert key None (ls_fetch ls))"
    by (auto simp: keys_inv_def bm_ok_insert bm_insert_length dest: bm_insert_keys)
  ultimately show ?thesis
    using assms(1) loop by (auto simp: key_step_def Let_def split: if_splits)
qed

lemma keys_loop_inv:
  assumes "keys_loop now nm fl khs cf = (kept, cf')" and "keys_inv c fl (fst ` set khs) cf"
    and "distinct (map fst khs)" and "list_all entry_ok khs"
  shows "keys_inv c fl {} cf' \<and> list_all entry_ok kept \<and> fst ` set kept \<subseteq> fst ` set khs \<and> distinct (map fst kept)"
  using assms
proof (induction khs arbitrary: cf kept cf')
  case Nil
  then show ?case by simp
next
  case (Cons kh khs)
  obtain key hs where kh: "kh = (key, hs)" by fastforce
  obtain k1 cf1 where s1: "key_step now nm fl (key, hs) cf = (k1, cf1)" by (metis surj_pair)
  obtain kept2 cf2 where s2: "keys_loop now nm fl khs cf1 = (kept2, cf2)" by (metis surj_pair)
  have pre: "keys_inv c fl (insert key (fst ` set khs)) cf" "key \<notin> fst ` set khs" "entry_ok (key, hs)"
    using Cons.prems kh by auto
  from key_step_inv [OF s1 pre] have st: "keys_inv c fl (fst ` set khs) cf1"
    "\<forall>x. k1 = Some x \<longrightarrow> fst x = key \<and> entry_ok x" by auto
  from Cons.IH [OF s2 st(1)] Cons.prems have IH: "keys_inv c fl {} cf2" "list_all entry_ok kept2"
    "fst ` set kept2 \<subseteq> fst ` set khs" "distinct (map fst kept2)" by auto
  from Cons.prems(1) kh s1 s2 have "kept = (case k1 of None \<Rightarrow> kept2 | Some x \<Rightarrow> x # kept2)" "cf' = cf2" by auto
  with IH st(2) pre(2) kh show ?case by (auto split: option.splits)
qed

lemma set_bm_collect_distinct: "distinct (map fst xs) \<Longrightarrow> set (bm_collect xs) = set xs"
proof -
  assume d: "distinct (map fst xs)"
  have "map_of (bm_collect xs) = map_of xs"
    unfolding map_of_bm_collect using d by (subst map_of_inject_set) (simp_all flip: rev_map)
  with d show ?thesis by (subst (asm) map_of_inject_set) (simp_all add: bm_ok_distinct)
qed

lemma bm_collect_id: "bm_ok xs \<Longrightarrow> bm_collect xs = xs"
proof (rule bm_canonical)
  assume "bm_ok xs"
  then show "map_of (bm_collect xs) = map_of xs"
    unfolding map_of_bm_collect by (subst map_of_inject_set) (simp_all add: bm_ok_distinct flip: rev_map)
qed simp_all

lemma next_keys_ok:
  assumes "fetcher_ok f" and "permutes_entries sh" and "next_keys_to_fetch now sh f = (f', keys)"
  shows "fetcher_ok f' \<and> bm_ok keys \<and> fst ` set (to_be_fetched f') \<subseteq> fst ` set (to_be_fetched f)"
proof -
  let ?c = "on_going_fetches f"
  let ?nm = "?c \<ge> MAX_PARALLEL_FETCH" and ?fl = "fetches_left ?c"
  obtain kept counter where loop: "keys_loop now ?nm ?fl (sh (to_be_fetched f)) (?c, []) = (kept, counter, keys)"
    and f': "f' = \<lparr>to_be_fetched = bm_collect kept, on_going_fetches = counter\<rparr>"
    using assms(3) by (auto simp: next_keys_to_fetch_def Let_def split: prod.splits)
  have mset: "mset (sh (to_be_fetched f)) = mset (to_be_fetched f)" using assms(2) by (simp add: permutes_entries_def)
  then have set: "set (sh (to_be_fetched f)) = set (to_be_fetched f)" by (rule mset_eq_setD)
  have "distinct (map fst (to_be_fetched f))" using assms(1) by (simp add: fetcher_ok_def bm_ok_distinct)
  then have "distinct (map fst (sh (to_be_fetched f)))"
    by (metis mset mset_eq_imp_distinct_iff mset_map)
  moreover have "list_all entry_ok (sh (to_be_fetched f))"
    using assms(1) set by (auto simp: fetcher_ok_def entry_ok_def list_all_iff)
  moreover have "keys_inv ?c ?fl (fst ` set (sh (to_be_fetched f))) (?c, [])" by (simp add: keys_inv_def)
  ultimately have post: "keys_inv ?c ?fl {} (counter, keys)" "list_all entry_ok kept"
    "fst ` set kept \<subseteq> fst ` set (to_be_fetched f)" "distinct (map fst kept)"
    using keys_loop_inv [OF loop] set by auto
  have "?c + ?fl = MAX_PARALLEL_FETCH" using assms(1) by (simp add: fetcher_ok_def fetches_left_def)
  with post set_bm_collect_distinct [OF post(4)] f' show ?thesis
    by (auto simp: fetcher_ok_def keys_inv_def list_all_iff entry_ok_def)
qed

lemma add_holder_ok: "fetcher_ok f \<Longrightarrow> fetcher_ok (add_holder_pey_key now key peer f)"
proof -
  assume ok: "fetcher_ok f"
  let ?hs = "case map_of (to_be_fetched f) key of None \<Rightarrow> [] | Some hs \<Rightarrow> hs"
  have hs: "bm_ok ?hs" "one_on_going ?hs"
    using ok by (auto simp: fetcher_ok_def list_all_iff one_on_going_def split: option.splits dest!: map_of_SomeD)
  have cnt: "length (filter is_on_going (bm_insert peer (now, Pending, 0) hs)) \<le> length (filter is_on_going hs)" for hs
    by (induction peer "(now, Pending, 0 :: 8 word)" hs rule: bm_insert.induct) auto
  from hs(2) cnt [of ?hs] have new: "one_on_going (bm_insert peer (now, Pending, 0) ?hs)" by (simp add: one_on_going_def)
  have "entry_ok x" if "x \<in> set (bm_insert key v (to_be_fetched f))" "bm_ok v" "one_on_going v" for x v
  proof -
    have "map_of (bm_insert key v (to_be_fetched f)) (fst x) = Some (snd x)"
      using that(1) ok by (intro map_of_is_SomeI) (auto simp: bm_ok_distinct bm_ok_insert fetcher_ok_def)
    with that ok show ?thesis
      by (auto simp: map_of_bm_insert fetcher_ok_def entry_ok_def list_all_iff split: if_splits dest!: map_of_SomeD)
  qed
  with hs new ok show ?thesis
    by (auto simp: add_holder_pey_key_def Let_def fetcher_ok_def bm_ok_insert list_all_iff entry_ok_def)
qed

section \<open>What the keys returned mean\<close>

lemma holders_loop_fetch:
  assumes "holders_loop now nm fl og key hs ls = (hs', ls')"
  shows "ls_fetch ls' = ls_fetch ls \<or>
    (\<exists>p a. \<not> ls_added ls \<and> ls_fetch ls' = bm_insert key (Some p) (ls_fetch ls) \<and> (p, now, OnGoing, a) \<in> set hs') "
  using assms
proof (induction hs arbitrary: ls hs' ls')
  case (Cons h hs)
  obtain p t st a where h: "h = (p, t, st, a)" by (cases h)
  obtain h1 ls1 where s1: "holder_step now nm fl og key h ls = (h1, ls1)" by fastforce
  obtain hs2 ls2 where s2: "holders_loop now nm fl og key hs ls1 = (hs2, ls2)" by fastforce
  have "ls_fetch ls1 = ls_fetch ls \<and> ls_added ls1 = ls_added ls \<or>
      \<not> ls_added ls \<and> ls_added ls1 \<and> ls_fetch ls1 = bm_insert key (Some p) (ls_fetch ls) \<and> h1 = (p, now, OnGoing, a)"
    using s1 h by (cases st) (auto split: if_splits)
  with Cons.IH [OF s2] Cons.prems s1 s2 show ?case by auto metis+
qed simp

definition entry_sound :: "nat \<Rightarrow> (record_key \<times> holders) list \<Rightarrow> record_key \<times> peer_id option \<Rightarrow> bool" where
  "entry_sound now kept e \<longleftrightarrow> (case snd e of
     None \<Rightarrow> fst e \<notin> fst ` set kept
   | Some p \<Rightarrow> \<exists>hs a. (fst e, hs) \<in> set kept \<and> (p, now, OnGoing, a) \<in> set hs)"

lemma key_step_outcome:
  assumes s1: "key_step now nm fl (key, hs) cf = (k1, cf1)" and ok: "bm_ok (snd cf)" and new: "key \<notin> fst ` set (snd cf)"
  shows "bm_ok (snd cf1)" "fst ` set (snd cf1) \<subseteq> insert key (fst ` set (snd cf))"
    "\<forall>k. k \<noteq> key \<longrightarrow> map_of (snd cf1) k = map_of (snd cf) k"
    "\<forall>v. map_of (snd cf1) key = Some v \<longrightarrow> (case v of None \<Rightarrow> k1 = None |
        Some p \<Rightarrow> \<exists>hs a. k1 = Some (key, hs) \<and> (p, now, OnGoing, a) \<in> set hs)"
    "\<forall>x. k1 = Some x \<longrightarrow> fst x = key"
proof -
  let ?ls = "\<lparr>ls_counter = fst cf, ls_fetch = snd cf, ls_added = False\<rparr>"
  obtain hs' ls where loop: "holders_loop now nm fl (fetch_for_key_is_ongoing now hs) key hs ?ls = (hs', ls)" by fastforce
  from holders_loop_fetch [OF loop] have outcomes:
    "snd cf1 = snd cf \<and> k1 = Some (key, hs') \<or>
     snd cf1 = bm_insert key None (ls_fetch ls) \<and> k1 = None \<and> (ls_fetch ls = snd cf \<or> (\<exists>p. ls_fetch ls = bm_insert key (Some p) (snd cf))) \<or>
     (\<exists>p a. snd cf1 = bm_insert key (Some p) (snd cf) \<and> k1 = Some (key, hs') \<and> (p, now, OnGoing, a) \<in> set hs')"
    using s1 loop by (auto simp: key_step_def Let_def split: if_splits)
  have none: "map_of (snd cf) key = None" using new by (simp add: map_of_eq_None_iff)
  have "bm_ok (snd cf1) \<and> fst ` set (snd cf1) \<subseteq> insert key (fst ` set (snd cf))"
    using outcomes ok by (elim disjE exE conjE) (simp_all add: bm_ok_insert subset_insertI insert_absorb)
  then show "bm_ok (snd cf1)" "fst ` set (snd cf1) \<subseteq> insert key (fst ` set (snd cf))"
    "\<forall>k. k \<noteq> key \<longrightarrow> map_of (snd cf1) k = map_of (snd cf) k"
    "\<forall>v. map_of (snd cf1) key = Some v \<longrightarrow> (case v of None \<Rightarrow> k1 = None |
        Some p \<Rightarrow> \<exists>hs a. k1 = Some (key, hs) \<and> (p, now, OnGoing, a) \<in> set hs)"
    "\<forall>x. k1 = Some x \<longrightarrow> fst x = key"
    using outcomes ok none by (auto simp: map_of_bm_insert bm_ok_insert) blast
qed

lemma keys_loop_sound:
  assumes "keys_loop now nm fl khs cf = (kept, cf')" and "distinct (map fst khs)"
    and "bm_ok (snd cf)" and "fst ` set (snd cf) \<inter> fst ` set khs = {}"
  shows "bm_ok (snd cf') \<and> fst ` set kept \<subseteq> fst ` set khs \<and>
    (\<forall>k v. map_of (snd cf') k = Some v \<longrightarrow> map_of (snd cf) k = Some v \<or> k \<in> fst ` set khs \<and> entry_sound now kept (k, v)) \<and>
    (\<forall>k \<in> fst ` set (snd cf). map_of (snd cf') k = map_of (snd cf) k)"
  using assms
proof (induction khs arbitrary: cf kept cf')
  case (Cons kh khs)
  obtain key hs where kh: "kh = (key, hs)" by fastforce
  obtain k1 cf1 where s1: "key_step now nm fl (key, hs) cf = (k1, cf1)" by (metis surj_pair)
  obtain kept2 cf2 where s2: "keys_loop now nm fl khs cf1 = (kept2, cf2)" by (metis surj_pair)
  have keyn: "key \<notin> fst ` set (snd cf)" "key \<notin> fst ` set khs" using Cons.prems kh by auto
  note step = key_step_outcome [OF s1 Cons.prems(3) keyn(1)]
  have "fst ` set (snd cf1) \<inter> fst ` set khs = {}" using step(2) keyn(2) Cons.prems(4) kh by simp blast
  from Cons.IH [OF s2 _ step(1) this] Cons.prems(2) kh have IH: "bm_ok (snd cf2)" "fst ` set kept2 \<subseteq> fst ` set khs"
    "\<And>k v. map_of (snd cf2) k = Some v \<Longrightarrow> map_of (snd cf1) k = Some v \<or> k \<in> fst ` set khs \<and> entry_sound now kept2 (k, v)"
    "\<And>k. k \<in> fst ` set (snd cf1) \<Longrightarrow> map_of (snd cf2) k = map_of (snd cf1) k" by auto
  have kept: "kept = (case k1 of None \<Rightarrow> kept2 | Some x \<Rightarrow> x # kept2)" "cf' = cf2"
    using Cons.prems(1) kh s1 s2 by auto
  have "map_of (snd cf) k = Some v \<or> k \<in> fst ` set (kh # khs) \<and> entry_sound now kept (k, v)"
    if v: "map_of (snd cf') k = Some v" for k v
  proof (cases "k = key")
    case True
    with IH(3) [of k v] v kept(2) keyn(2) have "map_of (snd cf1) key = Some v" by auto
    with step(4) True keyn(2) IH(2) kept(1) kh show ?thesis
      by (cases v) (auto simp: entry_sound_def)
  next
    case False
    with IH(3) [of k v] v kept(2) step(3) have "map_of (snd cf) k = Some v \<or> k \<in> fst ` set khs \<and> entry_sound now kept2 (k, v)" by auto
    with False step(5) kept(1) show ?thesis
      by (auto simp: entry_sound_def split: option.splits)
  qed
  moreover have "map_of (snd cf') k = map_of (snd cf) k" if "k \<in> fst ` set (snd cf)" for k
  proof -
    have "k \<noteq> key" using that keyn(1) by auto
    moreover from this that step(3) have "k \<in> fst ` set (snd cf1)" by (metis map_of_eq_None_iff)
    ultimately show ?thesis using IH(4) step(3) kept(2) by simp
  qed
  moreover have "fst ` set kept \<subseteq> fst ` set (kh # khs)" using IH(2) kept(1) step(5) kh by (auto split: option.splits)
  ultimately show ?case using IH(1) kept(2) by blast
qed simp

section \<open>Histories\<close>

inductive fetcher_reach :: "fetcher \<Rightarrow> bool" where
  reach_new: "fetcher_reach fetcher_new"
| reach_add: "fetcher_reach f \<Longrightarrow> permutes_entries sh \<Longrightarrow>
    fetcher_reach (fst (fetcher_add_keys now sh peer incoming stored f))"
| reach_notify: "fetcher_reach f \<Longrightarrow> permutes_entries sh \<Longrightarrow>
    fetcher_reach (fst (notify_about_new_put now sh key f))"

lemma fetcher_ok_retain: "fetcher_ok f \<Longrightarrow> fetcher_ok (retain_keys ks f)"
  by (auto simp: fetcher_ok_def retain_keys_def list_all_iff bm_ok_def sorted_wrt_map sorted_wrt_filter)

lemma fetcher_ok_prepare:
  "fetcher_ok f \<Longrightarrow> fetcher_ok (fold (\<lambda>k. add_holder_pey_key now k peer) ks (retain_keys stored f))"
proof -
  have "fetcher_ok f \<Longrightarrow> fetcher_ok (fold (\<lambda>k. add_holder_pey_key now k peer) ks f)" for f
    by (induction ks arbitrary: f) (auto intro: add_holder_ok)
  then show "fetcher_ok f \<Longrightarrow> ?thesis" by (blast intro: fetcher_ok_retain)
qed

lemma fetcher_add_keys_ok:
  "fetcher_ok f \<Longrightarrow> permutes_entries sh \<Longrightarrow> fetcher_add_keys now sh peer incoming stored f = (f', keys) \<Longrightarrow> fetcher_ok f'"
  unfolding fetcher_add_keys_def Let_def using next_keys_ok fetcher_ok_prepare by blast

lemma notify_ok:
  assumes "fetcher_ok f" and "permutes_entries sh" and "notify_about_new_put now sh key f = (f', keys)"
  shows "fetcher_ok f'"
proof -
  let ?c = "case bm_get (to_be_fetched f) key of
      Some hs \<Rightarrow> if list_ex is_on_going hs then on_going_fetches f - 1 else on_going_fetches f | None \<Rightarrow> on_going_fetches f"
  have "?c \<le> on_going_fetches f" by (auto split: option.splits)
  then have "fetcher_ok \<lparr>to_be_fetched = bm_remove key (to_be_fetched f), on_going_fetches = ?c\<rparr>"
    using assms(1) by (auto simp: fetcher_ok_def bm_ok_remove) (auto simp: list_all_iff bm_remove_def)
  with assms(2,3) show ?thesis using next_keys_ok by (auto simp: notify_about_new_put_def)
qed

lemma fetcher_reach_ok: "fetcher_reach f \<Longrightarrow> fetcher_ok f"
proof (induction rule: fetcher_reach.induct)
  case reach_new
  show ?case by (simp add: fetcher_ok_def fetcher_new_def)
next
  case (reach_add f sh now peer incoming stored)
  then show ?case by (metis fetcher_add_keys_ok prod.collapse)
next
  case (reach_notify f sh now key)
  then show ?case by (metis notify_ok prod.collapse)
qed

lemma prepare_keys:
  "fst ` set (to_be_fetched (fold (\<lambda>k. add_holder_pey_key now k peer) ks f)) = fst ` set (to_be_fetched f) \<union> set ks"
proof (induction ks arbitrary: f)
  case (Cons k ks)
  have "fst ` set (to_be_fetched (add_holder_pey_key now k peer f)) = insert k (fst ` set (to_be_fetched f))"
    unfolding add_holder_pey_key_def Let_def by simp
  with Cons show ?case by auto
qed simp

lemma next_keys_sound:
  assumes "fetcher_ok f" and "permutes_entries sh" and "next_keys_to_fetch now sh f = (f', keys)" and "(k, v) \<in> set keys"
  shows "k \<in> fst ` set (to_be_fetched f) \<and> entry_sound now (to_be_fetched f') (k, v)"
proof -
  let ?c = "on_going_fetches f"
  obtain kept counter where loop: "keys_loop now (?c \<ge> MAX_PARALLEL_FETCH) (fetches_left ?c) (sh (to_be_fetched f)) (?c, []) = (kept, counter, keys)"
    and f': "f' = \<lparr>to_be_fetched = bm_collect kept, on_going_fetches = counter\<rparr>"
    using assms(3) by (auto simp: next_keys_to_fetch_def Let_def split: prod.splits)
  have mset: "mset (sh (to_be_fetched f)) = mset (to_be_fetched f)" using assms(2) by (simp add: permutes_entries_def)
  have "distinct (map fst (to_be_fetched f))" using assms(1) by (simp add: fetcher_ok_def bm_ok_distinct)
  then have dist: "distinct (map fst (sh (to_be_fetched f)))" by (metis mset mset_eq_imp_distinct_iff mset_map)
  from keys_loop_sound [OF loop dist] have "bm_ok keys" and
    sound: "\<And>k v. map_of keys k = Some v \<Longrightarrow> k \<in> fst ` set (sh (to_be_fetched f)) \<and> entry_sound now kept (k, v)" by auto
  with assms(4) have "map_of keys k = Some v" by (simp add: bm_ok_distinct)
  from sound [OF this] have k: "k \<in> fst ` set (to_be_fetched f)" "entry_sound now kept (k, v)"
    using mset_eq_setD [OF mset] by auto
  have "list_all entry_ok (sh (to_be_fetched f))"
    using assms(1) mset_eq_setD [OF mset] by (auto simp: fetcher_ok_def entry_ok_def list_all_iff)
  with keys_loop_inv [OF loop _ dist, of ?c] have "distinct (map fst kept)" by (simp add: keys_inv_def)
  with k f' show ?thesis by (simp add: set_bm_collect_distinct entry_sound_def split: option.splits)
qed

section \<open>Properties\<close>

text \<open>C32: In every reachable state of the fetcher, whatever the order the entries are shuffled into,
  the counter of on-going fetches is at most \<open>MAX_PARALLEL_FETCH\<close>, so the subtraction for the
  fetches left never wraps around, and no key is being fetched from two holders at once.\<close>

theorem fetcher_counter_bounded:
  assumes "fetcher_reach f"
  shows "on_going_fetches f \<le> MAX_PARALLEL_FETCH \<and> fetches_left (on_going_fetches f) + on_going_fetches f = MAX_PARALLEL_FETCH \<and>
    (\<forall>(k, hs) \<in> set (to_be_fetched f). length (filter is_on_going hs) \<le> 1)"
  using fetcher_reach_ok [OF assms] by (auto simp: fetcher_ok_def fetches_left_def list_all_iff one_on_going_def)

theorem fetcher_counter_bounded_witness:
  "on_going_fetches (fst (fetcher_add_keys 0 (\<lambda>xs. xs) [1] [RecordKeyAddr [10]] [] fetcher_new)) \<le> MAX_PARALLEL_FETCH"
  using fetcher_counter_bounded [OF reach_add [OF reach_new, of "\<lambda>xs. xs" 0 "[1]" "[RecordKeyAddr [10]]" "[]"]]
  by (simp add: permutes_entries_def)

text \<open>What \<open>add_keys\<close> returns: only keys that are not stored locally and were either waiting
  already or announced by the peer; a key returned with a holder is now being fetched from that
  holder, and a key returned for the network is no longer waiting.\<close>

theorem fetcher_add_keys_sound:
  assumes "fetcher_reach f" and "permutes_entries sh"
    and "fetcher_add_keys now sh peer incoming stored f = (f', keys)" and "(k, v) \<in> set keys"
  shows "k \<notin> set stored \<and> (k \<in> fst ` set (to_be_fetched f) \<or> RecordKeyAddr k \<in> set incoming) \<and>
    (case v of None \<Rightarrow> k \<notin> fst ` set (to_be_fetched f')
     | Some p \<Rightarrow> \<exists>hs a. (k, hs) \<in> set (to_be_fetched f') \<and> (p, now, OnGoing, a) \<in> set hs)"
proof -
  let ?ks = "filter (\<lambda>k. k \<notin> set stored) (List.map_filter as_record_key incoming)"
  let ?f = "fold (\<lambda>k. add_holder_pey_key now k peer) ?ks (retain_keys stored f)"
  have ok: "fetcher_ok ?f" by (intro fetcher_ok_prepare fetcher_reach_ok assms(1))
  have nk: "next_keys_to_fetch now sh ?f = (f', keys)" using assms(3) by (simp add: fetcher_add_keys_def Let_def)
  from next_keys_sound [OF ok assms(2) nk assms(4)] have k: "k \<in> fst ` set (to_be_fetched ?f)"
    and s: "entry_sound now (to_be_fetched f') (k, v)" by auto
  from k have "k \<in> fst ` set (to_be_fetched (retain_keys stored f)) \<or> k \<in> set ?ks"
    unfolding prepare_keys by blast
  moreover have "RecordKeyAddr k \<in> set incoming" if "k \<in> set (List.map_filter as_record_key incoming)"
    using that by (auto simp: List.map_filter_def elim!: as_record_key.elims)
  ultimately show ?thesis
    using s by (auto simp: retain_keys_def entry_sound_def split: option.splits)
qed

theorem fetcher_add_keys_sound_witness:
  "\<exists>f' v. fetcher_add_keys 0 (\<lambda>xs. xs) [1] [RecordKeyAddr [10]] [] fetcher_new = (f', [([10], v)]) \<and>
    (\<exists>hs a. ([10], hs) \<in> set (to_be_fetched f') \<and> ([1], 0, OnGoing, a) \<in> set hs)"
proof -
  obtain f' where f': "fetcher_add_keys 0 (\<lambda>xs. xs) [1] [RecordKeyAddr [10]] [] fetcher_new = (f', [([10], Some [1])])"
    by (simp add: fetcher_add_keys_def List.map_filter_def retain_keys_def fetcher_new_def add_holder_pey_key_def
        bm_contains_key_def next_keys_to_fetch_def key_step_def fetch_for_key_is_ongoing_def fetches_left_def
        MAX_PARALLEL_FETCH_def MAX_RETRIES_PER_PEER_def failed_holders_count_def PEERS_TRIED_BEFORE_NETWORK_FETCH_def)
  have "permutes_entries (\<lambda>xs. xs)" by (simp add: permutes_entries_def)
  from fetcher_add_keys_sound [OF reach_new this f', of "[10]" "Some [1]"] f' show ?thesis by simp
qed

lemmas fetcher_eval = fetcher_add_keys_def notify_about_new_put_def List.map_filter_def retain_keys_def
  fetcher_new_def add_holder_pey_key_def bm_contains_key_def next_keys_to_fetch_def key_step_def
  fetch_for_key_is_ongoing_def fetches_left_def MAX_PARALLEL_FETCH_def MAX_RETRIES_PER_PEER_def
  failed_holders_count_def PEERS_TRIED_BEFORE_NETWORK_FETCH_def FETCH_TIMEOUT_def bm_remove_def
  bm_collect_def bm_append_def

text \<open>Waiting keys with one untried holder are all started while there is room.\<close>

lemma key_step_pending:
  assumes "length m < fl"
  shows "key_step now False fl (k, [(p, now, Pending, 0)]) (c, m) =
    (Some (k, [(p, now, OnGoing, 0)]), Suc c, bm_insert k (Some p) m)"
  using assms by (simp add: key_step_def fetch_for_key_is_ongoing_def MAX_RETRIES_PER_PEER_def
      failed_holders_count_def PEERS_TRIED_BEFORE_NETWORK_FETCH_def)

lemma keys_loop_pending:
  fixes m :: fetch_list and ks :: "byte list"
  assumes "length m + length ks \<le> fl"
  shows "\<exists>keys. keys_loop now False fl (map (\<lambda>i. ([i], [(p, now, Pending, 0)])) ks) (c, m) =
    (map (\<lambda>i. ([i], [(p, now, OnGoing, 0)])) ks, c + length ks, keys)"
  using assms
proof (induction ks arbitrary: c m)
  case (Cons i ks)
  have "length (bm_insert [i] (Some p) m) \<le> Suc (length m)"
    by (induction "[i]" "Some p" m rule: bm_insert.induct) auto
  with Cons.prems have "length (bm_insert [i] (Some p) m) + length ks \<le> fl" by simp
  from Cons.IH [OF this, of "Suc c"] Cons.prems show ?case by (auto simp: key_step_pending)
qed simp

lemma eight_more_fetches:
  "fst (fetcher_add_keys 20 (\<lambda>xs. xs) [1] (map (\<lambda>i. RecordKeyAddr [i]) [2, 3, 4, 5, 6, 7, 8, 9]) []
      \<lparr>to_be_fetched = [([1], [([1], 10, OnGoing, 0)])], on_going_fetches = 0\<rparr>) =
    \<lparr>to_be_fetched = ([1], [([1], 10, OnGoing, 0)]) # map (\<lambda>i. ([i], [([1], 20, OnGoing, 0)])) [2, 3, 4, 5, 6, 7, 8, 9], on_going_fetches = 8\<rparr>"
proof -
  let ?f = "\<lparr>to_be_fetched = [([1], [([1], 10, OnGoing, 0)])], on_going_fetches = 0\<rparr> :: fetcher"
  let ?ks = "map (\<lambda>i. RecordKeyAddr [i]) [2, 3, 4, 5, 6, 7, 8, 9]"
  let ?hs = "map (\<lambda>i. ([i], [([1], 20, Pending, 0)])) [2, 3, 4, 5, 6, 7, 8, 9] :: (record_key \<times> holders) list"
  let ?hs' = "map (\<lambda>i. ([i], [([1], 20, OnGoing, 0)])) [2, 3, 4, 5, 6, 7, 8, 9] :: (record_key \<times> holders) list"
  have ks: "List.map_filter as_record_key ?ks = [[2], [3], [4], [5], [6], [7], [8], [9]]"
    by (simp add: List.map_filter_def)
  have prep: "fold (\<lambda>k. add_holder_pey_key 20 k [1]) [[2], [3], [4], [5], [6], [7], [8], [9]] (retain_keys [] ?f) =
      \<lparr>to_be_fetched = ([1], [([1], 10, OnGoing, 0)]) # ?hs, on_going_fetches = 0\<rparr>"
    by (simp add: retain_keys_def add_holder_pey_key_def bm_contains_key_def)
  have first: "key_step 20 False 8 ([1], [([1], 10, OnGoing, 0)]) (c, m) = (Some ([1], [([1], 10, OnGoing, 0)]), c, m)" for c m
    by (simp add: key_step_def fetch_for_key_is_ongoing_def MAX_RETRIES_PER_PEER_def FETCH_TIMEOUT_def
        failed_holders_count_def PEERS_TRIED_BEFORE_NETWORK_FETCH_def)
  have "length ([] :: fetch_list) + length [2, 3, 4, 5, 6, 7, 8, 9 :: byte] \<le> 8" by simp
  from keys_loop_pending [OF this, of 20 "[1]" 0] obtain keys where
    k: "keys_loop 20 False 8 ?hs (0, []) = (?hs', 0 + length [2, 3, 4, 5, 6, 7, 8, 9 :: byte], keys)" by (rule exE)
  have "0 + length [2, 3, 4, 5, 6, 7, 8, 9 :: byte] = 8" by simp
  note k = k [unfolded this]
  have loop: "keys_loop 20 False 8 (([1], [([1], 10, OnGoing, 0)]) # ?hs) (0, []) =
      (([1], [([1], 10, OnGoing, 0)]) # ?hs', 8, keys)"
    unfolding keys_loop.simps first k prod.case option.case by (rule refl)
  have coll: "bm_collect (([1], [([1], 10, OnGoing, 0)]) # ?hs') = ([1], [([1], 10, OnGoing, 0)]) # ?hs'"
    by (rule bm_collect_id) simp
  have flt: "filter (\<lambda>k. k \<notin> set []) ks = ks" for ks :: "record_key list" by simp
  have lim: "(MAX_PARALLEL_FETCH \<le> 0) = False" "fetches_left 0 = 8" by (simp_all add: fetches_left_def MAX_PARALLEL_FETCH_def)
  show ?thesis
    unfolding fetcher_add_keys_def Let_def ks flt prep next_keys_to_fetch_def fetcher.simps lim loop prod.case fst_conv coll
    by (rule refl)
qed

text \<open>The counter is decremented twice for a key whose only holder times out: once for the
  timed-out holder and once more when the key is handed to the network. After that more than
  \<open>MAX_PARALLEL_FETCH\<close> keys can be under way at the same time.\<close>

theorem too_many_parallel_fetches: "\<exists>f. fetcher_reach f \<and> in_flight f > MAX_PARALLEL_FETCH"
proof -
  let ?sh = "\<lambda>xs. xs :: (record_key \<times> holders) list"
  have sh: "permutes_entries ?sh" by (simp add: permutes_entries_def)
  have s1: "fst (fetcher_add_keys 0 ?sh [1] [RecordKeyAddr [0]] [] fetcher_new) =
      \<lparr>to_be_fetched = [([0], [([1], 0, OnGoing, 0)])], on_going_fetches = 1\<rparr>" (is "_ = ?f1")
    by (simp add: fetcher_eval)
  have s2: "fst (fetcher_add_keys 10 ?sh [1] [RecordKeyAddr [1]] [] ?f1) =
      \<lparr>to_be_fetched = [([0], [([1], 0, OnGoing, 0)]), ([1], [([1], 10, OnGoing, 0)])], on_going_fetches = 2\<rparr>" (is "_ = ?f2")
    by (simp add: fetcher_eval)
  have s3: "fst (notify_about_new_put 20 ?sh [99] ?f2) =
      \<lparr>to_be_fetched = [([1], [([1], 10, OnGoing, 0)])], on_going_fetches = 0\<rparr>" (is "_ = ?f3")
    by (simp add: fetcher_eval)
  let ?ks = "map (\<lambda>i. RecordKeyAddr [i]) [2, 3, 4, 5, 6, 7, 8, 9]"
  have s4: "fst (fetcher_add_keys 20 ?sh [1] ?ks [] ?f3) = \<lparr>to_be_fetched = ([1], [([1], 10, OnGoing, 0)]) #
      map (\<lambda>i. ([i], [([1], 20, OnGoing, 0)])) [2, 3, 4, 5, 6, 7, 8, 9], on_going_fetches = 8\<rparr>" (is "_ = ?f4")
    by (rule eight_more_fetches)
  from reach_add [OF reach_new sh, of 0 "[1]" "[RecordKeyAddr [0]]" "[]"] have "fetcher_reach ?f1"
    unfolding s1 .
  from reach_add [OF this sh, of 10 "[1]" "[RecordKeyAddr [1]]" "[]"] have "fetcher_reach ?f2"
    unfolding s2 .
  from reach_notify [OF this sh, of 20 "[99]"] have "fetcher_reach ?f3"
    unfolding s3 .
  from reach_add [OF this sh, of 20 "[1]" ?ks "[]"] have "fetcher_reach ?f4"
    unfolding s4 .
  moreover have "in_flight ?f4 = 9" by (simp add: in_flight_def)
  ultimately show ?thesis by (auto simp: MAX_PARALLEL_FETCH_def)
qed

end
