(* ===== verification/Networking.thy ===== *)
theory Networking
  imports Record_Store Replication_Fetcher
begin

text \<open>
  The functions and the \<open>Network\<close> handle of \<open>sn_networking/src/lib.rs\<close>: sorting peers by
  distance, agreeing on a fee, fetching and putting records with retries, collecting responses,
  and the helpers on multiaddresses. What the swarm answers to a command sent through the
  channel is an argument; a command can also be refused because the channel is full, and the
  reply channel can be dropped.
\<close>

section \<open>Constants and errors\<close>

definition CLOSE_GROUP_SIZE :: nat where
  "CLOSE_GROUP_SIZE = 8"

definition VERIFICATION_ATTEMPTS :: nat where
  "VERIFICATION_ATTEMPTS = 30"

definition PUT_RECORD_RETRIES :: nat where
  "PUT_RECORD_RETRIES = 3"

definition close_group_majority :: nat where
  "close_group_majority = CLOSE_GROUP_SIZE div 2 + 1"

text \<open>The payloads that only serve a log line (the response or event dropped) are left out.\<close>

datatype net_error =
    NotEnoughCostQuotes
  | NoStoreCostReturned
  | InvalidCloseGroupSize
  | InternalMsgChannelDropped
  | ReceivedResponseDropped nat
  | OutgoingResponseDropped
  | FailedToVerifyRecordWasStored record_key
  | ReturnedRecordDoesNotMatch record_key
  | FailedToCreateRecordStoreDir string string
  | NetIo string
  | TransportError string
  | DialError string
  | AlreadyDialingPeer peer_id
  | OutboundError string
  | KademliaStoreError store_error
  | NetworkEventReceiverDropped
  | ReceivedKademliaEventDropped nat
  | SwarmCmdReceiverDropped
  | SenderDropped
  | NotEnoughPeers nat nat
  | RecordNotFound
  | RecordNotEnoughCopies kad_record
  | PutRecordError string
  | NoSwarmCmdChannelCapacity
  | SigningFailed string
  | CircularVecPopFrontError

section \<open>Sorting peers\<close>

definition sort_peers_by_key :: "('d, 's) wire_env \<Rightarrow> peer_id list \<Rightarrow> bytes \<Rightarrow> nat \<Rightarrow> net_error + peer_id list" where
  "sort_peers_by_key W peers key expected_entries =
     (let sorted_peers = sort_key (\<lambda>p. kad_distance W key (as_kbucket_key W (from_peer p))) peers;
          closest = take expected_entries sorted_peers
      in if CLOSE_GROUP_SIZE > length closest then Inl (NotEnoughPeers (length closest) CLOSE_GROUP_SIZE)
         else Inr closest)"

definition sort_peers_by_address :: "('d, 's) wire_env \<Rightarrow> peer_id list \<Rightarrow> network_address \<Rightarrow> nat
    \<Rightarrow> net_error + peer_id list" where
  "sort_peers_by_address W peers address expected_entries =
     sort_peers_by_key W peers (as_kbucket_key W address) expected_entries"

section \<open>Fees\<close>

definition list_get :: "'a list \<Rightarrow> nat \<Rightarrow> 'a option" where
  "list_get xs i = (if i < length xs then Some (xs ! i) else None)"

definition get_fee_from_store_cost_quotes :: "token list \<Rightarrow> bool \<Rightarrow> net_error + token" where
  "get_fee_from_store_cost_quotes all_costs any_cost_will_do =
     (let target_cost_index = CLOSE_GROUP_SIZE div 2;
          costs = sort all_costs
      in if any_cost_will_do
         then (case list_get costs target_cost_index of
                 Some c \<Rightarrow> Inr c
               | None \<Rightarrow> ok_or NotEnoughCostQuotes (if costs = [] then None else Some (last costs)))
         else ok_or NotEnoughCostQuotes (list_get costs target_cost_index))"

section \<open>Commands to the swarm and their answers\<close>

text \<open>\<open>NoCapacity\<close>: \<open>send_swarm_cmd\<close> refused; \<open>Dropped\<close>: the oneshot sender was dropped.\<close>

datatype 'a answer = NoCapacity | Dropped | Answer 'a

definition send_swarm_cmd :: "nat \<Rightarrow> net_error + unit" where
  "send_swarm_cmd capacity = (if capacity = 0 then Inl NoSwarmCmdChannelCapacity else Inr ())"

text \<open>
  Some callers turn a dropped reply channel into \<open>InternalMsgChannelDropped\<close>, others pass the
  receive error on with \<open>?\<close>.
\<close>

definition await_with :: "net_error \<Rightarrow> 'a answer \<Rightarrow> net_error + 'a" where
  "await_with dropped a = (case a of NoCapacity \<Rightarrow> Inl NoSwarmCmdChannelCapacity | Dropped \<Rightarrow> Inl dropped
     | Answer x \<Rightarrow> Inr x)"

section \<open>Closest peers and responses\<close>

definition get_closest_peers :: "('d, 's) wire_env \<Rightarrow> peer_id \<Rightarrow> network_address \<Rightarrow> bool \<Rightarrow> peer_id list answer
    \<Rightarrow> net_error + peer_id list" where
  "get_closest_peers W self key client a =
     bind_result (await_with SenderDropped a) (\<lambda>k_bucket_peers.
       sort_peers_by_address W (if client then k_bucket_peers else k_bucket_peers @ [self]) key CLOSE_GROUP_SIZE)"

text \<open>The results arrive in the order the futures complete.\<close>

fun send_and_get_responses :: "('e + 'r) list \<Rightarrow> bool \<Rightarrow> ('e + 'r) list \<Rightarrow> ('e + 'r) list" where
  "send_and_get_responses [] get_all responses = responses"
| "send_and_get_responses (res # remaining) get_all responses =
     (if \<not> get_all \<and> is_ok res then [res] else send_and_get_responses remaining get_all (responses @ [res]))"

definition get_store_cost_from_network :: "peer_id list answer \<Rightarrow> (peer_id \<Rightarrow> net_error + ('d, 's) response) \<Rightarrow> bool
    \<Rightarrow> net_error + token" where
  "get_store_cost_from_network closest reply any_cost_will_do =
     bind_result (await_with InternalMsgChannelDropped closest) (\<lambda>close_nodes.
       let responses = send_and_get_responses (map reply close_nodes) True [];
           all_costs = List.map_filter (\<lambda>r. case r of Inr (QueryResp (StoreCostResp (Inr cost))) \<Rightarrow> Some cost | _ \<Rightarrow> None)
             responses
       in get_fee_from_store_cost_quotes all_costs any_cost_will_do)"

section \<open>Fetching a record\<close>

text \<open>
  The loop of \<open>get_record_from_network\<close>. \<open>attempts\<close> is what each further attempt answers;
  \<open>remaining\<close> counts the attempts left, this one included.
\<close>

definition target_matches :: "kad_record option \<Rightarrow> kad_record \<Rightarrow> bool" where
  "target_matches target r \<longleftrightarrow> target = None \<or> target = Some r"

definition too_few_copies :: "net_error \<Rightarrow> kad_record option" where
  "too_few_copies e = (case e of RecordNotEnoughCopies r \<Rightarrow> Some r | _ \<Rightarrow> None)"

fun get_record_loop :: "kad_record option \<Rightarrow> nat \<Rightarrow> (nat \<Rightarrow> (net_error + kad_record) answer) \<Rightarrow> nat
    \<Rightarrow> net_error + kad_record" where
  "get_record_loop target 0 attempts i = Inl RecordNotFound"
| "get_record_loop target (Suc remaining) attempts i =
     bind_result (await_with InternalMsgChannelDropped (attempts i)) (\<lambda>res. case res of
        Inr r \<Rightarrow> if target_matches target r then Inr r
                 else if remaining = 0 then Inl (ReturnedRecordDoesNotMatch (rec_key r))
                 else get_record_loop target remaining attempts (Suc i)
      | Inl e \<Rightarrow> (case too_few_copies e of
            Some r \<Rightarrow>
              if remaining = 0
              then (if target_matches target r then Inr r else Inl (ReturnedRecordDoesNotMatch (rec_key r)))
              else get_record_loop target remaining attempts (Suc i)
          | None \<Rightarrow>
              if remaining = 0 then Inl RecordNotFound else get_record_loop target remaining attempts (Suc i)))"

definition get_record_from_network :: "kad_record option \<Rightarrow> bool \<Rightarrow> (nat \<Rightarrow> (net_error + kad_record) answer)
    \<Rightarrow> net_error + kad_record" where
  "get_record_from_network target re_attempt attempts =
     get_record_loop target (if re_attempt then VERIFICATION_ATTEMPTS else 1) attempts 0"

section \<open>Putting a record\<close>

text \<open>The answer to the put command, and those to the reads that verify it.\<close>

type_synonym put_run = "(net_error + unit) answer \<times> (nat \<Rightarrow> (net_error + kad_record) answer)"

definition put_record_once :: "kad_record \<Rightarrow> bool \<Rightarrow> put_run \<Rightarrow> net_error + unit" where
  "put_record_once r verify_store run =
     bind_result (await_with SenderDropped (fst run)) (\<lambda>response.
       if verify_store
       then bind_result (map_err (\<lambda>_. FailedToVerifyRecordWasStored (rec_key r))
              (get_record_from_network (Some r) True (snd run))) (\<lambda>_. response)
       else response)"

definition is_verify_failure :: "net_error + unit \<Rightarrow> bool" where
  "is_verify_failure res = (case res of Inl (FailedToVerifyRecordWasStored _) \<Rightarrow> True | _ \<Rightarrow> False)"

fun put_record_retry_loop :: "kad_record \<Rightarrow> nat \<Rightarrow> (nat \<Rightarrow> put_run) \<Rightarrow> nat \<Rightarrow> net_error + unit" where
  "put_record_retry_loop r 0 runs i = Inl (FailedToVerifyRecordWasStored (rec_key r))"
| "put_record_retry_loop r (Suc n) runs i =
     (let res = put_record_once r True (runs i)
      in if \<not> is_verify_failure res then res
         else put_record_retry_loop r n runs (Suc i))"

definition put_record_with_retries :: "kad_record \<Rightarrow> (nat \<Rightarrow> put_run) \<Rightarrow> net_error + unit" where
  "put_record_with_retries r runs = put_record_retry_loop r PUT_RECORD_RETRIES runs 0"

definition put_record :: "kad_record \<Rightarrow> bool \<Rightarrow> (nat \<Rightarrow> put_run) \<Rightarrow> net_error + unit" where
  "put_record r verify_store runs =
     (if verify_store then put_record_with_retries r runs else put_record_once r False (runs 0))"

section \<open>Multiaddresses\<close>

type_synonym ipv4 = "byte \<times> byte \<times> byte \<times> byte"

datatype protocol = Ip4 ipv4 | Tcp "16 word" | P2p peer_id | OtherProtocol string

type_synonym multiaddr = "protocol list"

fun ip_not_global :: "ipv4 \<Rightarrow> bool" where
  "ip_not_global (a, b, c, d) \<longleftrightarrow>
     (a, b, c, d) = (0, 0, 0, 0) \<or>
     a = 10 \<or> a = 172 \<and> 16 \<le> b \<and> b \<le> 31 \<or> a = 192 \<and> b = 168 \<or>
     a = 127 \<or>
     a = 169 \<and> b = 254 \<or>
     a = 192 \<and> b = 0 \<and> c = 2 \<or> a = 198 \<and> b = 51 \<and> c = 100 \<or> a = 203 \<and> b = 0 \<and> c = 113 \<or>
     (a, b, c, d) = (255, 255, 255, 255)"

definition multiaddr_is_global :: "multiaddr \<Rightarrow> bool" where
  "multiaddr_is_global m \<longleftrightarrow> \<not> list_ex (\<lambda>p. case p of Ip4 ip \<Rightarrow> ip_not_global ip | _ \<Rightarrow> False) m"

definition multiaddr_pop_p2p :: "multiaddr \<Rightarrow> multiaddr \<times> peer_id option" where
  "multiaddr_pop_p2p m = (if m = [] then (m, None)
     else (case last m of P2p p \<Rightarrow> (butlast m, Some p) | _ \<Rightarrow> (m, None)))"

definition multiaddr_strip_p2p :: "multiaddr \<Rightarrow> multiaddr" where
  "multiaddr_strip_p2p m = filter (\<lambda>p. case p of P2p _ \<Rightarrow> False | _ \<Rightarrow> True) m"

section \<open>Lemmas\<close>

definition peer_distance :: "('d, 's) wire_env \<Rightarrow> network_address \<Rightarrow> peer_id \<Rightarrow> distance" where
  "peer_distance W a p = addr_distance W a (from_peer p)"

lemma sort_peers_by_address_eq:
  "sort_peers_by_address W peers a n =
     (let closest = take n (sort_key (peer_distance W a) peers)
      in if CLOSE_GROUP_SIZE > length closest then Inl (NotEnoughPeers (length closest) CLOSE_GROUP_SIZE)
         else Inr closest)"
  by (simp add: sort_peers_by_address_def sort_peers_by_key_def peer_distance_def [abs_def] addr_distance_def)

lemma sorted_take_drop:
  assumes "sorted (map f xs)" and "p \<in> set (take n xs)" and "q \<in> set (drop n xs)"
  shows "f p \<le> f q"
proof -
  have "sorted (map f (take n xs) @ map f (drop n xs))" using assms(1) by (metis append_take_drop_id map_append)
  with assms(2,3) show ?thesis by (auto simp: sorted_append)
qed

text \<open>An attempt that does not decide the fetch: the next one is made.\<close>

definition undecided :: "kad_record option \<Rightarrow> (net_error + kad_record) answer \<Rightarrow> bool" where
  "undecided target a \<longleftrightarrow> (case a of Answer (Inr r) \<Rightarrow> \<not> target_matches target r | Answer (Inl _) \<Rightarrow> True | _ \<Rightarrow> False)"

lemma too_few_copies_Some: "too_few_copies e = Some r \<longleftrightarrow> e = RecordNotEnoughCopies r"
  by (cases e) (auto simp: too_few_copies_def)

lemma get_record_loop_undecided:
  assumes "undecided target (attempts i)"
  shows "get_record_loop target (Suc (Suc n)) attempts i = get_record_loop target (Suc n) attempts (Suc i)"
  using assms unfolding get_record_loop.simps(2) [of target "Suc n"]
  by (auto simp: undecided_def await_with_def split: answer.splits sum.splits option.splits)

lemma get_record_loop_sound:
  assumes "get_record_loop target n attempts i = Inr r"
  shows "target_matches target r \<and> (\<exists>j < n. attempts (i + j) = Answer (Inr r) \<or>
    Suc j = n \<and> attempts (i + j) = Answer (Inl (RecordNotEnoughCopies r)))"
  using assms
proof (induction n arbitrary: i)
  case (Suc n)
  obtain res where a: "attempts i = Answer res"
    using Suc.prems by (auto simp: await_with_def split: answer.splits)
  show ?case
  proof (cases "n = 0")
    case True
    with Suc.prems a show ?thesis
      by (auto simp: await_with_def too_few_copies_Some split: sum.splits option.splits if_splits)
  next
    case False
    then have "res = Inr r \<and> target_matches target r \<or> get_record_loop target n attempts (Suc i) = Inr r"
      using Suc.prems a by (auto simp: await_with_def split: sum.splits option.splits if_splits)
    then show ?thesis
    proof
      assume "res = Inr r \<and> target_matches target r"
      with a show ?thesis by (intro conjI exI [of _ 0]) auto
    next
      assume "get_record_loop target n attempts (Suc i) = Inr r"
      from Suc.IH [OF this] obtain j where "target_matches target r" "j < n" "attempts (Suc i + j) = Answer (Inr r) \<or>
        Suc j = n \<and> attempts (Suc i + j) = Answer (Inl (RecordNotEnoughCopies r))" by auto
      then show ?thesis by (intro conjI exI [of _ "Suc j"]) auto
    qed
  qed
qed simp

lemma get_record_loop_complete:
  assumes "j < n" and "attempts (i + j) = Answer (Inr t)" and "\<forall>k < j. undecided (Some t) (attempts (i + k))"
  shows "get_record_loop (Some t) n attempts i = Inr t"
  using assms
proof (induction j arbitrary: i n)
  case 0
  then obtain m where "n = Suc m" by (cases n) auto
  with 0 show ?case by (simp add: await_with_def target_matches_def)
next
  case (Suc j)
  then obtain m where n: "n = Suc (Suc m)" by (cases n; cases "n - 1") auto
  have "get_record_loop (Some t) (Suc m) attempts (Suc i) = Inr t"
    using Suc.prems n by (intro Suc.IH) auto
  moreover have "undecided (Some t) (attempts i)" using Suc.prems(3) by (auto dest: spec [of _ 0])
  ultimately show ?case using n by (simp only: get_record_loop_undecided)
qed

lemma put_record_once_verified:
  assumes "put_record_once r True run = Inr ()"
  shows "fst run = Answer (Inr ()) \<and> get_record_from_network (Some r) True (snd run) = Inr r"
proof -
  from assms obtain x where a: "fst run = Answer (Inr ())" "get_record_from_network (Some r) True (snd run) = Inr x"
    by (auto simp: put_record_once_def await_with_def split: answer.splits)
  moreover from a(2) have "x = r"
    using get_record_loop_sound by (fastforce simp: get_record_from_network_def target_matches_def)
  ultimately show ?thesis by simp
qed

lemma put_record_retry_loop_ok:
  "put_record_retry_loop r n runs i = Inr () \<Longrightarrow> \<exists>j < n. put_record_once r True (runs (i + j)) = Inr ()"
proof (induction n arbitrary: i)
  case (Suc n)
  show ?case
  proof (cases "is_verify_failure (put_record_once r True (runs i))")
    case True
    with Suc.prems have "put_record_retry_loop r n runs (Suc i) = Inr ()" by simp
    from Suc.IH [OF this] obtain j where "j < n" "put_record_once r True (runs (Suc i + j)) = Inr ()" by auto
    then show ?thesis by (intro exI [of _ "Suc j"]) simp
  next
    case False
    with Suc.prems show ?thesis by (intro exI [of _ 0]) simp
  qed
qed simp

lemma put_record_retry_loop_fail:
  "\<forall>j < n. is_verify_failure (put_record_once r True (runs (i + j))) \<Longrightarrow>
   put_record_retry_loop r n runs i = Inl (FailedToVerifyRecordWasStored (rec_key r))"
proof (induction n arbitrary: i)
  case (Suc n)
  have "\<forall>j < n. is_verify_failure (put_record_once r True (runs (Suc i + j)))"
    using Suc.prems by (auto dest: spec [of _ "Suc _"])
  moreover have "is_verify_failure (put_record_once r True (runs i))" using Suc.prems by (auto dest: spec [of _ 0])
  ultimately show ?case using Suc.IH by simp
qed simp

section \<open>Properties\<close>

text \<open>\<open>sort_peers_by_address\<close> returns the requested number of peers (or all), in order of
  increasing distance, such that no peer left out is closer than one returned; it fails, with
  the number found, exactly when fewer than \<open>CLOSE_GROUP_SIZE\<close> would be returned.\<close>

theorem sort_peers_closest:
  "case sort_peers_by_address W peers a n of
     Inr closest \<Rightarrow> length closest = min n (length peers) \<and> CLOSE_GROUP_SIZE \<le> length closest \<and>
       sorted (map (peer_distance W a) closest) \<and>
       (\<exists>rest. mset peers = mset closest + mset rest \<and>
          (\<forall>p \<in> set closest. \<forall>q \<in> set rest. peer_distance W a p \<le> peer_distance W a q))
   | Inl e \<Rightarrow> e = NotEnoughPeers (min n (length peers)) CLOSE_GROUP_SIZE \<and> min n (length peers) < CLOSE_GROUP_SIZE"
proof -
  let ?s = "sort_key (peer_distance W a) peers"
  have sorted: "sorted (map (peer_distance W a) ?s)" by simp
  have "mset peers = mset (take n ?s) + mset (drop n ?s)"
    by (metis append_take_drop_id mset_append mset_sort)
  moreover have "\<forall>p \<in> set (take n ?s). \<forall>q \<in> set (drop n ?s). peer_distance W a p \<le> peer_distance W a q"
    using sorted_take_drop [OF sorted] by blast
  moreover have "sorted (map (peer_distance W a) (take n ?s))"
    using sorted by (metis sorted_wrt_take take_map)
  ultimately show ?thesis
    by (auto simp: sort_peers_by_address_eq Let_def min.commute)
qed

theorem sort_peers_closest_witness:
  "sort_peers_by_address demo_wire [[3], [1], [2]] (PeerIdAddr [0]) 5 = Inl (NotEnoughPeers 3 CLOSE_GROUP_SIZE)"
proof -
  have "\<not> is_ok (sort_peers_by_address demo_wire [[3], [1], [2]] (PeerIdAddr [0]) 5)"
    by (simp add: sort_peers_by_address_eq CLOSE_GROUP_SIZE_def)
  with sort_peers_closest [where W = demo_wire and peers = "[[3], [1], [2]]" and a = "PeerIdAddr [0]" and n = 5]
  show ?thesis by (auto simp: is_ok_def split: sum.splits)
qed

text \<open>With a target record, a fetch succeeds only with that very record, seen in one of at most
  30 attempts (one without re-attempts); only on the last attempt a copy that too few nodes hold
  is accepted. And if some attempt within the limit answers with the target and none before it
  was cut off by a full or dropped channel, the fetch succeeds.\<close>

theorem get_record_target:
  "(get_record_from_network (Some t) re attempts = Inr r \<longrightarrow> r = t \<and>
      (\<exists>i < (if re then 30 else 1). attempts i = Answer (Inr t) \<or>
        Suc i = (if re then 30 else 1) \<and> attempts i = Answer (Inl (RecordNotEnoughCopies t)))) \<and>
    (\<forall>i < (if re then 30 else 1). attempts i = Answer (Inr t) \<and> (\<forall>k < i. \<exists>res. attempts k = Answer res) \<longrightarrow>
      get_record_from_network (Some t) re attempts = Inr t)"
proof -
  let ?n = "if re then 30 else 1 :: nat"
  have n: "get_record_from_network (Some t) re attempts = get_record_loop (Some t) ?n attempts 0"
    by (simp add: get_record_from_network_def VERIFICATION_ATTEMPTS_def)
  have "get_record_loop (Some t) ?n attempts 0 = Inr t"
    if i: "i < ?n" "attempts i = Answer (Inr t)" "\<forall>k < i. \<exists>res. attempts k = Answer res" for i
  proof -
    let ?j = "LEAST j. attempts j = Answer (Inr t)"
    have j: "attempts ?j = Answer (Inr t)" "?j \<le> i" using i(2) by (auto intro: LeastI Least_le)
    have "undecided (Some t) (attempts k)" if lt: "k < ?j" for k
    proof -
      have "attempts k \<noteq> Answer (Inr t)" using lt by (rule not_less_Least)
      moreover obtain res where "attempts k = Answer res" using i(3) less_le_trans [OF lt j(2)] by blast
      ultimately show ?thesis by (auto simp: undecided_def target_matches_def split: sum.splits)
    qed
    with j i(1) show ?thesis by (intro get_record_loop_complete [of ?j]) auto
  qed
  with get_record_loop_sound [of "Some t" ?n attempts 0 r] show ?thesis unfolding n add_0 target_matches_def by blast
qed

theorem get_record_target_witness:
  "\<exists>t. get_record_from_network (Some t) True (\<lambda>i. if i < 4 then Answer (Inl RecordNotFound) else Answer (Inr t)) = Inr t"
proof -
  let ?t = "\<lparr>rec_key = [], rec_value = [], rec_publisher = None, rec_expires = None\<rparr>"
  let ?a = "\<lambda>i :: nat. if i < 4 then Answer (Inl RecordNotFound) else Answer (Inr ?t)"
  have "\<forall>i < (if True then 30 else 1). ?a i = Answer (Inr ?t) \<and> (\<forall>k < i. \<exists>res. ?a k = Answer res) \<longrightarrow>
      get_record_from_network (Some ?t) True ?a = Inr ?t"
    using get_record_target [where t = ?t and re = True and attempts = ?a] by blast
  from this [rule_format, of 4] have "get_record_from_network (Some ?t) True ?a = Inr ?t" by simp
  then show ?thesis by blast
qed

text \<open>A verified put succeeds only if in one of at most three rounds the swarm accepted the put
  and the record was then read back unchanged; if verification fails in all three, the put
  fails with \<open>FailedToVerifyRecordWasStored\<close>.\<close>

theorem put_record_verified:
  "(put_record r True runs = Inr () \<longrightarrow> (\<exists>i < 3. fst (runs i) = Answer (Inr ()) \<and>
      (\<exists>j < 30. snd (runs i) j \<in> {Answer (Inr r), Answer (Inl (RecordNotEnoughCopies r))}))) \<and>
   ((\<forall>i < 3. is_verify_failure (put_record_once r True (runs i))) \<longrightarrow>
      put_record r True runs = Inl (FailedToVerifyRecordWasStored (rec_key r)))"
proof -
  have "\<exists>i < 3. fst (runs i) = Answer (Inr ()) \<and>
      (\<exists>j < 30. snd (runs i) j \<in> {Answer (Inr r), Answer (Inl (RecordNotEnoughCopies r))})"
    if "put_record r True runs = Inr ()"
  proof -
    from that put_record_retry_loop_ok [of r 3 runs 0] obtain i where i: "i < 3" "put_record_once r True (runs i) = Inr ()"
      by (auto simp: put_record_def put_record_with_retries_def PUT_RECORD_RETRIES_def)
    from put_record_once_verified [OF i(2)] have "fst (runs i) = Answer (Inr ())"
      "get_record_loop (Some r) 30 (snd (runs i)) 0 = Inr r"
      by (auto simp: get_record_from_network_def VERIFICATION_ATTEMPTS_def)
    with get_record_loop_sound [OF this(2)] i(1) show ?thesis by auto
  qed
  moreover have "put_record r True runs = Inl (FailedToVerifyRecordWasStored (rec_key r))"
    if "\<forall>i < 3. is_verify_failure (put_record_once r True (runs i))"
    using that put_record_retry_loop_fail [of 3 r runs 0]
    by (simp add: put_record_def put_record_with_retries_def PUT_RECORD_RETRIES_def)
  ultimately show ?thesis by blast
qed

theorem put_record_verified_witness:
  "\<exists>r. put_record r True (\<lambda>i. (Answer (Inr ()), \<lambda>j. Answer (Inl RecordNotFound))) =
     Inl (FailedToVerifyRecordWasStored (rec_key r))"
proof -
  let ?r = "\<lparr>rec_key = [], rec_value = [], rec_publisher = None, rec_expires = None\<rparr>"
  let ?run = "(Answer (Inr ()), \<lambda>j. Answer (Inl RecordNotFound)) :: put_run"
  have "\<not> is_ok (get_record_from_network (Some ?r) True (snd ?run))"
    using get_record_target [where t = ?r and re = True and attempts = "snd ?run"] by (auto simp: is_ok_iff)
  then have "is_verify_failure (put_record_once ?r True ?run)"
    by (auto simp: put_record_once_def await_with_def is_verify_failure_def is_ok_def map_err_def split: sum.splits)
  with put_record_verified [of ?r "\<lambda>_. ?run"] show ?thesis by (intro exI [of _ ?r]) simp
qed

lemma nth_sort_quota:
  fixes xs :: "'a::linorder list"
  assumes "k < length xs"
  shows "k < length (filter (\<lambda>c. c \<le> sort xs ! k) xs)"
proof -
  let ?P = "\<lambda>c. c \<le> sort xs ! k"
  have "?P c" if "c \<in> set (take (Suc k) (sort xs))" for c
  proof -
    from that obtain j where "j < Suc k" "c = sort xs ! j" by (auto simp: in_set_conv_nth)
    with assms show ?thesis by (simp add: sorted_nth_mono)
  qed
  then have "filter ?P (take (Suc k) (sort xs)) = take (Suc k) (sort xs)" by (simp add: filter_id_conv)
  then have "length (filter ?P (take (Suc k) (sort xs) @ drop (Suc k) (sort xs))) \<ge> length (take (Suc k) (sort xs))"
    by (simp only: filter_append length_append le_add1)
  then have "Suc k \<le> length (filter ?P (sort xs))" using assms by (simp only: append_take_drop_id) simp
  also have "length (filter ?P (sort xs)) = length (filter ?P xs)" by (rule mset_eq_length) (simp only: mset_filter mset_sort)
  finally show ?thesis by simp
qed

text \<open>The fee agreed on is one of the quotes. Without the relaxed mode it needs at least five
  quotes, and at least five of the nodes asked for no more than it; with it, fewer quotes yield
  the highest. Without any usable quote the error is \<open>NotEnoughCostQuotes\<close>.\<close>

theorem fee_accepted_by_majority:
  "case get_fee_from_store_cost_quotes costs any of
     Inr f \<Rightarrow> f \<in> set costs \<and>
       (if close_group_majority \<le> length costs
        then close_group_majority \<le> length (filter (\<lambda>c. c \<le> f) costs)
        else any \<and> (\<forall>c \<in> set costs. c \<le> f))
   | Inl e \<Rightarrow> e = NotEnoughCostQuotes \<and> (if any then costs = [] else length costs < close_group_majority)"
proof (cases "close_group_majority \<le> length costs")
  case True
  then have len: "4 < length (sort costs)" by (simp add: close_group_majority_def CLOSE_GROUP_SIZE_def)
  let ?fee = "sort costs ! 4"
  have "5 \<le> length (filter (\<lambda>c. c \<le> ?fee) costs)" using nth_sort_quota [of 4 costs] len by simp
  moreover have "?fee \<in> set costs" using nth_mem [OF len] by simp
  moreover have "get_fee_from_store_cost_quotes costs any = Inr ?fee"
    using len by (simp add: get_fee_from_store_cost_quotes_def list_get_def CLOSE_GROUP_SIZE_def Let_def)
  ultimately show ?thesis using True by (simp add: close_group_majority_def CLOSE_GROUP_SIZE_def)
next
  case False
  then have len: "\<not> 4 < length costs" by (simp add: close_group_majority_def CLOSE_GROUP_SIZE_def)
  show ?thesis
  proof (cases "costs = []")
    case True
    then show ?thesis
      by (simp add: get_fee_from_store_cost_quotes_def list_get_def close_group_majority_def CLOSE_GROUP_SIZE_def)
  next
    case ne: False
    have "last (sort costs) \<in> set costs" "\<forall>c \<in> set costs. c \<le> last (sort costs)"
      using last_sort_key_max(1) [OF ne, of "\<lambda>c. c"] last_sort_key_max(2) [OF ne, of _ "\<lambda>c. c"] by auto
    moreover have "sort costs \<noteq> []" using ne by (metis length_0_conv length_sort)
    ultimately show ?thesis
      using False len ne by (cases any) (simp_all add: get_fee_from_store_cost_quotes_def list_get_def CLOSE_GROUP_SIZE_def Let_def)
  qed
qed

theorem fee_accepted_by_majority_witness:
  "get_fee_from_store_cost_quotes [3, 1] False = Inl NotEnoughCostQuotes"
proof -
  have "\<not> is_ok (get_fee_from_store_cost_quotes [3, 1] False)"
    by (simp add: get_fee_from_store_cost_quotes_def list_get_def CLOSE_GROUP_SIZE_def)
  with fee_accepted_by_majority [where costs = "[3, 1]" and any = False] show ?thesis
    by (auto simp: is_ok_def split: sum.splits)
qed

end
