(* ===== verification/Swarm_Driver.thy ===== *)
theory Swarm_Driver
  imports Networking
begin

text \<open>
  The swarm driver of sn_networking: its state, the commands it takes (\<open>cmd.rs\<close>), the request
  and response messages (\<open>msg/mod.rs\<close>) and the swarm and Kademlia events (\<open>event.rs\<close>).
  Everything the driver does to the outside -- events to the upper layer, replies on oneshot
  channels, calls into libp2p -- is appended to the \<open>outbox\<close>. What libp2p, the clock, the random
  generator and the hash maps' iteration order contribute to one call is the record
  \<open>swarm_in\<close>. A handler returns its result besides the state, as a state change before an
  error stays.
\<close>

section \<open>Data\<close>

type_synonym sender = nat
type_synonym query_id = nat
type_synonym request_id = nat
type_synonym result_map = "(xorname, kad_record \<times> peer_id btree_set) btree_map"

datatype msg_responder = FromSelf "sender option" | FromPeer nat

datatype nat_status = NatPublic multiaddr | NatPrivate | NatUnknown

datatype ('d, 's) network_event =
    RequestReceived request msg_responder
  | ResponseReceived "('d, 's) response"
  | PeerAdded peer_id
  | PeerRemoved peer_id
  | KeysForReplication fetch_list
  | NewListenAddr multiaddr
  | NatStatusChanged nat_status
  | UnverifiedRecordEvent kad_record

record swarm_local_state =
  connected_peers :: "peer_id list"
  listeners :: "multiaddr list"

datatype ('d, 's) reply =
    UnitReply "net_error + unit"
  | PeersReply "peer_id list"
  | StateReply swarm_local_state
  | ResponseReply "net_error + ('d, 's) response"
  | BoolReply bool
  | AddressesReply "network_address list"
  | RecordReply "net_error + kad_record"
  | TokenReply token
  | LocalRecordReply "kad_record option"

datatype ('d, 's) action =
    Event "('d, 's) network_event"
  | Reply sender "('d, 's) reply"
  | SwarmListen multiaddr
  | SwarmDial "peer_id option" multiaddr
  | KadGetRecord record_key
  | KadPutRecord kad_record
  | KadGetClosest bytes
  | SendReq peer_id request
  | SendResp nat "('d, 's) response"
  | AddExternalAddress multiaddr
  | KadAddAddress peer_id multiaddr
  | AutonatAddServer peer_id multiaddr
  | KadBootstrap

datatype ('d, 's) swarm_cmd =
    StartListening multiaddr sender
  | Dial multiaddr sender
  | GetClosestPeers network_address sender
  | GetClosestLocalPeers network_address sender
  | GetAllLocalPeers sender
  | GetOurCloseGroup sender
  | GetSwarmLocalState sender
  | SendRequest request peer_id "sender option"
  | SendResponse "('d, 's) response" msg_responder
  | RecordStoreHasKey record_key sender
  | GetAllLocalRecordAddresses sender
  | GetNetworkRecord record_key sender
  | GetLocalStoreCost sender
  | GetLocalRecord record_key sender
  | PutRecord kad_record sender
  | PutLocalRecord kad_record
  | AddKeysToReplicationFetcher peer_id "network_address list"

record ('d, 's) driver =
  self_peer_id :: peer_id
  store :: record_store
  pending_get_closest_peers :: "(query_id, sender \<times> peer_id btree_set) btree_map"
  pending_requests :: "(request_id, sender option) btree_map"
  pending_get_record :: "(query_id, sender \<times> result_map) btree_map"
  replication_fetcher :: fetcher
  local :: bool
  dialed_peers :: "peer_id circular_vec"
  close_group :: "peer_id list"
  bootstrap_done :: bool
  is_client :: bool
  outbox :: "('d, 's) action list"

record swarm_in =
  clock :: nat
  shuffled :: shuffle
  store_iter :: "record_key list"
  map_order :: "result_map \<Rightarrow> result_map"
  new_query_id :: query_id
  new_request_id :: request_id
  listen_result :: "string + unit"
  dial_result :: "multiaddr \<Rightarrow> string + unit"
  kad_put_result :: "store_error + unit"
  response_channel_open :: bool
  receiver_alive :: "sender \<Rightarrow> bool"
  swarm_connected :: "peer_id list"
  swarm_listeners :: "multiaddr list"
  kbuckets :: "peer_id list list"
  closest_local :: "bytes \<Rightarrow> peer_id list"
  kad_remove_peer :: "peer_id option"
  autonat_enabled :: bool
  event_capacity :: nat
  price_factor :: u64
  k_value :: nat

section \<open>Effects\<close>

definition emit :: "('d, 's) action \<Rightarrow> ('d, 's) driver \<Rightarrow> ('d, 's) driver" where
  "emit a d = d\<lparr>outbox := outbox d @ [a]\<rparr>"

text \<open>An event is dropped when the channel has no capacity left.\<close>

definition send_event :: "swarm_in \<Rightarrow> ('d, 's) network_event \<Rightarrow> ('d, 's) driver \<Rightarrow> ('d, 's) driver" where
  "send_event I e d = (if event_capacity I = 0 then d else emit (Event e) d)"

text \<open>Sending on a oneshot channel fails when its receiver is gone.\<close>

definition oneshot_send :: "swarm_in \<Rightarrow> sender \<Rightarrow> ('d, 's) reply \<Rightarrow> ('d, 's) driver \<Rightarrow> ('d, 's) driver" where
  "oneshot_send I s r d = (if receiver_alive I s then emit (Reply s r) d else d)"

definition sent :: "swarm_in \<Rightarrow> sender \<Rightarrow> net_error + unit" where
  "sent I s = (if receiver_alive I s then Inr () else Inl InternalMsgChannelDropped)"

section \<open>Peers\<close>

definition get_all_local_peers :: "swarm_in \<Rightarrow> ('d, 's) driver \<Rightarrow> peer_id list" where
  "get_all_local_peers I d = concat (kbuckets I) @ [self_peer_id d]"

definition is_in_close_range :: "('d, 's) wire_env \<Rightarrow> ('d, 's) driver \<Rightarrow> network_address \<Rightarrow> peer_id list \<Rightarrow> bool" where
  "is_in_close_range W d target all_peers =
     (if length all_peers \<le> CLOSE_GROUP_SIZE + 2 then True
      else (case sort_peers_by_address W all_peers target (CLOSE_GROUP_SIZE + 2) of
              Inr closest \<Rightarrow> self_peer_id d \<in> set closest
            | Inl _ \<Rightarrow> True))"

definition update_record_distance_range :: "('d, 's) wire_env \<Rightarrow> ('d, 's) driver \<Rightarrow> ('d, 's) driver" where
  "update_record_distance_range W d =
     (if close_group d = [] then d
      else d\<lparr>store := set_distance_range (store d)
        (addr_distance W (from_peer (last (close_group d))) (from_peer (self_peer_id d)))\<rparr>)"

definition check_for_change_in_our_close_group :: "('d, 's) wire_env \<Rightarrow> swarm_in \<Rightarrow> ('d, 's) driver
    \<Rightarrow> ('d, 's) driver \<times> peer_id list option" where
  "check_for_change_in_our_close_group W I d =
     (case sort_peers_by_address W (get_all_local_peers I d) (from_peer (self_peer_id d)) CLOSE_GROUP_SIZE of
        Inl _ \<Rightarrow> (d, None)
      | Inr new_closest_peers \<Rightarrow>
          let new_members = filter (\<lambda>p. p \<notin> set (close_group d)) new_closest_peers
          in if new_members \<noteq> []
             then (update_record_distance_range W (d\<lparr>close_group := new_closest_peers\<rparr>), Some new_members)
             else (d, None))"

definition dial :: "swarm_in \<Rightarrow> multiaddr \<Rightarrow> ('d, 's) driver \<Rightarrow> ('d, 's) driver \<times> (net_error + unit)" where
  "dial I addr d =
     (let (addr', peer) = multiaddr_pop_p2p addr
      in (emit (SwarmDial peer addr') d, map_err DialError (dial_result I addr)))"

section \<open>Commands\<close>

definition cmd_add_keys :: "('d, 's) wire_env \<Rightarrow> swarm_in \<Rightarrow> peer_id \<Rightarrow> network_address list \<Rightarrow> ('d, 's) driver
    \<Rightarrow> ('d, 's) driver" where
  "cmd_add_keys W I peer keys d =
     (let all_peers = get_all_local_peers I d;
          keys_to_store = filter (\<lambda>key. is_in_close_range W d key all_peers) keys;
          (f, keys_to_fetch) = fetcher_add_keys (clock I) (shuffled I) peer keys_to_store (records (store d))
            (replication_fetcher d);
          d' = d\<lparr>replication_fetcher := f\<rparr>
      in if keys_to_fetch \<noteq> [] then send_event I (KeysForReplication keys_to_fetch) d' else d')"

definition cmd_put_local_record :: "('d, 's) wire_env \<Rightarrow> swarm_in \<Rightarrow> kad_record \<Rightarrow> ('d, 's) driver
    \<Rightarrow> ('d, 's) driver \<times> (net_error + unit)" where
  "cmd_put_local_record W I r d =
     (case put_verified W (store_iter I) (store d) r of
        Inl err \<Rightarrow> (d, Inl (KademliaStoreError err))
      | Inr s \<Rightarrow>
          let (f, new_keys_to_fetch) = notify_about_new_put (clock I) (shuffled I) (rec_key r) (replication_fetcher d);
              d' = d\<lparr>store := s, replication_fetcher := f\<rparr>
          in (if new_keys_to_fetch \<noteq> [] then send_event I (KeysForReplication new_keys_to_fetch) d' else d', Inr ()))"

definition cmd_put_record :: "swarm_in \<Rightarrow> kad_record \<Rightarrow> sender \<Rightarrow> ('d, 's) driver \<Rightarrow> ('d, 's) driver" where
  "cmd_put_record I r sender d =
     oneshot_send I sender (UnitReply (map_err KademliaStoreError (kad_put_result I))) (emit (KadPutRecord r) d)"

definition cmd_send_request :: "swarm_in \<Rightarrow> request \<Rightarrow> peer_id \<Rightarrow> sender option \<Rightarrow> ('d, 's) driver \<Rightarrow> ('d, 's) driver" where
  "cmd_send_request I req peer sender d =
     (if peer = self_peer_id d then send_event I (RequestReceived req (FromSelf sender)) d
      else (emit (SendReq peer req) d)
        \<lparr>pending_requests := bm_insert (new_request_id I) sender (pending_requests d)\<rparr>)"

definition cmd_send_response :: "swarm_in \<Rightarrow> ('d, 's) response \<Rightarrow> msg_responder \<Rightarrow> ('d, 's) driver
    \<Rightarrow> ('d, 's) driver \<times> (net_error + unit)" where
  "cmd_send_response I resp channel d =
     (case channel of
        FromSelf (Some s) \<Rightarrow> (oneshot_send I s (ResponseReply (Inr resp)) d, sent I s)
      | FromSelf None \<Rightarrow> (send_event I (ResponseReceived resp) d, Inr ())
      | FromPeer c \<Rightarrow> if response_channel_open I then (emit (SendResp c resp) d, Inr ())
                      else (d, Inl OutgoingResponseDropped))"

fun handle_cmd :: "('d, 's) wire_env \<Rightarrow> swarm_in \<Rightarrow> ('d, 's) swarm_cmd \<Rightarrow> ('d, 's) driver
    \<Rightarrow> ('d, 's) driver \<times> (net_error + unit)" where
  "handle_cmd W I (AddKeysToReplicationFetcher peer keys) d = (cmd_add_keys W I peer keys d, Inr ())"
| "handle_cmd W I (GetNetworkRecord key s) d =
     ((emit (KadGetRecord key) d)
        \<lparr>pending_get_record := bm_insert (new_query_id I) (s, []) (pending_get_record d)\<rparr>, Inr ())"
| "handle_cmd W I (GetLocalStoreCost s) d =
     (oneshot_send I s (TokenReply (store_cost W (price_factor I) (store d))) d, Inr ())"
| "handle_cmd W I (GetLocalRecord key s) d = (oneshot_send I s (LocalRecordReply (rs_get (store d) key)) d, Inr ())"
| "handle_cmd W I (PutRecord r s) d = (cmd_put_record I r s d, Inr ())"
| "handle_cmd W I (PutLocalRecord r) d = cmd_put_local_record W I r d"
| "handle_cmd W I (RecordStoreHasKey key s) d = (oneshot_send I s (BoolReply (rs_contains (store d) key)) d, Inr ())"
| "handle_cmd W I (GetAllLocalRecordAddresses s) d =
     (oneshot_send I s (AddressesReply (record_addresses (store d))) d, Inr ())"
| "handle_cmd W I (StartListening addr s) d =
     (oneshot_send I s (UnitReply (map_err TransportError (listen_result I))) (emit (SwarmListen addr) d), Inr ())"
| "handle_cmd W I (Dial addr s) d =
     (case dial I addr d of (d', res) \<Rightarrow> (oneshot_send I s (UnitReply res) d', Inr ()))"
| "handle_cmd W I (GetClosestPeers key s) d =
     ((emit (KadGetClosest (as_bytes W key)) d)
        \<lparr>pending_get_closest_peers := bm_insert (new_query_id I) (s, []) (pending_get_closest_peers d)\<rparr>, Inr ())"
| "handle_cmd W I (GetClosestLocalPeers key s) d =
     (oneshot_send I s (PeersReply (take CLOSE_GROUP_SIZE (closest_local I (as_kbucket_key W key)))) d, Inr ())"
| "handle_cmd W I (GetAllLocalPeers s) d = (oneshot_send I s (PeersReply (get_all_local_peers I d)) d, Inr ())"
| "handle_cmd W I (GetOurCloseGroup s) d = (oneshot_send I s (PeersReply (close_group d)) d, Inr ())"
| "handle_cmd W I (SendRequest req peer s) d = (cmd_send_request I req peer s d, Inr ())"
| "handle_cmd W I (SendResponse resp channel) d = cmd_send_response I resp channel d"
| "handle_cmd W I (GetSwarmLocalState s) d =
     (oneshot_send I s (StateReply \<lparr>connected_peers = swarm_connected I, listeners = swarm_listeners I\<rparr>) d, sent I s)"

section \<open>Request and response messages\<close>

datatype ('d, 's) msg_event =
    RequestMsg request nat
  | ResponseMsg request_id "('d, 's) response"
  | OutboundFailure request_id string
  | InboundFailure
  | ResponseSent

fun handle_msg :: "swarm_in \<Rightarrow> ('d, 's) msg_event \<Rightarrow> ('d, 's) driver \<Rightarrow> ('d, 's) driver \<times> (net_error + unit)" where
  "handle_msg I (RequestMsg req channel) d = (send_event I (RequestReceived req (FromPeer channel)) d, Inr ())"
| "handle_msg I (ResponseMsg rid resp) d =
     (let d' = d\<lparr>pending_requests := bm_remove rid (pending_requests d)\<rparr>
      in case bm_get (pending_requests d) rid of
           Some (Some s) \<Rightarrow> (oneshot_send I s (ResponseReply (Inr resp)) d', sent I s)
         | Some None \<Rightarrow> (send_event I (ResponseReceived resp) d', Inr ())
         | None \<Rightarrow> (d', Inr ()))"
| "handle_msg I (OutboundFailure rid err) d =
     (let d' = d\<lparr>pending_requests := bm_remove rid (pending_requests d)\<rparr>
      in case bm_get (pending_requests d) rid of
           Some (Some s) \<Rightarrow> (oneshot_send I s (ResponseReply (Inl (OutboundError err))) d', sent I s)
         | Some None \<Rightarrow> (d', Inl (ReceivedResponseDropped rid))
         | None \<Rightarrow> (d', Inl (ReceivedResponseDropped rid)))"
| "handle_msg I InboundFailure d = (d, Inr ())"
| "handle_msg I ResponseSent d = (d, Inr ())"

section \<open>Fetched records\<close>

text \<open>The entry is taken out of the result map and put back with the reporting peer added.\<close>

definition reporter :: "('d, 's) driver \<Rightarrow> peer_id option \<Rightarrow> peer_id" where
  "reporter d peer = (case peer of Some p \<Rightarrow> p | None \<Rightarrow> self_peer_id d)"

definition vote_peers :: "result_map \<Rightarrow> xorname \<Rightarrow> peer_id \<Rightarrow> peer_id btree_set" where
  "vote_peers m h p = (case bm_get m h of Some (_, peer_list) \<Rightarrow> bs_insert p peer_list | None \<Rightarrow> bs_insert p [])"

text \<open>One step of the loop over the result map: the highest step_count and the records that have it.\<close>

definition highest_step :: "xorname \<times> kad_record \<times> peer_id btree_set \<Rightarrow> nat \<times> result_map \<Rightarrow> nat \<times> result_map" where
  "highest_step e st = (case e of (xor_name, record, peer_list) \<Rightarrow>
     let (highest_count, highest_records) = st;
         highest_records = (if length peer_list > highest_count then [] else highest_records)
     in if length peer_list \<ge> highest_count
        then (length peer_list, bm_insert xor_name (record, peer_list) highest_records)
        else (highest_count, highest_records))"

definition try_update_self_for_split_record :: "('d, 's) wire_env \<Rightarrow> swarm_in \<Rightarrow> result_map \<Rightarrow> ('d, 's) driver
    \<Rightarrow> ('d, 's) driver" where
  "try_update_self_for_split_record W I m d =
     (if length m = 1 then d
      else case snd (fold highest_step (map_order I m) (0, [])) of
             [] \<Rightarrow> d
           | (_, record, peer_list) # _ \<Rightarrow>
               if self_peer_id d \<notin> set peer_list
               then (case put_verified W (store_iter I) (store d) record of
                       Inr s \<Rightarrow> d\<lparr>store := s\<rparr>
                     | Inl _ \<Rightarrow> d)
               else d)"

definition accumulate_get_record_ok :: "('d, 's) wire_env \<Rightarrow> swarm_in \<Rightarrow> query_id \<Rightarrow> peer_id option \<Rightarrow> kad_record \<Rightarrow> nat
    \<Rightarrow> ('d, 's) driver \<Rightarrow> ('d, 's) driver" where
  "accumulate_get_record_ok W I qid peer record step_count d =
     (let peer_id = reporter d peer;
          record_content_hash = xor_content W (rec_value record)
      in case bm_get (pending_get_record d) qid of
           None \<Rightarrow> d
         | Some (sender, m) \<Rightarrow>
             let d = d\<lparr>pending_get_record := bm_remove qid (pending_get_record d)\<rparr>;
                 peer_list = vote_peers m record_content_hash peer_id;
                 result = (if length peer_list \<ge> close_group_majority then Some (Inr record)
                           else if step_count \<ge> CLOSE_GROUP_SIZE then Some (Inl RecordNotFound)
                           else None);
                 m = bm_insert record_content_hash (record, peer_list) (bm_remove record_content_hash m)
             in case result of
                  Some res \<Rightarrow> try_update_self_for_split_record W I m (oneshot_send I sender (RecordReply res) d)
                | None \<Rightarrow> d\<lparr>pending_get_record := bm_insert qid (sender, m) (pending_get_record d)\<rparr>)"

section \<open>Kademlia events\<close>

datatype kad_event =
    GetClosestPeersOk query_id "peer_id list" bool
  | FoundRecord query_id "peer_id option" kad_record nat
  | FinishedWithNoAdditionalRecord query_id
  | GetRecordErr query_id
  | BootstrapProgressed query_id
  | RoutingUpdated peer_id bool "peer_id option"
  | InboundPutRecord
  | InboundGetRecord nat bool
  | OtherKadEvent

definition kad_get_closest_ok :: "swarm_in \<Rightarrow> query_id \<Rightarrow> peer_id list \<Rightarrow> bool \<Rightarrow> ('d, 's) driver
    \<Rightarrow> ('d, 's) driver \<times> (net_error + unit)" where
  "kad_get_closest_ok I qid peers last_step d =
     (case bm_get (pending_get_closest_peers d) qid of
        None \<Rightarrow> (d, Inl (ReceivedKademliaEventDropped qid))
      | Some (sender, current_closest) \<Rightarrow>
          let d = d\<lparr>pending_get_closest_peers := bm_remove qid (pending_get_closest_peers d)\<rparr>;
              current_closest = bs_extend current_closest (bs_collect peers)
          in if length current_closest \<ge> k_value I \<or> last_step
             then (oneshot_send I sender (PeersReply current_closest) d, sent I sender)
             else (d\<lparr>pending_get_closest_peers :=
                      bm_insert qid (sender, current_closest) (pending_get_closest_peers d)\<rparr>, Inr ()))"

definition kad_finished :: "swarm_in \<Rightarrow> query_id \<Rightarrow> ('d, 's) driver \<Rightarrow> ('d, 's) driver \<times> (net_error + unit)" where
  "kad_finished I qid d =
     (case bm_get (pending_get_record d) qid of
        None \<Rightarrow> (d, Inr ())
      | Some (sender, m) \<Rightarrow>
          let d = d\<lparr>pending_get_record := bm_remove qid (pending_get_record d)\<rparr>
          in case bm_values (map_order I m) of
               (record, _) # _ \<Rightarrow> (oneshot_send I sender (RecordReply (Inl (RecordNotEnoughCopies record))) d, sent I sender)
             | [] \<Rightarrow> (oneshot_send I sender (RecordReply (Inl RecordNotFound)) d, sent I sender))"

definition kad_get_record_err :: "swarm_in \<Rightarrow> query_id \<Rightarrow> ('d, 's) driver \<Rightarrow> ('d, 's) driver \<times> (net_error + unit)" where
  "kad_get_record_err I qid d =
     (case bm_get (pending_get_record d) qid of
        None \<Rightarrow> (d, Inr ())
      | Some (sender, _) \<Rightarrow>
          (oneshot_send I sender (RecordReply (Inl RecordNotFound))
             (d\<lparr>pending_get_record := bm_remove qid (pending_get_record d)\<rparr>), sent I sender))"

definition kad_routing_updated :: "('d, 's) wire_env \<Rightarrow> swarm_in \<Rightarrow> peer_id \<Rightarrow> bool \<Rightarrow> peer_id option
    \<Rightarrow> ('d, 's) driver \<Rightarrow> ('d, 's) driver" where
  "kad_routing_updated W I peer is_new_peer old_peer d =
     (let d = (if is_new_peer
               then (let d = send_event I (PeerAdded peer) d
                     in if \<not> bootstrap_done d then (emit KadBootstrap d)\<lparr>bootstrap_done := True\<rparr> else d)
               else d);
          d = (if old_peer \<noteq> None then send_event I (PeerRemoved peer) d else d)
      in fst (check_for_change_in_our_close_group W I d))"

fun handle_kad_event :: "('d, 's) wire_env \<Rightarrow> swarm_in \<Rightarrow> kad_event \<Rightarrow> ('d, 's) driver
    \<Rightarrow> ('d, 's) driver \<times> (net_error + unit)" where
  "handle_kad_event W I (GetClosestPeersOk qid peers last_step) d = kad_get_closest_ok I qid peers last_step d"
| "handle_kad_event W I (FoundRecord qid peer record step_count) d =
     (accumulate_get_record_ok W I qid peer record step_count d, Inr ())"
| "handle_kad_event W I (FinishedWithNoAdditionalRecord qid) d = kad_finished I qid d"
| "handle_kad_event W I (GetRecordErr qid) d = kad_get_record_err I qid d"
| "handle_kad_event W I (BootstrapProgressed qid) d = (d, Inr ())"
| "handle_kad_event W I (RoutingUpdated peer is_new_peer old_peer) d =
     (kad_routing_updated W I peer is_new_peer old_peer d, Inr ())"
| "handle_kad_event W I InboundPutRecord d = (d, Inr ())"
| "handle_kad_event W I (InboundGetRecord n present) d = (d, Inr ())"
| "handle_kad_event W I OtherKadEvent d = (d, Inr ())"

section \<open>Swarm events\<close>

definition IDENTIFY_AGENT_STR :: string where
  "IDENTIFY_AGENT_STR = ''safe/node/''"

record identify_info =
  agent_version :: string
  listen_addrs :: "multiaddr list"
  protocols :: "string list"

datatype ('d, 's) swarm_event =
    MsgReceived "('d, 's) msg_event"
  | Kademlia kad_event
  | IdentifyReceived peer_id identify_info
  | MdnsDiscovered "(peer_id \<times> multiaddr) list"
  | MdnsExpired
  | NewListenAddrEvent multiaddr
  | ConnectionEstablished peer_id bool
  | ConnectionClosed
  | OutgoingConnectionError peer_id
  | AutonatStatusChanged nat_status
  | AutonatProbe
  | OtherSwarmEvent

definition starts_with :: "string \<Rightarrow> string \<Rightarrow> bool" where
  "starts_with pat s \<longleftrightarrow> take (length pat) s = pat"

text \<open>\<open>Itertools::unique\<close> keeps the first occurrence of every value.\<close>

fun unique :: "'a list \<Rightarrow> 'a list" where
  "unique [] = []"
| "unique (x # xs) = x # unique (filter (\<lambda>y. y \<noteq> x) xs)"

definition identify_addrs :: "bool \<Rightarrow> identify_info \<Rightarrow> multiaddr list" where
  "identify_addrs loc info =
     unique (map multiaddr_strip_p2p
       (if loc then listen_addrs info else filter multiaddr_is_global (listen_addrs info)))"

definition identify_received :: "swarm_in \<Rightarrow> peer_id \<Rightarrow> identify_info \<Rightarrow> ('d, 's) driver \<Rightarrow> ('d, 's) driver" where
  "identify_received I peer info d =
     (if (local d \<or> circular_vec_contains (dialed_peers d) peer) \<and> starts_with IDENTIFY_AGENT_STR (agent_version info)
      then let addrs = identify_addrs (local d) info;
               d = fold (\<lambda>a. emit (KadAddAddress peer a)) addrs d
           in if list_ex (starts_with ''/libp2p/autonat/'') (protocols info) \<and> autonat_enabled I
              then fold (\<lambda>a. emit (AutonatAddServer peer a)) addrs d
              else d
      else d)"

definition mdns_discovered :: "swarm_in \<Rightarrow> (peer_id \<times> multiaddr) list \<Rightarrow> ('d, 's) driver \<Rightarrow> ('d, 's) driver" where
  "mdns_discovered I peers d =
     (if local d then fold (\<lambda>(peer, addr) d. fst (dial I (addr @ [P2p peer]) d)) peers d else d)"

definition new_listen_addr :: "swarm_in \<Rightarrow> multiaddr \<Rightarrow> ('d, 's) driver \<Rightarrow> ('d, 's) driver" where
  "new_listen_addr I address d =
     (let address = address @ [P2p (self_peer_id d)];
          d = (if \<not> is_client d \<and> (local d \<or> multiaddr_is_global address)
               then emit (AddExternalAddress address) d else d)
      in send_event I (NewListenAddr address) d)"

definition connection_established :: "peer_id \<Rightarrow> bool \<Rightarrow> ('d, 's) driver \<Rightarrow> ('d, 's) driver \<times> (net_error + unit)" where
  "connection_established peer is_dialer d =
     (if is_dialer
      then (case circular_vec_push (dialed_peers d) peer of
              Some v \<Rightarrow> (d\<lparr>dialed_peers := v\<rparr>, Inr ())
            | None \<Rightarrow> (d, Inl CircularVecPopFrontError))
      else (d, Inr ()))"

definition outgoing_connection_error :: "('d, 's) wire_env \<Rightarrow> swarm_in \<Rightarrow> peer_id \<Rightarrow> ('d, 's) driver \<Rightarrow> ('d, 's) driver" where
  "outgoing_connection_error W I failed_peer_id d =
     (case kad_remove_peer I of
        Some dead_peer \<Rightarrow> fst (check_for_change_in_our_close_group W I (send_event I (PeerRemoved dead_peer) d))
      | None \<Rightarrow> d)"

fun handle_swarm_events :: "('d, 's) wire_env \<Rightarrow> swarm_in \<Rightarrow> ('d, 's) swarm_event \<Rightarrow> ('d, 's) driver
    \<Rightarrow> ('d, 's) driver \<times> (net_error + unit)" where
  "handle_swarm_events W I (MsgReceived e) d = (fst (handle_msg I e d), Inr ())"
| "handle_swarm_events W I (Kademlia e) d = handle_kad_event W I e d"
| "handle_swarm_events W I (IdentifyReceived peer info) d = (identify_received I peer info d, Inr ())"
| "handle_swarm_events W I (MdnsDiscovered peers) d = (mdns_discovered I peers d, Inr ())"
| "handle_swarm_events W I MdnsExpired d = (d, Inr ())"
| "handle_swarm_events W I (NewListenAddrEvent address) d = (new_listen_addr I address d, Inr ())"
| "handle_swarm_events W I (ConnectionEstablished peer is_dialer) d = connection_established peer is_dialer d"
| "handle_swarm_events W I ConnectionClosed d = (d, Inr ())"
| "handle_swarm_events W I (OutgoingConnectionError peer) d = (outgoing_connection_error W I peer d, Inr ())"
| "handle_swarm_events W I (AutonatStatusChanged new) d = (send_event I (NatStatusChanged new) d, Inr ())"
| "handle_swarm_events W I AutonatProbe d = (d, Inr ())"
| "handle_swarm_events W I OtherSwarmEvent d = (d, Inr ())"

section \<open>Runs\<close>

text \<open>
  The driver's loop takes one command or one event at a time; a trace is what it has taken, each
  with what the outside contributed.
\<close>

type_synonym ('d, 's) driver_input = "swarm_in \<times> (('d, 's) swarm_cmd + ('d, 's) swarm_event)"

definition driver_step :: "('d, 's) wire_env \<Rightarrow> ('d, 's) driver_input \<Rightarrow> ('d, 's) driver \<Rightarrow> ('d, 's) driver" where
  "driver_step W i d = (case snd i of Inl c \<Rightarrow> fst (handle_cmd W (fst i) c d)
     | Inr e \<Rightarrow> fst (handle_swarm_events W (fst i) e d))"

definition driver_run :: "('d, 's) wire_env \<Rightarrow> ('d, 's) driver_input list \<Rightarrow> ('d, 's) driver \<Rightarrow> ('d, 's) driver" where
  "driver_run W tr d = fold (driver_step W) tr d"

definition driver_new :: "peer_id \<Rightarrow> record_store \<Rightarrow> fetcher \<Rightarrow> bool \<Rightarrow> bool \<Rightarrow> nat \<Rightarrow> ('d, 's) driver" where
  "driver_new self st f loc client cap =
     \<lparr>self_peer_id = self, store = st, pending_get_closest_peers = [], pending_requests = [], pending_get_record = [],
      replication_fetcher = f, local = loc, dialed_peers = circular_vec_new cap, close_group = [],
      bootstrap_done = False, is_client = client, outbox = []\<rparr>"

lemma driver_run_snoc: "driver_run W (tr @ [i]) d = driver_step W i (driver_run W tr d)"
  by (simp add: driver_run_def)

section \<open>What a step leaves alone\<close>

text \<open>No record is handed out, not as one with too few copies either, and the peer id and the pending fetches stay.\<close>

definition hands_out :: "('d, 's) action \<Rightarrow> bool" where
  "hands_out a = (case a of Reply _ (RecordReply res) \<Rightarrow> (case res of Inr _ \<Rightarrow> True | Inl e \<Rightarrow> too_few_copies e \<noteq> None) | _ \<Rightarrow> False)"

definition quiet :: "('d, 's) driver \<Rightarrow> ('d, 's) driver \<Rightarrow> bool" where
  "quiet d d' \<longleftrightarrow> self_peer_id d' = self_peer_id d \<and> pending_get_record d' = pending_get_record d \<and>
     filter hands_out (outbox d') = filter hands_out (outbox d)"

lemma hands_out_simps [simp]:
  "hands_out (Reply s (RecordReply (Inr r)))" "hands_out (Reply s (RecordReply (Inl (RecordNotEnoughCopies r))))"
  "\<not> hands_out (Reply s (RecordReply (Inl RecordNotFound)))"
  "\<not> hands_out (Reply s (UnitReply u))" "\<not> hands_out (Reply s (PeersReply ps))"
  "\<not> hands_out (Reply s (StateReply st))" "\<not> hands_out (Reply s (ResponseReply x))"
  "\<not> hands_out (Reply s (BoolReply b))" "\<not> hands_out (Reply s (AddressesReply ads))"
  "\<not> hands_out (Reply s (TokenReply t))" "\<not> hands_out (Reply s (LocalRecordReply lr))"
  "\<not> hands_out (Event e')" "\<not> hands_out (SwarmListen a)" "\<not> hands_out (SwarmDial p a)"
  "\<not> hands_out (KadGetRecord k)" "\<not> hands_out (KadPutRecord r)" "\<not> hands_out (KadGetClosest b')"
  "\<not> hands_out (SendReq p' rq)" "\<not> hands_out (SendResp c rp)" "\<not> hands_out (AddExternalAddress a)"
  "\<not> hands_out (KadAddAddress p' a)" "\<not> hands_out (AutonatAddServer p' a)" "\<not> hands_out KadBootstrap"
  by (simp_all add: hands_out_def too_few_copies_def)

named_theorems quiet_intros \<open>steps that hand out no record\<close>

lemma quiet_refl [simp, quiet_intros]: "quiet d d"
  by (simp add: quiet_def)

lemma quiet_trans: "quiet d d' \<Longrightarrow> quiet d' d'' \<Longrightarrow> quiet d d''"
  by (simp add: quiet_def)

lemma quiet_emit [quiet_intros]: "quiet d d' \<Longrightarrow> \<not> hands_out a \<Longrightarrow> quiet d (emit a d')"
  by (simp add: quiet_def emit_def)

lemma quiet_send_event [quiet_intros]: "quiet d d' \<Longrightarrow> quiet d (send_event I e d')"
  by (simp add: send_event_def quiet_intros)

lemma quiet_oneshot [quiet_intros]: "quiet d d' \<Longrightarrow> \<not> hands_out (Reply s r) \<Longrightarrow> quiet d (oneshot_send I s r d')"
  by (simp add: oneshot_send_def quiet_intros)

lemma quiet_updates [quiet_intros]:
  "quiet d d' \<Longrightarrow> quiet d (store_update f1 d')"
  "quiet d d' \<Longrightarrow> quiet d (pending_get_closest_peers_update f2 d')"
  "quiet d d' \<Longrightarrow> quiet d (pending_requests_update f3 d')"
  "quiet d d' \<Longrightarrow> quiet d (replication_fetcher_update f4 d')"
  "quiet d d' \<Longrightarrow> quiet d (dialed_peers_update f5 d')"
  "quiet d d' \<Longrightarrow> quiet d (close_group_update f6 d')"
  "quiet d d' \<Longrightarrow> quiet d (bootstrap_done_update f7 d')"
  by (simp_all add: quiet_def)

lemma quiet_fold: "(\<And>x d'. x \<in> set xs \<Longrightarrow> quiet d' (f x d')) \<Longrightarrow> quiet d (fold f xs d)"
proof (induction xs arbitrary: d)
  case (Cons x xs)
  then have "quiet d (f x d)" "quiet (f x d) (fold f xs (f x d))" by auto
  then show ?case by (auto intro: quiet_trans)
qed simp

lemma quiet_check [quiet_intros]: "quiet d d' \<Longrightarrow> quiet d (fst (check_for_change_in_our_close_group W I d'))"
  by (auto simp: check_for_change_in_our_close_group_def update_record_distance_range_def Let_def
      split: sum.splits intro!: quiet_intros)

lemma quiet_dial [quiet_intros]: "quiet d d' \<Longrightarrow> quiet d (fst (dial I a d'))"
  by (auto simp: dial_def split: prod.splits intro!: quiet_intros)

lemma quiet_handle_msg [quiet_intros]: "quiet d (fst (handle_msg I e d))"
  by (cases e) (auto simp: Let_def split: option.splits intro!: quiet_intros)

lemma quiet_emits [quiet_intros]:
  assumes "\<And>x. \<not> hands_out (g x)" and "quiet d d'"
  shows "quiet d (fold (\<lambda>x. emit (g x)) xs d')"
  by (rule quiet_trans [OF assms(2) quiet_fold]) (auto intro!: quiet_intros simp: assms(1))

lemma quiet_identify [quiet_intros]: "quiet d (identify_received I peer info d)"
  unfolding identify_received_def Let_def by (auto intro!: quiet_intros)

lemma quiet_cmd:
  assumes "\<forall>k s. c \<noteq> GetNetworkRecord k s"
  shows "quiet d (fst (handle_cmd W I c d))"
proof (cases c)
  case (Dial a s)
  have "quiet d (fst (dial I a d))" by (intro quiet_intros)
  with Dial show ?thesis by (auto split: prod.splits intro!: quiet_intros)
qed (use assms in \<open>auto simp: cmd_add_keys_def cmd_put_local_record_def cmd_put_record_def cmd_send_request_def
      cmd_send_response_def Let_def split: prod.splits sum.splits msg_responder.splits option.splits intro!: quiet_intros\<close>)

lemma quiet_kad:
  assumes "\<forall>q p r n. e \<noteq> FoundRecord q p r n" "\<forall>q. e \<noteq> FinishedWithNoAdditionalRecord q" "\<forall>q. e \<noteq> GetRecordErr q"
  shows "quiet d (fst (handle_kad_event W I e d))"
  using assms by (cases e) (auto simp: kad_get_closest_ok_def kad_routing_updated_def Let_def
      split: prod.splits option.splits intro!: quiet_intros)

lemma quiet_swarm:
  assumes "\<forall>k. e \<noteq> Kademlia k"
  shows "quiet d (fst (handle_swarm_events W I e d))"
proof (cases e)
  case (MdnsDiscovered ps)
  have "quiet d' (fst (dial I (snd x @ [P2p (fst x)]) d'))" for d' and x :: "peer_id \<times> multiaddr"
    by (intro quiet_intros)
  with MdnsDiscovered show ?thesis by (auto simp: mdns_discovered_def case_prod_beta intro!: quiet_fold quiet_intros)
qed (use assms in \<open>auto simp: new_listen_addr_def connection_established_def outgoing_connection_error_def Let_def
      split: option.splits intro!: quiet_intros\<close>)

end
