(* ===== verification/Swarm_Votes.thy ===== *)
theory Swarm_Votes
  imports Swarm_Driver
begin

text \<open>
  How the driver settles what a network fetch returned: over any run of commands and events, a
  record is handed to the caller only when a majority of the close group has reported its content,
  or marked as one with too few copies, and a split vote replaces the node's own copy by one that has the most votes.
\<close>

section \<open>Votes on fetched records\<close>

text \<open>The peers that have reported a record of content \<open>h\<close> for the query \<open>q\<close>.\<close>

definition report_of :: "('d, 's) wire_env \<Rightarrow> peer_id \<Rightarrow> query_id \<Rightarrow> xorname \<Rightarrow> ('d, 's) driver_input \<Rightarrow> peer_id option" where
  "report_of W self q h i = (case snd i of
     Inr (Kademlia (FoundRecord q' peer r n)) \<Rightarrow>
       if q' = q \<and> xor_content W (rec_value r) = h then Some (case peer of Some p \<Rightarrow> p | None \<Rightarrow> self) else None
   | _ \<Rightarrow> None)"

definition reporters :: "('d, 's) wire_env \<Rightarrow> ('d, 's) driver_input list \<Rightarrow> peer_id \<Rightarrow> query_id \<Rightarrow> xorname \<Rightarrow> peer_id set" where
  "reporters W tr self q h = set (List.map_filter (report_of W self q h) tr)"

text \<open>A record was reported for a query; a caller asked by a query.\<close>

definition found_in :: "('d, 's) driver_input list \<Rightarrow> query_id \<Rightarrow> kad_record \<Rightarrow> bool" where
  "found_in tr q r \<longleftrightarrow> (\<exists>I peer n. (I, Inr (Kademlia (FoundRecord q peer r n))) \<in> set tr)"

definition asked_in :: "('d, 's) driver_input list \<Rightarrow> query_id \<Rightarrow> sender \<Rightarrow> bool" where
  "asked_in tr q s \<longleftrightarrow> (\<exists>I k. (I, Inl (GetNetworkRecord k s)) \<in> set tr \<and> new_query_id I = q)"

text \<open>An iteration order of a hash map lists its entries.\<close>

definition orders_maps :: "swarm_in \<Rightarrow> bool" where
  "orders_maps I \<longleftrightarrow> (\<forall>m. set (map_order I m) = set m \<and> (distinct (map fst m) \<longrightarrow> distinct (map fst (map_order I m))))"

definition tally_ok :: "('d, 's) wire_env \<Rightarrow> ('d, 's) driver_input list \<Rightarrow> peer_id \<Rightarrow> query_id \<Rightarrow> result_map \<Rightarrow> bool" where
  "tally_ok W tr self q m \<longleftrightarrow> bm_ok m \<and> (\<forall>(h, r, ps) \<in> set m. bs_ok ps \<and> set ps \<subseteq> reporters W tr self q h \<and> found_in tr q r)"

definition backed :: "('d, 's) wire_env \<Rightarrow> ('d, 's) driver_input list \<Rightarrow> peer_id \<Rightarrow> sender \<Rightarrow> kad_record \<Rightarrow> bool" where
  "backed W tr self s r \<longleftrightarrow>
     (\<exists>q. asked_in tr q s \<and> close_group_majority \<le> card (reporters W tr self q (xor_content W (rec_value r))))"

definition seen_once :: "('d, 's) driver_input list \<Rightarrow> sender \<Rightarrow> kad_record \<Rightarrow> bool" where
  "seen_once tr s r \<longleftrightarrow> (\<exists>q. asked_in tr q s \<and> found_in tr q r)"

definition votes_ok :: "('d, 's) wire_env \<Rightarrow> ('d, 's) driver_input list \<Rightarrow> ('d, 's) driver \<Rightarrow> bool" where
  "votes_ok W tr d \<longleftrightarrow> bm_ok (pending_get_record d) \<and>
     (\<forall>(q, s, m) \<in> set (pending_get_record d). asked_in tr q s \<and> tally_ok W tr (self_peer_id d) q m) \<and>
     (\<forall>s r. Reply s (RecordReply (Inr r)) \<in> set (filter hands_out (outbox d)) \<longrightarrow> backed W tr (self_peer_id d) s r) \<and>
     (list_all (\<lambda>i. orders_maps (fst i)) tr \<longrightarrow> (\<forall>s r.
       Reply s (RecordReply (Inl (RecordNotEnoughCopies r))) \<in> set (filter hands_out (outbox d)) \<longrightarrow> seen_once tr s r))"

lemma heard_mono: "found_in tr q r \<Longrightarrow> found_in (tr @ [i]) q r" "asked_in tr q s \<Longrightarrow> asked_in (tr @ [i]) q s"
  "seen_once tr s r \<Longrightarrow> seen_once (tr @ [i]) s r"
  unfolding seen_once_def found_in_def asked_in_def by auto

lemma map_filter_append: "List.map_filter f (xs @ ys) = List.map_filter f xs @ List.map_filter f ys"
  by (simp add: List.map_filter_def)

lemma reporters_mono: "reporters W tr p q h \<subseteq> reporters W (tr @ [i]) p q h"
  by (simp add: reporters_def map_filter_append)

lemma reporters_found:
  "reporters W (tr @ [(I, Inr (Kademlia (FoundRecord q peer r n)))]) self q (xor_content W (rec_value r)) =
     insert (case peer of Some p \<Rightarrow> p | None \<Rightarrow> self) (reporters W tr self q (xor_content W (rec_value r)))"
  by (auto simp: reporters_def report_of_def map_filter_append List.map_filter_def)

lemma finite_reporters [simp]: "finite (reporters W tr p q h)"
  by (simp add: reporters_def)

lemma bm_in_set: "bm_ok m \<Longrightarrow> (k, v) \<in> set m \<longleftrightarrow> bm_get m k = Some v"
  by (simp add: bm_ok_distinct)

lemma set_bm_remove: "set (bm_remove k m) \<subseteq> set m"
  by (auto simp: bm_remove_def)

lemma set_bm_insert: "set (bm_insert k v m) \<subseteq> insert (k, v) (set m)"
  by (induction k v m rule: bm_insert.induct) auto

lemma tally_ok_mono: "tally_ok W tr self q m \<Longrightarrow> tally_ok W (tr @ [i]) self q m"
  using reporters_mono [of W tr self q _ i] by (fastforce simp: tally_ok_def intro: heard_mono)

lemma backed_mono:
  assumes "backed W tr self s r"
  shows "backed W (tr @ [i]) self s r"
proof -
  have "card (reporters W tr self q h) \<le> card (reporters W (tr @ [i]) self q h)" for q h
    by (intro card_mono reporters_mono) simp
  with assms show ?thesis unfolding backed_def by (blast intro: heard_mono order_trans)
qed

lemma votes_ok_mono: "votes_ok W tr d \<Longrightarrow> votes_ok W (tr @ [i]) d"
  unfolding votes_ok_def by (fastforce intro: tally_ok_mono backed_mono heard_mono)

lemma votes_ok_quiet: "votes_ok W tr d \<Longrightarrow> quiet d d' \<Longrightarrow> votes_ok W tr d'"
  unfolding votes_ok_def quiet_def by simp

lemma votes_ok_pending:
  assumes "votes_ok W tr d" and "bm_ok pend"
    and "\<And>q s m. (q, s, m) \<in> set pend \<Longrightarrow> (q, s, m) \<in> set (pending_get_record d) \<or> asked_in tr q s \<and> tally_ok W tr (self_peer_id d) q m"
  shows "votes_ok W tr (d\<lparr>pending_get_record := pend\<rparr>)"
  using assms unfolding votes_ok_def by fastforce

lemma votes_ok_drop: "votes_ok W tr d \<Longrightarrow> votes_ok W tr (d\<lparr>pending_get_record := bm_remove q (pending_get_record d)\<rparr>)"
  by (rule votes_ok_pending) (auto simp: votes_ok_def bm_ok_remove dest!: set_bm_remove [THEN subsetD])

lemma votes_ok_insert:
  "votes_ok W tr d \<Longrightarrow> asked_in tr q s \<Longrightarrow> tally_ok W tr (self_peer_id d) q m \<Longrightarrow>
     votes_ok W tr (d\<lparr>pending_get_record := bm_insert q (s, m) (pending_get_record d)\<rparr>)"
  by (rule votes_ok_pending) (use set_bm_insert in \<open>fastforce simp: votes_ok_def bm_ok_insert\<close>)+

lemma votes_ok_reply:
  "votes_ok W tr d \<Longrightarrow> backed W tr (self_peer_id d) s r \<Longrightarrow> votes_ok W tr (oneshot_send I s (RecordReply (Inr r)) d)"
  "votes_ok W tr d \<Longrightarrow> (list_all (\<lambda>i. orders_maps (fst i)) tr \<Longrightarrow> seen_once tr s r) \<Longrightarrow>
     votes_ok W tr (oneshot_send I s (RecordReply (Inl (RecordNotEnoughCopies r))) d)"
  by (auto simp: votes_ok_def oneshot_send_def emit_def)

lemma vote_peers_sound:
  assumes "tally_ok W tr self q m" and "p \<in> reporters W tr self q h"
  shows "bs_ok (vote_peers m h p)" and "set (vote_peers m h p) \<subseteq> reporters W tr self q h"
  using assms map_of_SomeD [of m h]
  by (fastforce simp: tally_ok_def vote_peers_def bs.ok_insert bs.elems_insert bs.ok_empty split: option.splits)+

lemma tally_ok_vote:
  assumes "tally_ok W tr self q m" and "p \<in> reporters W tr self q h" and "found_in tr q r"
  shows "tally_ok W tr self q (bm_insert h (r, vote_peers m h p) (bm_remove h m))"
  using assms(1,3) vote_peers_sound [OF assms(1,2)] set_bm_insert [of h "(r, vote_peers m h p)" "bm_remove h m"] set_bm_remove [of h m]
  unfolding tally_ok_def by (fastforce simp: bm_ok_insert bm_ok_remove)

lemma quiet_split [quiet_intros]: "quiet d d' \<Longrightarrow> quiet d (try_update_self_for_split_record W I m d')"
  by (auto simp: try_update_self_for_split_record_def split: list.splits sum.splits intro!: quiet_intros)

lemma votes_ok_accumulate:
  assumes "votes_ok W tr d" and "reporter d peer \<in> reporters W tr (self_peer_id d) q (xor_content W (rec_value r))"
    and "found_in tr q r"
  shows "votes_ok W tr (accumulate_get_record_ok W I q peer r n d)"
proof (cases "bm_get (pending_get_record d) q")
  case None
  with assms(1) show ?thesis by (simp add: accumulate_get_record_ok_def)
next
  case (Some e)
  obtain s m where e: "e = (s, m)" by force
  let ?h = "xor_content W (rec_value r)"
  let ?d = "d\<lparr>pending_get_record := bm_remove q (pending_get_record d)\<rparr>"
  let ?ps = "vote_peers m ?h (reporter d peer)"
  let ?m = "bm_insert ?h (r, ?ps) (bm_remove ?h m)"
  have "(q, s, m) \<in> set (pending_get_record d)" using Some e by (auto dest: map_of_SomeD)
  with assms(1) have m: "tally_ok W tr (self_peer_id d) q m" and s: "asked_in tr q s" by (auto simp: votes_ok_def)
  note m' = tally_ok_vote [OF m assms(2,3)] and ps = vote_peers_sound [OF m assms(2)]
  have d: "votes_ok W tr ?d" by (rule votes_ok_drop [OF assms(1)])
  consider (full) "close_group_majority \<le> length ?ps" | (none) "length ?ps < close_group_majority" "CLOSE_GROUP_SIZE \<le> n"
    | (wait) "length ?ps < close_group_majority" "n < CLOSE_GROUP_SIZE" by linarith
  then show ?thesis
  proof cases
    case full
    have "close_group_majority \<le> card (set ?ps)" using full ps(1) by (simp add: bs_ok_def distinct_card)
    also have "\<dots> \<le> card (reporters W tr (self_peer_id d) q ?h)" using ps(2) by (intro card_mono) auto
    finally have "backed W tr (self_peer_id ?d) s r" using s by (auto simp: backed_def)
    with d have "votes_ok W tr (oneshot_send I s (RecordReply (Inr r)) ?d)" by (rule votes_ok_reply)
    then have "votes_ok W tr (try_update_self_for_split_record W I ?m (oneshot_send I s (RecordReply (Inr r)) ?d))"
      by (rule votes_ok_quiet) (intro quiet_intros)
    with full Some e show ?thesis by (simp add: accumulate_get_record_ok_def Let_def)
  next
    case none
    from d have "votes_ok W tr (try_update_self_for_split_record W I ?m (oneshot_send I s (RecordReply (Inl RecordNotFound)) ?d))"
      by (rule votes_ok_quiet) (auto intro!: quiet_intros)
    with none Some e show ?thesis by (simp add: accumulate_get_record_ok_def Let_def)
  next
    case wait
    have "votes_ok W tr (?d\<lparr>pending_get_record := bm_insert q (s, ?m) (pending_get_record ?d)\<rparr>)"
      using d m' s by (intro votes_ok_insert) auto
    with wait Some e show ?thesis by (simp add: accumulate_get_record_ok_def Let_def)
  qed
qed

lemma votes_ok_ended:
  assumes "votes_ok W tr d" and "quiet (d\<lparr>pending_get_record := bm_remove q (pending_get_record d)\<rparr>) d'"
  shows "votes_ok W tr d'"
  by (rule votes_ok_quiet [OF votes_ok_drop [OF assms(1)] assms(2)])

lemma votes_ok_finished:
  assumes "votes_ok W tr d" and "(I, x) \<in> set tr"
  shows "votes_ok W tr (fst (kad_finished I q d))"
proof (cases "bm_get (pending_get_record d) q")
  case None
  with assms show ?thesis by (simp add: kad_finished_def)
next
  case (Some e)
  obtain s m where e: "e = (s, m)" by force
  let ?d = "d\<lparr>pending_get_record := bm_remove q (pending_get_record d)\<rparr>"
  have d: "votes_ok W tr ?d" by (rule votes_ok_drop [OF assms(1)])
  have "(q, s, m) \<in> set (pending_get_record d)" using Some e by (auto dest: map_of_SomeD)
  with assms(1) have m: "tally_ok W tr (self_peer_id d) q m" and s: "asked_in tr q s" by (auto simp: votes_ok_def)
  show ?thesis
  proof (cases "bm_values (map_order I m)")
    case Nil
    with Some e d show ?thesis by (auto simp: kad_finished_def Let_def intro!: votes_ok_quiet [OF d] quiet_intros)
  next
    case (Cons v vs)
    obtain r ps where v: "v = (r, ps)" by force
    have "seen_once tr s r" if "list_all (\<lambda>i. orders_maps (fst i)) tr"
    proof -
      have "set (map_order I m) = set m" using that assms(2) by (auto simp: list_all_iff orders_maps_def)
      moreover have "(r, ps) \<in> snd ` set (map_order I m)" using Cons v by (metis bm_values_def list.set_intros(1) set_map)
      ultimately have "found_in tr q r" using m by (auto simp: tally_ok_def)
      with s show ?thesis by (auto simp: seen_once_def)
    qed
    with Some e Cons v votes_ok_reply(2) [OF d] show ?thesis by (simp add: kad_finished_def Let_def)
  qed
qed

lemma votes_ok_kad:
  assumes "votes_ok W tr d"
  shows "votes_ok W (tr @ [(I, Inr (Kademlia e))]) (fst (handle_kad_event W I e d))"
proof (cases e)
  case (FoundRecord q peer r n)
  have "reporter d peer \<in> reporters W (tr @ [(I, Inr (Kademlia e))]) (self_peer_id d) q (xor_content W (rec_value r))"
    unfolding FoundRecord reporters_found by (simp add: reporter_def)
  moreover have "found_in (tr @ [(I, Inr (Kademlia e))]) q r" by (auto simp: found_in_def FoundRecord)
  ultimately show ?thesis using votes_ok_accumulate [OF votes_ok_mono [OF assms]] FoundRecord by simp
next
  case (FinishedWithNoAdditionalRecord q)
  with votes_ok_finished [OF votes_ok_mono [OF assms, of "(I, Inr (Kademlia e))"], of I "Inr (Kademlia e)" q] show ?thesis by simp
next
  case (GetRecordErr q)
  then show ?thesis
    using votes_ok_mono [OF assms]
    by (auto simp: kad_get_record_err_def split: option.splits 
      intro!: quiet_intros votes_ok_ended [OF votes_ok_mono [OF assms], where q = q])
qed (rule votes_ok_quiet [OF votes_ok_mono [OF assms] quiet_kad]; simp)+

lemma votes_ok_get_network:
  assumes "votes_ok W tr d"
  shows "votes_ok W (tr @ [(I, Inl (GetNetworkRecord k s))]) (fst (handle_cmd W I (GetNetworkRecord k s) d))"
proof -
  let ?tr = "tr @ [(I, Inl (GetNetworkRecord k s))]"
  have "votes_ok W ?tr (emit (KadGetRecord k) d)" by (rule votes_ok_quiet [OF votes_ok_mono [OF assms]]) (auto intro!: quiet_intros)
  moreover have "asked_in ?tr (new_query_id I) s" by (auto simp: asked_in_def)
  ultimately show ?thesis using votes_ok_insert [of W ?tr "emit (KadGetRecord k) d" "new_query_id I" s "[]"]
    by (simp add: emit_def tally_ok_def)
qed

lemma votes_ok_step:
  assumes "votes_ok W tr d"
  shows "votes_ok W (tr @ [i]) (driver_step W i d)"
proof -
  obtain I x where i: "i = (I, x)" by force
  show ?thesis
  proof (cases x)
    case (Inl c)
    show ?thesis
    proof (cases "\<exists>k s. c = GetNetworkRecord k s")
      case True
      with votes_ok_get_network [OF assms] show ?thesis
        by (auto simp: driver_step_def i Inl simp del: handle_cmd.simps)
    next
      case False
      then have "quiet d (fst (handle_cmd W I c d))" by (intro quiet_cmd) auto
      with votes_ok_quiet [OF votes_ok_mono [OF assms]] show ?thesis by (simp add: driver_step_def i Inl)
    qed
  next
    case (Inr e)
    show ?thesis
    proof (cases "\<exists>k. e = Kademlia k")
      case True
      with votes_ok_kad [OF assms] show ?thesis by (auto simp: driver_step_def i Inr)
    next
      case False
      then have "quiet d (fst (handle_swarm_events W I e d))" by (intro quiet_swarm) auto
      with votes_ok_quiet [OF votes_ok_mono [OF assms]] show ?thesis by (simp add: driver_step_def i Inr)
    qed
  qed
qed

lemma votes_ok_run: "votes_ok W tr (driver_run W tr (driver_new self st f loc client cap))"
proof (induction tr rule: rev_induct)
  case Nil
  show ?case by (simp add: driver_run_def driver_new_def votes_ok_def)
next
  case (snoc i tr)
  then show ?case unfolding driver_run_snoc by (rule votes_ok_step)
qed

lemma self_peer_id_effects [simp]:
  "self_peer_id (emit a d) = self_peer_id d" "self_peer_id (oneshot_send I s r d) = self_peer_id d"
  by (simp_all add: emit_def oneshot_send_def)

lemma quiet_self: "quiet d d' \<Longrightarrow> self_peer_id d' = self_peer_id d"
  by (simp add: quiet_def)

lemma self_accumulate [simp]: "self_peer_id (accumulate_get_record_ok W I q peer r n d) = self_peer_id d"
proof -
  have "self_peer_id (try_update_self_for_split_record W I m d') = self_peer_id d'" for m and d' :: "('a, 'b) driver"
    by (rule quiet_self) (intro quiet_intros)
  then show ?thesis by (auto simp: accumulate_get_record_ok_def Let_def split: option.splits)
qed

lemma self_driver_step [simp]: "self_peer_id (driver_step W i d) = self_peer_id d"
proof -
  obtain I x where i: "i = (I, x)" by force
  have kad: "self_peer_id (fst (handle_kad_event W I e d)) = self_peer_id d" for e
    using quiet_self [OF quiet_kad [of e d W I]]
    by (cases e) (auto simp: kad_finished_def kad_get_record_err_def Let_def split: option.splits list.splits)
  have "self_peer_id (fst (handle_cmd W I c d)) = self_peer_id d" for c
    using quiet_self [OF quiet_cmd [of c d W I]] by (cases c) auto
  moreover have "self_peer_id (fst (handle_swarm_events W I e d)) = self_peer_id d" for e
    using quiet_self [OF quiet_swarm [of e d W I]] kad by (cases e) auto
  ultimately show ?thesis by (simp add: driver_step_def i split: sum.splits)
qed

lemma self_driver_run [simp]: "self_peer_id (driver_run W tr d) = self_peer_id d"
  by (induction tr rule: rev_induct) (simp_all add: driver_run_snoc, simp add: driver_run_def)

section \<open>Split records\<close>

definition top_votes :: "result_map \<Rightarrow> nat" where
  "top_votes m = Max (insert 0 ((\<lambda>e. length (snd (snd e))) ` set m))"

text \<open>The loop keeps exactly the entries that have the highest number of votes.\<close>

lemma highest_fold:
  assumes "distinct (map fst es)"
  shows "case fold highest_step es (0, []) of (n, hs) \<Rightarrow> n = top_votes es \<and> bm_ok hs \<and>
    set hs = {e \<in> set es. length (snd (snd e)) = top_votes es}"
  using assms
proof (induction es rule: rev_induct)
  case Nil
  show ?case by (simp add: top_votes_def)
next
  case (snoc e es)
  obtain n hs where nhs: "fold highest_step es (0, []) = (n, hs)" by force
  obtain x r ps where e: "e = (x, r, ps)" by (cases e)
  from snoc nhs have IH: "n = top_votes es" "bm_ok hs" "set hs = {e \<in> set es. length (snd (snd e)) = n}" by auto
  have fresh: "x \<notin> fst ` set es" using snoc.prems e by auto
  have top: "top_votes (es @ [e]) = max n (length ps)"
    unfolding IH(1) e top_votes_def by (simp add: insert_commute [of 0] max.commute)
  have le: "length (snd (snd e')) \<le> n" if "e' \<in> set es" for e'
    using that unfolding IH(1) top_votes_def by (intro Max_ge) auto
  have ins: "set (bm_insert x v hs') = insert (x, v) (set hs')" if "bm_ok hs'" "x \<notin> fst ` set hs'" for v and hs' :: result_map
    using that by (induction x v hs' rule: bm_insert.induct) auto
  have xhs: "x \<notin> fst ` set hs" using fresh IH(3) by auto
  have "n < length ps \<or> n = length ps \<or> length ps < n" by linarith
  have step: "fold highest_step (es @ [e]) (0, []) =
    (if n < length ps then (length ps, [(x, r, ps)])
     else if n = length ps then (n, bm_insert x (r, ps) hs) else (n, hs))"
    by (simp add: nhs e highest_step_def)
  from \<open>n < length ps \<or> n = length ps \<or> length ps < n\<close> show ?case
  proof (elim disjE)
    assume gt: "n < length ps"
    with le have "\<forall>e' \<in> set es. length (snd (snd e')) \<noteq> length ps" by fastforce
    with gt show ?thesis unfolding step top by (auto simp: e)
  next
    assume "n = length ps"
    with IH ins [OF IH(2) xhs] show ?thesis unfolding step top by (auto simp: e bm_ok_insert)
  next
    assume "length ps < n"
    with IH show ?thesis unfolding step top by (auto simp: e)
  qed
qed

text \<open>The entry with the most votes, and among those the one with the lowest name.\<close>

definition split_winner :: "result_map \<Rightarrow> xorname \<times> kad_record \<times> peer_id btree_set \<Rightarrow> bool" where
  "split_winner m e \<longleftrightarrow> e \<in> set m \<and> (\<forall>e' \<in> set m. length (snd (snd e')) \<le> length (snd (snd e)) \<and>
     (length (snd (snd e')) = length (snd (snd e)) \<longrightarrow> fst e \<le> fst e'))"

lemma top_votes_ge: "e \<in> set m \<Longrightarrow> length (snd (snd e)) \<le> top_votes m"
  unfolding top_votes_def by (intro Max_ge) auto

lemma top_votes_attained:
  assumes "m \<noteq> []"
  shows "\<exists>e \<in> set m. length (snd (snd e)) = top_votes m"
proof -
  have "top_votes m \<in> insert 0 ((\<lambda>e. length (snd (snd e))) ` set m)" unfolding top_votes_def by (rule Max_in) auto
  then consider "top_votes m = 0" | "\<exists>e \<in> set m. length (snd (snd e)) = top_votes m" by force
  then show ?thesis
  proof cases
    case 1
    with top_votes_ge [of "hd m" m] assms show ?thesis by (intro bexI [of _ "hd m"]) auto
  qed
qed

lemma highest_records_hd:
  assumes "orders_maps I" and "bm_ok m" and "m \<noteq> []"
  obtains e hs where "snd (fold highest_step (map_order I m) (0, [])) = e # hs" and "split_winner m e"
proof -
  obtain n hs where f: "fold highest_step (map_order I m) (0, []) = (n, hs)" by force
  have ord: "set (map_order I m) = set m" "distinct (map fst (map_order I m))"
    using assms(1,2) by (auto simp: orders_maps_def bm_ok_distinct)
  have top: "top_votes (map_order I m) = top_votes m" by (simp add: top_votes_def ord(1))
  from highest_fold [OF ord(2)] have hs: "bm_ok hs" "set hs = {e \<in> set m. length (snd (snd e)) = top_votes m}"
    by (auto simp: f top ord(1))
  with top_votes_attained [OF assms(3)] obtain e hs' where e: "hs = e # hs'" by (cases hs) auto
  have "fst e \<le> fst e'" if "e' \<in> set hs" for e' using that hs(1) e by (cases e) (force intro: less_imp_le)
  moreover have "e \<in> set m" "length (snd (snd e)) = top_votes m" using hs(2) e by auto
  ultimately have "split_winner m e"
    unfolding split_winner_def using hs(2) top_votes_ge [of _ m] by (auto simp del: split_paired_All)
  with e f that show thesis by simp
qed

section \<open>Properties\<close>

definition demo_in :: swarm_in where
  "demo_in = \<lparr>clock = 0, shuffled = (\<lambda>xs. xs), store_iter = [[9], [1]], map_order = (\<lambda>m. m), new_query_id = 1, new_request_id = 1,
     listen_result = Inr (), dial_result = (\<lambda>_. Inr ()), kad_put_result = Inr (), response_channel_open = True,
     receiver_alive = (\<lambda>_. True), swarm_connected = [], swarm_listeners = [],
     kbuckets = [[[1], [2], [3]], [[4], [5], [6], [7], [8], [9]]], closest_local = (\<lambda>_. []), kad_remove_peer = None,
     autonat_enabled = False, event_capacity = 1, price_factor = 1, k_value = 20\<rparr>"

definition demo_record :: "byte \<Rightarrow> kad_record" where
  "demo_record v = \<lparr>rec_key = [5], rec_value = [v], rec_publisher = None, rec_expires = None\<rparr>"

text \<open>C5: Over any run of commands and events, the driver answers a network fetch with \<open>Ok\<close> only when at
  least five distinct peers -- a majority of the close group -- have reported a record of the same
  content for the caller's query. The record that \<open>get_record_from_network\<close> returns is the target, when one is
  given, and is such a record; or, on the last attempt only (the thirtieth, or the single one without
  re-attempts), it is a record of which the driver reported too few copies: then at least one
  peer has reported exactly it for the caller's query. (The answers the handle awaits are the
  driver's replies on the channels of its attempts; a hash map is iterated over its own entries.)\<close>

theorem fetched_record_has_majority:
  fixes W :: "('d, 's) wire_env" and self st f loc client cap
  defines "replies tr \<equiv> set (outbox (driver_run W tr (driver_new self st f loc client cap)))"
  shows "(Reply s (RecordReply (Inr r)) \<in> replies tr \<longrightarrow>
      (\<exists>q. asked_in tr q s \<and> close_group_majority \<le> card (reporters W tr self q (xor_content W (rec_value r))))) \<and>
    (list_all (\<lambda>i. orders_maps (fst i)) tr \<and> (\<forall>i res. attempts i = Answer res \<longrightarrow> Reply (channel i) (RecordReply res) \<in> replies tr) \<and>
      get_record_from_network target re attempts = Inr r \<longrightarrow>
      (target = None \<or> target = Some r) \<and> (\<exists>i < (if re then 30 else 1). \<exists>q. asked_in tr q (channel i) \<and>
        (close_group_majority \<le> card (reporters W tr self q (xor_content W (rec_value r))) \<or>
         Suc i = (if re then 30 else 1) \<and> attempts i = Answer (Inl (RecordNotEnoughCopies r)) \<and> found_in tr q r)))"
proof -
  have ok: "votes_ok W tr (driver_run W tr (driver_new self st f loc client cap))" by (rule votes_ok_run)
  have full: "\<exists>q. asked_in tr q s \<and> close_group_majority \<le> card (reporters W tr self q (xor_content W (rec_value r)))"
    if "Reply s (RecordReply (Inr r)) \<in> replies tr" for s r
    using ok that by (auto simp: votes_ok_def backed_def replies_def driver_new_def)
  have few: "\<exists>q. asked_in tr q s \<and> found_in tr q r"
    if "list_all (\<lambda>i. orders_maps (fst i)) tr" "Reply s (RecordReply (Inl (RecordNotEnoughCopies r))) \<in> replies tr" for s r
    using ok that by (auto simp: votes_ok_def seen_once_def replies_def)
  show ?thesis
  proof (intro conjI impI)
    assume "Reply s (RecordReply (Inr r)) \<in> replies tr"
    then show "\<exists>q. asked_in tr q s \<and> close_group_majority \<le> card (reporters W tr self q (xor_content W (rec_value r)))" by (rule full)
  next
    assume run: "list_all (\<lambda>i. orders_maps (fst i)) tr \<and> (\<forall>i res. attempts i = Answer res \<longrightarrow> Reply (channel i) (RecordReply res) \<in> replies tr) \<and>
      get_record_from_network target re attempts = Inr r"
    let ?n = "if re then 30 else 1 :: nat"
    have "get_record_from_network target re attempts = get_record_loop target ?n attempts 0"
      unfolding get_record_from_network_def VERIFICATION_ATTEMPTS_def ..
    with run get_record_loop_sound [of target ?n attempts 0 r] obtain j where "target_matches target r" "j < ?n"
      and j: "attempts j = Answer (Inr r) \<or> Suc j = ?n \<and> attempts j = Answer (Inl (RecordNotEnoughCopies r))"
      by auto
    from this(1) show "target = None \<or> target = Some r" by (simp add: target_matches_def)
    from j run full [of "channel j" r] few [of "channel j" r] \<open>j < ?n\<close>
    show "\<exists>i < ?n. \<exists>q. asked_in tr q (channel i) \<and> (close_group_majority \<le> card (reporters W tr self q (xor_content W (rec_value r))) \<or>
         Suc i = ?n \<and> attempts i = Answer (Inl (RecordNotEnoughCopies r)) \<and> found_in tr q r)" by blast
  qed
qed

definition demo_fetch_trace :: "((bytes list \<times> bytes) btree_set, bytes) driver_input list" where
  "demo_fetch_trace = (demo_in, Inl (GetNetworkRecord [5] 77)) #
     map (\<lambda>p. (demo_in, Inr (Kademlia (FoundRecord 1 (Some [p]) (demo_record 7) 1)))) [1, 2, 3, 4, 5]"

theorem fetched_record_has_majority_witness:
  "get_record_from_network None False (\<lambda>_. Answer (Inr (demo_record 7))) = Inr (demo_record 7) \<and>
   (\<exists>q. asked_in demo_fetch_trace q 77 \<and> 5 \<le> card (reporters demo_wire demo_fetch_trace [0] q [7]))"
proof -
  have reply: "Reply 77 (RecordReply (Inr (demo_record 7))) \<in> set (outbox (driver_run demo_wire demo_fetch_trace
    (driver_new [0] demo_store fetcher_new False False 5)))"
    by (simp add: demo_fetch_trace_def driver_run_def driver_step_def driver_new_def emit_def demo_in_def
        accumulate_get_record_ok_def Let_def vote_peers_def reporter_def oneshot_send_def demo_wire_def demo_record_def
        bs_insert_def insort_insert_key_def bm_remove_def close_group_majority_def CLOSE_GROUP_SIZE_def
        try_update_self_for_split_record_def)
  have get: "get_record_from_network None False (\<lambda>_. Answer (Inr (demo_record 7))) = Inr (demo_record 7)"
    by (simp add: get_record_from_network_def await_with_def target_matches_def)
  have "list_all (\<lambda>i. orders_maps (fst i)) demo_fetch_trace" by (simp add: demo_fetch_trace_def orders_maps_def demo_in_def)
  with fetched_record_has_majority [where W = demo_wire and tr = demo_fetch_trace and self = "[0]" and st = demo_store and f = fetcher_new
      and loc = False and client = False and cap = 5 and target = None and re = False and r = "demo_record 7" and channel = "\<lambda>_. 77"
      and attempts = "\<lambda>_. Answer (Inr (demo_record 7))"] reply get
  have "\<exists>q. asked_in demo_fetch_trace q 77 \<and> close_group_majority \<le> card (reporters demo_wire demo_fetch_trace [0] q [7])"
    by (auto simp: demo_wire_def demo_record_def)
  with get show ?thesis by (simp add: close_group_majority_def CLOSE_GROUP_SIZE_def)
qed

text \<open>When the copies of a record differ, whatever the iteration order of the result map, the
  driver puts into its own store the copy with the most votes (the lowest name among equals) if
  this node did not vote for it, and else leaves its store alone; nothing else changes.\<close>

theorem split_record_resolution:
  assumes "orders_maps I" and "bm_ok m" and "length m \<ge> 2"
  shows "\<exists>x r ps. split_winner m (x, r, ps) \<and>
    try_update_self_for_split_record W I m d =
      (if self_peer_id d \<in> set ps then d
       else case put_verified W (store_iter I) (store d) r of Inr st \<Rightarrow> d\<lparr>store := st\<rparr> | Inl _ \<Rightarrow> d)"
proof -
  from assms(3) have ne: "m \<noteq> []" by auto
  obtain e hs where e: "snd (fold highest_step (map_order I m) (0, [])) = e # hs" "split_winner m e"
    by (rule highest_records_hd [OF assms(1,2) ne])
  obtain x r ps where xrp: "e = (x, r, ps)" by (cases e)
  have "length m \<noteq> 1" using assms(3) by simp
  with e xrp show ?thesis by (intro exI [of _ x] exI [of _ r] exI [of _ ps]) (simp add: try_update_self_for_split_record_def)
qed

theorem split_record_resolution_witness:
  "store (try_update_self_for_split_record demo_wire demo_in
      [([6], demo_record 6, [[1], [2]]), ([7], demo_record 7, [[3], [4]]), ([8], demo_record 8, [[0]])]
      (driver_new [0] (demo_store\<lparr>records := []\<rparr>) fetcher_new False False 5 ::
        ((bytes list \<times> bytes) btree_set, bytes) driver)) =
    demo_store\<lparr>records := [[5]], tasks := [WriteTask (key_to_hex [5]) [6]]\<rparr>"
proof -
  let ?m = "[([6], demo_record 6, [[1], [2]]), ([7], demo_record 7, [[3], [4]]), ([8], demo_record 8, [[0]])] :: result_map"
  let ?d = "driver_new [0] (demo_store\<lparr>records := []\<rparr>) fetcher_new False False 5 :: ((bytes list \<times> bytes) btree_set, bytes) driver"
  have "orders_maps demo_in" "bm_ok ?m" "length ?m \<ge> 2" by (simp_all add: orders_maps_def demo_in_def)
  from split_record_resolution [OF this, of demo_wire ?d] obtain x r ps where w: "split_winner ?m (x, r, ps)"
    and res: "try_update_self_for_split_record demo_wire demo_in ?m ?d = (if self_peer_id ?d \<in> set ps then ?d
       else case put_verified demo_wire (store_iter demo_in) (store ?d) r of Inr st \<Rightarrow> ?d\<lparr>store := st\<rparr> | Inl _ \<Rightarrow> ?d)" by blast
  from w have "x = [6] \<and> r = demo_record 6 \<and> ps = [[1], [2]]" by (auto simp: split_winner_def)
  with res show ?thesis
    by (simp add: driver_new_def put_verified_def prune_storage_if_needed_for_record_def demo_store_def with_config_def
        default_config_def bs_insert_def insort_insert_key_def demo_record_def)
qed

end
