(* ===== verification/Swarm_State.thy ===== *)
theory Swarm_State
  imports Swarm_Votes
begin

text \<open>
  The state the driver keeps about its neighbourhood: over any run, the store stays within its
  capacity, the close group is the eight peers closest to the node, and the distance within which
  records count for the price is the distance of the furthest of them.
\<close>

section \<open>What the operations leave alone\<close>

lemma emit_sel [simp]: "store (emit a d) = store d" "close_group (emit a d) = close_group d" "local (emit a d) = local d"
  by (simp_all add: emit_def)

lemma send_event_sel [simp]:
  "store (send_event I e d) = store d" "close_group (send_event I e d) = close_group d" "self_peer_id (send_event I e d) = self_peer_id d"
  by (simp_all add: send_event_def)

lemma oneshot_send_sel [simp]:
  "store (oneshot_send I s r d) = store d" "close_group (oneshot_send I s r d) = close_group d"
  by (simp_all add: oneshot_send_def)

lemma fold_sel: "(\<And>x d. f (g x d) = f d) \<Longrightarrow> f (fold g xs d) = f d"
  by (induction xs arbitrary: d) simp_all

lemma dial_sel [simp]:
  "store (fst (dial I a d)) = store d" "close_group (fst (dial I a d)) = close_group d"
  by (simp_all add: dial_def case_prod_beta)

text \<open>A step leaves the close group and the store alone, or puts one record, or checks the close group.\<close>

datatype effect = Untouched | Put kad_record | Checked

fun has_effect :: "('d, 's) wire_env \<Rightarrow> swarm_in \<Rightarrow> effect \<Rightarrow> ('d, 's) driver \<Rightarrow> ('d, 's) driver \<Rightarrow> bool" where
  "has_effect W I Untouched d d' \<longleftrightarrow> store d' = store d \<and> close_group d' = close_group d"
| "has_effect W I (Put r) d d' \<longleftrightarrow> put_verified W (store_iter I) (store d) r = Inr (store d') \<and> close_group d' = close_group d"
| "has_effect W I Checked d d' \<longleftrightarrow> (\<exists>d1. store d1 = store d \<and> close_group d1 = close_group d \<and> self_peer_id d1 = self_peer_id d \<and>
     d' = fst (check_for_change_in_our_close_group W I d1))"

lemma effect_cmd: "\<exists>f. has_effect W I f d (fst (handle_cmd W I c d))"
proof (cases c)
  case (Dial a s)
  have "has_effect W I Untouched d (fst (handle_cmd W I (Dial a s) d))" by (simp add: case_prod_beta)
  with Dial show ?thesis by blast
next
  case (PutLocalRecord r)
  then show ?thesis
    by (cases "put_verified W (store_iter I) (store d) r")
      (auto simp: cmd_put_local_record_def Let_def case_prod_beta intro: exI [of _ Untouched] exI [of _ "Put r"])
qed (auto simp: cmd_add_keys_def cmd_put_record_def cmd_send_request_def cmd_send_response_def Let_def
    split: prod.splits msg_responder.splits option.splits intro!: exI [of _ Untouched])

lemma effect_split: "\<exists>f. has_effect W I f d (try_update_self_for_split_record W I m d)"
proof (cases "length m = 1 \<or> snd (fold highest_step (map_order I m) (0, [])) = []")
  case True
  then have "try_update_self_for_split_record W I m d = d" by (auto simp: try_update_self_for_split_record_def)
  then show ?thesis by (auto intro: exI [of _ Untouched])
next
  case False
  then obtain x r ps hs where hs: "snd (fold highest_step (map_order I m) (0, [])) = (x, r, ps) # hs"
    by (cases "snd (fold highest_step (map_order I m) (0, []))") auto
  show ?thesis
  proof (cases "self_peer_id d \<in> set ps \<or> \<not> is_ok (put_verified W (store_iter I) (store d) r)")
    case True
    with False hs have "has_effect W I Untouched d (try_update_self_for_split_record W I m d)"
      by (auto simp: try_update_self_for_split_record_def is_ok_def split: sum.splits)
    then show ?thesis by blast
  next
    case put: False
    with False hs have "has_effect W I (Put r) d (try_update_self_for_split_record W I m d)"
      by (auto simp: try_update_self_for_split_record_def is_ok_iff)
    then show ?thesis by blast
  qed
qed

lemma has_effect_from:
  assumes "\<exists>f. has_effect W I f d1 d'" and "store d1 = store d" and "close_group d1 = close_group d"
    and "self_peer_id d1 = self_peer_id d"
  shows "\<exists>f. has_effect W I f d d'"
proof -
  from assms(1) obtain f where "has_effect W I f d1 d'" ..
  with assms(2-4) have "has_effect W I f d d'" by (cases f) auto
  then show ?thesis ..
qed

lemma effect_accumulate: "\<exists>f. has_effect W I f d (accumulate_get_record_ok W I q peer r n d)"
proof (cases "bm_get (pending_get_record d) q")
  case None
  then show ?thesis by (auto simp: accumulate_get_record_ok_def intro: exI [of _ Untouched])
next
  case (Some e)
  obtain s m where e: "e = (s, m)" by force
  have same: "\<exists>f. has_effect W I f d (try_update_self_for_split_record W I m' (oneshot_send I s x (d\<lparr>pending_get_record := p\<rparr>)))" for m' x p
    by (rule has_effect_from [OF effect_split]) simp_all
  have "\<exists>f. has_effect W I f d (d\<lparr>pending_get_record := p\<rparr>)" for p by (auto intro: exI [of _ Untouched])
  with same Some e show ?thesis by (auto simp: accumulate_get_record_ok_def Let_def)
qed

lemma effect_routing: "has_effect W I Checked d (kad_routing_updated W I peer is_new old d)"
proof -
  let ?d1 = "if is_new then (let d = send_event I (PeerAdded peer) d
       in if \<not> bootstrap_done d then (emit KadBootstrap d)\<lparr>bootstrap_done := True\<rparr> else d) else d"
  show ?thesis
    unfolding kad_routing_updated_def Let_def has_effect.simps
    by (intro exI [of _ "if old \<noteq> None then send_event I (PeerRemoved peer) ?d1 else ?d1"]) (auto simp: Let_def)
qed

lemma effect_kad: "\<exists>f. has_effect W I f d (fst (handle_kad_event W I e d))"
proof (cases e)
  case (FoundRecord q peer r n)
  with effect_accumulate show ?thesis by simp
next
  case (RoutingUpdated peer is_new old)
  have "has_effect W I Checked d (fst (handle_kad_event W I e d))" using effect_routing RoutingUpdated by simp
  then show ?thesis by blast
qed (auto simp: kad_get_closest_ok_def kad_finished_def kad_get_record_err_def Let_def
    split: option.splits list.splits intro!: exI [of _ Untouched])

lemma effect_swarm: "\<exists>f. has_effect W I f d (fst (handle_swarm_events W I e d))"
proof (cases e)
  case (MsgReceived m)
  then show ?thesis by (cases m) (auto simp: Let_def split: option.splits intro!: exI [of _ Untouched])
next
  case (Kademlia k)
  with effect_kad show ?thesis by simp
next
  case (IdentifyReceived p info)
  have "store (fold (\<lambda>a. emit (g a)) as d') = store d'" "close_group (fold (\<lambda>a. emit (g a)) as d') = close_group d'"
    for g :: "multiaddr \<Rightarrow> ('a, 'b) action" and as d' by (rule fold_sel; simp)+
  with IdentifyReceived show ?thesis by (auto simp: identify_received_def Let_def intro!: exI [of _ Untouched])
next
  case (MdnsDiscovered ps)
  have "store (fold (\<lambda>(p, a) d. fst (dial I (a @ [P2p p]) d)) ps d) = store d"
    "close_group (fold (\<lambda>(p, a) d. fst (dial I (a @ [P2p p]) d)) ps d) = close_group d"
    by (rule fold_sel; simp add: case_prod_beta)+
  with MdnsDiscovered show ?thesis by (auto simp: mdns_discovered_def intro!: exI [of _ Untouched])
next
  case (OutgoingConnectionError p)
  show ?thesis
  proof (cases "kad_remove_peer I")
    case None
    with OutgoingConnectionError show ?thesis by (auto simp: outgoing_connection_error_def intro!: exI [of _ Untouched])
  next
    case (Some dead)
    with OutgoingConnectionError show ?thesis
      by (auto simp: outgoing_connection_error_def intro!: exI [of _ Checked] exI [of _ "send_event I (PeerRemoved dead) d"])
  qed
qed (auto simp: new_listen_addr_def connection_established_def Let_def split: option.splits intro!: exI [of _ Untouched])

lemma effect_step: "\<exists>f. has_effect W (fst i) f d (driver_step W i d)"
  by (cases "snd i") (auto simp: driver_step_def effect_cmd effect_swarm)

section \<open>Reachable states\<close>

text \<open>
  What holds of the outside at a step: the store's key set is iterated over completely, and the
  routing table holds every peer once and never the node itself.
\<close>

definition input_ok :: "swarm_in \<Rightarrow> ('d, 's) driver \<Rightarrow> bool" where
  "input_ok I d \<longleftrightarrow> iterates (store_iter I) (store d) \<and> distinct (get_all_local_peers I d)"

inductive driver_reach :: "('d, 's) wire_env \<Rightarrow> ('d, 's) driver \<Rightarrow> bool" for W where
  reach_start: "store_ok st \<Longrightarrow> driver_reach W (driver_new self st f loc client cap)"
| reach_step: "driver_reach W d \<Longrightarrow> input_ok (fst i) d \<Longrightarrow> driver_reach W (driver_step W i d)"

definition own_distance :: "('d, 's) wire_env \<Rightarrow> ('d, 's) driver \<Rightarrow> peer_id \<Rightarrow> distance" where
  "own_distance W d p = peer_distance W (from_peer (self_peer_id d)) p"

definition group_ok :: "('d, 's) wire_env \<Rightarrow> ('d, 's) driver \<Rightarrow> bool" where
  "group_ok W d \<longleftrightarrow> (close_group d \<noteq> [] \<longrightarrow> length (close_group d) = CLOSE_GROUP_SIZE \<and> distinct (close_group d) \<and>
     sorted (map (own_distance W d) (close_group d)) \<and>
     distance_range (store d) = Some (own_distance W d (last (close_group d))))"

lemma put_verified_keeps:
  assumes "put_verified W iter s r = Inr s'" and "store_ok s" and "iterates iter s" and "distance_law W"
  shows "store_ok s'" and "distance_range s' = distance_range s"
proof -
  have "store_ok s' \<and> distance_range s' = distance_range s"
    using assms(3,2,4)
  proof (cases rule: put_verified_cases [where r = r])
    case stored
    with assms(1) have s': "s' = s\<lparr>records := bs_insert (rec_key r) (records s),
        tasks := tasks s @ [WriteTask (key_to_hex (rec_key r)) (rec_value r)]\<rparr>" by simp
    have "length (bs_insert (rec_key r) (records s)) \<le> max_records (config s)"
      using length_bs_insert_le [of "rec_key r" "records s"] stored(2) by linarith
    with assms(2) show ?thesis by (simp add: s' store_ok_def bs.ok_insert)
  next
    case (evicted far)
    with assms(1) have s': "s' = s\<lparr>records := bs_insert (rec_key r) (remove1 far (records s)),
        tasks := tasks s @ [RemoveTask (key_to_hex far), WriteTask (key_to_hex (rec_key r)) (rec_value r)]\<rparr>" by simp
    have "length (remove1 far (records s)) = max_records (config s) - 1" using evicted(2,3) by (simp add: length_remove1)
    then have "length (bs_insert (rec_key r) (remove1 far (records s))) \<le> max_records (config s)"
      using length_bs_insert_le [of "rec_key r" "remove1 far (records s)"] assms(2) by (simp add: store_ok_def)
    with assms(2) show ?thesis by (simp add: s' store_ok_def bs.ok_insert bs_ok_remove1)
  next
    case refused
    with assms(1) show ?thesis by simp
  qed
  then show "store_ok s'" "distance_range s' = distance_range s" by auto
qed

text \<open>The close group check, given enough distinct peers.\<close>

definition nearest :: "('d, 's) wire_env \<Rightarrow> swarm_in \<Rightarrow> ('d, 's) driver \<Rightarrow> peer_id list" where
  "nearest W I d = take CLOSE_GROUP_SIZE (sort_key (own_distance W d) (get_all_local_peers I d))"

lemma nearest_props:
  assumes "distinct (get_all_local_peers I d)"
  shows "distinct (nearest W I d)" and "sorted (map (own_distance W d) (nearest W I d))"
    and "length (nearest W I d) = min CLOSE_GROUP_SIZE (length (get_all_local_peers I d))"
  using assms by (simp_all add: nearest_def take_map [symmetric] sorted_wrt_take min.commute)

lemma sort_nearest:
  "sort_peers_by_address W (get_all_local_peers I d) (from_peer (self_peer_id d)) CLOSE_GROUP_SIZE =
     (if length (get_all_local_peers I d) < CLOSE_GROUP_SIZE
      then Inl (NotEnoughPeers (length (get_all_local_peers I d)) CLOSE_GROUP_SIZE) else Inr (nearest W I d))"
  by (auto simp: sort_peers_by_address_eq Let_def nearest_def own_distance_def [abs_def])

lemma own_distance_commute:
  "distance_law W \<Longrightarrow> addr_distance W (from_peer p) (from_peer (self_peer_id d)) = own_distance W d p"
  by (simp add: own_distance_def peer_distance_def addr_distance_def distance_law_def)

lemma check_close_group:
  assumes "distance_law W" and "distinct (get_all_local_peers I d)" and "group_ok W d"
  defines "d' \<equiv> fst (check_for_change_in_our_close_group W I d)"
  shows "group_ok W d'" and "store_ok (store d) \<Longrightarrow> store_ok (store d')"
    and "length (get_all_local_peers I d) \<ge> CLOSE_GROUP_SIZE \<Longrightarrow> set (close_group d') = set (nearest W I d)"
proof -
  let ?all = "get_all_local_peers I d" and ?N = "nearest W I d"
  have C: "CLOSE_GROUP_SIZE > 0" by (simp add: CLOSE_GROUP_SIZE_def)
  have "group_ok W d' \<and> (store_ok (store d) \<longrightarrow> store_ok (store d')) \<and>
    (length ?all \<ge> CLOSE_GROUP_SIZE \<longrightarrow> set (close_group d') = set ?N)"
  proof (cases "length ?all < CLOSE_GROUP_SIZE")
    case True
    then have "d' = d" unfolding d'_def check_for_change_in_our_close_group_def sort_nearest by simp
    with True assms(3) show ?thesis by simp
  next
    case enough: False
    then have len: "length ?N = CLOSE_GROUP_SIZE" using nearest_props(3) [OF assms(2), of W] by simp
    show ?thesis
    proof (cases "set ?N \<subseteq> set (close_group d)")
      case True
      with enough have "d' = d"
        unfolding d'_def check_for_change_in_our_close_group_def sort_nearest by (auto simp: Let_def filter_empty_conv)
      moreover have "close_group d \<noteq> []" using True len C by auto
      with assms(3) have "card (set (close_group d)) = card (set ?N)"
        using len nearest_props(1) [OF assms(2), of W] by (simp add: group_ok_def distinct_card)
      with True have "set ?N = set (close_group d)" by (intro card_subset_eq) auto
      ultimately show ?thesis using assms(3) by simp
    next
      case False
      have ne: "?N \<noteq> []" using len C by auto
      from False have "filter (\<lambda>p. p \<notin> set (close_group d)) ?N \<noteq> []" by (auto simp: filter_empty_conv)
      with enough ne have d': "d' = d\<lparr>close_group := ?N, store := set_distance_range (store d)
          (addr_distance W (from_peer (last ?N)) (from_peer (self_peer_id d)))\<rparr>"
        unfolding d'_def check_for_change_in_our_close_group_def sort_nearest by (simp add: update_record_distance_range_def)
      then have "own_distance W d' = own_distance W d" by (simp add: own_distance_def [abs_def])
      with d' len nearest_props(1,2) [OF assms(2), of W] own_distance_commute [OF assms(1)] show ?thesis
        by (simp add: group_ok_def store_ok_def set_distance_range_def)
    qed
  qed
  then show "group_ok W d'" "store_ok (store d) \<Longrightarrow> store_ok (store d')"
    "length ?all \<ge> CLOSE_GROUP_SIZE \<Longrightarrow> set (close_group d') = set ?N" by auto
qed

lemma group_ok_cong:
  "close_group d' = close_group d \<Longrightarrow> distance_range (store d') = distance_range (store d) \<Longrightarrow> self_peer_id d' = self_peer_id d \<Longrightarrow>
     group_ok W d' = group_ok W d"
  by (simp add: group_ok_def own_distance_def [abs_def])

lemma nearest_cong: "self_peer_id d' = self_peer_id d \<Longrightarrow> nearest W I d' = nearest W I d"
  by (simp add: nearest_def own_distance_def [abs_def] get_all_local_peers_def)

lemma reach_invariant:
  assumes "driver_reach W d" and "distance_law W"
  shows "store_ok (store d) \<and> group_ok W d"
  using assms(1)
proof (induction rule: driver_reach.induct)
  case (reach_start st self f loc client cap)
  then show ?case by (simp add: driver_new_def group_ok_def)
next
  case (reach_step d i)
  let ?d = "driver_step W i d"
  from effect_step obtain e where "has_effect W (fst i) e d ?d" by blast
  then show ?case
  proof (cases e)
    case Untouched
    with \<open>has_effect W (fst i) e d ?d\<close> reach_step.IH show ?thesis by (simp add: group_ok_cong [of ?d d])
  next
    case (Put r)
    with \<open>has_effect W (fst i) e d ?d\<close> have put: "put_verified W (store_iter (fst i)) (store d) r = Inr (store ?d)"
      and "close_group ?d = close_group d" by auto
    with put_verified_keeps [OF put] reach_step assms(2) show ?thesis by (simp add: input_ok_def group_ok_cong [of ?d d])
  next
    case Checked
    with \<open>has_effect W (fst i) e d ?d\<close> obtain d1 where d1: "store d1 = store d" "close_group d1 = close_group d"
      "self_peer_id d1 = self_peer_id d" and d': "?d = fst (check_for_change_in_our_close_group W (fst i) d1)" by auto
    have "distinct (get_all_local_peers (fst i) d1)" using reach_step(2) d1(3) by (simp add: input_ok_def get_all_local_peers_def)
    moreover have "group_ok W d1" using reach_step.IH d1 by (simp add: group_ok_cong [of d1 d])
    ultimately show ?thesis unfolding d' using check_close_group(1,2) [OF assms(2)] reach_step.IH d1(1) by simp
  qed
qed

text \<open>The two events after which the close group is checked: the routing table has changed, or a peer that could
  not be dialled has been removed from it.\<close>

fun changes_table :: "swarm_in \<Rightarrow> ('d, 's) swarm_event \<Rightarrow> bool" where
  "changes_table I (Kademlia (RoutingUpdated peer is_new_peer old_peer)) \<longleftrightarrow> True"
| "changes_table I (OutgoingConnectionError peer) \<longleftrightarrow> kad_remove_peer I \<noteq> None"
| "changes_table I _ \<longleftrightarrow> False"

lemma effect_table:
  assumes "changes_table I e"
  shows "has_effect W I Checked d (fst (handle_swarm_events W I e d))"
  using assms
proof (cases "(I, e)" rule: changes_table.cases)
  case (1 I peer is_new_peer old_peer)
  with effect_routing show ?thesis by simp
next
  case (2 I peer)
  with assms obtain dead where "kad_remove_peer I = Some dead" by auto
  with 2 show ?thesis by (auto simp: outgoing_connection_error_def intro!: exI [of _ "send_event I (PeerRemoved dead) d"])
qed auto

lemma check_keeps_records:
  "records (store (fst (check_for_change_in_our_close_group W I d))) = records (store d)"
  "local_key (store (fst (check_for_change_in_our_close_group W I d))) = local_key (store d)"
  by (auto simp: check_for_change_in_our_close_group_def update_record_distance_range_def set_distance_range_def Let_def split: sum.splits)

lemma routing_nearest:
  assumes "driver_reach W d" and "distance_law W" and "input_ok I d" and "length (get_all_local_peers I d) \<ge> CLOSE_GROUP_SIZE"
    and "changes_table I e"
  defines "d' \<equiv> driver_step W (I, Inr e) d"
  shows "group_ok W d'" and "set (close_group d') = set (nearest W I d)" and "close_group d' \<noteq> []"
    and "records (store d') = records (store d)" and "local_key (store d') = local_key (store d)"
proof -
  from effect_table [OF assms(5), of W d] obtain d1 where sel: "store d1 = store d"
    "close_group d1 = close_group d" "self_peer_id d1 = self_peer_id d"
    and d': "d' = fst (check_for_change_in_our_close_group W I d1)" by (auto simp: d'_def driver_step_def)
  show "records (store d') = records (store d)" "local_key (store d') = local_key (store d)"
    by (simp_all add: d' check_keeps_records sel)
  have all: "get_all_local_peers I d1 = get_all_local_peers I d" using sel(3) by (simp add: get_all_local_peers_def)
  have dist: "distinct (get_all_local_peers I d)" using assms(3) by (simp add: input_ok_def)
  have "group_ok W d1" using reach_invariant [OF assms(1,2)] sel by (simp add: group_ok_cong [of d1 d])
  then show "group_ok W d'" and eq: "set (close_group d') = set (nearest W I d)"
    using check_close_group(1,3) [OF assms(2), of I d1] dist assms(4) unfolding d' all nearest_cong [OF sel(3)] by auto
  show "close_group d' \<noteq> []"
    using eq nearest_props(3) [OF dist, of W] assms(4) by (auto simp: CLOSE_GROUP_SIZE_def)
qed

section \<open>Properties\<close>

text \<open>In every state the driver can reach, whatever commands, messages and events it has taken,
  the record store holds distinct keys and no more than its configured maximum, and a non-empty
  close group consists of eight distinct peers in the order of their distance, with the record
  distance range equal to the distance of the last.\<close>

theorem driver_state_invariant:
  assumes "driver_reach W d" and "distance_law W"
  shows "distinct (records (store d)) \<and> length (records (store d)) \<le> max_records (config (store d)) \<and>
    (close_group d \<noteq> [] \<longrightarrow> length (close_group d) = CLOSE_GROUP_SIZE \<and> distinct (close_group d) \<and>
       sorted (map (own_distance W d) (close_group d)) \<and>
       distance_range (store d) = Some (own_distance W d (last (close_group d))))"
  using reach_invariant [OF assms] by (simp add: store_ok_def bs_ok_def group_ok_def)

definition demo_driver :: "((bytes list \<times> bytes) btree_set, bytes) driver" where
  "demo_driver = driver_new [0] demo_store fetcher_new False False 5"

lemma demo_driver_reach: "driver_reach demo_wire demo_driver"
  unfolding demo_driver_def by (rule reach_start) (rule demo_store_ok(1))

lemma demo_driver_input: "input_ok demo_in demo_driver"
  using demo_store_ok(2) by (simp add: input_ok_def demo_in_def demo_driver_def driver_new_def get_all_local_peers_def)

lemma demo_driver_peers: "length (get_all_local_peers demo_in demo_driver) \<ge> CLOSE_GROUP_SIZE"
  by (simp add: get_all_local_peers_def demo_in_def CLOSE_GROUP_SIZE_def)

theorem driver_state_invariant_witness:
  "length (close_group (driver_step demo_wire (demo_in, Inr (Kademlia (RoutingUpdated [3] True None))) demo_driver)) = CLOSE_GROUP_SIZE"
proof -
  let ?d = "driver_step demo_wire (demo_in, Inr (Kademlia (RoutingUpdated [3] True None))) demo_driver"
  have "driver_reach demo_wire ?d" using demo_driver_reach demo_driver_input by (intro reach_step) simp_all
  moreover have "close_group ?d \<noteq> []"
    by (rule routing_nearest(3) [OF demo_driver_reach demo_wire_laws(3) demo_driver_input demo_driver_peers]) simp
  ultimately show ?thesis using driver_state_invariant [OF _ demo_wire_laws(3), of ?d] by simp
qed

text \<open>C35: After each change of the routing table the driver reports on (a peer added, updated or evicted, or removed
  because it cannot be dialled), when at least eight peers are known, the node itself
  included, the close group is the set of the eight that are closest to the node: no other known
  peer is closer than one of them; and the records that count for the price are exactly those
  that are no further away than the furthest of the eight. (Distances are symmetric; the routing
  table, as it is after the change, lists each peer once and not the node itself.)\<close>

theorem close_group_is_nearest:
  assumes "driver_reach W d" and "distance_law W" and "input_ok I d" and "length (get_all_local_peers I d) \<ge> CLOSE_GROUP_SIZE"
    and "changes_table I e" and "d' = driver_step W (I, Inr e) d"
  shows "set (close_group d') \<subseteq> set (get_all_local_peers I d) \<and> card (set (close_group d')) = CLOSE_GROUP_SIZE \<and>
    (\<forall>p \<in> set (close_group d'). \<forall>q \<in> set (get_all_local_peers I d) - set (close_group d').
       own_distance W d p \<le> own_distance W d q) \<and>
    distance_range (store d') = Some (Max (own_distance W d ` set (close_group d'))) \<and>
    relevant_records_len W (store d') =
      card {k \<in> set (records (store d)). \<exists>p \<in> set (close_group d'). key_distance W (store d) k \<le> own_distance W d p}"
proof -
  have dist: "distinct (get_all_local_peers I d)" using assms(3) by (simp add: input_ok_def)
  have g: "group_ok W d'" "set (close_group d') = set (nearest W I d)" and ne: "close_group d' \<noteq> []"
    and recs: "records (store d') = records (store d)" "local_key (store d') = local_key (store d)"
    unfolding assms(6) by (rule routing_nearest [OF assms(1-5)])+
  have self: "self_peer_id d' = self_peer_id d" by (simp add: assms(6))
  then have own: "own_distance W d' = own_distance W d" by (simp add: own_distance_def [abs_def])
  have N: "length (nearest W I d) = CLOSE_GROUP_SIZE" "distinct (nearest W I d)"
    using nearest_props [OF dist, of W] assms(4) by simp_all
  let ?L = "sort_key (own_distance W d) (get_all_local_peers I d)"
  have split: "set (get_all_local_peers I d) = set (nearest W I d) \<union> set (drop CLOSE_GROUP_SIZE ?L)"
    unfolding nearest_def by (metis append_take_drop_id set_append set_sort)
  have far: "own_distance W d p \<le> own_distance W d q" if "p \<in> set (nearest W I d)" "q \<in> set (drop CLOSE_GROUP_SIZE ?L)" for p q
    using that unfolding nearest_def by (intro sorted_take_drop [of "own_distance W d" ?L p CLOSE_GROUP_SIZE q]) simp_all
  have range: "distance_range (store d') = Some (own_distance W d (last (close_group d')))" "sorted (map (own_distance W d) (close_group d'))"
    using g(1) ne by (simp_all add: group_ok_def own)
  have furthest: "own_distance W d (last (close_group d')) = Max (own_distance W d ` set (close_group d'))"
  proof (rule Max_eqI [symmetric])
    show "own_distance W d (last (close_group d')) \<in> own_distance W d ` set (close_group d')" using ne by simp
    show "y \<le> own_distance W d (last (close_group d'))" if "y \<in> own_distance W d ` set (close_group d')" for y
      using that ne range(2) by (auto simp: in_set_conv_nth last_conv_nth sorted_iff_nth_mono)
  qed simp
  have "distinct (records (store d))" using reach_invariant [OF assms(1,2)] by (simp add: store_ok_def bs_ok_def)
  then have "relevant_records_len W (store d') =
      card {k \<in> set (records (store d)). key_distance W (store d) k \<le> Max (own_distance W d ` set (close_group d'))}"
    using range(1) furthest recs by (simp add: relevant_records_len_def key_distance_def distinct_length_filter Int_def conj_commute)
  also have "{k \<in> set (records (store d)). key_distance W (store d) k \<le> Max (own_distance W d ` set (close_group d'))} =
      {k \<in> set (records (store d)). \<exists>p \<in> set (close_group d'). key_distance W (store d) k \<le> own_distance W d p}"
    using ne by (auto simp: Max_ge_iff)
  finally have "relevant_records_len W (store d') =
      card {k \<in> set (records (store d)). \<exists>p \<in> set (close_group d'). key_distance W (store d) k \<le> own_distance W d p}" .
  moreover have "card (set (nearest W I d)) = CLOSE_GROUP_SIZE" using N by (simp add: distinct_card)
  ultimately show ?thesis using split far range(1) furthest unfolding g(2) by auto
qed

theorem close_group_is_nearest_witness:
  "distance_range (store (driver_step demo_wire (demo_in, Inr (Kademlia (RoutingUpdated [3] True None))) demo_driver)) \<noteq> None \<and>
   relevant_records_len demo_wire (store (driver_step demo_wire (demo_in, Inr (Kademlia (RoutingUpdated [3] True None))) demo_driver)) \<le> 2"
proof -
  have "changes_table demo_in (Kademlia (RoutingUpdated [3] True None))" by simp
  note nearest = close_group_is_nearest [OF demo_driver_reach demo_wire_laws(3) demo_driver_input demo_driver_peers this refl]
  have "card {k \<in> set (records (store demo_driver)). P k} \<le> 2" for P
    by (rule order_trans [OF card_mono [of "set (records (store demo_driver))"]])
      (auto simp: demo_driver_def driver_new_def demo_store_def with_config_def)
  with nearest show ?thesis by auto
qed

text \<open>
  When a peer is evicted in favour of another, the removal that is reported to the upper layer
  names the peer that was updated, not the evicted one.
\<close>

lemma eviction_reports_updated_peer:
  assumes "event_capacity I > 0"
  shows "Event (PeerRemoved peer) \<in> set (outbox (kad_routing_updated W I peer is_new_peer (Some evicted) d))"
  using assms by (auto simp: kad_routing_updated_def check_for_change_in_our_close_group_def update_record_distance_range_def
      send_event_def emit_def Let_def split: sum.splits)

end
