(* ===== verification/Node.thy ===== *)
theory Node
  imports Swarm_Driver
begin

text \<open>
  The node of sn_node: what it does with a network event (\<open>api.rs\<close>), the validation of records
  before they are stored (\<open>put_validation.rs\<close>, \<open>spends.rs\<close>), the reads it serves
  (\<open>get_validation.rs\<close>) and replication (\<open>replication.rs\<close>). The functions of sn_dbc on spends
  and transactions are fields of \<open>node_env\<close>, with the hard-coded genesis DBC that crate builds;
  what the swarm driver answers to the node's commands during one handler is the record
  \<open>node_in\<close>. A handler returns the commands it sent and the events it broadcast, and its
  result. The debug texts interpolated into error messages are left out.
\<close>

section \<open>Data\<close>

record ('d, 's, 't, 'p) node_env =
  wire :: "('d, 's) wire_env"
  merkle :: "('t, 'p) merkle_env"
  spent_tx :: "'s \<Rightarrow> dbc_tx"
  spent_tx_hash :: "'s \<Rightarrow> hash"
  dbc_creation_tx :: "'s \<Rightarrow> dbc_tx"
  dbc_creation_tx_hash :: "'s \<Rightarrow> hash"
  spend_verify :: "'s \<Rightarrow> hash \<Rightarrow> bool"
  verify_against_inputs_spent :: "dbc_tx \<Rightarrow> 's btree_set \<Rightarrow> bool"
  fee_is_free :: "fee_output \<Rightarrow> bool"
  hash_bytes :: "bytes \<Rightarrow> hash"
  genesis_dbc_id :: dbc_id
  genesis_src_tx :: dbc_tx

text \<open>
  \<open>fetch\<close> gives the answers to the attempts of the n-th network fetch of the handler,
  \<open>cmd_room\<close> whether the command channel has room for its n-th command, and \<open>join_order\<close> the
  order in which spawned tasks complete.
\<close>

record node_in =
  self_id :: peer_id
  key_present :: "record_key \<Rightarrow> bool answer"
  local_record :: "record_key \<Rightarrow> kad_record option answer"
  local_storecost :: "token answer"
  fetch :: "nat \<Rightarrow> record_key \<Rightarrow> nat \<Rightarrow> (net_error + kad_record) answer"
  join_order :: "(nat \<times> dbc_id) list \<Rightarrow> (nat \<times> dbc_id) list"
  cmd_room :: "nat \<Rightarrow> bool"
  all_local_peers :: "peer_id list answer"
  all_local_records :: "network_address list answer"
  node_k_value :: nat
  initial_peers :: "multiaddr list"
  local_discovery :: bool

datatype node_event =
    ConnectedToNetwork
  | ChunkStored chunk_address
  | RegisterCreated register_address
  | RegisterEdited register_address
  | SpendStored dbc_id
  | ChannelClosed
  | BehindNat

datatype ('d, 's) node_action =
    Send "('d, 's) swarm_cmd"
  | Broadcast node_event
  | SpawnFetch record_key

type_synonym ('d, 's, 'a) node_result = "('d, 's) node_action list \<times> ('s protocol_error failure + 'a)"

text \<open>\<open>map_err\<close> on a result whose computation may have panicked instead.\<close>

definition map_failure :: "'f \<Rightarrow> 'e failure + 'a \<Rightarrow> 'f failure + 'a" where
  "map_failure e m = map_err (\<lambda>f. case f of Err _ \<Rightarrow> Err e | Panic \<Rightarrow> Panic) m"

section \<open>Reading\<close>

definition current_storecost :: "node_in \<Rightarrow> 's protocol_error + token" where
  "current_storecost I = map_err (\<lambda>_. GetStoreCostFailed) (await_with InternalMsgChannelDropped (local_storecost I))"

definition spends_from_record :: "('d, 's, 't, 'p) node_env \<Rightarrow> dbc_address \<Rightarrow> kad_record \<Rightarrow> 's protocol_error failure + 's" where
  "spends_from_record N address r =
     bind_result (map_failure (SpendNotFound address) (header_from_record (wire N) r)) (\<lambda>kind.
       if kind = DbcSpendKind
       then bind_result (map_failure (SpendNotFound address)
              (try_deserialize_record (rmp_spends_dec (wire N)) r :: 's protocol_error failure + 's list)) (\<lambda>spends.
            case spends of
              one # two # _ \<Rightarrow> Inl (Err (DoubleSpendAttempt one two))
            | [one] \<Rightarrow> Inr one
            | [] \<Rightarrow> Inl (Err (SpendNotFound address)))
       else Inl (Err (RecordKindMismatch DbcSpendKind)))"

definition node_get_spend :: "('d, 's, 't, 'p) node_env \<Rightarrow> node_in \<Rightarrow> nat \<Rightarrow> dbc_address \<Rightarrow> bool
    \<Rightarrow> 's protocol_error failure + 's" where
  "node_get_spend N I call address re_attempt =
     bind_result (map_err (\<lambda>_. Err (SpendNotFound address))
        (get_record_from_network None re_attempt (fetch I call (to_record_key (wire N) (from_dbc_address address)))))
       (spends_from_record N address)"

definition get_replicated_data :: "('d, 's, 't, 'p) node_env \<Rightarrow> node_in \<Rightarrow> network_address
    \<Rightarrow> 's protocol_error failure + ('d, 's) replicated_data" where
  "get_replicated_data N I address =
     (let error = ReplicatedDataNotFound (from_peer (self_id I)) address
      in bind_result (ok_or (Err error) (as_record_key address)) (\<lambda>key.
         bind_result (map_err (\<lambda>_. Err error) (get_record_from_network None False (fetch I 0 key))) (\<lambda>r.
         bind_result (map_failure error (header_from_record (wire N) r)) (\<lambda>kind. case kind of
             ChunkKind \<Rightarrow> bind_result (map_failure error
               (try_deserialize_record (dec_chunk (wire N)) r :: 's protocol_error failure + chunk_with_payment)) (\<lambda>c. Inr (RepChunk c))
           | DbcSpendKind \<Rightarrow> bind_result (map_failure error
               (try_deserialize_record (rmp_spends_dec (wire N)) r :: 's protocol_error failure + 's list)) (\<lambda>ss. Inr (RepDbcSpend ss))
           | RegisterKind \<Rightarrow> bind_result (map_failure error
               (try_deserialize_record (rmp_register_dec (wire N)) r :: 's protocol_error failure + 'd signed_register)) (\<lambda>sr. Inr (RepRegister sr))))))"

section \<open>Spends\<close>

definition is_genesis :: "('d, 's, 't, 'p) node_env \<Rightarrow> 's \<Rightarrow> bool" where
  "is_genesis N sp \<longleftrightarrow> dbc_creation_tx N sp = genesis_src_tx N \<and> spend_dbc_id (wire N) sp = genesis_dbc_id N"

definition spend_valid_for :: "('d, 's, 't, 'p) node_env \<Rightarrow> dbc_id \<Rightarrow> 's \<Rightarrow> bool" where
  "spend_valid_for N i sp \<longleftrightarrow> spend_dbc_id (wire N) sp = i \<and> spend_verify N sp (spent_tx_hash N sp)"

definition aggregate_spends :: "('d, 's::linorder, 't, 'p) node_env \<Rightarrow> 's list \<Rightarrow> dbc_id \<Rightarrow> 's list" where
  "aggregate_spends N spends valid_dbc_id = take 2 (sort (filter (spend_valid_for N valid_dbc_id) (remdups spends)))"

definition validate_parent_spends :: "('d, 's, 't, 'p) node_env \<Rightarrow> 's \<Rightarrow> 's btree_set \<Rightarrow> 's protocol_error + unit" where
  "validate_parent_spends N sp parent_spends =
     bind_result (try_all (\<lambda>parent. if dbc_creation_tx_hash N sp \<noteq> spent_tx_hash N parent
         then Inl (SpendParentTxInvalid ''One of the parents was spent in another transaction.'') else Inr ()) parent_spends) (\<lambda>_.
       if \<not> verify_against_inputs_spent N (dbc_creation_tx N sp) parent_spends
       then Inl (SpendParentTxInvalid ''verification failed for parent tx'') else Inr ())"

definition check_parent_spends :: "('d, 's, 't, 'p) node_env \<Rightarrow> 's btree_set \<Rightarrow> 's \<Rightarrow> 's protocol_error + unit" where
  "check_parent_spends N parent_spends sp =
     (if is_genesis N sp then Inr ()
      else if \<not> list_ex (\<lambda>o'. out_dbc_id o' = spend_dbc_id (wire N) sp) (outputs (dbc_creation_tx N sp))
      then Inl (SpendParentTxInvalid ''The DBC we're trying to spend is not an output of the parent tx'')
      else validate_parent_spends N sp parent_spends)"

section \<open>Fees and payment proofs\<close>

definition verify_fee_output_id :: "('d, 's, 't, 'p) node_env \<Rightarrow> dbc_tx \<Rightarrow> bool \<Rightarrow> 's protocol_error + unit" where
  "verify_fee_output_id N t required =
     (if fee_is_free N (fee t)
      then (if required then Inl (PaymentProofInvalidFeeOutput (fee_id (fee t))) else Inr ())
      else let fee_id_bytes = fee_root_hash (fee t) @ concat (map in_dbc_id (inputs t))
           in if fee_id (fee t) \<noteq> hash_bytes N fee_id_bytes
              then Inl (PaymentProofInvalidFeeOutput (fee_id (fee t))) else Inr ())"

definition verify_fee_output_and_proof :: "('d, 's, 't, 'p) node_env \<Rightarrow> xorname \<Rightarrow> token \<Rightarrow> dbc_tx
    \<Rightarrow> merkle_tree_nodes_type list \<Rightarrow> u64 list \<Rightarrow> 's protocol_error + unit" where
  "verify_fee_output_and_proof N addr_name acceptable_fee t trail path =
     bind_result (verify_fee_output_id N t True) (\<lambda>_.
     bind_result (map_err (InvalidPaymentProof addr_name)
         (validate_payment_proof (merkle N) addr_name (fee_root_hash (fee t)) trail path)) (\<lambda>leaf.
       let paid = fee_token (fee t);
           expected = acceptable_fee * (leaf + 1)
       in if paid < expected then Inl (PaymentProofInsufficientAmount paid expected) else Inr ()))"

text \<open>A task that panics is seen by \<open>join_next\<close> as a failed join.\<close>

fun collect_payment_tx :: "('d, 's, 't, 'p) node_env \<Rightarrow> node_in \<Rightarrow> xorname \<Rightarrow> dbc_tx option \<Rightarrow> (nat \<times> dbc_id) list
    \<Rightarrow> 's protocol_error failure + dbc_tx option" where
  "collect_payment_tx N I addr_name payment_tx [] = Inr payment_tx"
| "collect_payment_tx N I addr_name payment_tx ((call, i) # rest) =
     (case node_get_spend N I call (dbc_address_from_dbc_id (wire N) i) True of
        Inl Panic \<Rightarrow> Inl (Err (ChunkNotStored addr_name))
      | Inl (Err e) \<Rightarrow> Inl (Err e)
      | Inr sp \<Rightarrow> (case payment_tx of
            Some t \<Rightarrow> if spent_tx N sp \<noteq> t then Inl (Err (PaymentProofTxMismatch addr_name))
                       else collect_payment_tx N I addr_name payment_tx rest
          | None \<Rightarrow> collect_payment_tx N I addr_name (Some (spent_tx N sp)) rest))"

definition insufficient :: "'s protocol_error \<Rightarrow> bool" where
  "insufficient e = (case e of PaymentProofInsufficientAmount _ _ \<Rightarrow> True | _ \<Rightarrow> False)"

definition chunk_payment_validation :: "('d, 's, 't, 'p) node_env \<Rightarrow> node_in \<Rightarrow> chunk_with_payment \<Rightarrow> bool
    \<Rightarrow> 's protocol_error failure + unit" where
  "chunk_payment_validation N I c validate_payment_amount =
     (let addr_name = chunk_name (cwp_chunk c);
          payment = cwp_payment c
      in bind_result (collect_payment_tx N I addr_name None (join_order I (List.enumerate 0 (spent_ids payment)))) (\<lambda>payment_tx.
         case payment_tx of
           None \<Rightarrow> Inl (Err (PaymentProofWithoutInputs addr_name))
         | Some t \<Rightarrow>
             bind_result (map_err (\<lambda>_. Err (ChunkNotStored addr_name))
                 (await_with InternalMsgChannelDropped (local_storecost I))) (\<lambda>acceptable_fee.
               case verify_fee_output_and_proof N addr_name acceptable_fee t (audit_trail payment) (proof_path payment) of
                 Inr _ \<Rightarrow> Inr ()
               | Inl e \<Rightarrow> if insufficient e \<and> \<not> validate_payment_amount then Inr () else Inl (Err e))))"

section \<open>Validation of registers and spends\<close>

definition register_validation :: "('d, 's, 't, 'p) node_env \<Rightarrow> node_in \<Rightarrow> 'd signed_register \<Rightarrow> bool
    \<Rightarrow> 's protocol_error failure + 'd signed_register option" where
  "register_validation N I reg present_locally =
     (let reg_addr = sr_address reg; E = w_reg (wire N) in
      if \<not> is_ok (signed_register_verify E reg) then Inl (Err (RegisterInvalid reg_addr))
      else if \<not> present_locally then Inr (Some reg)
      else bind_result (map_err (\<lambda>_. Err (RegisterNotStored reg_addr))
             (await_with InternalMsgChannelDropped (local_record I (to_record_key (wire N) (from_register_address reg_addr))))) (\<lambda>maybe_record.
           bind_result (ok_or (Err (RegisterNotStored reg_addr)) maybe_record) (\<lambda>r.
           bind_result (try_deserialize_record (rmp_register_dec (wire N)) r) (\<lambda>local_register.
           bind_result (map_err (\<lambda>e. Err (RegisterError e)) (verified_merge E local_register reg)) (\<lambda>merged_register.
             if merged_register = local_register then Inr None else Inr (Some merged_register))))))"

text \<open>The spends already stored for the key, when it is present.\<close>

definition local_spends :: "('d, 's, 't, 'p) node_env \<Rightarrow> node_in \<Rightarrow> dbc_address \<Rightarrow> 's protocol_error failure + 's list" where
  "local_spends N I dbc_addr =
     bind_result (map_err (\<lambda>_. Err (SpendNotStored ''Error while fetching local record''))
        (await_with InternalMsgChannelDropped (local_record I (to_record_key (wire N) (from_dbc_address dbc_addr))))) (\<lambda>maybe_record.
     bind_result (ok_or (Err (SpendNotFound dbc_addr)) maybe_record) (\<lambda>r.
     bind_result (header_from_record (wire N) r) (\<lambda>kind.
       if kind \<noteq> DbcSpendKind then Inl (Err (RecordKindMismatch DbcSpendKind))
       else try_deserialize_record (rmp_spends_dec (wire N)) r)))"

fun fetch_parents :: "('d, 's::linorder, 't, 'p) node_env \<Rightarrow> node_in \<Rightarrow> nat \<Rightarrow> tx_input list \<Rightarrow> 's btree_set
    \<Rightarrow> 's protocol_error failure + 's btree_set" where
  "fetch_parents N I call [] parents = Inr parents"
| "fetch_parents N I call (inp # rest) parents =
     bind_result (node_get_spend N I call (dbc_address_from_dbc_id (wire N) (in_dbc_id inp)) True)
       (\<lambda>sp. fetch_parents N I (Suc call) rest (bs_insert sp parents))"

definition validate_single_spend :: "('d, 's::linorder, 't, 'p) node_env \<Rightarrow> node_in \<Rightarrow> dbc_id \<Rightarrow> 's
    \<Rightarrow> 's protocol_error failure + 's list" where
  "validate_single_spend N I i sp =
     (let parent_inputs = inputs (dbc_creation_tx N sp)
      in if \<not> spend_verify N sp (spent_tx_hash N sp) then Inl (Err (SpendSignatureInvalid ''while verifying spend''))
         else bind_result (map_err Err (verify_fee_output_id N (spent_tx N sp) False)) (\<lambda>_.
              bind_result (if is_genesis N sp then Inr [] else fetch_parents N I 0 parent_inputs []) (\<lambda>parents.
              bind_result (map_err Err (check_parent_spends N parents sp)) (\<lambda>_.
                case node_get_spend N I (length parent_inputs) (dbc_address_from_dbc_id (wire N) i) False of
                  Inl Panic \<Rightarrow> Inl Panic
                | Inl (Err _) \<Rightarrow> Inr (aggregate_spends N [sp] i)
                | Inr other \<Rightarrow> Inr (aggregate_spends N [other, sp] i)))))"

definition signed_spend_validation :: "('d, 's::linorder, 't, 'p) node_env \<Rightarrow> node_in \<Rightarrow> 's list \<Rightarrow> dbc_id \<Rightarrow> bool
    \<Rightarrow> 's protocol_error failure + 's list option" where
  "signed_spend_validation N I signed_spends i present_locally =
     bind_result
       (if present_locally
        then bind_result (local_spends N I (dbc_address_from_dbc_id (wire N) i)) (\<lambda>local_signed_spends.
               let newly_seen_spends = bs_collect (filter (\<lambda>s. s \<notin> set local_signed_spends) signed_spends)
               in if newly_seen_spends = [] then Inr None else Inr (Some (local_signed_spends @ newly_seen_spends)))
        else Inr (Some signed_spends)) (\<lambda>seen.
     case seen of
       None \<Rightarrow> Inr None
     | Some [] \<Rightarrow> Inl (Err (SpendNotStored ''No valid Spend found locally''))
     | Some [sp] \<Rightarrow> bind_result (validate_single_spend N I i sp) (\<lambda>spends. Inr (Some spends))
     | Some spends \<Rightarrow> Inr (Some (aggregate_spends N spends i)))"

section \<open>Storing\<close>

definition local_kad_record :: "record_key \<Rightarrow> bytes \<Rightarrow> kad_record" where
  "local_kad_record k v = \<lparr>rec_key = k, rec_value = v, rec_publisher = None, rec_expires = None\<rparr>"

text \<open>\<open>put_local_record\<close> fails only when the command channel is full.\<close>

definition store_locally :: "node_in \<Rightarrow> kad_record \<Rightarrow> 's protocol_error \<Rightarrow> ('d, 's, 'a) node_result \<Rightarrow> ('d, 's, 'a) node_result" where
  "store_locally I r err rest =
     (if cmd_room I 0 then (Send (PutLocalRecord r) # fst rest, snd rest) else ([], Inl (Err err)))"

definition or_fail :: "'s protocol_error failure + 'a \<Rightarrow> ('a \<Rightarrow> ('d, 's, 'b) node_result) \<Rightarrow> ('d, 's, 'b) node_result" where
  "or_fail m f = (case m of Inl e \<Rightarrow> ([], Inl e) | Inr x \<Rightarrow> f x)"

definition is_key_present_locally :: "node_in \<Rightarrow> record_key \<Rightarrow> 's protocol_error \<Rightarrow> 's protocol_error failure + bool" where
  "is_key_present_locally I key err = map_err (\<lambda>_. Err err) (await_with InternalMsgChannelDropped (key_present I key))"

definition validate_and_store_chunk :: "('d, 's, 't, 'p) node_env \<Rightarrow> node_in \<Rightarrow> chunk_with_payment \<Rightarrow> bool
    \<Rightarrow> ('d, 's, cmd_ok) node_result" where
  "validate_and_store_chunk N I c validate_payment_amount =
     (let addr = chunk_address (cwp_chunk c);
          err = ChunkNotStored (chunk_name (cwp_chunk c));
          key = to_record_key (wire N) (from_chunk_address addr)
      in or_fail (is_key_present_locally I key err) (\<lambda>present_locally.
         if present_locally then ([], Inr DataAlreadyPresent)
         else or_fail (chunk_payment_validation N I c validate_payment_amount) (\<lambda>_.
              or_fail (map_err Err (try_serialize_record (wire N) (enc_chunk (wire N) c) ChunkKind)) (\<lambda>v.
                store_locally I (local_kad_record key v) err ([Broadcast (ChunkStored addr)], Inr StoredSuccessfully)))))"

definition validate_and_store_register :: "('d, 's, 't, 'p) node_env \<Rightarrow> node_in \<Rightarrow> 'd signed_register
    \<Rightarrow> ('d, 's, cmd_ok) node_result" where
  "validate_and_store_register N I reg =
     (let err = RegisterNotStored (sr_address reg);
          key = to_record_key (wire N) (from_register_address (sr_address reg))
      in or_fail (is_key_present_locally I key err) (\<lambda>present_locally.
         or_fail (register_validation N I reg present_locally) (\<lambda>updated.
           case updated of
             None \<Rightarrow> ([], Inr DataAlreadyPresent)
           | Some updated_register \<Rightarrow>
               or_fail (map_err Err (try_serialize_record (wire N) (rmp_register_enc (wire N) updated_register) RegisterKind)) (\<lambda>v.
                 store_locally I (local_kad_record key v) err ([], Inr StoredSuccessfully)))))"

text \<open>Two or more validated spends are stored and then reported as a double spend.\<close>

fun double_spend_result :: "'s list \<Rightarrow> 's protocol_error failure + cmd_ok" where
  "double_spend_result (one # two # _) = Inl (Err (DoubleSpendAttempt one two))"
| "double_spend_result _ = Inr StoredSuccessfully"

definition validate_and_store_spends :: "('d, 's::linorder, 't, 'p) node_env \<Rightarrow> node_in \<Rightarrow> 's list
    \<Rightarrow> ('d, 's, cmd_ok) node_result" where
  "validate_and_store_spends N I signed_spends =
     (case signed_spends of
        [] \<Rightarrow> ([], Inl (Err (SpendNotStored ''Spend was not provided'')))
      | first # elements \<Rightarrow>
          let i = spend_dbc_id (wire N) first
          in if \<not> list_all (\<lambda>s. spend_dbc_id (wire N) s = i) elements
             then ([], Inl (Err (SpendNotStored ''found SignedSpends with differing dbc_ids'')))
             else let key = to_record_key (wire N) (from_dbc_address (dbc_address_from_dbc_id (wire N) i))
                  in or_fail (is_key_present_locally I key
                         (SpendNotStored ''Error while checking if Spend's key was present locally'')) (\<lambda>present_locally.
                     or_fail (signed_spend_validation N I signed_spends i present_locally) (\<lambda>validated.
                       case validated of
                         None \<Rightarrow> ([], Inr DataAlreadyPresent)
                       | Some spends \<Rightarrow>
                           or_fail (map_err Err (try_serialize_record (wire N) (rmp_spends_enc (wire N) spends) DbcSpendKind)) (\<lambda>v.
                             store_locally I (local_kad_record key v) (SpendNotStored ''Cannot PUT Spend'')
                               ([], double_spend_result spends)))))"

definition validate_and_store_record :: "('d, 's::linorder, 't, 'p) node_env \<Rightarrow> node_in \<Rightarrow> kad_record \<Rightarrow> bool
    \<Rightarrow> ('d, 's, cmd_ok) node_result" where
  "validate_and_store_record N I r validate_payment =
     or_fail (header_from_record (wire N) r) (\<lambda>kind. case kind of
         ChunkKind \<Rightarrow> or_fail (try_deserialize_record (dec_chunk (wire N)) r) (\<lambda>c.
           if rec_key r \<noteq> to_record_key (wire N) (from_chunk_address (chunk_address (cwp_chunk c)))
           then ([], Inl (Err RecordKeyMismatch))
           else validate_and_store_chunk N I c validate_payment)
       | DbcSpendKind \<Rightarrow> or_fail (try_deserialize_record (rmp_spends_dec (wire N)) r) (\<lambda>spends.
           if \<not> list_all (\<lambda>s. rec_key r = to_record_key (wire N)
                (from_dbc_address (dbc_address_from_dbc_id (wire N) (spend_dbc_id (wire N) s)))) spends
           then ([], Inl (Err RecordKeyMismatch))
           else validate_and_store_spends N I spends)
       | RegisterKind \<Rightarrow> or_fail (try_deserialize_record (rmp_register_dec (wire N)) r) (\<lambda>reg.
           if rec_key r \<noteq> to_record_key (wire N) (from_register_address (sr_address reg))
           then ([], Inl (Err RecordKeyMismatch))
           else validate_and_store_register N I reg))"

section \<open>Replication\<close>

definition MAX_REPLICATION_KEYS_PER_REQUEST :: nat where
  "MAX_REPLICATION_KEYS_PER_REQUEST = 500"

text \<open>The peer a record is sent to, given the peers closest to it; \<open>None\<close> is \<open>continue\<close>.\<close>

definition replication_target :: "peer_id \<Rightarrow> bool \<Rightarrow> peer_id list \<Rightarrow> peer_id option" where
  "replication_target peer is_removal sorted_based_on_key =
     (if peer \<notin> set sorted_based_on_key then None
      else let farthest_peer = last sorted_based_on_key
           in if is_removal then (if farthest_peer \<noteq> peer then Some farthest_peer else None)
              else (if farthest_peer \<noteq> peer then Some peer else None))"

fun replication_list :: "('d, 's) wire_env \<Rightarrow> peer_id list \<Rightarrow> peer_id \<Rightarrow> bool \<Rightarrow> network_address list
    \<Rightarrow> (peer_id, network_address list) btree_map \<Rightarrow> net_error + (peer_id, network_address list) btree_map" where
  "replication_list W all_peers peer is_removal [] replicate_to = Inr replicate_to"
| "replication_list W all_peers peer is_removal (key # keys) replicate_to =
     bind_result (sort_peers_by_address W all_peers key (CLOSE_GROUP_SIZE + 1)) (\<lambda>sorted_based_on_key.
       case replication_target peer is_removal sorted_based_on_key of
         None \<Rightarrow> replication_list W all_peers peer is_removal keys replicate_to
       | Some target_peer \<Rightarrow>
           let keys_to_replicate = (case bm_get replicate_to target_peer of Some ks \<Rightarrow> ks | None \<Rightarrow> [])
           in replication_list W all_peers peer is_removal keys
                (bm_insert target_peer (keys_to_replicate @ [key]) replicate_to))"

function split_keys :: "'a list \<Rightarrow> 'a list list" where
  "split_keys remaining_keys =
     (if length remaining_keys > MAX_REPLICATION_KEYS_PER_REQUEST
      then take MAX_REPLICATION_KEYS_PER_REQUEST remaining_keys # split_keys (drop MAX_REPLICATION_KEYS_PER_REQUEST remaining_keys)
      else [remaining_keys])"
  by pat_completeness auto
termination by (relation "measure length") (auto simp: MAX_REPLICATION_KEYS_PER_REQUEST_def)

declare split_keys.simps [simp del]

text \<open>The commands are sent until the channel is full.\<close>

fun send_replicate_cmds :: "node_in \<Rightarrow> network_address \<Rightarrow> (peer_id \<times> network_address list) list \<Rightarrow> ('d, 's) node_action list
    \<Rightarrow> ('d, 's) node_action list \<times> (net_error + unit)" where
  "send_replicate_cmds I our_address [] acts = (acts, Inr ())"
| "send_replicate_cmds I our_address ((peer, keys) # rest) acts =
     (if cmd_room I (length acts)
      then send_replicate_cmds I our_address rest (acts @ [Send (SendRequest (CmdReq (Replicate our_address keys)) peer None)])
      else (acts, Inl NoSwarmCmdChannelCapacity))"

definition try_trigger_replication :: "('d, 's, 't, 'p) node_env \<Rightarrow> node_in \<Rightarrow> peer_id \<Rightarrow> bool
    \<Rightarrow> ('d, 's) node_action list \<times> (net_error + unit)" where
  "try_trigger_replication N I peer is_removal =
     (case await_with InternalMsgChannelDropped (all_local_peers I) of
        Inl e \<Rightarrow> ([], Inl e)
      | Inr all_peers \<Rightarrow>
          if length all_peers < node_k_value I then ([], Inr ())
          else case await_with InternalMsgChannelDropped (all_local_records I) of
                 Inl e \<Rightarrow> ([], Inl e)
               | Inr all_records \<Rightarrow>
                   case replication_list (wire N) (if is_removal then all_peers @ [peer] else all_peers) peer is_removal all_records [] of
                     Inl e \<Rightarrow> ([], Inl e)
                   | Inr replicate_to \<Rightarrow>
                       send_replicate_cmds I (from_peer (self_id I))
                         (concat (map (\<lambda>(p, keys). map (Pair p) (split_keys keys)) replicate_to)) [])"

definition add_keys_to_replication_fetcher :: "('d, 's, 't, 'p) node_env \<Rightarrow> node_in \<Rightarrow> network_address \<Rightarrow> network_address list
    \<Rightarrow> ('d, 's) node_action list \<times> (net_error + unit)" where
  "add_keys_to_replication_fetcher N I peer keys =
     (case as_peer_id (wire N) peer of
        None \<Rightarrow> ([], Inr ())
      | Some p \<Rightarrow> if cmd_room I 0 then ([Send (AddKeysToReplicationFetcher p keys)], Inr ())
                  else ([], Inl NoSwarmCmdChannelCapacity))"

fun fetch_replication_keys_without_wait :: "node_in \<Rightarrow> fetch_list \<Rightarrow> ('d, 's) node_action list
    \<Rightarrow> ('d, 's) node_action list \<times> (net_error + unit)" where
  "fetch_replication_keys_without_wait I [] acts = (acts, Inr ())"
| "fetch_replication_keys_without_wait I ((key, Some peer) # rest) acts =
     (if cmd_room I (length acts)
      then fetch_replication_keys_without_wait I rest
        (acts @ [Send (SendRequest (QueryReq (GetReplicatedData (from_peer (self_id I)) (from_record_key key))) peer None)])
      else (acts, Inl NoSwarmCmdChannelCapacity))"
| "fetch_replication_keys_without_wait I ((key, None) # rest) acts =
     fetch_replication_keys_without_wait I rest (acts @ [SpawnFetch key])"

text \<open>The task spawned for a key that has to come from the network.\<close>

definition replication_fetch_task :: "('d, 's::linorder, 't, 'p) node_env \<Rightarrow> node_in \<Rightarrow> record_key \<Rightarrow> ('d, 's) node_action list" where
  "replication_fetch_task N I key =
     (case get_record_from_network None False (fetch I 0 key) of
        Inl _ \<Rightarrow> []
      | Inr r \<Rightarrow> fst (validate_and_store_record N I r False))"

section \<open>Network events\<close>

definition handle_node_cmd :: "('d, 's, 't, 'p) node_env \<Rightarrow> node_in \<Rightarrow> cmd \<Rightarrow> ('d, 's) node_action list \<times> ('d, 's) response" where
  "handle_node_cmd N I c = (case c of Replicate holder keys \<Rightarrow>
     (fst (add_keys_to_replication_fetcher N I holder keys), CmdResp (ReplicateResp (Inr ()))))"

text \<open>A panic leaves the request without a response.\<close>

definition handle_query :: "('d, 's, 't, 'p) node_env \<Rightarrow> node_in \<Rightarrow> query \<Rightarrow> ('d, 's) response option" where
  "handle_query N I q = (case q of
      GetStoreCost _ \<Rightarrow> Some (QueryResp (StoreCostResp (current_storecost I)))
    | GetReplicatedData _ address \<Rightarrow>
        (case get_replicated_data N I address of
           Inr d \<Rightarrow> Some (QueryResp (ReplicatedDataResp (Inr (from_peer (self_id I), d))))
         | Inl (Err e) \<Rightarrow> Some (QueryResp (ReplicatedDataResp (Inl e)))
         | Inl Panic \<Rightarrow> None))"

definition node_send_response :: "node_in \<Rightarrow> ('d, 's) node_action list \<Rightarrow> ('d, 's) response \<Rightarrow> msg_responder
    \<Rightarrow> ('d, 's) node_action list" where
  "node_send_response I acts resp channel =
     (if cmd_room I (length acts) then acts @ [Send (SendResponse resp channel)] else acts)"

definition handle_request :: "('d, 's, 't, 'p) node_env \<Rightarrow> node_in \<Rightarrow> request \<Rightarrow> msg_responder \<Rightarrow> ('d, 's) node_action list" where
  "handle_request N I req channel = (case req of
      CmdReq c \<Rightarrow> (case handle_node_cmd N I c of (acts, resp) \<Rightarrow> node_send_response I acts resp channel)
    | QueryReq q \<Rightarrow> (case handle_query N I q of Some resp \<Rightarrow> node_send_response I [] resp channel | None \<Rightarrow> []))"

definition handle_response :: "('d, 's::linorder, 't, 'p) node_env \<Rightarrow> node_in \<Rightarrow> ('d, 's) response
    \<Rightarrow> ('d, 's, unit) node_result" where
  "handle_response N I resp =
     (let finished = (\<lambda>(acts, res). (acts, bind_result res (\<lambda>_. Inr ())))
      in case resp of
           QueryResp (ReplicatedDataResp (Inr (_, RepChunk c))) \<Rightarrow> finished (validate_and_store_chunk N I c False)
         | QueryResp (ReplicatedDataResp (Inr (_, RepDbcSpend ss))) \<Rightarrow>
             (if ss = [] then ([], Inr ()) else finished (validate_and_store_spends N I ss))
         | QueryResp (ReplicatedDataResp (Inr (_, RepRegister reg))) \<Rightarrow> finished (validate_and_store_register N I reg)
         | _ \<Rightarrow> ([], Inr ()))"

definition handle_network_event :: "('d, 's::linorder, 't, 'p) node_env \<Rightarrow> node_in \<Rightarrow> ('d, 's) network_event
    \<Rightarrow> ('d, 's) node_action list" where
  "handle_network_event N I e = (case e of
      RequestReceived req channel \<Rightarrow> handle_request N I req channel
    | ResponseReceived res \<Rightarrow> fst (handle_response N I res)
    | PeerAdded p \<Rightarrow> fst (try_trigger_replication N I p False)
    | PeerRemoved p \<Rightarrow> fst (try_trigger_replication N I p True)
    | KeysForReplication keys \<Rightarrow> fst (fetch_replication_keys_without_wait I keys [])
    | NewListenAddr _ \<Rightarrow>
        if local_discovery I then []
        else List.map_filter (\<lambda>(n, addr). if cmd_room I n then Some (Send (Dial addr n)) else None)
               (List.enumerate 0 (initial_peers I))
    | NatStatusChanged status \<Rightarrow> (case status of NatPrivate \<Rightarrow> [Broadcast BehindNat] | _ \<Rightarrow> [])
    | UnverifiedRecordEvent r \<Rightarrow> fst (validate_and_store_record N I r True))"

end
