(* ===== verification/Node_Validation.thy ===== *)
theory Node_Validation
  imports Node
begin

text \<open>
  What the node's validation guarantees: the records it stores, the payment a stored chunk has,
  and how sets of spends are aggregated and double spends reported.
\<close>

section \<open>Specification of stored records\<close>

text \<open>
  A chunk under the hash of its content; one or two valid spends, in order, under the address of
  their DBC; a register that verifies under its own address. (The set of spends can be empty.)
\<close>

definition stored_chunk :: "('d, 's, 't, 'p) node_env \<Rightarrow> kad_record \<Rightarrow> chunk_with_payment \<Rightarrow> bool" where
  "stored_chunk N r c \<longleftrightarrow> try_serialize_record (wire N) (enc_chunk (wire N) c) ChunkKind = Inr (rec_value r) \<and>
     rec_key r = xor_content (wire N) (chunk_value (cwp_chunk c))"

definition stored_spends :: "('d, 's::linorder, 't, 'p) node_env \<Rightarrow> kad_record \<Rightarrow> 's list \<Rightarrow> bool" where
  "stored_spends N r ss \<longleftrightarrow> try_serialize_record (wire N) (rmp_spends_enc (wire N) ss) DbcSpendKind = Inr (rec_value r) \<and>
     length ss \<le> 2 \<and> sorted ss \<and> distinct ss \<and>
     (\<exists>i. rec_key r = dbc_address_from_dbc_id (wire N) i \<and> (\<forall>sp \<in> set ss. spend_valid_for N i sp))"

definition stored_register :: "('d, 's, 't, 'p) node_env \<Rightarrow> kad_record \<Rightarrow> 'd signed_register \<Rightarrow> bool" where
  "stored_register N r reg \<longleftrightarrow> try_serialize_record (wire N) (rmp_register_enc (wire N) reg) RegisterKind = Inr (rec_value r) \<and>
     rec_key r = address_xorname (w_reg (wire N)) (sr_address reg) \<and> signed_register_verify (w_reg (wire N)) reg = Inr ()"

definition stored_ok :: "('d, 's::linorder, 't, 'p) node_env \<Rightarrow> kad_record \<Rightarrow> bool" where
  "stored_ok N r \<longleftrightarrow> (\<exists>c. stored_chunk N r c) \<or> (\<exists>ss. stored_spends N r ss) \<or> (\<exists>reg. stored_register N r reg)"

text \<open>A local copy that decodes as a register verifies; a chunk in a message has been deserialised.\<close>

definition local_registers_ok :: "('d, 's, 't, 'p) node_env \<Rightarrow> node_in \<Rightarrow> bool" where
  "local_registers_ok N I \<longleftrightarrow> (\<forall>k r reg. local_record I k = Answer (Some r) \<longrightarrow>
     (try_deserialize_record (rmp_register_dec (wire N)) r :: 's protocol_error failure + 'd signed_register) = Inr reg \<longrightarrow>
     signed_register_verify (w_reg (wire N)) reg = Inr ())"

definition event_wf :: "('d, 's) wire_env \<Rightarrow> ('d, 's) network_event \<Rightarrow> bool" where
  "event_wf W e = (case e of ResponseReceived (QueryResp (ReplicatedDataResp (Inr (_, RepChunk c)))) \<Rightarrow> chunk_ok W (cwp_chunk c)
     | _ \<Rightarrow> True)"

section \<open>What each operation puts\<close>

definition puts :: "('d, 's) node_action list \<Rightarrow> kad_record set" where
  "puts acts = {r. Send (PutLocalRecord r) \<in> set acts}"

lemma puts_simps [simp]:
  "puts [] = {}" "puts (Send (PutLocalRecord r) # acts) = insert r (puts acts)"
  "puts (Broadcast ev # acts) = puts acts" "puts (SpawnFetch k # acts) = puts acts"
  "puts (acts @ acts') = puts acts \<union> puts acts'"
  "puts (Send (SendRequest q p s) # acts) = puts acts"
  "puts (Send (SendResponse rs ch) # acts) = puts acts"
  "puts (Send (AddKeysToReplicationFetcher p ks) # acts) = puts acts"
  by (auto simp: puts_def)

lemma puts_or_fail: "r \<in> puts (fst (or_fail m f)) \<longleftrightarrow> (\<exists>x. m = Inr x \<and> r \<in> puts (fst (f x)))"
  by (auto simp: or_fail_def split: sum.splits)

lemma puts_store_locally:
  "r \<in> puts (fst (store_locally I r' err rest)) \<longleftrightarrow> cmd_room I 0 \<and> (r = r' \<or> r \<in> puts (fst rest))"
  by (auto simp: store_locally_def)

lemma puts_chunk:
  assumes "r \<in> puts (fst (validate_and_store_chunk N I c v))"
  shows "chunk_payment_validation N I c v = Inr ()" and "rec_key r = chunk_address (cwp_chunk c)"
    and "try_serialize_record (wire N) (enc_chunk (wire N) c) ChunkKind = Inr (rec_value r)"
  using assms by (auto simp: validate_and_store_chunk_def Let_def puts_or_fail puts_store_locally local_kad_record_def
      from_chunk_address_def split: if_splits)

lemma aggregate_spends_sound:
  "length (aggregate_spends N ss i) \<le> 2 \<and> sorted (aggregate_spends N ss i) \<and> distinct (aggregate_spends N ss i) \<and>
     (\<forall>sp \<in> set (aggregate_spends N ss i). sp \<in> set ss \<and> spend_valid_for N i sp)"
  by (auto simp: aggregate_spends_def sorted_wrt_take dest: in_set_takeD)

lemma spend_validation_aggregates:
  assumes "signed_spend_validation N I ss i present = Inr (Some out)"
  shows "\<exists>ss'. out = aggregate_spends N ss' i"
  using assms by (auto simp: signed_spend_validation_def validate_single_spend_def Let_def
      split: if_splits option.splits list.splits sum.splits failure.splits)

lemma puts_spends:
  assumes "r \<in> puts (fst (validate_and_store_spends N I ss))"
  shows "\<exists>out. stored_spends N r out"
proof (cases ss)
  case Nil
  with assms show ?thesis by (simp add: validate_and_store_spends_def)
next
  case (Cons sp rest)
  let ?i = "spend_dbc_id (wire N) sp"
  from assms Cons obtain present out where "signed_spend_validation N I ss ?i present = Inr (Some out)"
    and v: "try_serialize_record (wire N) (rmp_spends_enc (wire N) out) DbcSpendKind = Inr (rec_value r)"
    and k: "rec_key r = dbc_address_from_dbc_id (wire N) ?i"
    by (auto simp: validate_and_store_spends_def Let_def puts_or_fail puts_store_locally local_kad_record_def
        from_dbc_address_def split: if_splits option.splits)
  then obtain ss' where "out = aggregate_spends N ss' ?i" using spend_validation_aggregates by blast
  with v k aggregate_spends_sound [of N ss' ?i] show ?thesis unfolding stored_spends_def by blast
qed

lemma verified_merge_verifies:
  assumes "signed_register_verify E a = Inr ()" and "verified_merge E a b = Inr c"
  shows "signed_register_verify E c = Inr ()" and "sr_address c = sr_address b"
  using assms by (auto simp: verified_merge_def signed_register_verify_ok_iff bs.elems_extend sr_address_def split: if_splits)

lemma register_validation_sound:
  fixes N :: "('d, 's, 't, 'p) node_env"
  assumes "register_validation N I reg present = Inr (Some out)" and "local_registers_ok N I"
  shows "signed_register_verify (w_reg (wire N)) out = Inr ()" and "sr_address out = sr_address reg"
proof -
  let ?E = "w_reg (wire N)"
  from assms(1) have v: "signed_register_verify ?E reg = Inr ()"
    by (auto simp: register_validation_def Let_def is_ok_iff split: if_splits)
  consider "out = reg" | r lr where "local_record I (to_record_key (wire N) (from_register_address (sr_address reg))) = Answer (Some r)"
      "try_deserialize_record (rmp_register_dec (wire N)) r = (Inr lr :: 's protocol_error failure + 'd signed_register)"
      "verified_merge ?E lr reg = Inr out"
    using assms(1) by (auto simp: register_validation_def Let_def await_with_def split: if_splits answer.splits)
  then have "signed_register_verify ?E out = Inr () \<and> sr_address out = sr_address reg"
  proof cases
    case 1
    with v show ?thesis by simp
  next
    case (2 r lr)
    from assms(2) 2(1,2) have "signed_register_verify ?E lr = Inr ()" unfolding local_registers_ok_def by blast
    with verified_merge_verifies [OF _ 2(3)] show ?thesis by blast
  qed
  then show "signed_register_verify ?E out = Inr ()" "sr_address out = sr_address reg" by auto
qed

lemma puts_register:
  assumes "r \<in> puts (fst (validate_and_store_register N I reg))" and "local_registers_ok N I"
  shows "\<exists>out. stored_register N r out"
proof -
  from assms(1) obtain present out where "register_validation N I reg present = Inr (Some out)"
    and v: "try_serialize_record (wire N) (rmp_register_enc (wire N) out) RegisterKind = Inr (rec_value r)"
    and k: "rec_key r = address_xorname (w_reg (wire N)) (sr_address reg)"
    by (auto simp: validate_and_store_register_def Let_def puts_or_fail puts_store_locally local_kad_record_def
        from_register_address_def split: option.splits)
  with register_validation_sound [OF _ assms(2)] show ?thesis unfolding stored_register_def by metis
qed

lemma puts_chunk_ok:
  assumes "r \<in> puts (fst (validate_and_store_chunk N I c v))" and "chunk_ok (wire N) (cwp_chunk c)"
  shows "stored_chunk N r c"
  using puts_chunk [OF assms(1)] assms(2) by (simp add: stored_chunk_def chunk_ok_def)

text \<open>A chunk whose payment is in order is stored by a node that does not have it.\<close>

lemma validated_chunk_put:
  assumes "key_present I (chunk_address (cwp_chunk c)) = Answer False" and "chunk_payment_validation N I c v = Inr ()" and "cmd_room I 0"
    and "try_serialize_record (wire N) (enc_chunk (wire N) c) ChunkKind = Inr bs"
  shows "validate_and_store_chunk N I c v =
    ([Send (PutLocalRecord (local_kad_record (chunk_address (cwp_chunk c)) bs)), Broadcast (ChunkStored (chunk_address (cwp_chunk c)))],
     Inr StoredSuccessfully)"
  using assms by (simp add: validate_and_store_chunk_def Let_def or_fail_def is_key_present_locally_def await_with_def
      from_chunk_address_def store_locally_def)

text \<open>A record with a chunk is read as what was written.\<close>

lemma chunk_record_read:
  fixes W :: "('d, 's) wire_env"
  assumes "rmp_laws W" and "chunk_ok W (cwp_chunk c)" and "try_serialize_record W (enc_chunk W c) ChunkKind = (Inr (rec_value r) :: 's protocol_error + bytes)"
  shows "header_from_record W r = Inr ChunkKind"
    and "try_deserialize_record (dec_chunk W) r = (Inr c :: 's protocol_error failure + chunk_with_payment)"
proof -
  have "codec_law (rmp_chunk_enc W) (rmp_chunk_dec W)" using assms(1) by (simp add: rmp_laws_def)
  then show "header_from_record W r = Inr ChunkKind"
    and "try_deserialize_record (dec_chunk W) r = (Inr c :: 's protocol_error failure + chunk_with_payment)"
    using payload_roundtrip [OF assms(1) refl assms(3), of "dec_chunk W" c] dec_chunk_enc_chunk [OF _ _ assms(2)] by blast+
qed

lemma dec_chunk_ok: "dec_chunk W bs = Some c \<Longrightarrow> chunk_ok W (cwp_chunk c)"
  by (auto simp: dec_chunk_def chunk_deserialize_def)

lemma puts_record:
  assumes "r' \<in> puts (fst (validate_and_store_record N I r v))" and "local_registers_ok N I"
  shows "stored_ok N r'"
proof -
  from assms(1) obtain kind where kind: "header_from_record (wire N) r = Inr kind"
    unfolding validate_and_store_record_def puts_or_fail by blast
  show ?thesis
  proof (cases kind)
    case ChunkKind
    with assms(1) kind obtain c where c: "try_deserialize_record (dec_chunk (wire N)) r = (Inr c :: 'b protocol_error failure + _)"
      "r' \<in> puts (fst (validate_and_store_chunk N I c v))"
      by (auto simp: validate_and_store_record_def puts_or_fail split: if_splits)
    then have "chunk_ok (wire N) (cwp_chunk c)"
      by (auto simp: try_deserialize_record_def dest: dec_chunk_ok split: if_splits)
    with puts_chunk_ok [OF c(2)] show ?thesis by (auto simp: stored_ok_def)
  next
    case DbcSpendKind
    with assms(1) kind show ?thesis
      by (auto simp: validate_and_store_record_def puts_or_fail stored_ok_def dest: puts_spends split: if_splits)
  next
    case RegisterKind
    with assms(1) kind show ?thesis
      by (auto simp: validate_and_store_record_def puts_or_fail stored_ok_def dest: puts_register [OF _ assms(2)] split: if_splits)
  qed
qed

lemma puts_send_replicate: "puts (fst (send_replicate_cmds I a ps acts)) = puts acts"
  by (induction I a ps acts rule: send_replicate_cmds.induct) auto

lemma puts_replication [simp]: "puts (fst (try_trigger_replication N I p removal)) = {}"
  by (auto simp: try_trigger_replication_def puts_send_replicate split: sum.splits)

lemma puts_fetch_keys [simp]: "puts (fst (fetch_replication_keys_without_wait I ks acts)) = puts acts"
  by (induction I ks acts rule: fetch_replication_keys_without_wait.induct) auto

lemma puts_request [simp]: "puts (handle_request N I req channel) = {}"
  by (auto simp: handle_request_def handle_node_cmd_def add_keys_to_replication_fetcher_def node_send_response_def
      split: request.splits cmd.splits option.splits)

lemma puts_response:
  assumes "r \<in> puts (fst (handle_response N I res))" and "local_registers_ok N I" and "event_wf (wire N) (ResponseReceived res)"
  shows "stored_ok N r"
proof -
  have fin: "puts (fst ((\<lambda>(acts, res). (acts, g res)) p)) = puts (fst p)" for g and p :: "('a, 'b) node_action list \<times> 'e"
    by (cases p) simp
  from assms show ?thesis
    by (auto simp: handle_response_def event_wf_def stored_ok_def Let_def fin case_prod_beta
        split: response.splits query_response.splits sum.splits replicated_data.splits if_splits
        dest: puts_chunk_ok puts_spends puts_register)
qed

lemma puts_map_filter: "puts (List.map_filter f xs) = {r. \<exists>x \<in> set xs. f x = Some (Send (PutLocalRecord r))}"
  by (induction xs) (auto simp: puts_def split: option.splits)

lemma puts_event:
  assumes "r \<in> puts (handle_network_event N I e)" and "local_registers_ok N I" and "event_wf (wire N) e"
  shows "stored_ok N r"
  using assms
  by (cases e) (auto simp: handle_network_event_def puts_map_filter split: nat_status.splits if_splits
      dest: puts_response puts_record)

lemma puts_fetch_task: "r \<in> puts (replication_fetch_task N I k) \<Longrightarrow> local_registers_ok N I \<Longrightarrow> stored_ok N r"
  by (auto simp: replication_fetch_task_def split: sum.splits dest: puts_record)

section \<open>The smallest elements of a set\<close>

definition smallest :: "nat \<Rightarrow> 'a::linorder set \<Rightarrow> 'a list" where
  "smallest n A = take n (sorted_list_of_set A)"

lemma smallest_props: "sorted (smallest n A)" "distinct (smallest n A)" "length (smallest n A) = min n (card A)"
  by (simp_all add: smallest_def sorted_wrt_take min.commute)

text \<open>An element is among the \<open>n\<close> smallest iff fewer than \<open>n\<close> are below it.\<close>

lemma set_smallest:
  assumes "finite A"
  shows "x \<in> set (smallest n A) \<longleftrightarrow> x \<in> A \<and> card {y \<in> A. y < x} < n"
proof -
  let ?L = "sorted_list_of_set A"
  have L: "sorted_wrt (<) ?L" "set ?L = A" "distinct ?L" using assms by (simp_all add: strict_sorted_iff)
  have rank: "card {y \<in> A. y < ?L ! k} = k" if "k < length ?L" for k
  proof -
    have "{y \<in> A. y < ?L ! k} = (!) ?L ` {..<k}"
    proof safe
      fix y assume "y \<in> A" and lt: "y < ?L ! k"
      then obtain j where "j < length ?L" "y = ?L ! j" using L(2) by (metis in_set_conv_nth)
      with lt that sorted_wrt_nth_less [OF L(1), of k j] show "y \<in> (!) ?L ` {..<k}"
        by (cases "j < k") (auto simp: not_less le_less)
    next
      fix j assume "j < k"
      with that L(2) show "?L ! j \<in> A" by (metis nth_mem order.strict_trans)
      from \<open>j < k\<close> that show "?L ! j < ?L ! k" by (rule sorted_wrt_nth_less [OF L(1)])
    qed
    moreover have "inj_on ((!) ?L) {..<k}" using L(3) that by (auto simp: inj_on_def nth_eq_iff_index_eq)
    ultimately show ?thesis by (simp add: card_image)
  qed
  show ?thesis
  proof
    assume "x \<in> set (smallest n A)"
    then obtain k where "k < n" "k < length ?L" "x = ?L ! k" by (auto simp: smallest_def in_set_conv_nth)
    with rank [of k] L(2) show "x \<in> A \<and> card {y \<in> A. y < x} < n" by (metis nth_mem)
  next
    assume r: "x \<in> A \<and> card {y \<in> A. y < x} < n"
    then obtain k where k: "k < length ?L" "x = ?L ! k" using L(2) by (metis in_set_conv_nth)
    with rank [of k] r have "k < n" by simp
    with k show "x \<in> set (smallest n A)" by (auto simp: smallest_def in_set_conv_nth intro!: exI [of _ k])
  qed
qed

lemma smallest_merge:
  assumes "finite A" and "finite B"
  shows "smallest n (set (smallest n A) \<union> B) = smallest n (A \<union> B)"
proof (rule sorted_distinct_set_unique)
  let ?C = "set (smallest n A) \<union> B"
  have sub: "?C \<subseteq> A \<union> B" using set_smallest [OF assms(1), of _ n] by auto
  have fin: "finite (A \<union> B)" "finite ?C" using assms by auto
  have mono: "card {y \<in> X. y < x} \<le> card {y \<in> A \<union> B. y < x}" if "X \<subseteq> A \<union> B" for x X
    using fin(1) that by (intro card_mono) auto
  have keep: "x \<in> set (smallest n ?C)" if "x \<in> set (smallest n (A \<union> B))" for x
  proof -
    from that have x: "x \<in> A \<union> B" "card {y \<in> A \<union> B. y < x} < n" using set_smallest [OF fin(1)] by auto
    then have "x \<in> ?C" using set_smallest [OF assms(1), of x n] mono [of A x] by auto
    with x mono [OF sub, of x] show ?thesis using set_smallest [OF fin(2), of x n] by simp
  qed
  have "x \<in> set (smallest n (A \<union> B))" if "x \<in> set (smallest n ?C)" for x
  proof (rule ccontr)
    assume not: "x \<notin> set (smallest n (A \<union> B))"
    from that have x: "x \<in> ?C" "card {y \<in> ?C. y < x} < n" using set_smallest [OF fin(2)] by auto
    with not sub have ge: "n \<le> card {y \<in> A \<union> B. y < x}" using set_smallest [OF fin(1), of x n] by auto
    have "y \<in> {y \<in> ?C. y < x}" if y: "y \<in> set (smallest n (A \<union> B))" for y
    proof -
      have "card {z \<in> A \<union> B. z < y} < n" using y set_smallest [OF fin(1)] by blast
      with ge have "y < x" using card_mono [of "{z \<in> A \<union> B. z < y}" "{z \<in> A \<union> B. z < x}"] fin(1)
        by (cases "y < x") (auto simp: not_less intro: order.strict_trans2)
      moreover have "y \<in> ?C" using keep [OF y] set_smallest [OF fin(2)] by blast
      ultimately show ?thesis by simp
    qed
    then have "card (set (smallest n (A \<union> B))) \<le> card {y \<in> ?C. y < x}" using fin(2) by (intro card_mono) auto
    moreover have "card (set (smallest n (A \<union> B))) = min n (card (A \<union> B))"
      using smallest_props(2,3) [of n "A \<union> B"] by (simp add: distinct_card)
    moreover have "card {y \<in> A \<union> B. y < x} \<le> card (A \<union> B)" using fin(1) by (intro card_mono) auto
    ultimately show False using x(2) ge by linarith
  qed
  with keep show "set (smallest n ?C) = set (smallest n (A \<union> B))" by blast
qed (simp_all add: smallest_props)

lemma aggregate_spends_smallest: "aggregate_spends N ss i = smallest 2 {sp \<in> set ss. spend_valid_for N i sp}"
proof -
  have "sort (filter (spend_valid_for N i) (remdups ss)) = sorted_list_of_set {sp \<in> set ss. spend_valid_for N i sp}"
    by (simp add: sorted_list_of_set_sort_remdups [symmetric] remdups_filter [symmetric] conj_commute)
  then show ?thesis by (simp add: aggregate_spends_def smallest_def)
qed

section \<open>Payments\<close>

lemma collect_payment_tx_sound:
  assumes "collect_payment_tx N I a acc js = Inr (Some t)"
  shows "(acc = None \<longrightarrow> js \<noteq> []) \<and> (\<forall>t'. acc = Some t' \<longrightarrow> t = t') \<and> (\<forall>(call, j) \<in> set js.
     \<exists>sp. node_get_spend N I call (dbc_address_from_dbc_id (wire N) j) True = Inr sp \<and> spent_tx N sp = t)"
  using assms
proof (induction N I a acc js rule: collect_payment_tx.induct)
  case (2 N I a acc call j rest)
  from 2(3) obtain sp where sp: "node_get_spend N I call (dbc_address_from_dbc_id (wire N) j) True = Inr sp"
    by (auto split: sum.splits failure.splits)
  show ?case
  proof (cases acc)
    case None
    with 2(1) [OF sp None] 2(3) sp show ?thesis by auto
  next
    case (Some t')
    with 2(3) sp have "spent_tx N sp = t'" "collect_payment_tx N I a acc rest = Inr (Some t)" by (auto split: if_splits)
    with 2(2) [OF sp Some] Some sp show ?thesis by auto
  qed
qed simp

lemma verify_fee_output_and_proof_sound:
  assumes "verify_fee_output_and_proof N name cost t trail path = Inr ()"
  shows "\<exists>leaf. fee_id (fee t) = hash_bytes N (fee_root_hash (fee t) @ concat (map in_dbc_id (inputs t))) \<and>
    validate_payment_proof (merkle N) name (fee_root_hash (fee t)) trail path = Inr leaf \<and> cost * (leaf + 1) \<le> fee_token (fee t)"
  using assms by (auto simp: verify_fee_output_and_proof_def verify_fee_output_id_def Let_def split: if_splits)

section \<open>A concrete node\<close>

definition demo_tx :: "token \<Rightarrow> dbc_tx" where
  "demo_tx t = \<lparr>inputs = [\<lparr>in_dbc_id = [4], in_token = 9\<rparr>], outputs = [\<lparr>out_dbc_id = [1], out_token = 5\<rparr>],
     fee = \<lparr>fee_id = [3, 4], fee_token = t, fee_root_hash = [3]\<rparr>\<rparr>"

text \<open>A spend is a DBC id of one byte and a tag; it is valid when the tag is not zero.\<close>

definition demo_node :: "((bytes list \<times> bytes) btree_set, bytes, bytes list, bytes list \<times> u64 list) node_env" where
  "demo_node = \<lparr>wire = demo_wire\<lparr>spend_dbc_id := take 1, rmp_spends_enc := (\<lambda>ss. Some (9 # concat ss)),
       rmp_spends_dec := (\<lambda>b. Some (if tl b = [] then [] else [tl b]))\<rparr>,
     merkle = demo_merkle, spent_tx = (\<lambda>_. demo_tx 100), spent_tx_hash = (\<lambda>_. [1]), dbc_creation_tx = (\<lambda>_. demo_tx 100),
     dbc_creation_tx_hash = (\<lambda>_. [1]), spend_verify = (\<lambda>s h. s ! 1 \<noteq> 0), verify_against_inputs_spent = (\<lambda>_ _. True),
     fee_is_free = (\<lambda>f. fee_token f = 0), hash_bytes = (\<lambda>b. b), genesis_dbc_id = [], genesis_src_tx = demo_tx 0\<rparr>"

definition demo_node_in :: node_in where
  "demo_node_in = \<lparr>self_id = [0], key_present = (\<lambda>k. Answer False),
     local_record = (\<lambda>k. Answer (Some (local_kad_record k [0x91, 1, 9, 1, 7]))), local_storecost = Answer 10,
     fetch = (\<lambda>n k j. Answer (Inr (local_kad_record k [0x91, 1, 9, 4, 1]))), join_order = (\<lambda>xs. xs), cmd_room = (\<lambda>_. True),
     all_local_peers = Answer [], all_local_records = Answer [], node_k_value = 20, initial_peers = [], local_discovery = False\<rparr>"

lemma demo_node_sel [simp]:
  "wire demo_node = demo_wire\<lparr>spend_dbc_id := take 1, rmp_spends_enc := (\<lambda>ss. Some (9 # concat ss)),
       rmp_spends_dec := (\<lambda>b. Some (if tl b = [] then [] else [tl b]))\<rparr>"
  "merkle demo_node = demo_merkle" "spent_tx demo_node sp = demo_tx 100" "spent_tx_hash demo_node sp = [1]"
  "dbc_creation_tx demo_node sp = demo_tx 100" "dbc_creation_tx_hash demo_node sp = [1]"
  "spend_verify demo_node sp h \<longleftrightarrow> sp ! 1 \<noteq> 0" "verify_against_inputs_spent demo_node t ps"
  "fee_is_free demo_node f \<longleftrightarrow> fee_token f = 0" "hash_bytes demo_node b = b" "\<not> is_genesis demo_node sp"
  "genesis_dbc_id demo_node = []"
  by (simp_all add: demo_node_def is_genesis_def demo_tx_def)

lemma demo_node_in_sel [simp]:
  "key_present demo_node_in k = Answer False" "cmd_room demo_node_in n" "local_storecost demo_node_in = Answer 10"
  "join_order demo_node_in xs = xs"
  by (simp_all add: demo_node_in_def)

lemma demo_wire_sel [simp]:
  "xor_content demo_wire b = b" "rmp_u32_dec demo_wire b = (if length b \<ge> 2 then Some (word_of_nat (unat (b ! 1))) else None)"
  "rmp_u32_enc demo_wire n = (if unat n < 128 then Some [0x91, word_of_nat (unat n)] else None)"
  by (simp_all add: demo_wire_def)

lemma get_record_at_once:
  assumes "attempts 0 = Answer (Inr r)"
  shows "get_record_from_network None re_attempt attempts = Inr r"
proof -
  have "get_record_loop None (Suc n) attempts 0 = Inr r" for n
    using assms by (simp add: await_with_def target_matches_def)
  moreover obtain n where "(if re_attempt then VERIFICATION_ATTEMPTS else 1) = Suc n"
    by (cases re_attempt) (auto simp: VERIFICATION_ATTEMPTS_def)
  ultimately show ?thesis by (simp add: get_record_from_network_def)
qed

lemma demo_get_spend: "fetch I = fetch demo_node_in \<Longrightarrow> node_get_spend demo_node I call a re_attempt = Inr [4, 1]"
  by (simp add: node_get_spend_def get_record_at_once demo_node_in_def spends_from_record_def header_from_record_def
      map_failure_def RECORD_HEADER_SIZE_def header_try_deserialize_def kind_from_u32_def try_deserialize_record_def
      local_kad_record_def)

lemma demo_validate_single:
  "fetch I = fetch demo_node_in \<Longrightarrow> sp ! 1 \<noteq> 0 \<Longrightarrow> spend_dbc_id (wire demo_node) sp = [1] \<Longrightarrow>
     validate_single_spend demo_node I [1] sp = Inr [sp]"
  by (simp add: validate_single_spend_def verify_fee_output_id_def demo_tx_def demo_get_spend check_parent_spends_def
      validate_parent_spends_def aggregate_spends_def spend_valid_for_def bs_insert_def insort_insert_key_def)

lemma demo_serialize: "try_serialize_record (wire demo_node) (rmp_spends_enc (wire demo_node) ss) DbcSpendKind = Inr (0x91 # 1 # 9 # concat ss)"
  by (simp add: try_serialize_record_def header_try_serialize_def)

section \<open>Properties\<close>

text \<open>C3: Whatever event a node handles and whatever a spawned replication fetch brings, a record it
  puts into its store is a chunk under the hash of its content, a sorted pair at most of valid
  spends under the address of their DBC, or a register that verifies under its own address --
  as long as the registers already stored verify.\<close>

theorem node_stores_only_valid_records:
  assumes "local_registers_ok N I" and "event_wf (wire N) e"
    and "Send (PutLocalRecord r) \<in> set (handle_network_event N I e) \<union> set (replication_fetch_task N I k)"
  shows "stored_ok N r"
  using assms puts_event [of r N I e] puts_fetch_task [of r N I k] by (auto simp: puts_def)

theorem node_stores_only_valid_records_witness:
  "stored_ok demo_node (local_kad_record [1] [0x91, 1, 9, 1, 7])"
proof -
  let ?I = "demo_node_in\<lparr>local_record := (\<lambda>_. Answer None)\<rparr>"
  let ?e = "ResponseReceived (QueryResp (ReplicatedDataResp (Inr (PeerIdAddr [2], RepDbcSpend [[1, 7]]))))"
  have wf: "local_registers_ok demo_node ?I" "event_wf (wire demo_node) ?e"
    by (simp_all add: local_registers_ok_def event_wf_def)
  have "Send (PutLocalRecord (local_kad_record [1] [0x91, 1, 9, 1, 7])) \<in> set (handle_network_event demo_node ?I ?e)"
    using demo_serialize [of "[[1, 7]]"]
    by (simp add: handle_network_event_def handle_response_def validate_and_store_spends_def or_fail_def is_key_present_locally_def
        signed_spend_validation_def demo_validate_single store_locally_def from_dbc_address_def dbc_address_from_dbc_id_def
        demo_node_in_def await_with_def)
  from node_stores_only_valid_records [OF wf UnI1, OF this] show ?thesis .
qed

text \<open>
  A node that holds a record of spends and receives further ones: it then holds the record it puts
  into its store, if it puts one.
\<close>

definition holding :: "kad_record \<Rightarrow> node_in \<Rightarrow> node_in" where
  "holding r I = I\<lparr>key_present := (\<lambda>_. Answer True), local_record := (\<lambda>_. Answer (Some r))\<rparr>"

definition receive_spends :: "('d, 's::linorder, 't, 'p) node_env \<Rightarrow> node_in \<times> 's list \<Rightarrow> kad_record \<Rightarrow> kad_record" where
  "receive_spends N = (\<lambda>(I, ss) r. case fst (validate_and_store_spends N (holding r I) ss) of
     [Send (PutLocalRecord r')] \<Rightarrow> r' | _ \<Rightarrow> r)"

definition valid_spends :: "('d, 's, 't, 'p) node_env \<Rightarrow> dbc_id \<Rightarrow> 's set \<Rightarrow> 's set" where
  "valid_spends N i A = {sp \<in> A. spend_valid_for N i sp}"

text \<open>The record of the two smallest valid spends among those seen, or of the only one.\<close>

definition spends_record :: "('d, 's::linorder, 't, 'p) node_env \<Rightarrow> dbc_id \<Rightarrow> 's set \<Rightarrow> kad_record \<Rightarrow> bool" where
  "spends_record N i A r \<longleftrightarrow> (\<exists>v. r = local_kad_record (to_record_key (wire N) (from_dbc_address (dbc_address_from_dbc_id (wire N) i))) v \<and>
     try_serialize_record (wire N) (rmp_spends_enc (wire N) (take 2 (sorted_list_of_set (valid_spends N i A)))) DbcSpendKind =
       (Inr v :: 's protocol_error + bytes))"

lemma spends_record_unique: "spends_record N i A r \<Longrightarrow> spends_record N i A r' \<Longrightarrow> r = r'"
  by (auto simp: spends_record_def)

lemma local_spends_held:
  fixes N :: "('d, 's::linorder, 't, 'p) node_env"
  assumes "rmp_laws (wire N)" and "spends_record N i A r"
  shows "local_spends N (holding r I) a = Inr (take 2 (sorted_list_of_set (valid_spends N i A)))"
proof -
  let ?H = "take 2 (sorted_list_of_set (valid_spends N i A))"
  from assms(2) obtain v where v: "try_serialize_record (wire N) (rmp_spends_enc (wire N) ?H) DbcSpendKind = (Inr v :: 's protocol_error + bytes)"
    and r: "rec_value r = v" by (auto simp: spends_record_def local_kad_record_def)
  have "codec_law (rmp_spends_enc (wire N)) (rmp_spends_dec (wire N))" using assms(1) by (simp add: rmp_laws_def)
  then have "bs \<noteq> [] \<and> rmp_spends_dec (wire N) bs = Some ?H" if "rmp_spends_enc (wire N) ?H = Some bs" for bs
    using that by (simp add: codec_law_def)
  from payload_roundtrip [OF assms(1) r v this] show ?thesis by (simp add: local_spends_def holding_def await_with_def)
qed

lemma receive_spends_record:
  fixes N :: "('d, 's::linorder, 't, 'p) node_env"
  assumes "rmp_laws (wire N)" and "\<forall>ss. rmp_spends_enc (wire N) ss \<noteq> None"
    and "spends_record N i A r" and "finite A" and "valid_spends N i A \<noteq> {}"
    and "cmd_room I 0" and "ss \<noteq> []" and "\<forall>sp \<in> set ss. spend_dbc_id (wire N) sp = i"
  shows "spends_record N i (A \<union> set ss) (receive_spends N (I, ss) r)"
proof -
  let ?V = "valid_spends N i" and ?H = "smallest 2 (valid_spends N i A)"
  let ?new = "bs_collect (filter (\<lambda>sp. sp \<notin> set ?H) ss)"
  have fin: "finite (?V A)" "finite (?V (set ss))" using assms(4) by (simp_all add: valid_spends_def)
  have V: "?V (A \<union> B) = ?V A \<union> ?V B" for B by (auto simp: valid_spends_def)
  have H: "set ?H \<subseteq> ?V A" "?H \<noteq> []" using set_smallest [OF fin(1), of _ 2] smallest_props(3) [of 2 "?V A"] fin(1) assms(5)
    by (auto simp: card_gt_0_iff simp flip: length_greater_0_conv)
  have loc: "local_spends N (holding r I) (dbc_address_from_dbc_id (wire N) i) = Inr ?H"
    unfolding smallest_def by (rule local_spends_held [OF assms(1,3)])
  obtain first rest where ss: "ss = first # rest" using assms(7) by (cases ss) auto
  show ?thesis
  proof (cases "?new = []")
    case True
    then have "set ss \<subseteq> set ?H" by (auto simp: bs_collect_def bs.elems_extend bs.elems_empty simp flip: set_empty)
    then have "?V (A \<union> set ss) = ?V A" using H(1) by (auto simp: valid_spends_def)
    moreover have "receive_spends N (I, ss) r = r"
      using True loc assms(8) ss by (auto simp: receive_spends_def validate_and_store_spends_def signed_spend_validation_def Let_def
          or_fail_def is_key_present_locally_def holding_def await_with_def list_all_iff)
    ultimately show ?thesis using assms(3) by (simp add: spends_record_def)
  next
    case False
    obtain h H' where hH: "?H = h # H'" using H(2) by (cases ?H) auto
    obtain n ns where nn: "?new = n # ns" using False by (cases ?new) auto
    have "{sp \<in> set (?H @ ?new). spend_valid_for N i sp} = set ?H \<union> ?V (set ss)"
      using H(1) by (auto simp: bs_collect_def bs.elems_extend bs.elems_empty valid_spends_def)
    then have "aggregate_spends N (?H @ ?new) i = smallest 2 (set ?H \<union> ?V (set ss))" by (simp only: aggregate_spends_smallest)
    also have "\<dots> = smallest 2 (?V (A \<union> set ss))" unfolding V by (rule smallest_merge [OF fin])
    finally have agg: "aggregate_spends N (?H @ ?new) i = smallest 2 (?V (A \<union> set ss))" .
    have "signed_spend_validation N (holding r I) ss i True = Inr (Some (aggregate_spends N (?H @ ?new) i))"
      using loc False hH nn by (simp add: signed_spend_validation_def Let_def split: list.splits)
    moreover from header_serialize_ok [OF assms(1), of DbcSpendKind] assms(2) obtain v where
      v: "try_serialize_record (wire N) (rmp_spends_enc (wire N) (smallest 2 (?V (A \<union> set ss)))) DbcSpendKind = (Inr v :: 's protocol_error + bytes)"
      by (fastforce simp: try_serialize_record_def)
    ultimately have "receive_spends N (I, ss) r = local_kad_record (to_record_key (wire N) (from_dbc_address (dbc_address_from_dbc_id (wire N) i))) v"
      using assms(6,8) ss agg by (auto simp: receive_spends_def validate_and_store_spends_def Let_def or_fail_def is_key_present_locally_def
          await_with_def store_locally_def list_all_iff holding_def)
    with v show ?thesis by (auto simp: spends_record_def smallest_def)
  qed
qed

lemma receive_spends_run:
  fixes N :: "('d, 's::linorder, 't, 'p) node_env"
  assumes "rmp_laws (wire N)" and "\<forall>ss. rmp_spends_enc (wire N) ss \<noteq> None"
    and "spends_record N i A r" and "finite A" and "valid_spends N i A \<noteq> {}"
    and "\<forall>(I, ss) \<in> set batches. cmd_room I 0 \<and> ss \<noteq> [] \<and> (\<forall>sp \<in> set ss. spend_dbc_id (wire N) sp = i)"
  shows "spends_record N i (A \<union> (\<Union>(I, ss) \<in> set batches. set ss)) (fold (receive_spends N) batches r)"
  using assms(3-6)
proof (induction batches arbitrary: A r)
  case (Cons b batches)
  obtain I ss where b: "b = (I, ss)" by force
  have "spends_record N i (A \<union> set ss) (receive_spends N (I, ss) r)"
    using Cons.prems b by (intro receive_spends_record [OF assms(1,2)]) auto
  moreover have "valid_spends N i (A \<union> set ss) \<noteq> {}" using Cons.prems(3) by (auto simp: valid_spends_def)
  ultimately have "spends_record N i (A \<union> set ss \<union> (\<Union>(I, ss) \<in> set batches. set ss)) (fold (receive_spends N) batches (receive_spends N (I, ss) r))"
    using Cons.prems by (intro Cons.IH) auto
  then show ?case by (simp add: b Un_assoc)
qed simp

text \<open>C26: Nodes that hold spends of a DBC converge: two nodes that each hold the record of the spends they have seen, of
  which one at least is valid, and then receive further spends of the DBC in batches of any
  size, in any order and any number of times, end with the same record when they have seen the same
  spends in all; it holds the two smallest valid spends seen (the only one, if there is no other).
  (Every list of spends can be serialised and is read back; the command channel has room, and
  the node holds whatever record it last put.)\<close>

theorem spend_aggregation_converges:
  fixes N :: "('d, 's::linorder, 't, 'p) node_env"
  assumes "rmp_laws (wire N)" and "\<forall>ss. rmp_spends_enc (wire N) ss \<noteq> None"
    and "spends_record N i (set xs) r" and "spends_record N i (set ys) s"
    and "\<exists>x \<in> set xs. spend_valid_for N i x" and "\<exists>y \<in> set ys. spend_valid_for N i y"
    and "\<forall>(I, ss) \<in> set bs \<union> set cs. cmd_room I 0 \<and> ss \<noteq> [] \<and> (\<forall>sp \<in> set ss. spend_dbc_id (wire N) sp = i)"
    and "set xs \<union> (\<Union>(I, ss) \<in> set bs. set ss) = set ys \<union> (\<Union>(I, ss) \<in> set cs. set ss)"
  shows "fold (receive_spends N) bs r = fold (receive_spends N) cs s \<and>
    try_deserialize_record (rmp_spends_dec (wire N)) (fold (receive_spends N) bs r) = (Inr (take 2 (sorted_list_of_set
      {sp \<in> set xs \<union> (\<Union>(I, ss) \<in> set bs. set ss). spend_dbc_id (wire N) sp = i \<and> spend_verify N sp (spent_tx_hash N sp)}))
      :: 's protocol_error failure + 's list)"
proof -
  let ?A = "set xs \<union> (\<Union>(I, ss) \<in> set bs. set ss)"
  have r: "spends_record N i ?A (fold (receive_spends N) bs r)"
    using assms(5,7) by (intro receive_spends_run [OF assms(1-3)]) (auto simp: valid_spends_def)
  have "spends_record N i ?A (fold (receive_spends N) cs s)"
    unfolding assms(8) using assms(6,7) by (intro receive_spends_run [OF assms(1,2,4)]) (auto simp: valid_spends_def)
  moreover have "try_deserialize_record (rmp_spends_dec (wire N)) (fold (receive_spends N) bs r) =
      (Inr (take 2 (sorted_list_of_set (valid_spends N i ?A))) :: 's protocol_error failure + 's list)"
    using local_spends_held [OF assms(1) r, of undefined undefined]
    by (auto simp: local_spends_def holding_def await_with_def split: if_splits)
  ultimately show ?thesis using spends_record_unique [OF r] by (simp add: valid_spends_def spend_valid_for_def)
qed

text \<open>A codec for lists of byte strings that loses nothing: a one before each byte, a zero after each string.\<close>

definition demo_spends_enc :: "bytes list \<Rightarrow> bytes" where
  "demo_spends_enc ss = 9 # concat (map (\<lambda>sp. concat (map (\<lambda>b. [1, b]) sp) @ [0]) ss)"

fun demo_spends_dec :: "bytes \<Rightarrow> bytes \<Rightarrow> bytes list" where
  "demo_spends_dec acc (x # xs) = (if x = 0 then acc # demo_spends_dec [] xs
     else case xs of b # bs \<Rightarrow> demo_spends_dec (acc @ [b]) bs | [] \<Rightarrow> [])"
| "demo_spends_dec acc [] = []"

lemma demo_spends_dec_enc: "demo_spends_dec [] (tl (demo_spends_enc ss)) = ss"
proof -
  have one: "demo_spends_dec acc (concat (map (\<lambda>b. [1, b]) sp) @ 0 # rest) = (acc @ sp) # demo_spends_dec [] rest" for acc sp rest
    by (induction sp arbitrary: acc) auto
  show ?thesis by (induction ss) (simp_all add: demo_spends_enc_def one)
qed

definition demo_spend_node :: "((bytes list \<times> bytes) btree_set, bytes, bytes list, bytes list \<times> u64 list) node_env" where
  "demo_spend_node = demo_node\<lparr>wire := (wire demo_node)\<lparr>rmp_spends_enc := (\<lambda>ss. Some (demo_spends_enc ss)),
     rmp_spends_dec := (\<lambda>b. Some (demo_spends_dec [] (tl b)))\<rparr>\<rparr>"

lemma demo_spend_node_laws: "rmp_laws (wire demo_spend_node)" "\<forall>ss. rmp_spends_enc (wire demo_spend_node) ss \<noteq> None"
  using demo_wire_laws(1) demo_spends_dec_enc by (auto simp: rmp_laws_def codec_law_def demo_spend_node_def demo_spends_enc_def)

theorem spend_aggregation_converges_witness:
  "\<exists>r s. fold (receive_spends demo_spend_node) [(demo_node_in, [[1, 5], [1, 0]]), (demo_node_in, [[1, 7]])] r =
      fold (receive_spends demo_spend_node) [(demo_node_in, [[1, 9], [1, 5], [1, 0]])] s \<and>
    try_deserialize_record (rmp_spends_dec (wire demo_spend_node))
      (fold (receive_spends demo_spend_node) [(demo_node_in, [[1, 5], [1, 0]]), (demo_node_in, [[1, 7]])] r) =
      (Inr [[1, 5], [1, 7]] :: bytes protocol_error failure + bytes list)"
proof -
  let ?N = demo_spend_node and ?I = demo_node_in
  have dbc: "spend_dbc_id (wire ?N) [1, b] = [1]" and verify: "spend_verify ?N [1, b] h \<longleftrightarrow> b \<noteq> 0" for b h
    by (simp_all add: demo_spend_node_def)
  have "\<exists>r. spends_record ?N [1] A r" for A
    using header_serialize_ok [OF demo_spend_node_laws(1), of DbcSpendKind] demo_spend_node_laws(2)
    by (fastforce simp: spends_record_def try_serialize_record_def)
  then obtain r s where rs: "spends_record ?N [1] (set [[1, 9]]) r" "spends_record ?N [1] (set [[1, 7]]) s" by blast
  have room: "cmd_room ?I 0" by (simp add: demo_node_in_def)
  let ?bs = "[(?I, [[1, 5], [1, 0]]), (?I, [[1, 7]])]" and ?cs = "[(?I, [[1, 9], [1, 5], [1, 0]])]"
  have "set [[1, 9]] \<union> (\<Union>(I, ss) \<in> set ?bs. set ss) = set [[1, 7]] \<union> (\<Union>(I, ss) \<in> set ?cs. set (ss :: bytes list))" by auto
  then have conv: "fold (receive_spends ?N) ?bs r = fold (receive_spends ?N) ?cs s \<and>
    try_deserialize_record (rmp_spends_dec (wire ?N)) (fold (receive_spends ?N) ?bs r) = (Inr (take 2 (sorted_list_of_set
      {sp \<in> set [[1, 9]] \<union> (\<Union>(I, ss) \<in> set ?bs. set ss). spend_dbc_id (wire ?N) sp = [1] \<and> spend_verify ?N sp (spent_tx_hash ?N sp)}))
      :: bytes protocol_error failure + bytes list)"
    by (rule spend_aggregation_converges [OF demo_spend_node_laws rs, rotated 3]) (use room in \<open>simp_all add: spend_valid_for_def dbc verify\<close>)
  have "{sp \<in> set [[1, 9]] \<union> (\<Union>(I, ss) \<in> set ?bs. set ss). spend_dbc_id (wire ?N) sp = [1] \<and> spend_verify ?N sp (spent_tx_hash ?N sp)} =
      {[1, 5], [1, 7], [1, 9]}" by (auto simp: dbc verify)
  moreover have "take 2 (sorted_list_of_set {[1, 5], [1, 7], [1, 9 :: byte]}) = [[1, 5], [1, 7]]"
    by (simp add: sorted_list_of_set_insert_remove)
  ultimately have "try_deserialize_record (rmp_spends_dec (wire ?N)) (fold (receive_spends ?N) ?bs r) =
      (Inr [[1, 5], [1, 7]] :: bytes protocol_error failure + bytes list)" using conv [THEN conjunct2] by (simp only:)
  with conv show ?thesis by blast
qed

text \<open>C27: A node that holds one valid spend of a DBC and receives a different valid spend of the
  same DBC stores both, in order, and answers with a double spend attempt naming them.\<close>

theorem double_spend_detected:
  assumes "key_present I key = Answer True" and "local_record I key = Answer (Some r)"
    and "header_from_record (wire N) r = Inr DbcSpendKind"
    and "try_deserialize_record (rmp_spends_dec (wire N)) r = (Inr [a] :: 's::linorder protocol_error failure + 's list)"
    and "spend_valid_for N i a" and "spend_valid_for N i b" and "a \<noteq> b"
    and "key = to_record_key (wire N) (from_dbc_address (dbc_address_from_dbc_id (wire N) i))"
    and "try_serialize_record (wire N) (rmp_spends_enc (wire N) [min a b, max a b]) DbcSpendKind = Inr v" and "cmd_room I 0"
  shows "validate_and_store_spends N I [b] =
    ([Send (PutLocalRecord (local_kad_record key v))], Inl (Err (DoubleSpendAttempt (min a b) (max a b))))"
proof -
  have "sort (filter (spend_valid_for N i) (remdups [a, b])) = [min a b, max a b]"
    using assms(5-7) by (auto simp: min_def max_def)
  then have agg: "aggregate_spends N [a, b] i = [min a b, max a b]" unfolding aggregate_spends_def by simp
  have "signed_spend_validation N I [b] i True = Inr (Some [min a b, max a b])"
    using assms(2-4,7,8) agg
    by (simp add: signed_spend_validation_def local_spends_def await_with_def bs_collect_def bs_extend_def bs_insert_def
        insort_insert_key_def)
  moreover have "spend_dbc_id (wire N) b = i" using assms(6) by (simp add: spend_valid_for_def)
  ultimately show ?thesis
    using assms(1,8-10) by (simp add: validate_and_store_spends_def Let_def or_fail_def is_key_present_locally_def await_with_def
        store_locally_def)
qed

theorem double_spend_detected_witness:
  "snd (validate_and_store_spends demo_node (demo_node_in\<lparr>key_present := (\<lambda>_. Answer True)\<rparr>) [[1, 3]]) =
     Inl (Err (DoubleSpendAttempt [1, 3] [1, 7]))"
proof -
  let ?I = "demo_node_in\<lparr>key_present := (\<lambda>_. Answer True)\<rparr>"
  let ?r = "local_kad_record [1] [0x91, 1, 9, 1, 7]"
  have "validate_and_store_spends demo_node ?I [[1, 3]] =
    ([Send (PutLocalRecord (local_kad_record [1] (0x91 # 1 # 9 # concat [min [1, 7] [1, 3], max [1, 7] [1, 3]])))],
     Inl (Err (DoubleSpendAttempt (min [1, 7] [1, 3]) (max [1, 7] [1, 3]))))"
    by (rule double_spend_detected [where r = ?r and i = "[1]", OF _ _ _ _ _ _ _ _ demo_serialize])
      (simp_all add: demo_node_in_def local_kad_record_def header_from_record_def RECORD_HEADER_SIZE_def kind_from_u32_def
        header_try_deserialize_def try_deserialize_record_def spend_valid_for_def from_dbc_address_def dbc_address_from_dbc_id_def)
  then show ?thesis by (simp add: min_def max_def)
qed

text \<open>C36: When the network already holds two spends of a DBC, a node that does not hold the key
  stores a third, single spend and reports success: the double spend it was told of is taken
  for the absence of a spend.\<close>

theorem network_double_spend_ignored:
  assumes "key_present I key = Answer False" and "spend_valid_for N i sp"
    and "verify_fee_output_id N (spent_tx N sp) False = Inr ()"
    and "(if is_genesis N sp then Inr [] else fetch_parents N I 0 (inputs (dbc_creation_tx N sp)) []) = Inr parents"
    and "check_parent_spends N parents sp = Inr ()"
    and "node_get_spend N I (length (inputs (dbc_creation_tx N sp))) (dbc_address_from_dbc_id (wire N) i) False =
      Inl (Err (DoubleSpendAttempt a b))"
    and "key = to_record_key (wire N) (from_dbc_address (dbc_address_from_dbc_id (wire N) i))"
    and "try_serialize_record (wire N) (rmp_spends_enc (wire N) [sp]) DbcSpendKind = Inr v" and "cmd_room I 0"
  shows "validate_and_store_spends N I [sp] = ([Send (PutLocalRecord (local_kad_record key v))], Inr StoredSuccessfully)"
proof -
  have "validate_single_spend N I i sp = Inr [sp]"
    using assms(2-6) by (simp add: validate_single_spend_def spend_valid_for_def aggregate_spends_def)
  moreover have "spend_dbc_id (wire N) sp = i" using assms(2) by (simp add: spend_valid_for_def)
  ultimately show ?thesis
    using assms(1,7-9) by (simp add: validate_and_store_spends_def Let_def or_fail_def is_key_present_locally_def await_with_def
        signed_spend_validation_def store_locally_def)
qed

theorem network_double_spend_ignored_witness:
  "snd (validate_and_store_spends
      (demo_node\<lparr>wire := (wire demo_node)\<lparr>rmp_spends_dec := (\<lambda>b. Some (if b = [9, 4, 1] then [tl b] else [[1, 2], [1, 3]]))\<rparr>\<rparr>)
      (demo_node_in\<lparr>fetch := (\<lambda>n k j. Answer (Inr (local_kad_record k [0x91, 1, 9, if n = 0 then 4 else 5, 1])))\<rparr>) [[1, 7]])
    = Inr StoredSuccessfully"
proof -
  let ?N = "demo_node\<lparr>wire := (wire demo_node)\<lparr>rmp_spends_dec := (\<lambda>b. Some (if b = [9, 4, 1] then [tl b] else [[1, 2], [1, 3]]))\<rparr>\<rparr>"
  let ?I = "demo_node_in\<lparr>fetch := (\<lambda>n k j. Answer (Inr (local_kad_record k [0x91, 1, 9, if n = 0 then 4 else 5, 1])))\<rparr>"
  have get: "node_get_spend ?N ?I n a re = (if n = 0 then Inr [4, 1] else Inl (Err (DoubleSpendAttempt [1, 2] [1, 3])))" for n a re
    by (simp add: node_get_spend_def get_record_at_once spends_from_record_def header_from_record_def
      map_failure_def RECORD_HEADER_SIZE_def header_try_deserialize_def kind_from_u32_def try_deserialize_record_def
      local_kad_record_def)
  have "validate_and_store_spends ?N ?I [[1, 7]] =
    ([Send (PutLocalRecord (local_kad_record [1] [0x91, 1, 9, 1, 7]))], Inr StoredSuccessfully)"
    by (rule network_double_spend_ignored [where i = "[1]" and parents = "[[4, 1]]" and a = "[1, 2]" and b = "[1, 3]"])
      (simp_all add: spend_valid_for_def verify_fee_output_id_def demo_tx_def get [simplified] check_parent_spends_def
        is_genesis_def validate_parent_spends_def bs_insert_def insort_insert_key_def from_dbc_address_def
        dbc_address_from_dbc_id_def try_serialize_record_def header_try_serialize_def)
  then show ?thesis by simp
qed

text \<open>C37: Two or more spends of a DBC none of which verifies are not refused by a node that does not hold
  the DBC's record yet: a record with an empty list of spends is stored under the address of the
  DBC, and success is reported. (A node that holds spends of the DBC aggregates them with the
  new ones instead.)\<close>

theorem invalid_spends_stored_as_empty:
  assumes "key_present I key = Answer False" and "length ss \<ge> 2"
    and "\<forall>sp \<in> set ss. spend_dbc_id (wire N) sp = i \<and> \<not> spend_verify N sp (spent_tx_hash N sp)"
    and "key = to_record_key (wire N) (from_dbc_address (dbc_address_from_dbc_id (wire N) i))"
    and "try_serialize_record (wire N) (rmp_spends_enc (wire N) []) DbcSpendKind = Inr v" and "cmd_room I 0"
  shows "validate_and_store_spends N I ss = ([Send (PutLocalRecord (local_kad_record key v))], Inr StoredSuccessfully)"
proof -
  obtain one two rest where ss: "ss = one # two # rest" using assms(2) by (cases ss; cases "tl ss") auto
  have "aggregate_spends N ss i = []" using assms(3) unfolding aggregate_spends_def by (simp add: spend_valid_for_def)
  then have "signed_spend_validation N I ss i False = Inr (Some [])" by (simp add: signed_spend_validation_def ss)
  with assms ss show ?thesis
    by (simp add: validate_and_store_spends_def Let_def or_fail_def is_key_present_locally_def await_with_def store_locally_def
        list_all_iff)
qed

theorem invalid_spends_stored_as_empty_witness:
  "snd (validate_and_store_spends demo_node demo_node_in [[1, 0], [1, 0, 5]]) = Inr StoredSuccessfully"
proof -
  have "validate_and_store_spends demo_node demo_node_in [[1, 0], [1, 0, 5]] =
    ([Send (PutLocalRecord (local_kad_record [1] (0x91 # 1 # 9 # concat [])))], Inr StoredSuccessfully)"
    by (rule invalid_spends_stored_as_empty [where i = "[1]", OF _ _ _ _ demo_serialize])
      (simp_all add: demo_node_in_def from_dbc_address_def dbc_address_from_dbc_id_def)
  then show ?thesis by simp
qed

text \<open>C28: A chunk put by the network is stored only if it is paid for: all spends named by its
  payment proof are known to the network and spend one transaction; the id of that transaction's
  fee output is the hash of its root and its inputs; the audit trail proves the chunk's name at
  some leaf of the tree with that root; and the fee is at least the node's current store cost
  times the position of the leaf, counted from one, in 64-bit arithmetic.\<close>

theorem stored_chunk_is_paid:
  assumes "Send (PutLocalRecord r) \<in> set (fst (validate_and_store_chunk N I c True))"
  shows "\<exists>t cost leaf. local_storecost I = Answer cost \<and>
    join_order I (List.enumerate 0 (spent_ids (cwp_payment c))) \<noteq> [] \<and>
    (\<forall>(call, j) \<in> set (join_order I (List.enumerate 0 (spent_ids (cwp_payment c)))).
       \<exists>sp. node_get_spend N I call (dbc_address_from_dbc_id (wire N) j) True = Inr sp \<and> spent_tx N sp = t) \<and>
    fee_id (fee t) = hash_bytes N (fee_root_hash (fee t) @ concat (map in_dbc_id (inputs t))) \<and>
    validate_payment_proof (merkle N) (chunk_name (cwp_chunk c)) (fee_root_hash (fee t))
      (audit_trail (cwp_payment c)) (proof_path (cwp_payment c)) = Inr leaf \<and>
    cost * (leaf + 1) \<le> fee_token (fee t)"
proof -
  let ?tasks = "join_order I (List.enumerate 0 (spent_ids (cwp_payment c)))"
  from assms have "chunk_payment_validation N I c True = Inr ()" by (intro puts_chunk(1)) (simp add: puts_def)
  then obtain ot where ot: "collect_payment_tx N I (chunk_name (cwp_chunk c)) None ?tasks = Inr ot" and "ot \<noteq> None"
    by (auto simp: chunk_payment_validation_def Let_def split: option.splits)
  then obtain t where t: "collect_payment_tx N I (chunk_name (cwp_chunk c)) None ?tasks = Inr (Some t)" by auto
  with \<open>chunk_payment_validation N I c True = Inr ()\<close> obtain cost where cost: "local_storecost I = Answer cost"
    and ok: "verify_fee_output_and_proof N (chunk_name (cwp_chunk c)) cost t (audit_trail (cwp_payment c)) (proof_path (cwp_payment c)) = Inr ()"
    by (auto simp: chunk_payment_validation_def Let_def await_with_def split: option.splits answer.splits sum.splits if_splits)
  from collect_payment_tx_sound [OF t] have "?tasks \<noteq> [] \<and> (\<forall>(call, j) \<in> set ?tasks.
     \<exists>sp. node_get_spend N I call (dbc_address_from_dbc_id (wire N) j) True = Inr sp \<and> spent_tx N sp = t)" by auto
  with cost verify_fee_output_and_proof_sound [OF ok] show ?thesis by blast
qed

theorem stored_chunk_is_paid_witness:
  "\<exists>cost leaf. cost * (leaf + 1) \<le> (100 :: token) \<and> validate_payment_proof demo_merkle [5] [3] [[5], [3]] [0, 1] = Inr leaf \<and> cost = 10"
proof -
  let ?c = "\<lparr>cwp_chunk = \<lparr>chunk_address = [5], chunk_value = [5]\<rparr>,
    cwp_payment = \<lparr>spent_ids = [[4]], audit_trail = [[5], [3]], proof_path = [0, 1]\<rparr>\<rparr>"
  let ?N = "demo_node\<lparr>wire := (wire demo_node)\<lparr>rmp_chunk_enc := (\<lambda>_. Some [7])\<rparr>\<rparr>"
  have get: "node_get_spend ?N demo_node_in n a re = Inr [4, 1]" for n a re
    by (simp add: node_get_spend_def get_record_at_once spends_from_record_def header_from_record_def demo_node_in_def
      map_failure_def RECORD_HEADER_SIZE_def header_try_deserialize_def kind_from_u32_def try_deserialize_record_def
      local_kad_record_def)
  have "Send (PutLocalRecord (local_kad_record [5] [0x91, 0, 7])) \<in> set (fst (validate_and_store_chunk ?N demo_node_in ?c True))"
    by (simp add: validate_and_store_chunk_def Let_def or_fail_def is_key_present_locally_def chunk_payment_validation_def get [simplified]
        await_with_def verify_fee_output_and_proof_def verify_fee_output_id_def demo_tx_def validate_payment_proof_def demo_merkle_def
        chunk_name_def enc_chunk_def try_serialize_record_def header_try_serialize_def store_locally_def from_chunk_address_def
        chunk_serialize_def)
  from stored_chunk_is_paid [OF this] show ?thesis by (auto simp: chunk_name_def demo_tx_def get)
qed

end
