(* ===== verification/Node_Replication.thy ===== *)
theory Node_Replication
  imports Node_Validation
begin

text \<open>
  Replication: which records a node sends where when a peer joins or leaves, and that a record
  served to a peer is stored there as it is here.
\<close>

section \<open>Batches\<close>

lemma split_keys_concat: "concat (split_keys ks) = ks"
proof (induction ks rule: split_keys.induct)
  case (1 ks)
  then show ?case by (subst split_keys.simps) (simp add: MAX_REPLICATION_KEYS_PER_REQUEST_def)
qed

lemma split_keys_length: "b \<in> set (split_keys ks) \<Longrightarrow> length b \<le> MAX_REPLICATION_KEYS_PER_REQUEST"
proof (induction ks rule: split_keys.induct)
  case (1 ks)
  then show ?case by (subst (asm) (2) split_keys.simps) (auto split: if_splits)
qed

section \<open>The replication list\<close>

definition keys_for :: "(peer_id, network_address list) btree_map \<Rightarrow> peer_id \<Rightarrow> network_address list" where
  "keys_for m t = (case bm_get m t of Some ks \<Rightarrow> ks | None \<Rightarrow> [])"

definition closest_peers :: "('d, 's) wire_env \<Rightarrow> peer_id list \<Rightarrow> nat \<Rightarrow> network_address \<Rightarrow> peer_id list" where
  "closest_peers W ps n k = take n (sort_key (peer_distance W k) ps)"

lemma sort_peers_closest_peers:
  "length ps \<ge> CLOSE_GROUP_SIZE \<Longrightarrow> n \<ge> CLOSE_GROUP_SIZE \<Longrightarrow> sort_peers_by_address W ps k n = Inr (closest_peers W ps n k)"
  by (simp add: sort_peers_by_address_eq closest_peers_def Let_def)

lemma replication_list_spec:
  assumes "length ps \<ge> CLOSE_GROUP_SIZE" and "bm_ok m"
  shows "\<exists>m'. replication_list W ps peer removal ks m = Inr m' \<and> bm_ok m' \<and>
    (\<forall>t. keys_for m' t = keys_for m t @ filter (\<lambda>k. replication_target peer removal (closest_peers W ps 9 k) = Some t) ks)"
  using assms(2)
proof (induction ks arbitrary: m)
  case Nil
  then show ?case by simp
next
  case (Cons k ks)
  have sort: "sort_peers_by_address W ps k (CLOSE_GROUP_SIZE + 1) = Inr (closest_peers W ps 9 k)"
    using sort_peers_closest_peers [OF assms(1), of 9 W k] by (simp add: CLOSE_GROUP_SIZE_def)
  show ?case
  proof (cases "replication_target peer removal (closest_peers W ps 9 k)")
    case None
    with Cons.IH [OF Cons.prems] sort show ?thesis by simp
  next
    case (Some t)
    let ?m = "bm_insert t (keys_for m t @ [k]) m"
    have "keys_for ?m t' = keys_for m t' @ (if t' = t then [k] else [])" for t'
      using Cons.prems by (simp add: keys_for_def map_of_bm_insert)
    moreover have "replication_list W ps peer removal (k # ks) m = replication_list W ps peer removal ks ?m"
      using Some sort by (simp add: keys_for_def)
    moreover have "bm_ok ?m" using Cons.prems by (rule bm_ok_insert)
    moreover from Cons.IH [OF this] obtain m' where "replication_list W ps peer removal ks ?m = Inr m'" "bm_ok m'"
      "\<forall>t. keys_for m' t = keys_for ?m t @ filter (\<lambda>k. replication_target peer removal (closest_peers W ps 9 k) = Some t) ks" by blast
    ultimately show ?thesis using Some by (intro exI [of _ m']) simp
  qed
qed

section \<open>The commands\<close>

text \<open>The keys sent to a peer by a list of actions, in order.\<close>

definition keys_sent :: "peer_id \<Rightarrow> ('d, 's) node_action list \<Rightarrow> network_address list" where
  "keys_sent t acts = concat (map (\<lambda>a. case a of
     Send (SendRequest (CmdReq (Replicate _ ks)) p None) \<Rightarrow> if p = t then ks else [] | _ \<Rightarrow> []) acts)"

lemma keys_sent_append [simp]: "keys_sent t (acts @ acts') = keys_sent t acts @ keys_sent t acts'"
  by (simp add: keys_sent_def)

lemma send_replicate_all:
  assumes "\<And>n. cmd_room I n"
  shows "send_replicate_cmds I a ps acts = (acts @ map (\<lambda>(p, ks). Send (SendRequest (CmdReq (Replicate a ks)) p None)) ps, Inr ())"
  using assms by (induction I a ps acts rule: send_replicate_cmds.induct) auto

lemma keys_sent_cmds:
  "keys_sent t (map (\<lambda>(p, ks). Send (SendRequest (CmdReq (Replicate a ks)) p None)) ps) =
     concat (map (\<lambda>(p, ks). if p = t then ks else []) ps)"
  by (induction ps) (auto simp: keys_sent_def)

lemma concat_batch:
  "concat (map (\<lambda>(p, ks). if p = t then ks else []) (map (Pair q) bs)) = (if q = t then concat bs else [])"
  by (induction bs) auto

lemma concat_batches:
  "concat (map (\<lambda>(p, ks). if p = t then ks else []) (concat (map (\<lambda>(p, ks). map (Pair p) (split_keys ks)) m))) =
     concat (map (\<lambda>(p, ks). if p = t then ks else []) m)"
proof (induction m)
  case (Cons e m)
  show ?case by (cases e) (simp del: map_map add: Cons concat_batch split_keys_concat)
qed simp

lemma concat_keys_for: "bm_ok m \<Longrightarrow> concat (map (\<lambda>(p, ks). if p = t then ks else []) m) = keys_for m t"
proof (induction m)
  case (Cons e m)
  obtain p ks where e: "e = (p, ks)" by force
  have "concat (map (\<lambda>(p, ks). if p = t then ks else []) m) = []" if "p = t"
    using Cons.prems that e by (auto simp: concat_eq_Nil_conv)
  with Cons e show ?case by (auto simp: keys_for_def)
qed (simp add: keys_for_def)

lemma trigger_replication_spec:
  assumes "all_local_peers I = Answer ps" and "length ps \<ge> node_k_value I" and "node_k_value I \<ge> CLOSE_GROUP_SIZE"
    and "all_local_records I = Answer ks" and "\<And>n. cmd_room I n"
  shows "\<exists>out. try_trigger_replication N I peer removal = (out, Inr ()) \<and>
    (\<forall>t. keys_sent t out = filter (\<lambda>k. replication_target peer removal
       (closest_peers (wire N) (if removal then ps @ [peer] else ps) 9 k) = Some t) ks) \<and>
    (\<forall>a \<in> set out. \<exists>p b. a = Send (SendRequest (CmdReq (Replicate (from_peer (self_id I)) b)) p None) \<and>
       length b \<le> MAX_REPLICATION_KEYS_PER_REQUEST)"
proof -
  let ?ps = "if removal then ps @ [peer] else ps"
  have "length ?ps \<ge> CLOSE_GROUP_SIZE" using assms(2,3) by auto
  from replication_list_spec [OF this bm_ok_Nil, of "wire N" peer removal ks] obtain m where
    m: "replication_list (wire N) ?ps peer removal ks [] = Inr m" "bm_ok m"
      "\<And>t. keys_for m t = filter (\<lambda>k. replication_target peer removal (closest_peers (wire N) ?ps 9 k) = Some t) ks"
    by (auto simp: keys_for_def [of "[]"])
  let ?out = "map (\<lambda>(p, ks). Send (SendRequest (CmdReq (Replicate (from_peer (self_id I)) ks)) p None))
     (concat (map (\<lambda>(p, ks). map (Pair p) (split_keys ks)) m)) :: ('a, 'b) node_action list"
  have "try_trigger_replication N I peer removal = (?out, Inr ())"
    using assms(1,2,4) m(1) by (simp add: try_trigger_replication_def await_with_def send_replicate_all [OF assms(5)])
  moreover have "keys_sent t ?out = keys_for m t" for t
    by (simp only: keys_sent_cmds concat_batches concat_keys_for [OF m(2)])
  moreover have "\<forall>a \<in> set ?out. \<exists>p b. a = Send (SendRequest (CmdReq (Replicate (from_peer (self_id I)) b)) p None) \<and>
       length b \<le> MAX_REPLICATION_KEYS_PER_REQUEST"
    by (auto dest: split_keys_length)
  ultimately show ?thesis unfolding m(3) by (intro exI [of _ ?out]) simp
qed

section \<open>Properties\<close>

lemma closest_nine:
  assumes "distinct ps" and "length ps \<ge> 9"
  shows "p \<in> set (closest_peers W ps 9 k) \<and> last (closest_peers W ps 9 k) \<noteq> p \<longleftrightarrow> p \<in> set (closest_peers W ps 8 k)"
proof -
  let ?L = "closest_peers W ps 9 k"
  have len: "length ?L = 9" and d: "distinct ?L" using assms by (simp_all add: closest_peers_def)
  have "butlast ?L = closest_peers W ps 8 k" using assms(2) by (simp add: closest_peers_def butlast_take)
  moreover have "?L = butlast ?L @ [last ?L]" using len by (intro append_butlast_last_id [symmetric]) auto
  ultimately have L: "?L = closest_peers W ps 8 k @ [last ?L]" by simp
  with d have "last ?L \<notin> set (closest_peers W ps 8 k)" by (metis distinct_append disjoint_iff list.set_intros(1))
  moreover have "set ?L = set (closest_peers W ps 8 k) \<union> {last ?L}" by (subst L) simp
  ultimately show ?thesis by auto
qed

lemma target_added:
  assumes "distinct ps" and "length ps \<ge> 9"
  shows "replication_target p False (closest_peers W ps 9 k) = Some t \<longleftrightarrow> p \<in> set (closest_peers W ps 8 k) \<and> t = p"
  using closest_nine [OF assms, of p W k] by (auto simp: replication_target_def Let_def)

lemma target_removed:
  assumes "distinct ps" and "length ps \<ge> 9"
  shows "replication_target p True (closest_peers W ps 9 k) = Some t \<longleftrightarrow>
    p \<in> set (closest_peers W ps 8 k) \<and> t = last (closest_peers W ps 9 k)"
  using closest_nine [OF assms, of p W k] by (auto simp: replication_target_def Let_def)

lemma replication_when_known:
  assumes "all_local_peers I = Answer ps" and "length ps \<ge> node_k_value I" and "node_k_value I \<ge> 9" and "distinct ps"
    and "all_local_records I = Answer ks" and "\<And>n. cmd_room I n"
  shows "keys_sent t (fst (try_trigger_replication N I p False)) =
      (if t = p then filter (\<lambda>k. p \<in> set (closest_peers (wire N) ps 8 k)) ks else [])"
    and "p \<notin> set ps \<Longrightarrow> keys_sent t (fst (try_trigger_replication N I p True)) =
      filter (\<lambda>k. p \<in> set (closest_peers (wire N) (ps @ [p]) 8 k) \<and> last (closest_peers (wire N) (ps @ [p]) 9 k) = t) ks"
proof -
  have k: "node_k_value I \<ge> CLOSE_GROUP_SIZE" "length ps \<ge> 9" using assms(2,3) by (simp_all add: CLOSE_GROUP_SIZE_def)
  note spec = trigger_replication_spec [OF assms(1,2) k(1) assms(5,6), of N p]
  have "keys_sent t (fst (try_trigger_replication N I p False)) = filter (\<lambda>k. p \<in> set (closest_peers (wire N) ps 8 k) \<and> t = p) ks"
    using spec [of False] by (auto simp: target_added [OF assms(4) k(2)])
  then show "keys_sent t (fst (try_trigger_replication N I p False)) =
      (if t = p then filter (\<lambda>k. p \<in> set (closest_peers (wire N) ps 8 k)) ks else [])" by auto
  assume "p \<notin> set ps"
  then have d: "distinct (ps @ [p])" "length (ps @ [p]) \<ge> 9" using assms(4) k(2) by simp_all
  from spec [of True] have "keys_sent t (fst (try_trigger_replication N I p True)) =
      filter (\<lambda>k. p \<in> set (closest_peers (wire N) (ps @ [p]) 8 k) \<and> t = last (closest_peers (wire N) (ps @ [p]) 9 k)) ks"
    by (auto simp: target_removed [OF d])
  then show "keys_sent t (fst (try_trigger_replication N I p True)) =
      filter (\<lambda>k. p \<in> set (closest_peers (wire N) (ps @ [p]) 8 k) \<and> last (closest_peers (wire N) (ps @ [p]) 9 k) = t) ks"
    by (simp only: eq_commute)
qed

text \<open>C31: When a peer joins, a node that knows at least as many peers as libp2p's \<open>K_VALUE\<close> (itself included) sends it
  exactly the keys of those of its records that have the peer among the eight closest, each once,
  and sends nothing to others; when a peer has left, the keys of the records that had it among the
  eight closest go to the peer that takes its place, the ninth closest. A node that knows fewer
  peers sends nothing at all. (The peers known are distinct, the one that left is no longer among
  them, \<open>K_VALUE\<close> is at least nine, and the command channel has room.)\<close>

theorem replication_on_churn:
  assumes "all_local_peers I = Answer ps" and "node_k_value I \<ge> 9" and "distinct ps"
    and "all_local_records I = Answer ks" and "\<And>n. cmd_room I n"
  shows "if length ps < node_k_value I
    then handle_network_event N I (PeerAdded p) = [] \<and> handle_network_event N I (PeerRemoved p) = []
    else keys_sent t (handle_network_event N I (PeerAdded p)) =
        (if t = p then filter (\<lambda>k. p \<in> set (closest_peers (wire N) ps 8 k)) ks else []) \<and>
      (p \<notin> set ps \<longrightarrow> keys_sent t (handle_network_event N I (PeerRemoved p)) =
        filter (\<lambda>k. p \<in> set (closest_peers (wire N) (ps @ [p]) 8 k) \<and> last (closest_peers (wire N) (ps @ [p]) 9 k) = t) ks)"
proof (cases "length ps < node_k_value I")
  case True
  with assms(1) show ?thesis by (simp add: handle_network_event_def try_trigger_replication_def await_with_def)
next
  case False
  then have "length ps \<ge> node_k_value I" by simp
  note known = replication_when_known [OF assms(1) this assms(2-5)]
  show ?thesis using False known(1) [of t N p] known(2) [of p t N] by (simp add: handle_network_event_def)
qed

theorem replication_on_churn_witness:
  "keys_sent [1] (handle_network_event demo_node
      (demo_node_in\<lparr>all_local_peers := Answer [[0], [1], [2], [3], [4], [5], [6], [7], [8], [9]], node_k_value := 9,
         all_local_records := Answer [RecordKeyAddr [2], RecordKeyAddr [200]]\<rparr>) (PeerAdded [1])) = [RecordKeyAddr [2]]"
proof -
  let ?ps = "[[0], [1], [2], [3], [4], [5], [6], [7], [8], [9]] :: peer_id list"
  let ?I = "demo_node_in\<lparr>all_local_peers := Answer ?ps, node_k_value := 9,
     all_local_records := Answer [RecordKeyAddr [2], RecordKeyAddr [200]]\<rparr>"
  have "[1] \<in> set (closest_peers (wire demo_node) ?ps 8 (RecordKeyAddr [2]))"
    "[1] \<notin> set (closest_peers (wire demo_node) ?ps 8 (RecordKeyAddr [200]))"
    by (simp_all add: closest_peers_def peer_distance_def addr_distance_def as_kbucket_key_def from_peer_def demo_wire_def)
  moreover have "keys_sent [1] (handle_network_event demo_node ?I (PeerAdded [1])) =
    filter (\<lambda>k. [1] \<in> set (closest_peers (wire demo_node) ?ps 8 k)) [RecordKeyAddr [2], RecordKeyAddr [200]]"
    using replication_on_churn [of ?I ?ps "[RecordKeyAddr [2], RecordKeyAddr [200]]" demo_node "[1]" "[1]"] by simp
  ultimately show ?thesis by simp
qed

text \<open>A chunk a node serves for replication is stored by the peer exactly as it is stored here:
  the query is answered with the chunk, and handling that answer puts a record with the same key
  and the same value, when the peer does not have the key yet and finds the payment in order.\<close>

theorem replicated_chunk_stored_alike:
  assumes "rmp_laws (wire N)" and "chunk_ok (wire N) (cwp_chunk c)" and "stored_chunk N r c"
    and "fetch I 0 (rec_key r) 0 = Answer (Inr r)"
    and "key_present J (rec_key r) = Answer False" and "chunk_payment_validation N J c False = Inr ()" and "cmd_room J 0"
  shows "\<exists>resp. handle_query N I (GetReplicatedData q (RecordKeyAddr (rec_key r))) = Some resp \<and>
    handle_network_event N J (ResponseReceived resp) =
      [Send (PutLocalRecord (local_kad_record (rec_key r) (rec_value r))), Broadcast (ChunkStored (rec_key r))]"
proof -
  from assms(3) have v: "try_serialize_record (wire N) (enc_chunk (wire N) c) ChunkKind = Inr (rec_value r)"
    and k: "rec_key r = chunk_address (cwp_chunk c)" using assms(2) by (simp_all add: stored_chunk_def chunk_ok_def)
  note chunk_record_read [OF assms(1,2) v]
  then have "get_replicated_data N I (RecordKeyAddr (rec_key r)) = Inr (RepChunk c)"
    using get_record_at_once [where attempts = "fetch I 0 (rec_key r)", OF assms(4)]
    by (simp add: get_replicated_data_def Let_def map_failure_def)
  then have "handle_query N I (GetReplicatedData q (RecordKeyAddr (rec_key r))) =
    Some (QueryResp (ReplicatedDataResp (Inr (from_peer (self_id I), RepChunk c))))" by (simp add: handle_query_def)
  moreover have "validate_and_store_chunk N J c False =
    ([Send (PutLocalRecord (local_kad_record (rec_key r) (rec_value r))), Broadcast (ChunkStored (rec_key r))], Inr StoredSuccessfully)"
    using validated_chunk_put [OF _ assms(6,7) v] assms(5) k by simp
  ultimately show ?thesis by (simp add: handle_network_event_def handle_response_def)
qed

text \<open>A chunk without a fee high enough is still replicated.\<close>

definition demo_chunk :: chunk_with_payment where
  "demo_chunk = \<lparr>cwp_chunk = \<lparr>chunk_address = [5], chunk_value = [5]\<rparr>,
     cwp_payment = \<lparr>spent_ids = [[4]], audit_trail = [[5], [3]], proof_path = [0, 1]\<rparr>\<rparr>"

definition demo_chunk_node :: "((bytes list \<times> bytes) btree_set, bytes, bytes list, bytes list \<times> u64 list) node_env" where
  "demo_chunk_node = demo_node\<lparr>wire := demo_wire\<lparr>
     rmp_chunk_enc := (\<lambda>(v, p). if p = cwp_payment demo_chunk then Some (1 # v) else None),
     rmp_chunk_dec := (\<lambda>b. Some (tl b, cwp_payment demo_chunk))\<rparr>\<rparr>"

theorem replicated_chunk_stored_alike_witness:
  "\<exists>resp. handle_query demo_chunk_node (demo_node_in\<lparr>fetch := (\<lambda>n k j. Answer (Inr (local_kad_record [5] [0x91, 0, 1, 5])))\<rparr>)
      (GetReplicatedData (PeerIdAddr [2]) (RecordKeyAddr [5])) = Some resp \<and>
    handle_network_event demo_chunk_node demo_node_in (ResponseReceived resp) =
      [Send (PutLocalRecord (local_kad_record [5] [0x91, 0, 1, 5])), Broadcast (ChunkStored [5])]"
proof -
  let ?I = "demo_node_in\<lparr>fetch := (\<lambda>n k j. Answer (Inr (local_kad_record [5] [0x91, 0, 1, 5])))\<rparr>"
  let ?r = "local_kad_record [5] [0x91, 0, 1, 5]"
  have laws: "rmp_laws (wire demo_chunk_node)"
    using demo_wire_laws(1) by (auto simp: rmp_laws_def demo_chunk_node_def codec_law_def split: if_splits)
  have get: "node_get_spend demo_chunk_node demo_node_in n a re = Inr [4, 1]" for n a re
    by (simp add: node_get_spend_def get_record_at_once spends_from_record_def header_from_record_def demo_node_in_def
      map_failure_def RECORD_HEADER_SIZE_def header_try_deserialize_def kind_from_u32_def try_deserialize_record_def
      local_kad_record_def demo_chunk_node_def demo_wire_def)
  have "chunk_payment_validation demo_chunk_node demo_node_in demo_chunk False = Inr ()"
    using get by (simp add: chunk_payment_validation_def Let_def demo_chunk_def
        await_with_def verify_fee_output_and_proof_def verify_fee_output_id_def demo_tx_def validate_payment_proof_def demo_merkle_def
        chunk_name_def demo_chunk_node_def)
  moreover have "chunk_ok (wire demo_chunk_node) (cwp_chunk demo_chunk)" "stored_chunk demo_chunk_node ?r demo_chunk"
    by (simp_all add: chunk_ok_def stored_chunk_def demo_chunk_def demo_chunk_node_def enc_chunk_def try_serialize_record_def
        header_try_serialize_def chunk_serialize_def local_kad_record_def)
  ultimately show ?thesis
    using replicated_chunk_stored_alike [OF laws, of demo_chunk ?r ?I demo_node_in "PeerIdAddr [2]"]
    by (simp add: local_kad_record_def)
qed

end
