(* ===== verification/Client.thy ===== *)
theory Client
  imports Node_Validation Wallet_Disk
begin

text \<open>
  The client of sn_client (\<open>api.rs\<close>, \<open>event.rs\<close>, \<open>error.rs\<close>): its state, the reads and writes
  of records through the network handle, and the events it broadcasts. The rest of the network
  is a parameter: a record \<open>client_net\<close> of what the swarm driver answers to the attempts of a
  fetch, a put or a quote in a network state of type \<open>'n\<close>, and of the state that follows. The
  handle's own retry and verification logic is that of theory \<open>Networking\<close>. An operation is a
  function from the network state to its result and the next state; \<open>op_bind\<close> is the
  \<open>?\<close> operator. Tasks joined with \<open>join_all\<close> are run one after the other. The debug texts
  interpolated into error messages are left out.
\<close>

section \<open>Data\<close>

datatype chunks_error =
    SelfEncryption string
  | ChunksIo string
  | Serialisation
  | EmptyFileProvided
  | SmallFilePaddingNeeded nat
  | TooLargeAsSmallFile nat nat
  | NotEnoughChunksRetrieved nat nat "xorname list"
  | NotAllDataWasChunked nat nat

datatype 's client_error =
    TransfersErr wallet_error
  | NetworkErr net_error
  | ProtocolErr "'s protocol_error"
  | RegisterErr reg_error
  | EventsReceiver
  | EventsSender
  | ResponseTimeout
  | CouldNotVerifyTransfer string
  | ChunksErr chunks_error
  | BincodeError
  | ContentBranchDetected "(entry_hash \<times> entry) btree_set"
  | MissingPaymentProof chunk_address
  | TokensNotSent string

datatype client_event = ClientConnected | InactiveClient nat

record client =
  signer :: secret_key
  peers_added :: nat
  progress :: bool
  network_store_cost :: u64

record ('n, 'd, 's) client_net =
  get_attempts :: "'n \<Rightarrow> record_key \<Rightarrow> nat \<Rightarrow> (net_error + kad_record) answer"
  after_get :: "'n \<Rightarrow> record_key \<Rightarrow> bool \<Rightarrow> 'n"
  put_attempts :: "'n \<Rightarrow> kad_record \<Rightarrow> nat \<Rightarrow> put_run"
  after_put :: "'n \<Rightarrow> kad_record \<Rightarrow> bool \<Rightarrow> 'n"
  quote_peers :: "'n \<Rightarrow> network_address \<Rightarrow> peer_id list answer"
  quote_reply :: "'n \<Rightarrow> network_address \<Rightarrow> peer_id \<Rightarrow> net_error + ('d, 's) response"

type_synonym ('n, 's, 'a) client_op = "'n \<Rightarrow> ('s client_error failure + 'a) \<times> 'n"

definition op_return :: "'s client_error failure + 'a \<Rightarrow> ('n, 's, 'a) client_op" where
  "op_return m = (\<lambda>n. (m, n))"

definition op_bind :: "('n, 's, 'a) client_op \<Rightarrow> ('a \<Rightarrow> ('n, 's, 'b) client_op) \<Rightarrow> ('n, 's, 'b) client_op" where
  "op_bind m f = (\<lambda>n. case m n of (Inl e, n') \<Rightarrow> (Inl e, n') | (Inr x, n') \<Rightarrow> f x n')"

definition op_map_err :: "('s client_error failure \<Rightarrow> 's client_error failure) \<Rightarrow> ('n, 's, 'a) client_op \<Rightarrow> ('n, 's, 'a) client_op" where
  "op_map_err g m = (\<lambda>n. case m n of (r, n') \<Rightarrow> (map_err g r, n'))"

text \<open>The conversions of \<open>From\<close> and \<open>map_err\<close>; a panic stays a panic.\<close>

definition lift_err :: "('e \<Rightarrow> 'f) \<Rightarrow> 'e failure + 'a \<Rightarrow> 'f failure + 'a" where
  "lift_err g m = map_err (\<lambda>f. case f of Err e \<Rightarrow> Err (g e) | Panic \<Rightarrow> Panic) m"

section \<open>The network handle\<close>

definition net_get :: "('n, 'd, 's) client_net \<Rightarrow> record_key \<Rightarrow> bool \<Rightarrow> ('n, 's, kad_record) client_op" where
  "net_get C key re_attempt = (\<lambda>n.
     (map_err (\<lambda>e. Err (NetworkErr e)) (get_record_from_network None re_attempt (get_attempts C n key)),
      after_get C n key re_attempt))"

definition net_put :: "('n, 'd, 's) client_net \<Rightarrow> kad_record \<Rightarrow> bool \<Rightarrow> ('n, 's, unit) client_op" where
  "net_put C r verify_store = (\<lambda>n.
     (map_err (\<lambda>e. Err (NetworkErr e)) (put_record r verify_store (put_attempts C n r)),
      after_put C n r verify_store))"

section \<open>Registers, chunks and spends\<close>

definition sign :: "('d, 's, 't, 'p) node_env \<Rightarrow> client \<Rightarrow> bytes \<Rightarrow> signature" where
  "sign N cl m = bls_sign (w_reg (wire N)) (signer cl) m"

definition signer_pk :: "('d, 's, 't, 'p) node_env \<Rightarrow> client \<Rightarrow> public_key" where
  "signer_pk N cl = pk_of (w_reg (wire N)) (signer cl)"

definition get_signed_register_from_network :: "('d, 's, 't, 'p) node_env \<Rightarrow> ('n, 'd, 's) client_net \<Rightarrow> register_address
    \<Rightarrow> ('n, 's, 'd signed_register) client_op" where
  "get_signed_register_from_network N C address =
     (let not_found = ProtocolErr (RegisterNotFound address)
      in op_bind (op_map_err (\<lambda>_. Err not_found) (net_get C (to_record_key (wire N) (from_register_address address)) False)) (\<lambda>r.
         op_return (bind_result (map_failure not_found (header_from_record (wire N) r)) (\<lambda>kind.
           if kind = RegisterKind
           then map_failure not_found (try_deserialize_record (rmp_register_dec (wire N)) r
                  :: 's protocol_error failure + 'd signed_register)
           else Inl (Err (ProtocolErr (RecordKindMismatch RegisterKind)))))))"

definition store_chunk :: "('d, 's, 't, 'p) node_env \<Rightarrow> ('n, 'd, 's) client_net \<Rightarrow> chunk \<Rightarrow> payment_proof \<Rightarrow> bool
    \<Rightarrow> ('n, 's, unit) client_op" where
  "store_chunk N C c payment verify_store =
     op_bind (op_return (map_err (\<lambda>e. Err (ProtocolErr e))
         (try_serialize_record (wire N) (enc_chunk (wire N) \<lparr>cwp_chunk = c, cwp_payment = payment\<rparr>) ChunkKind))) (\<lambda>v.
       net_put C (local_kad_record (to_record_key (wire N) (from_chunk_address (chunk_address c))) v) verify_store)"

definition get_chunk :: "('d, 's, 't, 'p) node_env \<Rightarrow> ('n, 'd, 's) client_net \<Rightarrow> chunk_address \<Rightarrow> ('n, 's, chunk) client_op" where
  "get_chunk N C address =
     op_bind (net_get C (to_record_key (wire N) (from_chunk_address address)) False) (\<lambda>r.
       op_return (bind_result (lift_err ProtocolErr (header_from_record (wire N) r)) (\<lambda>kind.
         if kind = ChunkKind
         then bind_result (lift_err ProtocolErr (try_deserialize_record (dec_chunk (wire N)) r)) (\<lambda>c. Inr (cwp_chunk c))
         else Inl (Err (ProtocolErr (RecordKindMismatch ChunkKind))))))"

definition network_store_spend :: "('d, 's, 't, 'p) node_env \<Rightarrow> ('n, 'd, 's) client_net \<Rightarrow> 's spend_request \<Rightarrow> bool
    \<Rightarrow> ('n, 's, unit) client_op" where
  "network_store_spend N C spend verify_store =
     (let dbc_addr = dbc_address_from_dbc_id (wire N) (spend_dbc_id (wire N) (signed_spend spend))
      in op_bind (op_return (map_err (\<lambda>e. Err (ProtocolErr e))
             (try_serialize_record (wire N) (rmp_spends_enc (wire N) [signed_spend spend]) DbcSpendKind))) (\<lambda>v.
           net_put C (local_kad_record (to_record_key (wire N) (from_dbc_address dbc_addr)) v) verify_store))"

definition client_spend_from_record :: "('d, 's, 't, 'p) node_env \<Rightarrow> dbc_id \<Rightarrow> kad_record \<Rightarrow> 's client_error failure + 's" where
  "client_spend_from_record N i r =
     bind_result (map_failure (CouldNotVerifyTransfer ''Can't parse RecordHeader'') (header_from_record (wire N) r)) (\<lambda>kind.
       if kind = DbcSpendKind
       then bind_result (map_failure (CouldNotVerifyTransfer ''Can't deserialize record'')
              (try_deserialize_record (rmp_spends_dec (wire N)) r :: 's protocol_error failure + 's list)) (\<lambda>spends.
            case spends of
              one # two # _ \<Rightarrow> Inl (Err (CouldNotVerifyTransfer ''Found double spend''))
            | [sp] \<Rightarrow>
                if spend_dbc_id (wire N) sp = i
                then (if spend_verify N sp (spent_tx_hash N sp) then Inr sp
                      else Inl (Err (CouldNotVerifyTransfer ''Spend failed verifiation'')))
                else Inl (Err (CouldNotVerifyTransfer ''Signed spend got from network mismatched the expected one''))
            | [] \<Rightarrow> Inl (Err (CouldNotVerifyTransfer ''Fetched record shows no spend'')))
       else Inl (Err (ProtocolErr (RecordKindMismatch DbcSpendKind))))"

definition client_get_spend :: "('d, 's, 't, 'p) node_env \<Rightarrow> ('n, 'd, 's) client_net \<Rightarrow> dbc_id \<Rightarrow> ('n, 's, 's) client_op" where
  "client_get_spend N C i =
     op_bind (op_map_err (\<lambda>_. Err (CouldNotVerifyTransfer ''errored''))
         (net_get C (to_record_key (wire N) (from_dbc_address (dbc_address_from_dbc_id (wire N) i))) True)) (\<lambda>r.
       op_return (client_spend_from_record N i r))"

text \<open>The store cost known to the client is replaced, or only raised when any cost will do.\<close>

definition get_store_cost_at_address :: "('n, 'd, 's) client_net \<Rightarrow> network_address \<Rightarrow> bool \<Rightarrow> client \<Rightarrow> 'n
    \<Rightarrow> ('s client_error failure + token) \<times> client" where
  "get_store_cost_at_address C address only_update_cost_if_higher cl n =
     (case get_store_cost_from_network (quote_peers C n address) (quote_reply C n address) only_update_cost_if_higher of
        Inl e \<Rightarrow> (Inl (Err (NetworkErr e)), cl)
      | Inr cost \<Rightarrow>
          let cl1 = (if cost > network_store_cost cl then cl\<lparr>network_store_cost := cost\<rparr> else cl);
              cl2 = (if \<not> only_update_cost_if_higher then cl1\<lparr>network_store_cost := cost\<rparr> else cl1)
          in (Inr cost, cl2))"

section \<open>Events\<close>

text \<open>\<open>subscribed\<close>: the broadcast channel has a receiver, otherwise \<open>send\<close> fails.\<close>

definition client_handle_network_event :: "bool \<Rightarrow> client \<Rightarrow> ('d, 's) network_event
    \<Rightarrow> client \<times> client_event list \<times> ('s client_error failure + unit)" where
  "client_handle_network_event subscribed cl e =
     (case e of
        PeerAdded p \<Rightarrow>
          let cl = cl\<lparr>peers_added := peers_added cl + 1\<rparr>
          in if peers_added cl \<ge> CLOSE_GROUP_SIZE
             then (if subscribed then (cl\<lparr>progress := False\<rparr>, [ClientConnected], Inr ())
                   else (cl\<lparr>progress := False\<rparr>, [], Inl (Err EventsSender)))
             else (cl, [], Inr ())
      | _ \<Rightarrow> (cl, [], Inr ()))"

text \<open>Whether a client started with these peers runs in local mode.\<close>

definition client_is_local :: "multiaddr list option \<Rightarrow> bool" where
  "client_is_local peers = (case peers of Some ps \<Rightarrow> \<not> list_ex multiaddr_is_global ps | None \<Rightarrow> True)"

definition client_new :: "secret_key \<Rightarrow> client" where
  "client_new sk = \<lparr>signer = sk, peers_added = 0, progress = True, network_store_cost = 0\<rparr>"

section \<open>A network that keeps what it accepts\<close>

text \<open>
  Named hypothesis on the rest of the network: once a put has succeeded, a fetch of the key
  brings the record, and reads and puts under other keys do not change that.
\<close>

definition holds :: "('n, 'd, 's) client_net \<Rightarrow> 'n \<Rightarrow> kad_record \<Rightarrow> bool" where
  "holds C n r \<longleftrightarrow> (\<forall>re_attempt. fst (net_get C (rec_key r) re_attempt n) = (Inr r :: 's client_error failure + kad_record))"

definition keeps_records :: "('n, 'd, 's) client_net \<Rightarrow> bool" where
  "keeps_records C \<longleftrightarrow>
     (\<forall>n r v. fst (net_put C r v n) = (Inr () :: 's client_error failure + unit) \<longrightarrow> holds C (after_put C n r v) r) \<and>
     (\<forall>n r k re. holds C n r \<longrightarrow> holds C (after_get C n k re) r) \<and>
     (\<forall>n r r' v. holds C n r \<longrightarrow> rec_key r' \<noteq> rec_key r \<longrightarrow> holds C (after_put C n r' v) r)"

section \<open>Lemmas\<close>

lemma op_return_simp [simp]: "op_return m n = (m, n)"
  by (simp add: op_return_def)

lemma op_bind_simps [simp]:
  "m n = (Inl e, n') \<Longrightarrow> op_bind m f n = (Inl e, n')"
  "m n = (Inr x, n') \<Longrightarrow> op_bind m f n = f x n'"
  by (simp_all add: op_bind_def)

lemma op_bind_Inr:
  "op_bind m f n = (Inr y, n2) \<longleftrightarrow> (\<exists>x n1. m n = (Inr x, n1) \<and> f x n1 = (Inr y, n2))"
  by (auto simp: op_bind_def split: prod.splits sum.splits)

lemma op_map_err_Inr [simp]: "op_map_err g m n = (Inr x, n') \<longleftrightarrow> m n = (Inr x, n')"
  by (auto simp: op_map_err_def split: prod.splits)

lemma map_failure_Inr [simp]: "map_failure e m = Inr x \<longleftrightarrow> m = Inr x"
  by (simp add: map_failure_def)

lemma lift_err_Inr [simp]: "lift_err g m = Inr x \<longleftrightarrow> m = Inr x"
  by (simp add: lift_err_def)

lemma net_put_kept:
  fixes C :: "('n, 'd, 's) client_net"
  assumes "keeps_records C" and "net_put C r v n = (Inr (), n')"
  shows "holds C n' r"
  using assms unfolding keeps_records_def by (metis fst_conv net_put_def snd_conv)

lemma holds_get:
  fixes C :: "('n, 'd, 's) client_net"
  assumes "holds C n r" and "rec_key r = k"
  shows "net_get C k re n = (Inr r, after_get C n k re)"
  using assms by (auto simp: holds_def net_get_def)

lemma holds_after_get: "keeps_records C \<Longrightarrow> holds C n r \<Longrightarrow> holds C (after_get C n k re) r"
  by (simp add: keeps_records_def)

lemma holds_after_put: "keeps_records C \<Longrightarrow> holds C n r \<Longrightarrow> rec_key r' \<noteq> rec_key r \<Longrightarrow> holds C (after_put C n r' v) r"
  by (simp add: keeps_records_def)

lemma local_kad_record_simps [simp]: "rec_key (local_kad_record k v) = k" "rec_value (local_kad_record k v) = v"
  by (simp_all add: local_kad_record_def)

section \<open>A concrete network\<close>

text \<open>A network that stores every record it is given and answers every fetch at once.\<close>

definition map_net :: "(record_key \<rightharpoonup> kad_record, 'd, 's) client_net" where
  "map_net = \<lparr>get_attempts = (\<lambda>m k _. Answer (case m k of Some r \<Rightarrow> Inr r | None \<Rightarrow> Inl RecordNotFound)),
     after_get = (\<lambda>m _ _. m), put_attempts = (\<lambda>m r _. (Answer (Inr ()), \<lambda>_. Answer (Inr r))),
     after_put = (\<lambda>m r _. m(rec_key r \<mapsto> r)), quote_peers = (\<lambda>_ _. Answer [[1], [2], [3], [4], [5]]),
     quote_reply = (\<lambda>_ _ _. Inr (QueryResp (StoreCostResp (Inr 10))))\<rparr>"

lemma map_net_get: "net_get map_net k re m = (case m k of Some r \<Rightarrow> Inr r | None \<Rightarrow> Inl (Err (NetworkErr RecordNotFound)), m)"
  by (cases re; cases "m k")
    (simp_all add: net_get_def map_net_def get_record_from_network_def VERIFICATION_ATTEMPTS_def await_with_def
      target_matches_def too_few_copies_def eval_nat_numeral)

lemma map_net_put: "net_put map_net r v m = (Inr (), m(rec_key r \<mapsto> r))"
  by (simp add: net_put_def map_net_def put_record_def put_record_with_retries_def PUT_RECORD_RETRIES_def
      put_record_once_def get_record_from_network_def VERIFICATION_ATTEMPTS_def await_with_def target_matches_def
      is_verify_failure_def eval_nat_numeral)

lemma map_net_after [simp]: "after_put map_net m r v = m(rec_key r \<mapsto> r)" "after_get map_net m k re = m"
  by (simp_all add: map_net_def)

lemma map_net_keeps: "keeps_records map_net"
  by (simp add: keeps_records_def holds_def map_net_get)

end
