(* ===== verification/Client_Register.thy ===== *)
theory Client_Register
  imports Client
begin

text \<open>
  The register of sn_client (\<open>register.rs\<close>): a local replica with the operations not yet
  published, its local writes, and the operations that talk to the network. The cached commands
  are listed from the front of the linked list to its back.
\<close>

section \<open>State and local operations\<close>

record 'd client_register =
  cr_client :: client
  cr_register :: "'d register"
  cr_ops :: "'d register_cmd list"

definition cr_create_register :: "('d, 's, 't, 'p) node_env \<Rightarrow> client \<Rightarrow> xorname \<Rightarrow> permissions \<Rightarrow> 'd client_register" where
  "cr_create_register N cl m perms =
     \<lparr>cr_client = cl, cr_register = register_new (w_reg (wire N)) (signer_pk N cl) m perms, cr_ops = []\<rparr>"

definition cr_create :: "('d, 's, 't, 'p) node_env \<Rightarrow> client \<Rightarrow> xorname \<Rightarrow> 'd client_register" where
  "cr_create N cl m = cr_create_register N cl m permissions_new_owner_only"

definition write_atop :: "('d, 's, 't, 'p) node_env \<Rightarrow> 'd client_register \<Rightarrow> bytes \<Rightarrow> entry_hash btree_set
    \<Rightarrow> 's client_error failure + 'd client_register" where
  "write_atop N cr entry children =
     (let E = w_reg (wire N); public_key = signer_pk N (cr_client cr)
      in map_err (\<lambda>e. Err (RegisterErr e))
           (bind_result (check_user_permissions (cr_register cr) (Key public_key)) (\<lambda>_.
            bind_result (register_write E (cr_register cr) entry children) (\<lambda>((_, op), r).
              let signature = sign N (cr_client cr) (bytes_for_signing E op);
                  op = add_signature op public_key signature
              in Inr (cr\<lparr>cr_register := r, cr_ops := RegEdit op # cr_ops cr\<rparr>)))))"

definition cr_write :: "('d, 's, 't, 'p) node_env \<Rightarrow> 'd client_register \<Rightarrow> bytes \<Rightarrow> 's client_error failure + 'd client_register" where
  "cr_write N cr entry =
     (let children = register_read (w_reg (wire N)) (cr_register cr)
      in if length children > 1 then Inl (Err (ContentBranchDetected children))
         else write_atop N cr entry (bs_collect (map fst children)))"

definition write_merging_branches :: "('d, 's, 't, 'p) node_env \<Rightarrow> 'd client_register \<Rightarrow> bytes
    \<Rightarrow> 's client_error failure + 'd client_register" where
  "write_merging_branches N cr entry =
     write_atop N cr entry (bs_collect (map fst (register_read (w_reg (wire N)) (cr_register cr))))"

section \<open>Operations on the network\<close>

definition get_register_from_network :: "('d, 's, 't, 'p) node_env \<Rightarrow> ('n, 'd, 's) client_net \<Rightarrow> register_address
    \<Rightarrow> ('n, 's, 'd register) client_op" where
  "get_register_from_network N C address =
     (let E = w_reg (wire N)
      in op_bind (get_signed_register_from_network N C address) (\<lambda>reg.
           op_return (map_err (\<lambda>e. Err (RegisterErr e))
             (bind_result (verify_with_address E reg address) (\<lambda>_. signed_register_register E reg)))))"

definition register_to_publish :: "('d, 's, 't, 'p) node_env \<Rightarrow> 'd register_cmd \<Rightarrow> 's client_error failure + 'd signed_register
    \<Rightarrow> 's client_error failure + 'd signed_register option" where
  "register_to_publish N cmd network_reg =
     (case cmd of
        RegCreate register signature \<Rightarrow>
          (case network_reg of
             Inl Panic \<Rightarrow> Inl Panic
           | Inl (Err _) \<Rightarrow> Inr (Some (signed_register_new register signature))
           | Inr existing_reg \<Rightarrow>
               if register_owner (base_register existing_reg) \<noteq> register_owner register
               then Inl (Err (ProtocolErr (RegisterAlreadyClaimed (register_owner (base_register existing_reg)))))
               else Inr None)
      | RegEdit op \<Rightarrow>
          bind_result network_reg (\<lambda>reg.
            map_err (\<lambda>e. Err (RegisterErr e)) (bind_result (add_op (w_reg (wire N)) reg op) (\<lambda>reg. Inr (Some reg)))))"

text \<open>Nothing is put when the register to create is already there.\<close>

definition publish_register :: "('d, 's, 't, 'p) node_env \<Rightarrow> ('n, 'd, 's) client_net \<Rightarrow> 'd register_cmd \<Rightarrow> bool
    \<Rightarrow> ('n, 's, unit) client_op" where
  "publish_register N C cmd verify_store = (\<lambda>n.
     case get_signed_register_from_network N C (register_cmd_dst cmd) n of (network_reg, n) \<Rightarrow>
       op_bind (op_return (register_to_publish N cmd network_reg)) (\<lambda>found. case found of
           None \<Rightarrow> op_return (Inr ())
         | Some register \<Rightarrow>
             op_bind (op_return (map_err (\<lambda>e. Err (ProtocolErr e))
                 (try_serialize_record (wire N) (rmp_register_enc (wire N) register) RegisterKind))) (\<lambda>v.
               net_put C (local_kad_record (to_record_key (wire N) (from_register_address (sr_address register))) v) verify_store)) n)"

text \<open>The loop of \<open>push\<close>, on the commands from the back; it returns those that are kept.\<close>

fun push_loop :: "('d, 's, 't, 'p) node_env \<Rightarrow> ('n, 'd, 's) client_net \<Rightarrow> bool \<Rightarrow> 'd register_cmd list \<Rightarrow> 'n
    \<Rightarrow> ('s client_error failure + unit) \<times> 'd register_cmd list \<times> 'n" where
  "push_loop N C verify_store [] n = (Inr (), [], n)"
| "push_loop N C verify_store (cmd # cmds) n =
     (case publish_register N C cmd verify_store n of
        (Inl err, n') \<Rightarrow> (Inl err, cmd # cmds, n')
      | (Inr _, n') \<Rightarrow> push_loop N C verify_store cmds n')"

definition push :: "('d, 's, 't, 'p) node_env \<Rightarrow> ('n, 'd, 's) client_net \<Rightarrow> bool \<Rightarrow> 'd client_register \<Rightarrow> 'n
    \<Rightarrow> ('s client_error failure + unit) \<times> 'd client_register \<times> 'n" where
  "push N C verify_store cr n =
     (case push_loop N C verify_store (rev (cr_ops cr)) n of
        (res, kept, n') \<Rightarrow> (res, cr\<lparr>cr_ops := rev kept\<rparr>, n'))"

definition create_cmd :: "('d, 's, 't, 'p) node_env \<Rightarrow> 'd client_register \<Rightarrow> 's client_error failure + 'd register_cmd" where
  "create_cmd N cr =
     map_err (\<lambda>e. Err (RegisterErr e)) (bind_result (register_bytes (w_reg (wire N)) (cr_register cr)) (\<lambda>bs.
       Inr (RegCreate (cr_register cr) (sign N (cr_client cr) bs))))"

definition fetch_or_create :: "('d, 's, 't, 'p) node_env \<Rightarrow> ('n, 'd, 's) client_net \<Rightarrow> bool \<Rightarrow> 'd client_register
    \<Rightarrow> ('n, 's, 'd register) client_op" where
  "fetch_or_create N C verify_store cr = (\<lambda>n.
     case get_register_from_network N C (register_address (cr_register cr)) n of
       (Inr r, n') \<Rightarrow> (Inr r, n')
     | (Inl Panic, n') \<Rightarrow> (Inl Panic, n')
     | (Inl (Err _), n') \<Rightarrow>
         op_bind (op_return (create_cmd N cr)) (\<lambda>cmd.
         op_bind (publish_register N C cmd verify_store) (\<lambda>_. op_return (Inr (cr_register cr)))) n')"

definition sync :: "('d, 's, 't, 'p) node_env \<Rightarrow> ('n, 'd, 's) client_net \<Rightarrow> bool \<Rightarrow> 'd client_register \<Rightarrow> 'n
    \<Rightarrow> ('s client_error failure + unit) \<times> 'd client_register \<times> 'n" where
  "sync N C verify_store cr n =
     (case fetch_or_create N C verify_store cr n of
        (Inl e, n') \<Rightarrow> (Inl e, cr, n')
      | (Inr remote_replica, n') \<Rightarrow>
          push N C verify_store (cr\<lparr>cr_register := register_merge (w_reg (wire N)) (cr_register cr) remote_replica\<rparr>) n')"

definition created_online :: "('s client_error failure + unit) \<times> 'd client_register \<times> 'n
    \<Rightarrow> ('s client_error failure + 'd client_register) \<times> 'n" where
  "created_online run = (case run of (res, cr, n) \<Rightarrow> (bind_result res (\<lambda>_. Inr cr), n))"

definition create_online :: "('d, 's, 't, 'p) node_env \<Rightarrow> ('n, 'd, 's) client_net \<Rightarrow> client \<Rightarrow> xorname \<Rightarrow> bool
    \<Rightarrow> ('n, 's, 'd client_register) client_op" where
  "create_online N C cl m verify_store n =
     created_online (sync N C verify_store (cr_create_register N cl m permissions_new_owner_only) n)"

definition create_public_online :: "('d, 's, 't, 'p) node_env \<Rightarrow> ('n, 'd, 's) client_net \<Rightarrow> client \<Rightarrow> xorname \<Rightarrow> bool
    \<Rightarrow> ('n, 's, 'd client_register) client_op" where
  "create_public_online N C cl m verify_store n =
     created_online (sync N C verify_store (cr_create_register N cl m permissions_new_owner_only) n)"

definition cr_retrieve :: "('d, 's, 't, 'p) node_env \<Rightarrow> ('n, 'd, 's) client_net \<Rightarrow> client \<Rightarrow> register_address
    \<Rightarrow> ('n, 's, 'd client_register) client_op" where
  "cr_retrieve N C cl address =
     op_bind (get_register_from_network N C address) (\<lambda>r.
       op_return (Inr \<lparr>cr_client = cl, cr_register = r, cr_ops = []\<rparr>))"

text \<open>The entry points of the client.\<close>

definition client_get_register :: "('d, 's, 't, 'p) node_env \<Rightarrow> ('n, 'd, 's) client_net \<Rightarrow> client \<Rightarrow> register_address
    \<Rightarrow> ('n, 's, 'd client_register) client_op" where
  "client_get_register N C cl address = cr_retrieve N C cl address"

definition client_create_register :: "('d, 's, 't, 'p) node_env \<Rightarrow> ('n, 'd, 's) client_net \<Rightarrow> client \<Rightarrow> xorname \<Rightarrow> bool
    \<Rightarrow> ('n, 's, 'd client_register) client_op" where
  "client_create_register N C cl m verify_store = create_online N C cl m verify_store"

declare client_get_register_def [simp] client_create_register_def [simp]

text \<open>A failed local write leaves the register as it was and does not push.\<close>

definition then_push :: "('d, 's, 't, 'p) node_env \<Rightarrow> ('n, 'd, 's) client_net \<Rightarrow> bool \<Rightarrow> 'd client_register
    \<Rightarrow> 's client_error failure + 'd client_register \<Rightarrow> 'n
    \<Rightarrow> ('s client_error failure + unit) \<times> 'd client_register \<times> 'n" where
  "then_push N C verify_store cr written n =
     (case written of Inl e \<Rightarrow> (Inl e, cr, n) | Inr cr' \<Rightarrow> push N C verify_store cr' n)"

definition write_online :: "('d, 's, 't, 'p) node_env \<Rightarrow> ('n, 'd, 's) client_net \<Rightarrow> 'd client_register \<Rightarrow> bytes \<Rightarrow> bool \<Rightarrow> 'n
    \<Rightarrow> ('s client_error failure + unit) \<times> 'd client_register \<times> 'n" where
  "write_online N C cr entry verify_store = then_push N C verify_store cr (cr_write N cr entry)"

definition write_merging_branches_online :: "('d, 's, 't, 'p) node_env \<Rightarrow> ('n, 'd, 's) client_net \<Rightarrow> 'd client_register \<Rightarrow> bytes
    \<Rightarrow> bool \<Rightarrow> 'n \<Rightarrow> ('s client_error failure + unit) \<times> 'd client_register \<times> 'n" where
  "write_merging_branches_online N C cr entry verify_store =
     then_push N C verify_store cr (write_merging_branches N cr entry)"

definition write_atop_online :: "('d, 's, 't, 'p) node_env \<Rightarrow> ('n, 'd, 's) client_net \<Rightarrow> 'd client_register \<Rightarrow> bytes
    \<Rightarrow> entry_hash btree_set \<Rightarrow> bool \<Rightarrow> 'n \<Rightarrow> ('s client_error failure + unit) \<times> 'd client_register \<times> 'n" where
  "write_atop_online N C cr entry children verify_store =
     then_push N C verify_store cr (write_atop N cr entry children)"

section \<open>What the Merkle register promises\<close>

text \<open>All the laws of the Merkle register together.\<close>

definition merkle_reg_laws :: "'d reg_env \<Rightarrow> bool" where
  "merkle_reg_laws E \<longleftrightarrow> merkle_commutes E \<and> merkle_idempotent E \<and> merkle_grows_by_one E \<and> merkle_write_value E \<and>
     (\<forall>d. mr_merge E d d = d) \<and> mr_num_nodes E (mr_new E) + mr_num_orphans E (mr_new E) = 0"

section \<open>Replaying operations\<close>

lemma foldl_effect_insert:
  assumes "merkle_commutes E" and "merkle_idempotent E"
  shows "foldl (apply_effect E) r (bs_insert op os) = apply_effect E (foldl (apply_effect E) r os) op"
proof (cases "op \<in> set os")
  case True
  then show ?thesis by (simp add: foldl_effect_absorb [OF assms] bs_insert_def insort_insert_key_def)
next
  case False
  then have "mset (bs_insert op os) = mset (op # os)"
    by (simp add: bs_insert_def insort_insert_key_def)
  then have "foldl (apply_effect E) r (bs_insert op os) = foldl (apply_effect E) r (op # os)"
    by (rule foldl_effect_mset [OF assms(1)])
  then show ?thesis by (simp add: foldl_effect_snoc [OF assms(1)])
qed

lemma register_with_new_op:
  assumes "merkle_commutes E" and "merkle_idempotent E" and "merkle_grows_by_one E"
    and "signed_register_register E sr = Inr r" and "op_fits E r op"
    and "register_size E (base_register sr) + length (ops sr) < MAX_REG_NUM_ENTRIES"
  shows "signed_register_register E (sr\<lparr>ops := bs_insert op (ops sr)\<rparr>) = Inr (apply_effect E r op)"
proof -
  have r: "r = foldl (apply_effect E) (base_register sr) (ops sr)"
    and fits: "\<forall>op \<in> set (ops sr). op_fits E (base_register sr) op"
    using try_fold_apply_op [of E _ _ r] try_fold_fits_rev [of E _ _ r] assms(4) by (simp_all add: signed_register_register_def)
  have "op_fits E (foldl (apply_effect E) q os) op = op_fits E q op" for q os
    by (induction os arbitrary: q) auto
  with assms(5) r have "op_fits E (base_register sr) op" by simp
  moreover have "length (bs_insert op (ops sr)) \<le> Suc (length (ops sr))"
    by (simp add: bs_insert_def insort_insert_key_def)
  ultimately have "try_fold (register_apply_op E) (base_register sr) (bs_insert op (ops sr))
      = Inr (foldl (apply_effect E) (base_register sr) (bs_insert op (ops sr)))"
    using fits assms(6) by (intro try_fold_fits [OF assms(3)]) auto
  then show ?thesis
    by (simp add: signed_register_register_def foldl_effect_insert [OF assms(1,2)] r)
qed

lemma signed_register_register_frame:
  assumes "signed_register_register E sr = Inr r"
  shows "register_address r = register_address (base_register sr)" "register_owner r = register_owner (base_register sr)"
    "reg_permissions r = reg_permissions (base_register sr)"
proof -
  have "register_address (foldl (apply_effect E) q os) = register_address q
      \<and> reg_permissions (foldl (apply_effect E) q os) = reg_permissions q" for q os
    by (induction os arbitrary: q) simp_all
  with assms try_fold_apply_op show "register_address r = register_address (base_register sr)"
    "register_owner r = register_owner (base_register sr)" "reg_permissions r = reg_permissions (base_register sr)"
    by (fastforce simp: signed_register_register_def register_owner_def)+
qed

section \<open>Publishing\<close>

definition register_record :: "('d, 's, 't, 'p) node_env \<Rightarrow> 'd signed_register \<Rightarrow> bytes \<Rightarrow> kad_record" where
  "register_record N sr v = local_kad_record (to_record_key (wire N) (from_register_address (sr_address sr))) v"

lemma get_signed_register_held:
  fixes N :: "('d, 's, 't, 'p) node_env" and C :: "('n, 'd, 's) client_net"
  assumes "rmp_laws (wire N)" and "holds C n (register_record N sr v)" and "sr_address sr = a"
    and "try_serialize_record (wire N) (rmp_register_enc (wire N) sr) RegisterKind = (Inr v :: 's protocol_error + bytes)"
  shows "fst (get_signed_register_from_network N C a n) = Inr sr"
proof -
  let ?r = "register_record N sr v" and ?k = "to_record_key (wire N) (from_register_address a)"
  have "codec_law (rmp_register_enc (wire N)) (rmp_register_dec (wire N))"
    using assms(1) by (simp add: rmp_laws_def)
  then have *: "\<And>bs. rmp_register_enc (wire N) sr = Some bs \<Longrightarrow> bs \<noteq> [] \<and> rmp_register_dec (wire N) bs = Some sr"
    by (simp add: codec_law_def)
  have "rec_value ?r = v" by (simp add: register_record_def)
  note rt = payload_roundtrip [OF assms(1) this assms(4), of "rmp_register_dec (wire N)" sr, OF *]
  have "net_get C ?k False n = (Inr ?r, after_get C n ?k False)"
    using assms(3) by (intro holds_get [OF assms(2)]) (simp add: register_record_def)
  then show ?thesis
    using rt by (simp add: get_signed_register_from_network_def Let_def op_map_err_def map_failure_def)
qed

lemma publish_edit_Inr:
  fixes N :: "('d, 's, 't, 'p) node_env" and C :: "('n, 'd, 's) client_net"
  assumes "publish_register N C (RegEdit op) v n = (Inr (), n')"
  obtains sr n1 sr' val where "get_signed_register_from_network N C (op_address op) n = (Inr sr, n1)"
    "add_op (w_reg (wire N)) sr op = Inr sr'"
    "try_serialize_record (wire N) (rmp_register_enc (wire N) sr') RegisterKind = (Inr val :: 's protocol_error + bytes)"
    "net_put C (register_record N sr' val) v n1 = (Inr (), n')"
proof -
  obtain res n1 where g: "get_signed_register_from_network N C (op_address op) n = (res, n1)" by fastforce
  with assms obtain sr sr' where sr: "res = Inr sr" "add_op (w_reg (wire N)) sr op = Inr sr'"
    by (auto simp: publish_register_def op_bind_Inr register_to_publish_def)
  with assms g that show thesis
    by (auto simp: publish_register_def register_to_publish_def op_bind_Inr register_record_def)
qed

text \<open>
  The network holds a verified register that replays to the client's replica: the state of a
  register the client has created or retrieved and that nobody else has changed since.
\<close>

definition in_step :: "('d, 's, 't, 'p) node_env \<Rightarrow> ('n, 'd, 's) client_net \<Rightarrow> 'd client_register \<Rightarrow> 'n \<Rightarrow> nat \<Rightarrow> bool" where
  "in_step N C cr n used \<longleftrightarrow> (let E = w_reg (wire N) in
     \<exists>sr v. holds C n (register_record N sr v) \<and> sr_address sr = register_address (cr_register cr) \<and>
       try_serialize_record (wire N) (rmp_register_enc (wire N) sr) RegisterKind = (Inr v :: 's protocol_error + bytes) \<and>
       signed_register_verify E sr = Inr () \<and> bs_ok (ops sr) \<and>
       signed_register_register E sr = Inr (cr_register cr) \<and>
       register_size E (base_register sr) + length (ops sr) \<le> used)"

lemma in_step_signed:
  fixes N :: "('d, 's, 't, 'p) node_env" and C :: "('n, 'd, 's) client_net"
  assumes "rmp_laws (wire N)" and "in_step N C cr n used"
  obtains sr n1 where "get_signed_register_from_network N C (register_address (cr_register cr)) n = (Inr sr, n1)"
    "signed_register_verify (w_reg (wire N)) sr = Inr ()" "bs_ok (ops sr)" "signed_register_register (w_reg (wire N)) sr = Inr (cr_register cr)"
    "register_size (w_reg (wire N)) (base_register sr) + length (ops sr) \<le> used"
  using assms(2) get_signed_register_held [OF assms(1)] that unfolding in_step_def Let_def by (metis prod.collapse)

lemma in_step_read:
  fixes N :: "('d, 's, 't, 'p) node_env" and C :: "('n, 'd, 's) client_net"
  assumes "rmp_laws (wire N)" and "in_step N C cr n used"
  shows "fst (get_register_from_network N C (register_address (cr_register cr)) n) = Inr (cr_register cr)"
  using assms
proof (rule in_step_signed)
  fix sr n1
  assume "get_signed_register_from_network N C (register_address (cr_register cr)) n = (Inr sr, n1)"
    "signed_register_verify (w_reg (wire N)) sr = Inr ()" "signed_register_register (w_reg (wire N)) sr = Inr (cr_register cr)"
  then show ?thesis
    using signed_register_register_frame(1) [of "w_reg (wire N)" sr "cr_register cr"]
    by (simp add: get_register_from_network_def Let_def verify_with_address_def)
qed

section \<open>An owner's write\<close>

lemma add_signature_owner:
  "op_source op = Key (pk_of E sk) \<Longrightarrow> add_signature op (pk_of E sk) (bls_sign E sk (bytes_for_signing E op)) = sign_with E op sk"
  by (simp add: add_signature_def sign_with_def bytes_for_signing_def Let_def)

lemma write_atop_Inr:
  assumes "write_atop N cr e children = Inr cr'"
  obtains op where "check_user_permissions (cr_register cr) (Key (signer_pk N (cr_client cr))) = Inr ()"
    "op = op_new (register_address (cr_register cr))
       (mr_write (w_reg (wire N)) (crdt_data (crdt (cr_register cr))) e (bs_collect children)) (Key (register_owner (cr_register cr))) None"
    "length e \<le> MAX_REG_ENTRY_SIZE"
    "cr' = cr\<lparr>cr_register := apply_effect (w_reg (wire N)) (cr_register cr) op,
       cr_ops := RegEdit (add_signature op (signer_pk N (cr_client cr))
         (sign N (cr_client cr) (bytes_for_signing (w_reg (wire N)) op))) # cr_ops cr\<rparr>"
  using assms
  by (auto simp: write_atop_def register_write_def crdt_write_def apply_effect_def op_new_def Let_def register_address_def)

text \<open>The one command a write by the owner leaves to push, and its publication.\<close>

lemma owner_write_pushed:
  fixes N :: "('d, 's, 't, 'p) node_env" and C :: "('n, 'd, 's) client_net"
  assumes owner: "signer_pk N (cr_client cr) = register_owner (cr_register cr)" and "cr_ops cr = []"
    and wv: "merkle_write_value (w_reg (wire N))"
    and run: "then_push N C v cr (write_atop N cr e children) n = (Inr (), cr', n')"
  obtains op where "publish_register N C (RegEdit op) v n = (Inr (), n')"
    "cr' = cr\<lparr>cr_register := apply_effect (w_reg (wire N)) (cr_register cr) op, cr_ops := []\<rparr>"
    "op_address op = register_address (cr_register cr)" "length (node_value (op_crdt_op op)) \<le> MAX_REG_ENTRY_SIZE"
    "node_value (op_crdt_op op) = e"
proof -
  let ?E = "w_reg (wire N)" and ?r = "cr_register cr"
  obtain cr1 where w: "write_atop N cr e children = Inr cr1" and p: "push N C v cr1 n = (Inr (), cr', n')"
    using run by (auto simp: then_push_def split: sum.splits)
  from write_atop_Inr [OF w] obtain op where op: "op = op_new (register_address ?r)
      (mr_write ?E (crdt_data (crdt ?r)) e (bs_collect children)) (Key (register_owner ?r)) None" and e: "length e \<le> MAX_REG_ENTRY_SIZE"
    and cr1: "cr1 = cr\<lparr>cr_register := apply_effect ?E ?r op, cr_ops := RegEdit (add_signature op (signer_pk N (cr_client cr))
         (sign N (cr_client cr) (bytes_for_signing ?E op))) # cr_ops cr\<rparr>" .
  define op' where "op' = sign_with ?E op (signer (cr_client cr))"
  have "op_source op = Key (pk_of ?E (signer (cr_client cr)))" using owner by (simp add: op op_new_def signer_pk_def)
  from add_signature_owner [OF this] cr1 \<open>cr_ops cr = []\<close>
  have "cr1 = cr\<lparr>cr_register := apply_effect ?E ?r op', cr_ops := [RegEdit op']\<rparr>"
    by (simp add: sign_def signer_pk_def op'_def apply_effect_def)
  with p have "publish_register N C (RegEdit op') v n = (Inr (), n')"
    "cr' = cr\<lparr>cr_register := apply_effect ?E ?r op', cr_ops := []\<rparr>"
    by (auto simp: push_def split: prod.splits sum.splits)
  then show thesis
    using e wv by (intro that [of op']) (simp_all add: op'_def op op_new_def merkle_write_value_def)
qed

lemma publish_edit_in_step:
  fixes N :: "('d, 's, 't, 'p) node_env" and C :: "('n, 'd, 's) client_net"
  assumes laws: "merkle_commutes (w_reg (wire N))" "merkle_idempotent (w_reg (wire N))"
      "merkle_grows_by_one (w_reg (wire N))" "rmp_laws (wire N)" "keeps_records C"
    and step: "in_step N C cr n used" and "used < MAX_REG_NUM_ENTRIES"
    and pub: "publish_register N C (RegEdit op) v n = (Inr (), n')"
    and addr: "op_address op = register_address (cr_register cr)" and len: "length (node_value (op_crdt_op op)) \<le> MAX_REG_ENTRY_SIZE"
  shows "in_step N C (cr\<lparr>cr_register := apply_effect (w_reg (wire N)) (cr_register cr) op, cr_ops := os\<rparr>) n' (Suc used)"
proof -
  let ?E = "w_reg (wire N)" and ?r = "cr_register cr"
  from publish_edit_Inr [OF pub] obtain sr n1 sr' val where
    g: "get_signed_register_from_network N C (register_address ?r) n = (Inr sr, n1)" and add: "add_op ?E sr op = Inr sr'"
    and ser: "try_serialize_record (wire N) (rmp_register_enc (wire N) sr') RegisterKind = (Inr val :: 's protocol_error + bytes)"
    and put: "net_put C (register_record N sr' val) v n1 = (Inr (), n')" by (metis addr)
  from in_step_signed [OF laws(4) step] g have sr: "signed_register_verify ?E sr = Inr ()" "bs_ok (ops sr)"
    "signed_register_register ?E sr = Inr ?r" "register_size ?E (base_register sr) + length (ops sr) \<le> used"
    by (metis prod.inject sum.inject(2))+
  note frame = signed_register_register_frame [OF sr(3)]
  have sr': "sr' = sr\<lparr>ops := bs_insert op (ops sr)\<rparr>" and "check_register_op ?E (base_register sr) op = Inr ()"
    using add by (auto simp: add_op_def)
  then have "op_fits ?E ?r op"
    using addr len frame by (simp add: op_fits_def check_register_op_def check_user_permissions_def)
  then have reg: "signed_register_register ?E sr' = Inr (apply_effect ?E ?r op)"
    using register_with_new_op [OF laws(1-3) sr(3)] sr(4) assms(7) sr' by simp
  have "sr_address sr' = register_address ?r" using frame(1) sr' by (simp add: sr_address_def)
  moreover note net_put_kept [OF laws(5) put] ser
  moreover have "length (ops sr') \<le> Suc (length (ops sr))"
    by (simp add: sr' bs_insert_def insort_insert_key_def)
  ultimately show ?thesis
    using reg add_op_ok [OF conjI [OF sr(1,2)] add] sr(4) unfolding in_step_def Let_def
    by (intro exI [of _ sr'] exI [of _ val]) (auto simp: sr')
qed

section \<open>Creating a register\<close>

lemma publish_create_Inr:
  fixes N :: "('d, 's, 't, 'p) node_env" and C :: "('n, 'd, 's) client_net"
  assumes "publish_register N C (RegCreate r sig) v n = (Inr (), n')"
    and "get_signed_register_from_network N C (register_address r) n = (Inl (Err e), n1)"
  obtains val where
    "try_serialize_record (wire N) (rmp_register_enc (wire N) (signed_register_new r sig)) RegisterKind = (Inr val :: 's protocol_error + bytes)"
    "net_put C (register_record N (signed_register_new r sig) val) v n1 = (Inr (), n')"
  using assms by (auto simp: publish_register_def register_to_publish_def op_bind_Inr register_record_def)

lemma create_online_in_step:
  fixes N :: "('d, 's, 't, 'p) node_env" and C :: "('n, 'd, 's) client_net"
  assumes laws: "sig_correct (w_reg (wire N))" "merkle_reg_laws (w_reg (wire N))" "rmp_laws (wire N)" "keeps_records C"
    and absent: "get_signed_register_from_network N C (RegisterAddress m (signer_pk N cl)) n = (Inl (Err e1), n1)"
      "get_signed_register_from_network N C (RegisterAddress m (signer_pk N cl)) n1 = (Inl (Err e2), n2)"
    and run: "create_online N C cl m v n = (Inr cr, n')"
  shows "in_step N C cr n' 0 \<and> cr = cr_create N cl m"
proof -
  let ?E = "w_reg (wire N)" and ?cr = "cr_create N cl m"
  let ?r = "cr_register ?cr"
  have addr: "register_address ?r = RegisterAddress m (signer_pk N cl)" "cr_ops ?cr = []" "cr_client ?cr = cl"
    by (simp_all add: cr_create_def cr_create_register_def register_new_def register_address_def crdt_new_def)
  have merge: "?cr\<lparr>cr_register := register_merge ?E ?r ?r\<rparr> = ?cr"
    using laws(2) by (simp add: merkle_reg_laws_def register_merge_def crdt_merge_def)
  have fails: "get_register_from_network N C (register_address ?r) n = (Inl (Err e1), n1)"
    using absent(1) by (simp add: get_register_from_network_def Let_def addr)
  from run fails addr(2) obtain bs where bs: "register_bytes ?E ?r = Inr bs"
    and pub: "publish_register N C (RegCreate ?r (sign N cl bs)) v n1 = (Inr (), n')" and cr: "cr = ?cr"
    by (auto simp: create_online_def created_online_def sync_def fetch_or_create_def create_cmd_def op_bind_Inr push_def merge addr(3)
        simp flip: cr_create_def split: prod.splits sum.splits failure.splits)
  define sr where "sr = signed_register_new ?r (sign N cl bs)"
  from publish_create_Inr [OF pub] absent(2) addr(1) obtain val where
    ser: "try_serialize_record (wire N) (rmp_register_enc (wire N) sr) RegisterKind = (Inr val :: 's protocol_error + bytes)"
    and put: "net_put C (register_record N sr val) v n2 = (Inr (), n')" unfolding sr_def by metis
  note net_put_kept [OF laws(4) put] ser
  moreover have "sr_address sr = register_address ?r" by (simp add: sr_def sr_address_def signed_register_new_def)
  moreover have "register_owner ?r = pk_of ?E (signer cl)" by (simp add: register_owner_def addr(1) signer_pk_def)
  moreover have "register_size ?E ?r = 0"
    using laws(2) by (simp add: merkle_reg_laws_def register_size_def crdt_size_def cr_create_def cr_create_register_def
        register_new_def crdt_new_def)
  ultimately show ?thesis
    using bs laws(1) cr unfolding in_step_def Let_def
    by (intro conjI exI [of _ sr] exI [of _ val]) (auto simp: sr_def signed_register_new_def signed_register_verify_ok_iff
        signed_register_register_def sign_def sig_correct_def bs.ok_empty)
qed

section \<open>Properties\<close>

text \<open>A sequence of successful online writes through one client register.\<close>

inductive online_writes :: "('d, 's, 't, 'p) node_env \<Rightarrow> ('n, 'd, 's) client_net \<Rightarrow> 'd client_register \<Rightarrow> 'n
    \<Rightarrow> nat \<Rightarrow> 'd client_register \<Rightarrow> 'n \<Rightarrow> bool" for N C cr0 n0 where
  none: "online_writes N C cr0 n0 0 cr0 n0"
| latest: "online_writes N C cr0 n0 k cr n \<Longrightarrow> write_online N C cr e v n = (Inr (), cr', n') \<Longrightarrow>
    online_writes N C cr0 n0 (Suc k) cr' n'"
| merging: "online_writes N C cr0 n0 k cr n \<Longrightarrow> write_merging_branches_online N C cr e v n = (Inr (), cr', n') \<Longrightarrow>
    online_writes N C cr0 n0 (Suc k) cr' n'"
| atop: "online_writes N C cr0 n0 k cr n \<Longrightarrow> write_atop_online N C cr e children v n = (Inr (), cr', n') \<Longrightarrow>
    online_writes N C cr0 n0 (Suc k) cr' n'"

lemma online_write_atop:
  assumes "write_online N C cr e v n = (Inr (), cr', n') \<or> write_merging_branches_online N C cr e v n = (Inr (), cr', n') \<or>
    write_atop_online N C cr e children v n = (Inr (), cr', n')"
  shows "\<exists>children. then_push N C v cr (write_atop N cr e children) n = (Inr (), cr', n')"
  using assms
  by (auto simp: write_online_def write_merging_branches_online_def write_atop_online_def cr_write_def
      write_merging_branches_def then_push_def Let_def split: if_splits)

lemma online_write_in_step:
  fixes N :: "('d, 's, 't, 'p) node_env" and C :: "('n, 'd, 's) client_net"
  assumes "merkle_reg_laws (w_reg (wire N))" "rmp_laws (wire N)" "keeps_records C"
    and "in_step N C cr n k" and "k < MAX_REG_NUM_ENTRIES" and "cr_ops cr = []"
    and "signer_pk N (cr_client cr) = register_owner (cr_register cr)"
    and "write_online N C cr e v n = (Inr (), cr', n') \<or> write_merging_branches_online N C cr e v n = (Inr (), cr', n') \<or>
      write_atop_online N C cr e children v n = (Inr (), cr', n')"
  shows "in_step N C cr' n' (Suc k) \<and> cr_ops cr' = [] \<and> signer_pk N (cr_client cr') = register_owner (cr_register cr')"
proof -
  from online_write_atop [OF assms(8)] obtain ch where "then_push N C v cr (write_atop N cr e ch) n = (Inr (), cr', n')" ..
  from owner_write_pushed [OF assms(7,6) _ this] assms(1) obtain op where op: "publish_register N C (RegEdit op) v n = (Inr (), n')"
    "cr' = cr\<lparr>cr_register := apply_effect (w_reg (wire N)) (cr_register cr) op, cr_ops := []\<rparr>"
    "op_address op = register_address (cr_register cr)" "length (node_value (op_crdt_op op)) \<le> MAX_REG_ENTRY_SIZE"
    by (auto simp: merkle_reg_laws_def)
  with publish_edit_in_step [OF _ _ _ assms(2,3,4,5) op(1,3,4), of "[]"] assms(1,7) show ?thesis
    by (simp add: merkle_reg_laws_def)
qed

text \<open>C9: A register created online by a client and written through that client any number of times,
  by any of the three kinds of write, is retrieved by every client exactly as the writer's
  replica shows it -- provided the address was free, the network keeps the records it accepts,
  and there are no more writes than a register has room for.\<close>

theorem client_register_roundtrip:
  fixes N :: "('d, 's, 't, 'p) node_env" and C :: "('n, 'd, 's) client_net"
  assumes laws: "sig_correct (w_reg (wire N))" "merkle_reg_laws (w_reg (wire N))" "rmp_laws (wire N)" "keeps_records C"
    and absent: "get_signed_register_from_network N C (RegisterAddress m (signer_pk N cl)) n = (Inl (Err e1), n1)"
      "get_signed_register_from_network N C (RegisterAddress m (signer_pk N cl)) n1 = (Inl (Err e2), n2)"
    and created: "create_online N C cl m v n = (Inr cr, n3)"
    and writes: "online_writes N C cr n3 k cr' n'" and room: "k \<le> MAX_REG_NUM_ENTRIES"
  shows "fst (cr_retrieve N C reader (register_address (cr_register cr')) n')
    = Inr \<lparr>cr_client = reader, cr_register = cr_register cr', cr_ops = []\<rparr>"
proof -
  from create_online_in_step [OF laws absent created] have start: "in_step N C cr n3 0" and cr: "cr = cr_create N cl m" by blast+
  have "cr_ops cr = []" "signer_pk N (cr_client cr) = register_owner (cr_register cr)"
    by (simp_all add: cr cr_create_def cr_create_register_def register_owner_def register_address_def register_new_def crdt_new_def)
  have "in_step N C cr' n' k \<and> cr_ops cr' = [] \<and> signer_pk N (cr_client cr') = register_owner (cr_register cr')"
    using writes room
  proof induction
    case none
    with start \<open>cr_ops cr = []\<close> \<open>signer_pk N (cr_client cr) = _\<close> show ?case by simp
  next
    case (latest k cr n e v cr' n')
    then show ?case by (intro online_write_in_step [OF laws(2-4)]) auto
  next
    case (merging k cr n e v cr' n')
    then show ?case by (intro online_write_in_step [OF laws(2-4)]) auto
  next
    case (atop k cr n e children v cr' n')
    then show ?case by (intro online_write_in_step [OF laws(2-4)]) auto
  qed
  then obtain n4 where "get_register_from_network N C (register_address (cr_register cr')) n' = (Inr (cr_register cr'), n4)"
    using in_step_read [OF laws(3)] by (metis prod.collapse)
  then show ?thesis by (simp add: cr_retrieve_def)
qed

text \<open>A node environment whose wire format can write the two states of a small register.\<close>

definition demo_reg_node :: "((bytes list \<times> bytes) btree_set, bytes, bytes list, bytes list \<times> u64 list) node_env" where
  "demo_reg_node = demo_node\<lparr>wire := demo_wire\<lparr>
     rmp_register_enc := (\<lambda>sr. if sr = signed_register_new demo_register [1, 7, 1] then Some [1]
        else if sr = demo_signed 5 then Some [2] else None),
     rmp_register_dec := (\<lambda>b. Some (if b = [1] then signed_register_new demo_register [1, 7, 1] else demo_signed 5))\<rparr>\<rparr>"

lemma demo_reg_node_sel [simp]:
  "w_reg (wire demo_reg_node) = demo_env"
  "rmp_register_enc (wire demo_reg_node) sr = (if sr = signed_register_new demo_register [1, 7, 1] then Some [1]
     else if sr = demo_signed 5 then Some [2] else None)"
  "rmp_register_dec (wire demo_reg_node) b = Some (if b = [1] then signed_register_new demo_register [1, 7, 1] else demo_signed 5)"
  "try_serialize_record (wire demo_reg_node) (Some bs) RegisterKind = Inr (0x91 # 2 # bs)"
  "xor_content (wire demo_reg_node) x = x"
  by (simp_all add: demo_reg_node_def demo_wire_def try_serialize_record_def header_try_serialize_def)

lemma demo_reg_laws: "rmp_laws (wire demo_reg_node)" "merkle_reg_laws demo_env"
proof -
  show "rmp_laws (wire demo_reg_node)"
    using demo_wire_laws(1) by (auto simp: rmp_laws_def codec_law_def demo_reg_node_def split: if_splits)
  have "bs_extend d d = d" for d :: "(bytes list \<times> bytes) list"
  proof -
    have "fold bs_insert xs d = d" if "set xs \<subseteq> set d" for xs
      using that by (induction xs) (auto simp: bs_insert_def insort_insert_key_def)
    then show ?thesis by (simp add: bs_extend_def)
  qed
  with demo_env_laws(3,4) show "merkle_reg_laws demo_env" by (simp add: merkle_reg_laws_def) (simp add: demo_env_def)
qed

definition demo_reg_store :: "'d signed_register \<Rightarrow> ('d, 's, 't, 'p) node_env \<Rightarrow> bytes \<Rightarrow> record_key \<rightharpoonup> kad_record" where
  "demo_reg_store sr N bs = [rec_key (register_record N sr bs) \<mapsto> register_record N sr bs]"

lemma demo_cr_create: "cr_create demo_reg_node (client_new [1]) [7] = \<lparr>cr_client = client_new [1], cr_register = demo_register, cr_ops = []\<rparr>"
  by (simp add: cr_create_def cr_create_register_def demo_register_def signer_pk_def client_new_def demo_env_def)

lemma demo_reg_absent:
  "get_signed_register_from_network demo_reg_node map_net a Map.empty = (Inl (Err (ProtocolErr (RegisterNotFound a))), Map.empty)"
  by (simp add: get_signed_register_from_network_def Let_def op_map_err_def op_bind_def map_net_get)

lemma demo_create_online:
  "create_online demo_reg_node map_net (client_new [1]) [7] v Map.empty
     = (Inr (cr_create demo_reg_node (client_new [1]) [7]),
        demo_reg_store (signed_register_new demo_register [1, 7, 1]) demo_reg_node [0x91, 2, 1])"
proof -
  have "register_bytes demo_env demo_register = Inr [7, 1]" "register_merge demo_env demo_register demo_register = demo_register"
    "signer (client_new [1]) = [1]" "bls_sign demo_env sk bs = sk @ bs" for sk bs
    by (simp_all add: register_bytes_def demo_register_def register_new_def register_address_def crdt_new_def demo_env_def
        register_merge_def crdt_merge_def bs_extend_def client_new_def)
  then show ?thesis
    by (simp add: create_online_def created_online_def sync_def fetch_or_create_def get_register_from_network_def Let_def
        demo_reg_absent create_cmd_def publish_register_def register_to_publish_def map_net_put sign_def push_def
        register_record_def demo_reg_store_def demo_cr_create op_bind_def flip: cr_create_def)
qed

lemma demo_write:
  "write_atop demo_reg_node (cr_create demo_reg_node (client_new [1]) [7]) [5] []
     = Inr \<lparr>cr_client = client_new [1], cr_register = apply_effect demo_env demo_register (demo_op 5), cr_ops = [RegEdit (demo_op 5)]\<rparr>"
proof -
  have own: "register_owner demo_register = [1]" "signer (client_new [1]) = [1]" "pk_of demo_env sk = sk" for sk
    by (simp_all add: demo_register_def register_new_def register_owner_def register_address_def crdt_new_def client_new_def demo_env_def)
  let ?op = "op_new (register_address demo_register) (MerkleNode [] [5]) (Key [1]) None"
  have "register_write demo_env demo_register [5] [] = Inr (([5], ?op), apply_effect demo_env demo_register ?op)"
    by (simp add: register_write_def check_entry_and_reg_sizes_def MAX_REG_ENTRY_SIZE_def MAX_REG_NUM_ENTRIES_def crdt_size_def
        crdt_write_def apply_effect_def register_address_def op_new_def Let_def bs_collect_def bs_extend_def)
      (simp add: demo_register_def register_new_def crdt_new_def register_owner_def register_address_def demo_env_def)
  moreover have "add_signature ?op [1] (bls_sign demo_env [1] (bytes_for_signing demo_env ?op)) = demo_op 5"
    using add_signature_owner [of ?op demo_env "[1]"] own(3)
    by (simp add: op_new_def demo_op_def sign_with_def Let_def)
  ultimately show ?thesis
    by (simp add: write_atop_def Let_def demo_cr_create own sign_def signer_pk_def) (simp add: apply_effect_def op_new_def)
qed

lemma demo_register_read: "register_read demo_env demo_register = []"
  by (simp add: register_read_def crdt_read_def demo_register_def register_new_def crdt_new_def demo_env_def bs_collect_def bs_extend_def)

lemma demo_write_online:
  "write_online demo_reg_node map_net (cr_create demo_reg_node (client_new [1]) [7]) [5] v
      (demo_reg_store (signed_register_new demo_register [1, 7, 1]) demo_reg_node [0x91, 2, 1])
   = (Inr (), \<lparr>cr_client = client_new [1], cr_register = apply_effect demo_env demo_register (demo_op 5), cr_ops = []\<rparr>,
      demo_reg_store (demo_signed 5) demo_reg_node [0x91, 2, 2])"
proof -
  let ?sr = "signed_register_new demo_register [1, 7, 1]" and ?bs = "[0x91, 2, 1]"
  have addr: "sr_address ?sr = op_address (demo_op 5)" "sr_address (demo_signed 5) = op_address (demo_op 5)"
    by (simp_all add: sr_address_def signed_register_new_def demo_checks)
  have "holds map_net (demo_reg_store ?sr demo_reg_node ?bs) (register_record demo_reg_node ?sr ?bs)"
    by (simp add: holds_def map_net_get demo_reg_store_def)
  from get_signed_register_held [OF demo_reg_laws(1) this addr(1)] have
    "fst (get_signed_register_from_network demo_reg_node map_net (op_address (demo_op 5)) (demo_reg_store ?sr demo_reg_node ?bs)) = Inr ?sr"
    by simp
  moreover have "snd (get_signed_register_from_network N map_net a n) = n" for N :: "('a, 'b, 'c, 'd) node_env" and a n
    by (simp add: get_signed_register_from_network_def Let_def op_map_err_def op_bind_def map_net_get split: sum.splits)
  ultimately have "get_signed_register_from_network demo_reg_node map_net (op_address (demo_op 5)) (demo_reg_store ?sr demo_reg_node ?bs)
      = (Inr ?sr, demo_reg_store ?sr demo_reg_node ?bs)" by (metis prod.collapse)
  moreover have "add_op demo_env ?sr (demo_op 5) = Inr (demo_signed 5)"
    using demo_checks(1) [of 5] by (simp add: add_op_def demo_signed_def signed_register_new_def bs_insert_def insort_insert_key_def)
  moreover have "demo_signed 5 \<noteq> ?sr" by (simp add: demo_signed_def signed_register_new_def)
  ultimately show ?thesis
    using demo_write addr
    by (simp add: write_online_def cr_write_def then_push_def push_def Let_def publish_register_def register_to_publish_def
        map_net_put register_record_def demo_reg_store_def demo_cr_create demo_register_read bs_collect_def bs_extend_def op_bind_def)
qed

theorem client_register_roundtrip_witness:
  "fst (cr_retrieve demo_reg_node map_net (client_new [2]) (RegisterAddress [7] [1])
       (demo_reg_store (demo_signed 5) demo_reg_node [0x91, 2, 2]))
     = Inr \<lparr>cr_client = client_new [2], cr_register = apply_effect demo_env demo_register (demo_op 5), cr_ops = []\<rparr>"
proof -
  have addr: "register_address demo_register = RegisterAddress [7] [1]"
    by (simp add: demo_register_def register_new_def register_address_def crdt_new_def)
  note w = online_writes.latest [OF online_writes.none demo_write_online [of True]]
  from client_register_roundtrip [OF _ _ demo_reg_laws(1) map_net_keeps demo_reg_absent demo_reg_absent demo_create_online w, of "client_new [2]"]
  show ?thesis using demo_env_laws demo_reg_laws by (simp add: addr MAX_REG_NUM_ENTRIES_def)
qed

text \<open>\<open>push\<close> publishes the cached commands in the order they were written and stops at the first
  one the network does not take: what it published succeeded one by one, the commands from the
  failed one on stay cached in their order for the next \<open>sync\<close>, and it reports success exactly
  when nothing is left.\<close>

theorem push_keeps_unpublished:
  "case push N C v cr n of (res, cr', n') \<Rightarrow>
     \<exists>sent m. rev (cr_ops cr) = sent @ rev (cr_ops cr') \<and> push_loop N C v sent n = (Inr (), [], m) \<and>
       cr_register cr' = cr_register cr \<and>
       (res = Inr () \<and> cr_ops cr' = [] \<and> n' = m \<or>
        (\<exists>cmd rest e. rev (cr_ops cr') = cmd # rest \<and> res = Inl e \<and> publish_register N C cmd v m = (Inl e, n')))"
proof -
  have "case push_loop N C v cmds n of (res, kept, n') \<Rightarrow>
     \<exists>sent m. cmds = sent @ kept \<and> push_loop N C v sent n = (Inr (), [], m) \<and>
       (res = Inr () \<and> kept = [] \<and> n' = m \<or>
        (\<exists>cmd rest e. kept = cmd # rest \<and> res = Inl e \<and> publish_register N C cmd v m = (Inl e, n')))" for cmds
  proof (induction cmds arbitrary: n)
    case (Cons cmd cmds)
    obtain r n1 where p: "publish_register N C cmd v n = (r, n1)" by fastforce
    show ?case
    proof (cases r)
      case (Inl e)
      with p show ?thesis by (auto intro!: exI [of _ "[]"])
    next
      case (Inr u)
      obtain res kept n' where q: "push_loop N C v cmds n1 = (res, kept, n')" using prod_cases3 by blast
      from Cons [of n1] q obtain sent m where "cmds = sent @ kept" "push_loop N C v sent n1 = (Inr (), [], m)"
        "res = Inr () \<and> kept = [] \<and> n' = m \<or>
         (\<exists>cmd rest e. kept = cmd # rest \<and> res = Inl e \<and> publish_register N C cmd v m = (Inl e, n'))" by auto
      with p q Inr show ?thesis by (auto intro!: exI [of _ "cmd # sent"])
    qed
  qed simp
  from this [of "rev (cr_ops cr)"] show ?thesis by (fastforce simp: push_def split: prod.splits)
qed

text \<open>A signature does not verify for another message.\<close>

definition sig_binding :: "'d reg_env \<Rightarrow> bool" where
  "sig_binding E \<longleftrightarrow> (\<forall>sk m m'. bls_verify E (pk_of E sk) (bls_sign E sk m) m' \<longrightarrow> m' = m)"

lemma to_ne_bytes_inj:
  assumes "to_ne_bytes v = to_ne_bytes w"
  shows "v = w"
proof (rule bit_eqI)
  fix k assume "possible_bit TYPE(u64) k"
  then have k: "k < 64" by simp
  then have "k div 8 < 8" by simp
  with assms have "(ucast (drop_bit (8 * (k div 8)) v) :: byte) = ucast (drop_bit (8 * (k div 8)) w)"
    using arg_cong [OF assms, of "\<lambda>bs. bs ! (k div 8)"] by (simp add: to_ne_bytes_def del: upt_Suc)
  then have "bit (ucast (drop_bit (8 * (k div 8)) v) :: byte) (k mod 8) = bit (ucast (drop_bit (8 * (k div 8)) w) :: byte) (k mod 8)"
    by simp
  with k show "bit v k = bit w k" by (simp add: bit_ucast_iff bit_drop_bit_eq)
qed

text \<open>C39: A client that is not the owner but is listed as a writer writes to its replica without
  error, but the command it caches can never be published: \<open>write_atop\<close> signs the operation
  while its source is still the owner and then replaces the source, so the network register
  refuses it with an invalid signature (given that the hashes signed for the two users differ).\<close>

theorem permitted_writer_cannot_publish:
  fixes N :: "('d, 's, 't, 'p) node_env" and C :: "('n, 'd, 's) client_net"
  assumes "sig_binding (w_reg (wire N))"
    and differ: "\<forall>a h. default_hash (w_reg (wire N)) a h (Key pk) \<noteq> default_hash (w_reg (wire N)) a h (Key (register_owner (cr_register cr)))"
    and pk: "signer_pk N (cr_client cr) = pk" "pk \<noteq> register_owner (cr_register cr)"
      "Key pk \<in> set (writers (reg_permissions (cr_register cr)))"
    and "\<not> everyone_can_write (reg_permissions (cr_register cr))"
    and "register_write (w_reg (wire N)) (cr_register cr) e children = Inr w"
  shows "\<exists>op cr'. write_atop N cr e children = Inr cr' \<and> cr_ops cr' = RegEdit op # cr_ops cr \<and>
    (\<forall>n sr n1 v. get_signed_register_from_network N C (op_address op) n = (Inr sr, n1) \<and>
       register_owner (base_register sr) = register_owner (cr_register cr) \<and>
       reg_permissions (base_register sr) = reg_permissions (cr_register cr) \<longrightarrow>
       publish_register N C (RegEdit op) v n = (Inl (Err (RegisterErr InvalidSignature)), n1))"
proof -
  let ?E = "w_reg (wire N)" and ?r = "cr_register cr"
  obtain h op r' where w: "w = ((h, op), r')" by (metis prod.collapse)
  define op' where "op' = add_signature op pk (bls_sign ?E (signer (cr_client cr)) (bytes_for_signing ?E op))"
  have src: "op_source op = Key (register_owner ?r)"
    using assms(7) w by (auto simp: register_write_def crdt_write_def Let_def op_new_def)
  have "can_write (reg_permissions ?r) (Key pk)" using pk by (simp add: can_write_def)
  then have "write_atop N cr e children = Inr (cr\<lparr>cr_register := r', cr_ops := RegEdit op' # cr_ops cr\<rparr>)"
    using assms(7) pk(1) w by (simp add: write_atop_def Let_def sign_def op'_def)
  moreover have "bytes_for_signing ?E op' \<noteq> bytes_for_signing ?E op"
    using differ src by (auto simp: bytes_for_signing_def op'_def add_signature_def dest!: to_ne_bytes_inj)
  with assms(1) pk(1) have "verify_signature ?E op' pk = Inl InvalidSignature"
    by (auto simp: verify_signature_def op'_def add_signature_def sig_binding_def signer_pk_def)
  then have "add_op ?E sr op' = Inl InvalidSignature" if "register_owner (base_register sr) = register_owner ?r"
      "reg_permissions (base_register sr) = reg_permissions ?r" for sr
    using that \<open>can_write _ _\<close> assms(6)
    by (simp add: add_op_def check_register_op_def check_user_permissions_def op'_def add_signature_def)
  ultimately show ?thesis
    by (intro exI [of _ op']) (auto simp: publish_register_def register_to_publish_def op_bind_def)
qed

text \<open>A register owned by [1] that also lists [2] as a writer, in an environment that tells the two apart.\<close>

definition demo_shared_node :: "((bytes list \<times> bytes) btree_set, bytes, bytes list, bytes list \<times> u64 list) node_env" where
  "demo_shared_node = demo_node\<lparr>wire := demo_wire\<lparr>w_reg := demo_env\<lparr>default_hash := (\<lambda>a h u. if u = Key [1] then 0 else 1)\<rparr>\<rparr>\<rparr>"

definition demo_shared :: "(bytes list \<times> bytes) btree_set client_register" where
  "demo_shared = \<lparr>cr_client = client_new [2],
     cr_register = register_new demo_env [1] [7] (permissions_new_with [Key [2]]), cr_ops = []\<rparr>"

lemma demo_shared_sel:
  "signer_pk demo_shared_node (cr_client demo_shared) = [2]" "register_owner (cr_register demo_shared) = [1]"
  "writers (reg_permissions (cr_register demo_shared)) = [Key [1], Key [2]]" "sig_binding (w_reg (wire demo_shared_node))"
  by (simp_all add: demo_shared_def demo_shared_node_def signer_pk_def client_new_def register_new_def register_owner_def
      register_address_def crdt_new_def permissions_new_with_def demo_env_def sig_binding_def bs_insert_def insort_insert_key_def
      bs_collect_def bs_extend_def less_eq_user_def)

theorem permitted_writer_cannot_publish_witness:
  "\<exists>op cr'. write_atop demo_shared_node demo_shared [5] [] = Inr cr' \<and> cr_ops cr' = [RegEdit op] \<and>
    (\<forall>n sr n1 v. get_signed_register_from_network demo_shared_node map_net (op_address op) n = (Inr sr, n1) \<and>
       register_owner (base_register sr) = [1] \<and>
       reg_permissions (base_register sr) = reg_permissions (cr_register demo_shared) \<longrightarrow>
       publish_register demo_shared_node map_net (RegEdit op) v n = (Inl (Err (RegisterErr InvalidSignature)), n1))"
proof -
  have "\<exists>w. register_write (w_reg (wire demo_shared_node)) (cr_register demo_shared) [5] [] = Inr w"
    by (simp add: register_write_def check_entry_and_reg_sizes_def MAX_REG_ENTRY_SIZE_def MAX_REG_NUM_ENTRIES_def crdt_size_def
        crdt_write_def Let_def demo_shared_def demo_shared_node_def register_new_def crdt_new_def demo_env_def)
  then obtain w where "register_write (w_reg (wire demo_shared_node)) (cr_register demo_shared) [5] [] = Inr w" ..
  from permitted_writer_cannot_publish [OF demo_shared_sel(4) _ demo_shared_sel(1) _ _ _ this, of map_net]
  show ?thesis
    by (simp add: demo_shared_sel(2,3) everyone_can_write_def) (simp add: demo_shared_node_def demo_shared_def)
qed

text \<open>A register created by \<open>create_public_online\<close> lets only its creator write.\<close>

lemma public_register_owner_only:
  fixes N :: "('d, 's, 't, 'p) node_env" and C :: "('n, 'd, 's) client_net"
  assumes "create_public_online N C cl m v n = (Inr cr, n')" and "pk \<noteq> signer_pk N cl"
  shows "check_user_permissions (cr_register cr) (Key pk) = Inl (AccessDenied (Key pk))"
proof -
  have "reg_permissions (cr_register cr) = reg_permissions (cr_register (cr_create N cl m)) \<and>
      register_owner (cr_register cr) = register_owner (cr_register (cr_create N cl m))"
    using assms(1) by (auto simp: create_public_online_def created_online_def sync_def push_def register_merge_def crdt_merge_def
        register_owner_def register_address_def simp flip: cr_create_def split: prod.splits sum.splits)
  with assms(2) show ?thesis
    by (simp add: check_user_permissions_def can_write_def everyone_can_write_def cr_create_def cr_create_register_def
        register_new_def register_owner_def register_address_def crdt_new_def permissions_new_owner_only_def bs_insert_def
        insort_insert_key_def)
qed

end
