(* ===== verification/Genesis.thy ===== *)
theory Genesis
  imports Wallet_Disk Record_Store
begin

text \<open>
  The module dbc_genesis of sn_transfers: the number of tokens in the genesis DBC, its
  construction from the hard-coded key, and the genesis and faucet wallets in the user's data
  directory. The functions of \<open>sn_dbc\<close>, \<open>bls\<close> and \<open>dirs_next\<close> used here beyond
  those of \<open>dbc_env\<close> form the record \<open>genesis_env\<close>. The code stops with \<open>expect\<close> or \<open>panic!\<close> on
  every failure, so the wallets' functions return a value or \<open>Panic\<close>.
\<close>

section \<open>The amount\<close>

text \<open>
  \<open>0.3 * TOTAL_SUPPLY as f64\<close>: the double nearest to 0.3 is 5404319552844595 / 2^54, the
  supply is a double, and the product, between 2^60 and 2^61, is rounded half to even to a
  multiple of 2^8. The conversion to u64 is then exact.
\<close>

definition div_round_half_even :: "nat \<Rightarrow> nat \<Rightarrow> nat" where
  "div_round_half_even a b =
     (let q = a div b; r = a mod b
      in if 2 * r < b then q else if 2 * r > b then q + 1 else if even q then q else q + 1)"

definition GENESIS_DBC_AMOUNT :: u64 where
  "GENESIS_DBC_AMOUNT = word_of_nat (div_round_half_even (5404319552844595 * unat TOTAL_SUPPLY) (2 ^ 62) * 2 ^ 8)"

section \<open>The genesis DBC\<close>

record ('dbc, 's, 'b) genesis_env =
  g_dbc :: "('dbc, 's, 'b) dbc_env"
  derive_key :: "main_key \<Rightarrow> derivation_index \<Rightarrow> derived_key"
  derived_dbc_id :: "derived_key \<Rightarrow> dbc_id"
  empty_tx :: dbc_tx
  built_unverified :: "'b \<Rightarrow> dbc_error + ('dbc \<times> token) list"
  main_key_from_hex :: "string \<Rightarrow> string + main_key"
  data_dir :: "path option"

datatype genesis_error =
    GenesisDbcError string
  | FailedToParseReason dbc_error

definition GENESIS_DBC_SK :: string where
  "GENESIS_DBC_SK = ''5f15ae2ea589007e1474e049bbc32904d583265f12ce1f8153f955076a9af49b''"

definition genesis_reason :: bytes where
  "genesis_reason = map of_char ''GENESIS''"

definition first_dbc_builder :: "('dbc, 's, 'b) genesis_env \<Rightarrow> main_key \<Rightarrow> tx_builder" where
  "first_dbc_builder G key =
     (let derivation_index = replicate 32 0;
          derived_key = derive_key G key derivation_index
      in \<lparr>tb_inputs = [(\<lparr>in_dbc_id = derived_dbc_id G derived_key, in_token = GENESIS_DBC_AMOUNT\<rparr>, derived_key, empty_tx G)],
          tb_outputs = [(GENESIS_DBC_AMOUNT, main_public_address (g_dbc G) key, derivation_index)],
          tb_fee = None\<rparr>)"

definition create_first_dbc_from_key :: "('dbc, 's, 'b) genesis_env \<Rightarrow> main_key \<Rightarrow> genesis_error + 'dbc" where
  "create_first_dbc_from_key G key =
     (let D = g_dbc G
      in bind_result (map_err (\<lambda>_. GenesisDbcError ''Failed to build the DBC transaction for genesis DBC'')
           (tb_build D (first_dbc_builder G key) (sn_hash D genesis_reason))) (\<lambda>dbc_builder.
         bind_result (map_err (\<lambda>_. GenesisDbcError ''DBC builder failed to create output genesis DBC'')
           (built_unverified G dbc_builder)) (\<lambda>output_dbcs.
         case output_dbcs of
           (genesis_dbc, _) # _ \<Rightarrow> Inr genesis_dbc
         | [] \<Rightarrow> Inl (GenesisDbcError ''DBC builder (unexpectedly) contains an empty set of outputs.''))))"

definition expect_result :: "'e + 'a \<Rightarrow> 'f failure + 'a" where
  "expect_result m = map_err (\<lambda>_. Panic) m"

definition GENESIS_DBC :: "('dbc, 's, 'b) genesis_env \<Rightarrow> 'e failure + 'dbc" where
  "GENESIS_DBC G =
     bind_result (expect_result (main_key_from_hex G GENESIS_DBC_SK)) (\<lambda>main_key.
       expect_result (create_first_dbc_from_key G main_key))"

definition is_genesis_parent_tx :: "('dbc, 's, 'b) genesis_env \<Rightarrow> dbc_tx \<Rightarrow> 'e failure + bool" where
  "is_genesis_parent_tx G ptx =
     bind_result (GENESIS_DBC G) (\<lambda>dbc. Inr (ptx = dbc_src_tx (g_dbc G) dbc))"

section \<open>The genesis and faucet wallets\<close>

definition get_test_dir :: "('dbc, 's, 'b) genesis_env \<Rightarrow> io_faults \<Rightarrow> string \<Rightarrow> file_system \<Rightarrow> 'e failure + path \<times> file_system" where
  "get_test_dir G F name fs =
     bind_result (ok_or Panic (data_dir G)) (\<lambda>dir.
       let dir = dir @ [''safe'', name]
       in bind_result (expect_result (fs_create_dir_all F dir fs)) (\<lambda>fs. Inr (dir, fs)))"

definition get_genesis_dir :: "('dbc, 's, 'b) genesis_env \<Rightarrow> io_faults \<Rightarrow> file_system \<Rightarrow> 'e failure + path \<times> file_system" where
  "get_genesis_dir G F fs = get_test_dir G F ''test_genesis'' fs"

definition get_faucet_dir :: "('dbc, 's, 'b) genesis_env \<Rightarrow> io_faults \<Rightarrow> file_system \<Rightarrow> 'e failure + path \<times> file_system" where
  "get_faucet_dir G F fs = get_test_dir G F ''test_faucet'' fs"

definition create_genesis_wallet :: "('dbc, 's, 'b) genesis_env \<Rightarrow> 'dbc codec \<Rightarrow> io_faults \<Rightarrow> main_key \<Rightarrow> file_system
    \<Rightarrow> 'e failure + 'dbc local_wallet \<times> file_system" where
  "create_genesis_wallet G K F random_key fs =
     bind_result (get_genesis_dir G F fs) (\<lambda>(root_dir, fs).
       let wallet_dir = root_dir @ [''wallet'']
       in bind_result (expect_result (fs_create_dir_all F wallet_dir fs)) (\<lambda>fs.
          bind_result (expect_result (main_key_from_hex G GENESIS_DBC_SK)) (\<lambda>main_key.
          bind_result (expect_result
              (fs_write F (wallet_dir @ [''main_key'']) (to_hex_text K (main_key_to_bytes K main_key)) fs)) (\<lambda>fs.
            expect_result (load_from (g_dbc G) K F random_key root_dir fs)))))"

definition load_genesis_wallet :: "('dbc, 's, 'b) genesis_env \<Rightarrow> 'dbc codec \<Rightarrow> io_faults \<Rightarrow> main_key \<Rightarrow> file_system
    \<Rightarrow> 'e failure + 'dbc local_wallet \<times> file_system" where
  "load_genesis_wallet G K F random_key fs =
     bind_result (create_genesis_wallet G K F random_key fs) (\<lambda>(genesis_wallet, fs).
     bind_result (GENESIS_DBC G) (\<lambda>genesis_dbc.
       let genesis_wallet = deposit (g_dbc G) genesis_wallet [genesis_dbc]
       in bind_result (expect_result (wallet_store K F genesis_wallet fs)) (\<lambda>fs. Inr (genesis_wallet, fs))))"

definition create_faucet_wallet :: "('dbc, 's, 'b) genesis_env \<Rightarrow> 'dbc codec \<Rightarrow> io_faults \<Rightarrow> main_key \<Rightarrow> file_system
    \<Rightarrow> 'e failure + 'dbc local_wallet \<times> file_system" where
  "create_faucet_wallet G K F random_key fs =
     bind_result (get_faucet_dir G F fs) (\<lambda>(root_dir, fs).
       expect_result (load_from (g_dbc G) K F random_key root_dir fs))"

lemma GENESIS_DBC_AMOUNT_value: "unat GENESIS_DBC_AMOUNT = 1288490188500000000"
  by (simp add: GENESIS_DBC_AMOUNT_def div_round_half_even_def TOTAL_SUPPLY_def Let_def)

lemma expect_result_Inr [simp]: "expect_result m = Inr x \<longleftrightarrow> m = Inr x"
  by (simp add: expect_result_def)

end
