(* ===== verification/Client_Wallet.thy ===== *)
theory Client_Wallet
  imports Client Genesis
begin

text \<open>
  The wallet client of sn_client (\<open>wallet.rs\<close>): a local wallet together with the transfers the
  network has not confirmed yet. Random draws (derivation indices, the address at which the store
  cost is asked) are arguments, and so are the functions of sn_dbc, as in theory \<open>Wallet\<close>.
\<close>

section \<open>Sending spends\<close>

record ('dbc, 's) wallet_client =
  wc_client :: client
  wc_wallet :: "'dbc local_wallet"
  unconfirmed_txs :: "('dbc, 's) transfer_outputs list"

definition wallet_client_new :: "client \<Rightarrow> 'dbc local_wallet \<Rightarrow> ('dbc, 's) wallet_client" where
  "wallet_client_new cl w = \<lparr>wc_client = cl, wc_wallet = w, unconfirmed_txs = []\<rparr>"

definition wc_store_cost :: "('dbc, 's) wallet_client \<Rightarrow> token" where
  "wc_store_cost wc = network_store_cost (wc_client wc)"

definition unconfirmed_txs_exist :: "('dbc, 's) wallet_client \<Rightarrow> bool" where
  "unconfirmed_txs_exist wc \<longleftrightarrow> unconfirmed_txs wc \<noteq> []"

text \<open>\<open>join_all\<close>: every task runs to its end before the results are looked at.\<close>

fun join_all :: "('n, 's, 'a) client_op list \<Rightarrow> 'n \<Rightarrow> ('s client_error failure + 'a) list \<times> 'n" where
  "join_all [] n = ([], n)"
| "join_all (m # ms) n = (case m n of (r, n1) \<Rightarrow> case join_all ms n1 of (rs, n2) \<Rightarrow> (r # rs, n2))"

definition wallet_failure :: "wallet_error \<Rightarrow> 's client_error failure \<Rightarrow> wallet_error failure" where
  "wallet_failure e f = (case f of Panic \<Rightarrow> Panic | Err _ \<Rightarrow> Err e)"

definition client_send :: "('d, 's, 't, 'p) node_env \<Rightarrow> ('n, 'd, 's) client_net \<Rightarrow> ('dbc, 's) transfer_outputs \<Rightarrow> bool \<Rightarrow> 'n
    \<Rightarrow> (wallet_error failure + unit) \<times> 'n" where
  "client_send N C transfer verify_store n =
     (case join_all (map (\<lambda>req. network_store_spend N C req verify_store) (all_spend_requests transfer)) n of
        (results, n') \<Rightarrow> (try_all (map_err (wallet_failure (CouldNotSendTokens ''spend request failed''))) results, n'))"

definition send_without_verify :: "('d, 's, 't, 'p) node_env \<Rightarrow> ('n, 'd, 's) client_net \<Rightarrow> ('dbc, 's) transfer_outputs \<Rightarrow> 'n
    \<Rightarrow> (wallet_error failure + unit) \<times> 'n" where
  "send_without_verify N C transfer n =
     (case join_all (map (\<lambda>req. network_store_spend N C req False) (all_spend_requests transfer)) n of
        (results, n') \<Rightarrow> (try_all (map_err (wallet_failure (CouldNotSendTokens ''spend request failed''))) results, n'))"

text \<open>\<open>signed_spends\<close> is the set of spends a DBC carries.\<close>

fun collect_spends :: "('s::linorder client_error failure + 's) list \<Rightarrow> 's btree_set \<Rightarrow> wallet_error failure + 's btree_set" where
  "collect_spends [] got = Inr got"
| "collect_spends (r # rs) got =
     bind_result (map_err (wallet_failure (wallet_error.CouldNotVerifyTransfer ''spend not verified'')) r) (\<lambda>sp.
       collect_spends rs (bs_insert sp got))"

definition client_verify :: "('d, 's::linorder, 't, 'p) node_env \<Rightarrow> ('n, 'd, 's) client_net \<Rightarrow> 's btree_set \<Rightarrow> 'n
    \<Rightarrow> (wallet_error failure + unit) \<times> 'n" where
  "client_verify N C signed_spends n =
     (case join_all (map (\<lambda>sp. client_get_spend N C (spend_dbc_id (wire N) sp)) signed_spends) n of
        (results, n') \<Rightarrow>
          (bind_result (collect_spends results []) (\<lambda>received_spends.
             if received_spends = signed_spends then Inr ()
             else Inl (Err (wallet_error.CouldNotVerifyTransfer ''The spends in network were not the same as the ones in the DBC. The parents of this DBC are probably double spends.''))), n'))"

section \<open>Resending\<close>

text \<open>
  The loop runs over a copy of the pending transfers with their positions in it; \<open>Vec::remove\<close>
  takes that position in the list as it has become, and panics when it is out of range.
\<close>

fun resend_loop :: "('d, 's, 't, 'p) node_env \<Rightarrow> ('n, 'd, 's) client_net \<Rightarrow> bool \<Rightarrow> nat \<Rightarrow> ('dbc, 's) transfer_outputs list
    \<Rightarrow> ('dbc, 's) transfer_outputs list \<Rightarrow> 'n
    \<Rightarrow> (wallet_error failure + unit) \<times> ('dbc, 's) transfer_outputs list \<times> 'n" where
  "resend_loop N C verify_store index [] txs n = (Inr (), txs, n)"
| "resend_loop N C verify_store index (transfer # pending) txs n =
     (case client_send N C transfer verify_store n of
        (Inr _, n') \<Rightarrow>
          if index < length txs
          then resend_loop N C verify_store (Suc index) pending (take index txs @ drop (Suc index) txs) n'
          else (Inl Panic, txs, n')
      | (Inl Panic, n') \<Rightarrow> (Inl Panic, txs, n')
      | (Inl (Err _), n') \<Rightarrow> resend_loop N C verify_store (Suc index) pending txs n')"

definition resend_pending_txs :: "('d, 's, 't, 'p) node_env \<Rightarrow> ('n, 'd, 's) client_net \<Rightarrow> bool \<Rightarrow> ('dbc, 's) wallet_client \<Rightarrow> 'n
    \<Rightarrow> (wallet_error failure + unit) \<times> ('dbc, 's) wallet_client \<times> 'n" where
  "resend_pending_txs N C verify_store wc n =
     (case resend_loop N C verify_store 0 (unconfirmed_txs wc) (unconfirmed_txs wc) n of
        (res, txs, n') \<Rightarrow> (res, wc\<lparr>unconfirmed_txs := txs\<rparr>, n'))"

section \<open>Sending tokens\<close>

definition wc_send :: "('d, 's::linorder, 't, 'p) node_env \<Rightarrow> ('dbc, 's, 'b) dbc_env \<Rightarrow> ('n, 'd, 's) client_net \<Rightarrow> token
    \<Rightarrow> public_address \<Rightarrow> bool \<Rightarrow> derivation_index \<Rightarrow> derivation_index \<Rightarrow> ('dbc, 's) wallet_client \<Rightarrow> 'n
    \<Rightarrow> (wallet_error failure + 'dbc) \<times> ('dbc, 's) wallet_client \<times> 'n" where
  "wc_send N D C amount to verify_store index change_index wc n =
     (case resend_pending_txs N C verify_store wc n of
        (Inl e, wc, n) \<Rightarrow> (Inl e, wc, n)
      | (Inr _, wc, n) \<Rightarrow>
          (case local_send D (wc_wallet wc) [(amount, to)] None [index] change_index of
             Inl e \<Rightarrow> (Inl (Err e), wc, n)
           | Inr (w, transfer) \<Rightarrow>
               let wc = wc\<lparr>wc_wallet := w\<rparr>
               in case client_send N C transfer verify_store n of
                    (Inl Panic, n) \<Rightarrow> (Inl Panic, wc, n)
                  | (res, n) \<Rightarrow>
                      (case created_dbcs transfer of
                         info # _ \<Rightarrow> Inr info
                       | [] \<Rightarrow> Inl (Err (CouldNotSendTokens ''No DBCs were returned from the wallet.'')),
                       if is_ok res then wc else wc\<lparr>unconfirmed_txs := unconfirmed_txs wc @ [transfer]\<rparr>, n)))"

definition set_store_cost_from_random_address :: "('n, 'd, 's) client_net \<Rightarrow> xorname \<Rightarrow> ('dbc, 's) wallet_client \<Rightarrow> 'n
    \<Rightarrow> (wallet_error failure + token) \<times> ('dbc, 's) wallet_client" where
  "set_store_cost_from_random_address C random_target wc n =
     (case get_store_cost_at_address C (ChunkAddr random_target) False (wc_client wc) n of
        (res, cl) \<Rightarrow> (map_err (wallet_failure (CouldNotSendTokens ''no store cost'')) res, wc\<lparr>wc_client := cl\<rparr>))"

section \<open>Paying for storage\<close>

text \<open>
  \<open>2.0f64.powf(e) as u64\<close> for a whole exponent: exact below \<open>2^64\<close>, saturated from there on.
\<close>

definition powf_as_u64 :: "u64 \<Rightarrow> u64" where
  "powf_as_u64 e = (if unat e < 64 then 2 ^ unat e else - 1)"

definition overpaid_cost :: "token \<Rightarrow> u64 \<Rightarrow> token" where
  "overpaid_cost cost num_of_addrs = cost * powf_as_u64 (num_of_addrs div 100 + 1)"

definition proofs_of_trails :: "dbc_id list \<Rightarrow> trail_info_map \<Rightarrow> payment_proofs_map" where
  "proofs_of_trails ids trails =
     bm_collect (map (\<lambda>(addr, (trail, path)). (addr, \<lparr>spent_ids = ids, audit_trail = trail, proof_path = path\<rparr>)) trails)"

definition pay_for_storage :: "('d, 's::linorder, 't, 'p) node_env \<Rightarrow> ('dbc, 's, 'b) dbc_env \<Rightarrow> ('n, 'd, 's) client_net
    \<Rightarrow> xorname list \<Rightarrow> bool \<Rightarrow> xorname \<Rightarrow> derivation_index \<Rightarrow> ('dbc, 's) wallet_client \<Rightarrow> 'n
    \<Rightarrow> (wallet_error failure + payment_proofs_map \<times> token option) \<times> ('dbc, 's) wallet_client \<times> 'n" where
  "pay_for_storage N D C addrs_to_pay verify_store random_target change_index wc n =
     (if addrs_to_pay = [] then (Inr ([], None), wc, n)
      else case build_payment_proofs (merkle N) addrs_to_pay of
        Inl e \<Rightarrow> (Inl (Err (StoragePaymentProof e)), wc, n)
      | Inr (root_hash, audit_trail_info) \<Rightarrow>
          (case set_store_cost_from_random_address C random_target wc n of
             (Inl e, wc) \<Rightarrow> (Inl e, wc, n)
           | (Inr _, wc) \<Rightarrow>
               let storage_cost = overpaid_cost (wc_store_cost wc) (word_of_nat (length audit_trail_info));
                   amount_to_pay = word_of_nat (length addrs_to_pay) * storage_cost
               in case local_send_storage_payment D (wc_wallet wc) amount_to_pay root_hash None change_index of
                    Inl e \<Rightarrow> (Inl (Err e), wc, n)
                  | Inr (w, transfer) \<Rightarrow>
                      let wc = wc\<lparr>wc_wallet := w\<rparr>
                      in case client_send N C transfer verify_store n of
                           (Inl Panic, n) \<Rightarrow> (Inl Panic, wc, n)
                         | (Inl (Err e), n) \<Rightarrow> (Inl (Err e), wc\<lparr>unconfirmed_txs := unconfirmed_txs wc @ [transfer]\<rparr>, n)
                         | (Inr _, n) \<Rightarrow>
                             let new_payment_proofs = proofs_of_trails (map in_dbc_id (inputs (tx transfer))) audit_trail_info
                             in (Inr (bm_append [] new_payment_proofs, Some storage_cost),
                                 wc\<lparr>wc_wallet := add_payment_proofs (wc_wallet wc) new_payment_proofs\<rparr>, n)))"

section \<open>Sending from a wallet and storing it\<close>

text \<open>The retries after a send: at most twelve, the last of which gives up whatever it brought.\<close>

fun retry_unconfirmed :: "('d, 's, 't, 'p) node_env \<Rightarrow> ('n, 'd, 's) client_net \<Rightarrow> bool \<Rightarrow> nat \<Rightarrow> ('dbc, 's) wallet_client \<Rightarrow> 'n
    \<Rightarrow> (wallet_error failure + unit) \<times> ('dbc, 's) wallet_client \<times> 'n" where
  "retry_unconfirmed N C verify_store left wc n =
     (if \<not> unconfirmed_txs_exist wc then (Inr (), wc, n)
      else case resend_pending_txs N C verify_store wc n of
        (Inl e, wc, n) \<Rightarrow> (Inl e, wc, n)
      | (Inr _, wc, n) \<Rightarrow>
          (case left of 0 \<Rightarrow> (Inl (Err UnconfirmedTxAfterRetries), wc, n)
           | Suc left \<Rightarrow> retry_unconfirmed N C verify_store left wc n))"

declare retry_unconfirmed.simps [simp del]

definition send_from_wallet :: "('d, 's::linorder, 't, 'p) node_env \<Rightarrow> ('dbc, 's, 'b) dbc_env \<Rightarrow> 'dbc codec \<Rightarrow> io_faults
    \<Rightarrow> ('n, 'd, 's) client_net \<Rightarrow> 'dbc local_wallet \<Rightarrow> token \<Rightarrow> public_address \<Rightarrow> client \<Rightarrow> bool \<Rightarrow> derivation_index
    \<Rightarrow> derivation_index \<Rightarrow> file_system \<Rightarrow> 'n \<Rightarrow> (wallet_error failure + 'dbc \<times> 'dbc local_wallet \<times> file_system) \<times> 'n" where
  "send_from_wallet N D K F C from amount to cl verify_store index change_index fs n =
     (if amount = 0 then (Inl Panic, n)
      else case wc_send N D C amount to verify_store index change_index (wallet_client_new cl from) n of
        (Inl _, wc, n) \<Rightarrow> (Inl Panic, n)
      | (Inr new_dbc, wc, n) \<Rightarrow>
          (case (if verify_store then retry_unconfirmed N C verify_store 11 wc n else (Inr (), wc, n)) of
             (Inl e, wc, n) \<Rightarrow> (Inl e, n)
           | (Inr _, wc, n) \<Rightarrow>
               (bind_result (expect_result (wallet_store K F (wc_wallet wc) fs)) (\<lambda>fs.
                bind_result (expect_result (store_created_dbc D K F (wc_wallet wc) new_dbc fs)) (\<lambda>fs.
                  Inr (new_dbc, wc_wallet wc, fs))), n)))"

section \<open>Lemmas on resending and verifying\<close>

text \<open>When every transfer goes through, the position overtakes the shrinking list half way.\<close>

lemma resend_loop_panics:
  assumes "\<forall>t \<in> set pending. \<forall>m. fst (client_send N C t v m) = Inr ()"
  shows "fst (resend_loop N C v index pending txs n) = Inl Panic \<longleftrightarrow> pending \<noteq> [] \<and> length txs + 2 \<le> index + 2 * length pending"
  using assms
proof (induction pending arbitrary: index txs n)
  case (Cons t pending)
  obtain n1 where s: "client_send N C t v n = (Inr (), n1)"
    using Cons.prems by (metis list.set_intros(1) prod.collapse)
  show ?case
  proof (cases "index < length txs")
    case True
    then have "length (take index txs @ drop (Suc index) txs) = length txs - 1" by simp
    with True Cons.IH [of "Suc index" "take index txs @ drop (Suc index) txs" n1] Cons.prems s show ?thesis
      by (cases pending) auto
  next
    case False
    with s show ?thesis by simp
  qed
qed simp

lemma join_all_results:
  assumes "join_all ms n = (rs, n')"
  shows "length rs = length ms \<and> (\<forall>i < length ms. \<exists>m m'. (ms ! i) m = (rs ! i, m'))"
  using assms
proof (induction ms arbitrary: n rs)
  case (Cons m ms)
  from Cons.prems obtain r n1 rs' where "m n = (r, n1)" "join_all ms n1 = (rs', n')" "rs = r # rs'"
    by (auto split: prod.splits)
  with Cons.IH [of n1 rs'] show ?case by (auto simp: nth_Cons split: nat.splits)
qed simp

lemma collect_spends_Inr:
  assumes "collect_spends rs got = Inr out"
  shows "(\<forall>r \<in> set rs. \<exists>sp. r = Inr sp) \<and> set out = set got \<union> {sp. Inr sp \<in> set rs}"
  using assms
proof (induction rs got rule: collect_spends.induct)
  case (2 r rs got)
  then obtain sp where r: "r = Inr sp" and "collect_spends rs (bs_insert sp got) = Inr out" by auto
  with "2.IH" [of sp] show ?case by (auto simp: bs.elems_insert)
qed simp

lemma client_spend_from_record_Inr:
  fixes N :: "('d, 's, 't, 'p) node_env"
  assumes "client_spend_from_record N i r = Inr sp"
  shows "try_deserialize_record (rmp_spends_dec (wire N)) r = (Inr [sp] :: 's protocol_error failure + 's list) \<and>
    spend_dbc_id (wire N) sp = i \<and> spend_verify N sp (spent_tx_hash N sp)"
proof -
  from assms obtain kind where k: "header_from_record (wire N) r = Inr kind"
    by (auto simp: client_spend_from_record_def simp del: map_failure_Inr) (simp)
  with assms have "kind = DbcSpendKind" by (auto simp: client_spend_from_record_def map_failure_def split: if_splits)
  with assms k obtain ss where ss: "try_deserialize_record (rmp_spends_dec (wire N)) r = (Inr ss :: 's protocol_error failure + 's list)"
    by (cases "try_deserialize_record (rmp_spends_dec (wire N)) r :: 's protocol_error failure + 's list")
      (auto simp: client_spend_from_record_def map_failure_def)
  with assms k \<open>kind = DbcSpendKind\<close> show ?thesis
    by (cases ss rule: remdups_adj.cases) (auto simp: client_spend_from_record_def map_failure_def split: if_splits)
qed

lemma client_get_spend_Inr:
  assumes "client_get_spend N C i n = (Inr sp, n')"
  shows "\<exists>r. get_record_from_network None True
      (get_attempts C n (to_record_key (wire N) (from_dbc_address (dbc_address_from_dbc_id (wire N) i)))) = Inr r \<and>
    client_spend_from_record N i r = Inr sp"
  using assms by (auto simp: client_get_spend_def op_bind_Inr net_get_def)

section \<open>Lemmas on sending\<close>

lemma resend_keeps_wallet: "resend_pending_txs N C v wc n = (r, wc', n') \<Longrightarrow> wc_wallet wc' = wc_wallet wc"
  by (auto simp: resend_pending_txs_def split: prod.splits)

lemma retry_keeps_wallet: "retry_unconfirmed N C v left wc n = (r, wc', n') \<Longrightarrow> wc_wallet wc' = wc_wallet wc"
proof (induction left arbitrary: wc n)
  case 0
  then show ?case by (subst (asm) retry_unconfirmed.simps)
    (auto split: if_splits prod.splits sum.splits dest: resend_keeps_wallet)
next
  case (Suc left)
  from Suc.prems show ?case by (subst (asm) retry_unconfirmed.simps)
    (auto split: if_splits prod.splits sum.splits dest!: resend_keeps_wallet Suc.IH)
qed

lemma retry_nothing: "unconfirmed_txs wc = [] \<Longrightarrow> retry_unconfirmed N C v left wc n = (Inr (), wc, n)"
  by (subst retry_unconfirmed.simps) (simp add: unconfirmed_txs_exist_def)

lemma wc_send_Inr:
  assumes "wc_send N D C amt to v idx cidx (wallet_client_new cl w) n = (Inr d, wc, n')"
  obtains t ds where "local_send D w [(amt, to)] None [idx] cidx = Inr (wc_wallet wc, t)" "created_dbcs t = d # ds"
proof -
  have none: "resend_pending_txs N C v (wallet_client_new cl w) n = (Inr (), wallet_client_new cl w, n)"
    by (simp add: resend_pending_txs_def wallet_client_new_def)
  with assms obtain w1 t where l: "local_send D w [(amt, to)] None [idx] cidx = Inr (w1, t)"
    by (auto simp: wc_send_def wallet_client_new_def split: sum.splits)
  obtain res n1 where "client_send N C t v n = (res, n1)" by fastforce
  with assms none l have "wc_wallet wc = w1 \<and> (\<exists>ds. created_dbcs t = d # ds)"
    by (auto simp: wc_send_def wallet_client_new_def Let_def split: sum.splits failure.splits list.splits)
  with l that show thesis by blast
qed

lemma send_from_wallet_Inr:
  assumes "builder_faithful D" and "send_from_wallet N D K F C w amt to cl v idx cidx fs n = (Inr (d, w', fs'), n')"
  shows "dbc_token D d = Inr amt \<and> (\<forall>key. main_public_address D key = to \<longrightarrow> is_ok (dbc_derived_key D d key))"
    and "prefix root (wallet_dir w) \<Longrightarrow> fs_frame root fs fs'"
proof -
  obtain r wc n1 where ws: "wc_send N D C amt to v idx cidx (wallet_client_new cl w) n = (r, wc, n1)" by (metis prod_cases3)
  obtain r2 wc2 n2 where rt: "(if v then retry_unconfirmed N C v 11 wc n1 else (Inr (), wc, n1)) = (r2, wc2, n2)" by (metis prod_cases3)
  with ws assms(2) have r: "r = Inr d" "r2 = Inr ()"
    and st: "bind_result (expect_result (wallet_store K F (wc_wallet wc2) fs)) (\<lambda>fs.
       bind_result (expect_result (store_created_dbc D K F (wc_wallet wc2) d fs)) (\<lambda>fs. Inr (d, wc_wallet wc2, fs))) = Inr (d, w', fs')"
    by (auto simp: send_from_wallet_def split: if_splits sum.splits)
  from wc_send_Inr [OF ws [unfolded r]] obtain t ds where l: "local_send D w [(amt, to)] None [idx] cidx = Inr (wc_wallet wc, t)"
    "created_dbcs t = d # ds" by blast
  show "dbc_token D d = Inr amt \<and> (\<forall>key. main_public_address D key = to \<longrightarrow> is_ok (dbc_derived_key D d key))"
    by (rule created_dbc_amount [OF assms(1) l])
  assume root: "prefix root (wallet_dir w)"
  have "wc_wallet wc2 = wc_wallet wc" using rt by (auto split: if_splits dest: retry_keeps_wallet)
  moreover have "wallet_dir (wc_wallet wc) = wallet_dir w"
    using l(1) by (rule local_send_cases) (simp add: update_local_wallet_sel)
  ultimately have "prefix root (wallet_dir (wc_wallet wc2))" using root by simp
  moreover from st obtain fs1 where "wallet_store K F (wc_wallet wc2) fs = Inr fs1"
    "store_created_dbc D K F (wc_wallet wc2) d fs1 = Inr fs'" by auto
  ultimately show "fs_frame root fs fs'"
    by (metis wallet_store_def fs_frame_store_created fs_frame_store_wallet fs_frame_trans)
qed

section \<open>Lemmas on paying\<close>

text \<open>
  The transaction builder of sn_dbc keeps the inputs in their order and the fee output as given.
\<close>

definition tx_builder_law :: "('dbc, 's, 'b) dbc_env \<Rightarrow> bool" where
  "tx_builder_law D \<longleftrightarrow> (\<forall>B h b. tb_build D B h = Inr b \<longrightarrow> inputs (built_tx D b) = map fst (tb_inputs B) \<and>
     (\<forall>f. tb_fee B = Some f \<longrightarrow> fee (built_tx D b) = f))"

lemma storage_payment_tx:
  assumes "create_storage_payment_transfer D av change_to amount root rh idx = Inr out" and "tx_builder_law D" and "amount \<noteq> 0"
  shows "inputs (tx out) \<noteq> []" "fee (tx out) = \<lparr>fee_id = sn_hash D (root @ concat (map in_dbc_id (inputs (tx out)))),
    fee_token = amount, fee_root_hash = root\<rparr>"
proof -
  from assms(1) obtain sel ch where sel: "select_inputs D av amount = Inr (sel, ch)"
    and out: "create_transfer_with D \<lparr>dbcs_to_spend = sel, recipients = [], change = (ch, change_to)\<rparr> rh
      (Some \<lparr>fee_id = storage_fee_id D root sel, fee_token = amount, fee_root_hash = root\<rparr>) idx = Inr out"
    by (auto simp: create_storage_payment_transfer_def)
  from out obtain b where "tb_build D (transfer_builder D \<lparr>dbcs_to_spend = sel, recipients = [], change = (ch, change_to)\<rparr>
      (Some \<lparr>fee_id = storage_fee_id D root sel, fee_token = amount, fee_root_hash = root\<rparr>) idx) rh = Inr b" "tx out = built_tx D b"
    by (rule create_transfer_with_Inr)
  with assms(2) have t: "inputs (tx out) = map fst (fst (collect_inputs D sel [] []))"
    "fee (tx out) = \<lparr>fee_id = storage_fee_id D root sel, fee_token = amount, fee_root_hash = root\<rparr>"
    by (auto simp: tx_builder_law_def transfer_builder_def)
  have "list_all (\<lambda>(d, _). is_ok (dbc_token D d)) sel" by (rule select_inputs_subseq(2) [OF sel])
  then have ids: "map in_dbc_id (inputs (tx out)) = map (\<lambda>(d, _). dbc_id_of D d) sel"
    unfolding t(1) collect_inputs_fst by (induction sel) (auto simp: is_ok_iff)
  from select_inputs_Inr [OF sel] assms(3) have "sel \<noteq> []" by (auto simp: unat_eq_zero)
  with ids show "inputs (tx out) \<noteq> []" by auto
  show "fee (tx out) = \<lparr>fee_id = sn_hash D (root @ concat (map in_dbc_id (inputs (tx out)))), fee_token = amount, fee_root_hash = root\<rparr>"
    by (simp only: t(2) storage_fee_id_def ids)
qed

lemma build_proofs_ok:
  assumes "build_payment_proofs M addrs = Inr (root, trails)"
  shows "bm_ok trails"
proof -
  have "bm_ok m' " if "gen_proofs M t i as m = Inr m'" and "bm_ok m" for t i as m m'
    using that by (induction M t i as m rule: gen_proofs.induct) (auto simp: bm_ok_insert)
  with assms show ?thesis by (auto simp: build_payment_proofs_def split: if_splits)
qed

lemma map_of_rev_distinct: "distinct (map fst xs) \<Longrightarrow> map_of (rev xs) = map_of xs"
  by (subst map_of_inject_set) (simp_all flip: rev_map)

lemma map_of_proofs_of_trails:
  assumes "bm_ok trails"
  shows "map_of (bm_append [] (proofs_of_trails ids trails)) a
    = map_option (\<lambda>(trail, path). \<lparr>spent_ids = ids, audit_trail = trail, proof_path = path\<rparr>) (map_of trails a)"
proof -
  let ?f = "\<lambda>(trail, path). \<lparr>spent_ids = ids, audit_trail = trail, proof_path = path\<rparr>"
  let ?l = "map (\<lambda>(addr, v). (addr, ?f v)) trails"
  have l: "proofs_of_trails ids trails = bm_collect ?l"
    by (simp add: proofs_of_trails_def split_def)
  have "distinct (map fst ?l)" using bm_ok_distinct [OF assms] by (simp add: split_def comp_def)
  then have "map_of (bm_collect ?l) = map_of ?l" by (simp add: map_of_bm_collect map_of_rev_distinct)
  moreover have "map_of (bm_append [] (bm_collect ?l)) = map_of (bm_collect ?l)"
    using bm_ok_distinct [OF bm_collect_ok, of ?l] by (simp add: bm.get_append map_of_rev_distinct)
  ultimately show ?thesis unfolding l by (simp add: map_of_map)
qed

section \<open>What a node makes of a payment\<close>

text \<open>The node can fetch every input of the transaction, spent in that transaction, and waits for all.\<close>

definition knows_payment :: "('d, 's, 't, 'p) node_env \<Rightarrow> node_in \<Rightarrow> dbc_tx \<Rightarrow> bool" where
  "knows_payment N I t \<longleftrightarrow> (\<forall>xs. set (join_order I xs) = set xs) \<and> (\<forall>inp \<in> set (inputs t). \<forall>call.
     \<exists>sp. node_get_spend N I call (dbc_address_from_dbc_id (wire N) (in_dbc_id inp)) True = Inr sp \<and> spent_tx N sp = t)"

lemma collect_payment_tx_complete:
  assumes "\<forall>(call, i) \<in> set js. \<exists>sp. node_get_spend N I call (dbc_address_from_dbc_id (wire N) i) True = Inr sp \<and> spent_tx N sp = t"
    and "acc = None \<and> js \<noteq> [] \<or> acc = Some t"
  shows "collect_payment_tx N I a acc js = Inr (Some t)"
  using assms
proof (induction js arbitrary: acc)
  case (Cons j js)
  obtain call i where j: "j = (call, i)" by fastforce
  with Cons.prems(1) obtain sp where "node_get_spend N I call (dbc_address_from_dbc_id (wire N) i) True = Inr sp" "spent_tx N sp = t"
    by auto
  with j Cons.prems Cons.IH [of "Some t"] show ?case by auto
qed simp

lemma chunk_payment_complete:
  assumes "knows_payment N I t" and "inputs t \<noteq> []" and "spent_ids (cwp_payment c) = map in_dbc_id (inputs t)"
    and "local_storecost I = Answer cost"
    and "verify_fee_output_and_proof N (chunk_name (cwp_chunk c)) cost t (audit_trail (cwp_payment c)) (proof_path (cwp_payment c)) = Inr ()"
  shows "chunk_payment_validation N I c b = Inr ()"
proof -
  let ?js = "join_order I (List.enumerate 0 (spent_ids (cwp_payment c)))"
  have js: "set ?js = set (List.enumerate 0 (map in_dbc_id (inputs t)))" using assms(1,3) by (simp add: knows_payment_def)
  then have "?js \<noteq> []" using assms(2) by (metis enumerate_simps(2) list.map_disc_iff list.set(1) neq_Nil_conv set_empty list.distinct(1))
  moreover have "i \<in> in_dbc_id ` set (inputs t)" if "(call, i) \<in> set ?js" for call i
    using that unfolding js by (force simp: in_set_enumerate_eq)
  then have "\<forall>(call, i) \<in> set ?js. \<exists>sp. node_get_spend N I call (dbc_address_from_dbc_id (wire N) i) True = Inr sp \<and> spent_tx N sp = t"
    using assms(1) by (force simp: knows_payment_def)
  ultimately have "collect_payment_tx N I (chunk_name (cwp_chunk c)) None ?js = Inr (Some t)"
    by (intro collect_payment_tx_complete) simp_all
  with assms(4,5) show ?thesis
    by (simp add: chunk_payment_validation_def Let_def await_with_def)
qed

text \<open>The fee of a payment for n addresses covers the price of each leaf below n.\<close>

lemma fee_covers_leaf:
  assumes "unat cost * k < 2 ^ 64" and "i < k" and "price \<le> cost"
  shows "price * (word_of_nat i + 1) \<le> word_of_nat k * (cost :: token)"
proof -
  have le: "unat price * Suc i \<le> unat cost * k"
    using assms(2,3) by (intro mult_le_mono) (simp_all add: word_le_nat_alt)
  have "price * (word_of_nat i + 1) = word_of_nat (unat price * Suc i)" by (simp add: algebra_simps)
  moreover have "word_of_nat k * cost = word_of_nat (unat cost * k)" by (simp add: mult.commute)
  moreover have "unat (word_of_nat (unat price * Suc i) :: token) = unat price * Suc i"
    using le assms(1) by (subst unat_of_nat) (rule mod_less, simp)
  moreover have "unat (word_of_nat (unat cost * k) :: token) = unat cost * k"
    using assms(1) by (subst unat_of_nat) (rule mod_less, simp)
  ultimately show ?thesis using le by (simp only: word_le_nat_alt)
qed

section \<open>Properties\<close>

text \<open>When \<open>verify\<close> accepts the spends of a DBC (which have distinct ids), every one of them is
  validly signed and is the single spend the network holds for its DBC.\<close>

theorem verified_spends_recognised:
  fixes N :: "('d, 's::linorder, 't, 'p) node_env"
  assumes "client_verify N C ss n = (Inr (), n')" and "inj_on (spend_dbc_id (wire N)) (set ss)"
  shows "\<forall>sp \<in> set ss. spend_verify N sp (spent_tx_hash N sp) \<and> (\<exists>m r.
    get_record_from_network None True (get_attempts C m (to_record_key (wire N)
      (from_dbc_address (dbc_address_from_dbc_id (wire N) (spend_dbc_id (wire N) sp))))) = Inr r \<and>
    try_deserialize_record (rmp_spends_dec (wire N)) r = (Inr [sp] :: 's protocol_error failure + 's list))"
proof
  fix sp assume "sp \<in> set ss"
  then obtain i where i: "i < length ss" "ss ! i = sp" by (auto simp: in_set_conv_nth)
  let ?get = "\<lambda>sp. client_get_spend N C (spend_dbc_id (wire N) sp)"
  obtain rs n1 where rs: "join_all (map ?get ss) n = (rs, n1)" by fastforce
  with assms(1) have "collect_spends rs [] = Inr ss" by (auto simp: client_verify_def split: if_splits)
  note got = collect_spends_Inr [OF this]
  from join_all_results [OF rs] i obtain m m' where m: "?get sp m = (rs ! i, m')" and len: "length rs = length ss"
    by (auto dest!: spec [of _ i])
  with got i obtain sp' where sp': "rs ! i = Inr sp'" by (metis nth_mem)
  with m obtain r where r: "get_record_from_network None True (get_attempts C m (to_record_key (wire N)
      (from_dbc_address (dbc_address_from_dbc_id (wire N) (spend_dbc_id (wire N) sp))))) = Inr r"
    and v: "client_spend_from_record N (spend_dbc_id (wire N) sp) r = Inr sp'"
    using client_get_spend_Inr by metis
  note v' = client_spend_from_record_Inr [OF v]
  have "Inr sp' \<in> set rs" using sp' i len by (metis nth_mem)
  with got have "sp' \<in> set ss" by simp
  with v' assms(2) \<open>sp \<in> set ss\<close> have "sp' = sp" by (auto simp: inj_on_def)
  with r v' show "spend_verify N sp (spent_tx_hash N sp) \<and> (\<exists>m r.
    get_record_from_network None True (get_attempts C m (to_record_key (wire N)
      (from_dbc_address (dbc_address_from_dbc_id (wire N) (spend_dbc_id (wire N) sp))))) = Inr r \<and>
    try_deserialize_record (rmp_spends_dec (wire N)) r = (Inr [sp] :: 's protocol_error failure + 's list))" by blast
qed

theorem verified_spends_recognised_witness:
  "spend_verify demo_node [4, 1] [1] \<and> (\<exists>m r.
    get_record_from_network None True (get_attempts (map_net :: (_, (bytes list \<times> bytes) btree_set, bytes) client_net) m [4]) = Inr r \<and>
    try_deserialize_record (rmp_spends_dec (wire demo_node)) r = (Inr [[4, 1]] :: bytes protocol_error failure + bytes list))"
proof -
  let ?m = "[[4] \<mapsto> local_kad_record [4] [0x91, 1, 9, 4, 1]]"
  have "client_spend_from_record demo_node [4] (local_kad_record [4] [0x91, 1, 9, 4, 1]) = Inr [4, 1]"
    by (simp add: client_spend_from_record_def header_from_record_def header_try_deserialize_def RECORD_HEADER_SIZE_def
        kind_from_u32_def try_deserialize_record_def map_failure_def)
  then have "client_get_spend demo_node map_net [4] ?m = (Inr [4, 1], ?m)"
    by (simp add: client_get_spend_def op_bind_def op_map_err_def map_net_get dbc_address_from_dbc_id_def from_dbc_address_def)
  then have "client_verify demo_node map_net [[4, 1]] ?m = (Inr (), ?m)"
    by (simp add: client_verify_def bs_insert_def insort_insert_key_def)
  from verified_spends_recognised [OF this] show ?thesis
    by (simp add: dbc_address_from_dbc_id_def from_dbc_address_def)
qed

text \<open>C40: \<open>resend_pending_txs\<close> removes a confirmed transfer by its position in the list as it was
  at the start: when all pending transfers go through, it panics exactly when there were two or
  more; and when the first two of three go through and the third fails, it drops the third,
  which was never confirmed, and keeps the second, which was.\<close>

theorem resend_removes_by_stale_index:
  assumes "\<forall>t \<in> set (unconfirmed_txs wc). \<forall>m. fst (client_send N C t v m) = Inr ()"
  shows "(fst (resend_pending_txs N C v wc n) = Inl Panic \<longleftrightarrow> 2 \<le> length (unconfirmed_txs wc)) \<and>
    (\<forall>a b c e. unconfirmed_txs wc = [a, b] \<and> (\<forall>m. fst (client_send N C c v m) = Inl (Err e)) \<longrightarrow>
       (case resend_pending_txs N C v (wc\<lparr>unconfirmed_txs := [a, b, c]\<rparr>) n of
          (res, wc', _) \<Rightarrow> res = Inr () \<and> unconfirmed_txs wc' = [b]))"
proof -
  have ok: "\<exists>m'. client_send N C t v m = (Inr (), m')" if "t \<in> set (unconfirmed_txs wc)" for t m
    using assms that by (metis prod.collapse)
  have "fst (resend_pending_txs N C v wc n) = Inl Panic \<longleftrightarrow> 2 \<le> length (unconfirmed_txs wc)"
    using resend_loop_panics [OF assms, of 0 "unconfirmed_txs wc" n]
    by (auto simp: resend_pending_txs_def split: prod.splits)
  moreover have "case resend_pending_txs N C v (wc\<lparr>unconfirmed_txs := [a, b, c]\<rparr>) n of
      (res, wc', _) \<Rightarrow> res = Inr () \<and> unconfirmed_txs wc' = [b]"
    if two: "unconfirmed_txs wc = [a, b]" and bad: "\<forall>m. fst (client_send N C c v m) = Inl (Err e)" for a b c e
  proof -
    obtain m1 where 1: "client_send N C a v n = (Inr (), m1)" using ok [of a n] two by auto
    obtain m2 where 2: "client_send N C b v m1 = (Inr (), m2)" using ok [of b m1] two by auto
    obtain m3 where 3: "client_send N C c v m2 = (Inl (Err e), m3)" using bad by (metis prod.collapse)
    show ?thesis by (simp add: resend_pending_txs_def 1 2 3)
  qed
  ultimately show ?thesis by (intro conjI allI impI) (assumption, elim conjE, assumption)
qed

text \<open>A network that refuses every put; a transfer without spends needs none.\<close>

definition demo_transfer_of :: "bytes list \<Rightarrow> (dbc_id \<times> token, bytes) transfer_outputs" where
  "demo_transfer_of ss = \<lparr>tx = Transfers.demo_tx, created_dbcs = [], change_dbc = None,
     all_spend_requests = map (\<lambda>sp. \<lparr>signed_spend = sp, parent_tx = Transfers.demo_tx\<rparr>) ss\<rparr>"

definition refusing_net :: "(record_key \<rightharpoonup> kad_record, (bytes list \<times> bytes) btree_set, bytes) client_net" where
  "refusing_net = map_net\<lparr>put_attempts := (\<lambda>m r _. (Answer (Inl RecordNotFound), \<lambda>_. Answer (Inr r)))\<rparr>"

definition demo_pending :: "(dbc_id \<times> token, bytes) transfer_outputs list \<Rightarrow> (dbc_id \<times> token, bytes) wallet_client" where
  "demo_pending ts = \<lparr>wc_client = client_new [1],
     wc_wallet = \<lparr>wal_key = [1], wallet = keyless_wallet_new, wallet_dir = []\<rparr>, unconfirmed_txs = ts\<rparr>"

lemma demo_client_send:
  "client_send N C (demo_transfer_of []) v m = (Inr (), m)"
  "fst (client_send demo_node refusing_net (demo_transfer_of [[4, 1]]) False m) = Inl (Err (CouldNotSendTokens ''spend request failed''))"
  using demo_serialize [of "[[4, 1]]"]
  by (simp_all add: client_send_def demo_transfer_of_def network_store_spend_def Let_def op_bind_def net_put_def put_record_def
      put_record_once_def await_with_def refusing_net_def wallet_failure_def)

theorem resend_removes_by_stale_index_witness:
  "fst (resend_pending_txs demo_node refusing_net False (demo_pending [demo_transfer_of [], demo_transfer_of []]) Map.empty) = Inl Panic \<and>
   unconfirmed_txs (fst (snd (resend_pending_txs demo_node refusing_net False
     (demo_pending [demo_transfer_of [], demo_transfer_of [], demo_transfer_of [[4, 1]]]) Map.empty))) = [demo_transfer_of []]"
proof -
  let ?wc = "demo_pending [demo_transfer_of [], demo_transfer_of []]"
  have "\<forall>t \<in> set (unconfirmed_txs ?wc). \<forall>m. fst (client_send demo_node refusing_net t False m) = Inr ()"
    by (simp add: demo_pending_def demo_client_send(1))
  note r = resend_removes_by_stale_index [OF this, of Map.empty]
  have "fst (resend_pending_txs demo_node refusing_net False ?wc Map.empty) = Inl Panic"
    using r by (simp add: demo_pending_def)
  moreover have "case resend_pending_txs demo_node refusing_net False
      (?wc\<lparr>unconfirmed_txs := [demo_transfer_of [], demo_transfer_of [], demo_transfer_of [[4, 1]]]\<rparr>) Map.empty of
      (res, wc', _) \<Rightarrow> res = Inr () \<and> unconfirmed_txs wc' = [demo_transfer_of []]"
    using r demo_client_send(2) by (simp add: demo_pending_def)
  ultimately show ?thesis by (auto simp: demo_pending_def split: prod.splits)
qed

end
