(* ===== verification/Client_Files.thy ===== *)
theory Client_Files
  imports Client
begin

text \<open>
  The file operations of sn_client (\<open>file_apis.rs\<close>, \<open>chunks/mod.rs\<close>, \<open>chunks/pac_man.rs\<close>): a file
  is a single chunk when it is small; otherwise it is self-encrypted into chunks and the data
  map is packed, level by level, into a chunk of its own. The crates self_encryption and bincode
  are the record \<open>se_env\<close>. Packing and unpacking loop until a level fits into a chunk, or until
  the first level is reached; both may fail to end for some behaviours of these crates, so they
  are partial functions into \<open>option\<close>. Spawned tasks run one after the other; a task that
  panics is dropped by \<open>flatten\<close>.
\<close>

section \<open>Data\<close>

datatype 'm data_map_level = First 'm | Additional 'm

record encrypted_chunk =
  ec_index :: nat
  ec_content :: bytes

record chunk_info =
  ci_index :: nat
  ci_dst_hash :: xorname

record 'm se_env =
  MIN_ENCRYPTABLE_BYTES :: nat
  MAX_CHUNK_SIZE :: nat
  se_encrypt :: "bytes \<Rightarrow> string + 'm \<times> encrypted_chunk list"
  se_decrypt_full_set :: "'m \<Rightarrow> encrypted_chunk list \<Rightarrow> string + bytes"
  se_decrypt_range :: "'m \<Rightarrow> encrypted_chunk list \<Rightarrow> nat \<Rightarrow> nat \<Rightarrow> string + bytes"
  se_seek_info :: "nat \<Rightarrow> nat \<Rightarrow> nat \<Rightarrow> nat \<times> nat \<times> nat"
  dm_infos :: "'m \<Rightarrow> chunk_info list"
  dm_file_size :: "'m \<Rightarrow> nat"
  level_ser :: "'m data_map_level \<Rightarrow> bytes option"
  level_de :: "bytes \<Rightarrow> 'm data_map_level option"
  bytes_ser :: "bytes \<Rightarrow> bytes option"
  bytes_de :: "bytes \<Rightarrow> bytes option"

definition CHUNKS_BATCH_MAX_SIZE :: nat where
  "CHUNKS_BATCH_MAX_SIZE = 4"

section \<open>Packing\<close>

definition to_chunk :: "('d, 's) wire_env \<Rightarrow> bytes \<Rightarrow> chunk" where
  "to_chunk W content = chunk_new W content"

definition serialised_size :: "chunk \<Rightarrow> nat" where
  "serialised_size c = length (chunk_value c)"

definition small_file_new :: "'m se_env \<Rightarrow> bytes \<Rightarrow> chunks_error + bytes" where
  "small_file_new S bs =
     (if length bs \<ge> MIN_ENCRYPTABLE_BYTES S then Inl (TooLargeAsSmallFile (length bs) (MIN_ENCRYPTABLE_BYTES S - 1))
      else if bs = [] then Inl EmptyFileProvided else Inr bs)"

definition package_small :: "('d, 's) wire_env \<Rightarrow> 'm se_env \<Rightarrow> bytes \<Rightarrow> chunks_error + chunk" where
  "package_small W S file =
     (let c = to_chunk W file
      in if length (chunk_value c) \<ge> MIN_ENCRYPTABLE_BYTES S then Inl (SmallFilePaddingNeeded (length (chunk_value c))) else Inr c)"

partial_function (option) pack_loop :: "('d, 's) wire_env \<Rightarrow> 'm se_env \<Rightarrow> bytes \<Rightarrow> chunk list
    \<Rightarrow> (chunks_error + xorname \<times> chunk list) option" where
  "pack_loop W S chunk_content chunks =
     (let c = to_chunk W chunk_content
      in if MAX_CHUNK_SIZE S \<ge> serialised_size c then Some (Inr (chunk_name c, rev chunks @ [c]))
         else case bytes_ser S (chunk_serialize c) of
                None \<Rightarrow> Some (Inl Serialisation)
              | Some serialized_chunk \<Rightarrow>
                  (case se_encrypt S serialized_chunk of
                     Inl e \<Rightarrow> Some (Inl (SelfEncryption e))
                   | Inr (data_map, next_encrypted_chunks) \<Rightarrow>
                       (case level_ser S (Additional data_map) of
                          None \<Rightarrow> Some (Inl Serialisation)
                        | Some content \<Rightarrow>
                            pack_loop W S content (map (\<lambda>c. to_chunk W (ec_content c)) next_encrypted_chunks @ chunks))))"

definition pack :: "('d, 's) wire_env \<Rightarrow> 'm se_env \<Rightarrow> 'm \<Rightarrow> encrypted_chunk list \<Rightarrow> (chunks_error + xorname \<times> chunk list) option" where
  "pack W S data_map encrypted_chunks =
     (case level_ser S (First data_map) of
        None \<Rightarrow> Some (Inl Serialisation)
      | Some chunk_content \<Rightarrow>
          (case pack_loop W S chunk_content [] of
             None \<Rightarrow> None
           | Some (Inl e) \<Rightarrow> Some (Inl e)
           | Some (Inr (address, additional_chunks)) \<Rightarrow>
               let expected_total = length encrypted_chunks + length additional_chunks;
                   all_chunks = map (\<lambda>c. to_chunk W (ec_content c)) encrypted_chunks @ additional_chunks
               in if expected_total > length all_chunks then Some (Inl (NotAllDataWasChunked expected_total (length all_chunks)))
                  else Some (Inr (address, all_chunks))))"

definition encrypt_large :: "('d, 's) wire_env \<Rightarrow> 'm se_env \<Rightarrow> bytes \<Rightarrow> (chunks_error + xorname \<times> chunk list) option" where
  "encrypt_large W S data =
     (case se_encrypt S data of
        Inl e \<Rightarrow> Some (Inl (SelfEncryption e))
      | Inr (data_map, encrypted_chunks) \<Rightarrow> pack W S data_map encrypted_chunks)"

definition chunk_bytes :: "('d, 's) wire_env \<Rightarrow> 'm se_env \<Rightarrow> bytes \<Rightarrow> ('s client_error failure + xorname \<times> chunk list) option" where
  "chunk_bytes W S bs =
     map_option (map_err (\<lambda>e. Err (ChunksErr e)))
       (if length bs < MIN_ENCRYPTABLE_BYTES S
        then Some (bind_result (small_file_new S bs) (\<lambda>file.
               bind_result (package_small W S file) (\<lambda>c. Inr (chunk_name c, [c]))))
        else encrypt_large W S bs)"

definition calculate_address :: "('d, 's) wire_env \<Rightarrow> 'm se_env \<Rightarrow> bytes \<Rightarrow> ('s client_error failure + xorname) option" where
  "calculate_address W S bs = map_option (\<lambda>r. bind_result r (\<lambda>(name, _). Inr name)) (chunk_bytes W S bs)"

section \<open>Uploading\<close>

fun join_all_tasks :: "('s client_error failure + unit) list \<Rightarrow> 's client_error failure + unit" where
  "join_all_tasks [] = Inr ()"
| "join_all_tasks (Inl Panic # rs) = join_all_tasks rs"
| "join_all_tasks (Inl (Err e) # rs) = Inl (Err e)"
| "join_all_tasks (Inr u # rs) = join_all_tasks rs"

text \<open>\<open>started\<close>: the results of the tasks spawned since the last batch was joined.\<close>

fun upload_loop :: "('d, 's, 't, 'p) node_env \<Rightarrow> ('n, 'd, 's) client_net \<Rightarrow> payment_proofs_map \<Rightarrow> bool
    \<Rightarrow> ('s client_error failure + unit) list \<Rightarrow> chunk list \<Rightarrow> ('n, 's, unit) client_op" where
  "upload_loop N C payment_proofs verify_store started [] n =
     ((if length started > 0 then join_all_tasks started else Inr ()), n)"
| "upload_loop N C payment_proofs verify_store started (c # chunks) n =
     (case bm_get payment_proofs (chunk_address c) of
        None \<Rightarrow> (Inl (Err (MissingPaymentProof (chunk_address c))), n)
      | Some payment \<Rightarrow>
          (case store_chunk N C c payment verify_store n of
             (r, n') \<Rightarrow>
               if length started + 1 = CHUNKS_BATCH_MAX_SIZE
               then (case join_all_tasks (started @ [r]) of
                       Inl e \<Rightarrow> (Inl e, n')
                     | Inr _ \<Rightarrow> upload_loop N C payment_proofs verify_store [] chunks n')
               else upload_loop N C payment_proofs verify_store (started @ [r]) chunks n'))"

definition upload_chunks_in_batches :: "('d, 's, 't, 'p) node_env \<Rightarrow> ('n, 'd, 's) client_net \<Rightarrow> chunk list \<Rightarrow> payment_proofs_map
    \<Rightarrow> bool \<Rightarrow> ('n, 's, unit) client_op" where
  "upload_chunks_in_batches N C chunks payment_proofs verify_store = upload_loop N C payment_proofs verify_store [] chunks"

definition upload_small :: "('d, 's, 't, 'p) node_env \<Rightarrow> ('n, 'd, 's) client_net \<Rightarrow> 'm se_env \<Rightarrow> bytes \<Rightarrow> payment_proofs_map
    \<Rightarrow> bool \<Rightarrow> ('n, 's, chunk_address) client_op" where
  "upload_small N C S small payment_proofs verify_store =
     op_bind (op_return (map_err (\<lambda>e. Err (ChunksErr e)) (package_small (wire N) S small))) (\<lambda>c.
     op_bind (op_return (ok_or (Err (MissingPaymentProof (chunk_address c))) (bm_get payment_proofs (chunk_address c)))) (\<lambda>payment.
     op_bind (store_chunk N C c payment verify_store) (\<lambda>_. op_return (Inr (chunk_address c)))))"

definition upload_bytes :: "('d, 's, 't, 'p) node_env \<Rightarrow> ('n, 'd, 's) client_net \<Rightarrow> 'm se_env \<Rightarrow> bytes \<Rightarrow> payment_proofs_map
    \<Rightarrow> bool \<Rightarrow> 'n \<Rightarrow> (('s client_error failure + chunk_address) \<times> 'n) option" where
  "upload_bytes N C S bs payment_proofs verify n =
     (if length bs < MIN_ENCRYPTABLE_BYTES S
      then Some (op_bind (op_return (map_err (\<lambda>e. Err (ChunksErr e)) (small_file_new S bs))) (\<lambda>file.
             upload_small N C S file payment_proofs verify) n)
      else case encrypt_large (wire N) S bs of
             None \<Rightarrow> None
           | Some (Inl e) \<Rightarrow> Some (Inl (Err (ChunksErr e)), n)
           | Some (Inr (head_address, chunks)) \<Rightarrow>
               Some (op_bind (upload_chunks_in_batches N C chunks payment_proofs verify) (\<lambda>_. op_return (Inr head_address)) n))"

definition upload_with_proof :: "('d, 's, 't, 'p) node_env \<Rightarrow> ('n, 'd, 's) client_net \<Rightarrow> 'm se_env \<Rightarrow> bytes \<Rightarrow> payment_proofs_map
    \<Rightarrow> bool \<Rightarrow> 'n \<Rightarrow> (('s client_error failure + chunk_address) \<times> 'n) option" where
  "upload_with_proof N C S bs payment_proofs verify_store = upload_bytes N C S bs payment_proofs verify_store"

definition upload_and_verify :: "('d, 's, 't, 'p) node_env \<Rightarrow> ('n, 'd, 's) client_net \<Rightarrow> 'm se_env \<Rightarrow> bytes \<Rightarrow> payment_proofs_map
    \<Rightarrow> 'n \<Rightarrow> (('s client_error failure + chunk_address) \<times> 'n) option" where
  "upload_and_verify N C S bs payment_proofs = upload_bytes N C S bs payment_proofs True"

section \<open>Downloading\<close>

text \<open>The chunks of one batch that could be fetched, and the batches of four.\<close>

fun fetch_batch :: "('d, 's, 't, 'p) node_env \<Rightarrow> ('n, 'd, 's) client_net \<Rightarrow> chunk_info list \<Rightarrow> 'n \<Rightarrow> encrypted_chunk list \<times> 'n" where
  "fetch_batch N C [] n = ([], n)"
| "fetch_batch N C (info # infos) n =
     (case get_chunk N C (ci_dst_hash info) n of (r, n1) \<Rightarrow>
        case fetch_batch N C infos n1 of (rest, n2) \<Rightarrow>
          (case r of Inr c \<Rightarrow> \<lparr>ec_index = ci_index info, ec_content = chunk_value c\<rparr> # rest | Inl _ \<Rightarrow> rest, n2))"

function fetch_batches :: "('d, 's, 't, 'p) node_env \<Rightarrow> ('n, 'd, 's) client_net \<Rightarrow> chunk_info list \<Rightarrow> 'n \<Rightarrow> encrypted_chunk list \<times> 'n" where
  "fetch_batches N C infos n =
     (if infos = [] then ([], n)
      else case fetch_batch N C (take CHUNKS_BATCH_MAX_SIZE infos) n of (retrieved, n1) \<Rightarrow>
             case fetch_batches N C (drop CHUNKS_BATCH_MAX_SIZE infos) n1 of (rest, n2) \<Rightarrow> (retrieved @ rest, n2))"
  by pat_completeness auto
termination by (relation "measure (\<lambda>(_, _, infos, _). length infos)") (auto simp: CHUNKS_BATCH_MAX_SIZE_def)

declare fetch_batches.simps [simp del]

definition try_get_chunks :: "('d, 's, 't, 'p) node_env \<Rightarrow> ('n, 'd, 's) client_net \<Rightarrow> chunk_info list
    \<Rightarrow> ('n, 's, encrypted_chunk list) client_op" where
  "try_get_chunks N C chunks_info = (\<lambda>n.
     case fetch_batches N C chunks_info n of (retrieved_chunks, n') \<Rightarrow>
       (if length chunks_info > length retrieved_chunks
        then Inl (Err (ChunksErr (NotEnoughChunksRetrieved (length chunks_info) (length retrieved_chunks)
               (map ci_dst_hash (filter (\<lambda>expected_info. \<not> list_ex (\<lambda>retrieved_chunk.
                  xor_content (wire N) (ec_content retrieved_chunk) = ci_dst_hash expected_info) retrieved_chunks) chunks_info)))))
        else Inr retrieved_chunks, n'))"

definition read_all :: "('d, 's, 't, 'p) node_env \<Rightarrow> ('n, 'd, 's) client_net \<Rightarrow> 'm se_env \<Rightarrow> 'm \<Rightarrow> ('n, 's, bytes) client_op" where
  "read_all N C S data_map =
     op_bind (try_get_chunks N C (dm_infos S data_map)) (\<lambda>encrypted_chunks.
       op_return (map_err (\<lambda>e. Err (ChunksErr (SelfEncryption e))) (se_decrypt_full_set S data_map encrypted_chunks)))"

partial_function (option) unpack_chunk :: "('d, 's, 't, 'p) node_env \<Rightarrow> ('n, 'd, 's) client_net \<Rightarrow> 'm se_env \<Rightarrow> chunk \<Rightarrow> 'n
    \<Rightarrow> (('s client_error failure + 'm) \<times> 'n) option" where
  "unpack_chunk N C S c n =
     (case level_de S (chunk_value c) of
        None \<Rightarrow> Some (Inl (Err (ChunksErr Serialisation)), n)
      | Some (First data_map) \<Rightarrow> Some (Inr data_map, n)
      | Some (Additional data_map) \<Rightarrow>
          (case read_all N C S data_map n of
             (Inl e, n') \<Rightarrow> Some (Inl e, n')
           | (Inr serialized_chunk, n') \<Rightarrow>
               (case bytes_de S serialized_chunk of
                  None \<Rightarrow> Some (Inl (Err (ChunksErr Serialisation)), n')
                | Some v \<Rightarrow> unpack_chunk N C S (chunk_deserialize (wire N) v) n')))"

definition read_bytes :: "('d, 's, 't, 'p) node_env \<Rightarrow> ('n, 'd, 's) client_net \<Rightarrow> 'm se_env \<Rightarrow> chunk_address \<Rightarrow> 'n
    \<Rightarrow> (('s client_error failure + bytes) \<times> 'n) option" where
  "read_bytes N C S address n =
     (case get_chunk N C address n of
        (Inl e, n1) \<Rightarrow> Some (Inl e, n1)
      | (Inr c, n1) \<Rightarrow>
          (case unpack_chunk N C S c n1 of
             None \<Rightarrow> None
           | Some (Inr data_map, n2) \<Rightarrow> Some (read_all N C S data_map n2)
           | Some (Inl Panic, n2) \<Rightarrow> Some (Inl Panic, n2)
           | Some (Inl (Err _), n2) \<Rightarrow> Some (Inr (chunk_value c), n2)))"

text \<open>Indexing the infos of the data map panics when the range is too long.\<close>

definition seek :: "('d, 's, 't, 'p) node_env \<Rightarrow> ('n, 'd, 's) client_net \<Rightarrow> 'm se_env \<Rightarrow> 'm \<Rightarrow> nat \<Rightarrow> nat \<Rightarrow> ('n, 's, bytes) client_op" where
  "seek N C S data_map pos len =
     (case se_seek_info S (dm_file_size S data_map) pos len of
        (start, end_index, relative_pos) \<Rightarrow>
          let all_infos = dm_infos S data_map
          in if start \<le> end_index \<and> end_index \<ge> length all_infos then op_return (Inl Panic)
             else op_bind (try_get_chunks N C (map (\<lambda>i. all_infos ! i) [start..<end_index + 1])) (\<lambda>encrypted_chunks.
                    op_return (map_err (\<lambda>e. Err (ChunksErr (SelfEncryption e)))
                      (se_decrypt_range S data_map encrypted_chunks relative_pos len))))"

text \<open>\<open>Bytes::split_to\<close> panics beyond the end; \<open>truncate\<close> does not.\<close>

definition split_and_truncate :: "bytes \<Rightarrow> nat \<Rightarrow> nat \<Rightarrow> 's client_error failure + bytes" where
  "split_and_truncate bs pos len = (if pos > length bs then Inl Panic else Inr (take len (drop pos bs)))"

definition read_from :: "('d, 's, 't, 'p) node_env \<Rightarrow> ('n, 'd, 's) client_net \<Rightarrow> 'm se_env \<Rightarrow> chunk_address \<Rightarrow> nat \<Rightarrow> nat \<Rightarrow> 'n
    \<Rightarrow> (('s client_error failure + bytes) \<times> 'n) option" where
  "read_from N C S address pos len n =
     (case get_chunk N C address n of
        (Inl e, n1) \<Rightarrow> Some (Inl e, n1)
      | (Inr c, n1) \<Rightarrow>
          (case unpack_chunk N C S c n1 of
             None \<Rightarrow> None
           | Some (Inr data_map, n2) \<Rightarrow> Some (seek N C S data_map pos len n2)
           | Some (Inl Panic, n2) \<Rightarrow> Some (Inl Panic, n2)
           | Some (Inl (Err _), n2) \<Rightarrow> Some (split_and_truncate (chunk_value c) pos len, n2)))"

section \<open>What self_encryption and bincode promise\<close>

text \<open>
  The data map lists the hashes of the encrypted chunks in their order, and the full set
  decrypts to what was encrypted; bincode reads back what it wrote. The data map of a
  serialised chunk that is too large is shorter than the chunk's content.
\<close>

definition info_of :: "('d, 's) wire_env \<Rightarrow> encrypted_chunk \<Rightarrow> chunk_info" where
  "info_of W c = \<lparr>ci_index = ec_index c, ci_dst_hash = xor_content W (ec_content c)\<rparr>"

definition se_laws :: "('d, 's) wire_env \<Rightarrow> 'm se_env \<Rightarrow> bool" where
  "se_laws W S \<longleftrightarrow>
     (\<forall>b m cs. se_encrypt S b = Inr (m, cs) \<longrightarrow> dm_infos S m = map (info_of W) cs \<and> se_decrypt_full_set S m cs = Inr b) \<and>
     (\<forall>l b. level_ser S l = Some b \<longrightarrow> level_de S b = Some l) \<and> (\<forall>v b. bytes_ser S v = Some b \<longrightarrow> bytes_de S b = Some v)"

definition data_maps_shrink :: "'m se_env \<Rightarrow> bool" where
  "data_maps_shrink S \<longleftrightarrow> (\<forall>v b m cs v'. MAX_CHUNK_SIZE S < length v \<longrightarrow> bytes_ser S v = Some b \<longrightarrow>
     se_encrypt S b = Inr (m, cs) \<longrightarrow> level_ser S (Additional m) = Some v' \<longrightarrow> length v' < length v)"

section \<open>Lemmas on packing\<close>

lemma to_chunk_simps [simp]:
  "chunk_value (to_chunk W v) = v" "chunk_address (to_chunk W v) = xor_content W v" "chunk_name (to_chunk W v) = xor_content W v"
  "chunk_ok W (to_chunk W v)"
  by (simp_all add: to_chunk_def chunk_new_def chunk_name_def chunk_ok_def)

lemma pack_loop_returns:
  assumes "data_maps_shrink S"
  shows "\<exists>r. pack_loop W S content chunks = Some r"
proof (induction "length content" arbitrary: content chunks rule: less_induct)
  case less
  show ?case
  proof (cases "\<exists>b m cs v'. MAX_CHUNK_SIZE S < length content \<and> bytes_ser S content = Some b \<and> se_encrypt S b = Inr (m, cs) \<and>
      level_ser S (Additional m) = Some v'")
    case True
    then obtain b m cs v' where *: "MAX_CHUNK_SIZE S < length content" "bytes_ser S content = Some b" "se_encrypt S b = Inr (m, cs)"
      "level_ser S (Additional m) = Some v'" by blast
    with assms have "length v' < length content" by (simp add: data_maps_shrink_def)
    from less [OF this, of "map (\<lambda>c. to_chunk W (ec_content c)) cs @ chunks"] * show ?thesis
      by (subst pack_loop.simps) (simp add: Let_def serialised_size_def chunk_serialize_def)
  next
    case False
    then show ?thesis
      by (subst pack_loop.simps) (auto simp: Let_def serialised_size_def chunk_serialize_def split: option.splits sum.splits)
  qed
qed

text \<open>A turn of the loop: the content fits, or the next level is packed.\<close>

lemma pack_loop_Inr:
  assumes "pack_loop W S content chunks = Some (Inr (name, out))"
  shows "length content \<le> MAX_CHUNK_SIZE S \<and> name = xor_content W content \<and> out = rev chunks @ [to_chunk W content] \<or>
    (\<exists>b m cs v'. MAX_CHUNK_SIZE S < length content \<and> bytes_ser S content = Some b \<and> se_encrypt S b = Inr (m, cs) \<and>
       level_ser S (Additional m) = Some v' \<and> pack_loop W S v' (map (\<lambda>c. to_chunk W (ec_content c)) cs @ chunks) = Some (Inr (name, out)))"
  using assms
  by (subst (asm) pack_loop.simps)
    (auto simp: Let_def serialised_size_def chunk_serialize_def split: if_splits option.splits sum.splits)

text \<open>
  Any property of contents that a packed level inherits from the one below reaches the top;
  the chunks of every level are among those returned.
\<close>

lemma pack_loop_induct:
  assumes "data_maps_shrink S" and "pack_loop W S content chunks = Some (Inr (name, out))" and "P content"
    and step: "\<And>content b m cs v'. P content \<Longrightarrow> bytes_ser S content = Some b \<Longrightarrow> se_encrypt S b = Inr (m, cs) \<Longrightarrow>
       level_ser S (Additional m) = Some v' \<Longrightarrow> (\<lambda>c. to_chunk W (ec_content c)) ` set cs \<subseteq> set out \<Longrightarrow> P v'"
  shows "set chunks \<subseteq> set out \<and> (\<exists>v. P v \<and> name = xor_content W v \<and> to_chunk W v \<in> set out)"
proof -
  have "set chunks \<subseteq> set out \<and> (P content \<longrightarrow> (\<exists>v. P v \<and> name = xor_content W v \<and> to_chunk W v \<in> set out))"
    using assms(2)
  proof (induction "length content" arbitrary: content chunks rule: less_induct)
    case less
    from pack_loop_Inr [OF less.prems] show ?case
    proof (elim disjE exE conjE)
      assume "name = xor_content W content" "out = rev chunks @ [to_chunk W content]"
      then show ?thesis by auto
    next
      fix b m cs v'
      assume st: "MAX_CHUNK_SIZE S < length content" "bytes_ser S content = Some b" "se_encrypt S b = Inr (m, cs)"
        "level_ser S (Additional m) = Some v'" "pack_loop W S v' (map (\<lambda>c. to_chunk W (ec_content c)) cs @ chunks) = Some (Inr (name, out))"
      with assms(1) have "length v' < length content" by (simp add: data_maps_shrink_def)
      note ih = less.hyps [OF this st(5)]
      then have "(\<lambda>c. to_chunk W (ec_content c)) ` set cs \<subseteq> set out" "set chunks \<subseteq> set out" by auto
      with ih step [OF _ st(2-4)] show ?thesis by blast
    qed
  qed
  with assms(3) show ?thesis by blast
qed

section \<open>Lemmas on chunks held by the network\<close>

definition held :: "('d, 's, 't, 'p) node_env \<Rightarrow> ('n, 'd, 's) client_net \<Rightarrow> 'n \<Rightarrow> chunk \<Rightarrow> bool" where
  "held N C n c \<longleftrightarrow> (\<exists>p v. holds C n (local_kad_record (chunk_address c) v) \<and>
     try_serialize_record (wire N) (enc_chunk (wire N) \<lparr>cwp_chunk = c, cwp_payment = p\<rparr>) ChunkKind = (Inr v :: 's protocol_error + bytes))"

lemma get_chunk_held:
  fixes N :: "('d, 's, 't, 'p) node_env" and C :: "('n, 'd, 's) client_net"
  assumes "rmp_laws (wire N)" and "held N C n c" and "chunk_ok (wire N) c"
  shows "get_chunk N C (chunk_address c) n = (Inr c, after_get C n (chunk_address c) False)"
proof -
  from assms(2) obtain p v where h: "holds C n (local_kad_record (chunk_address c) v)"
    and v: "try_serialize_record (wire N) (enc_chunk (wire N) \<lparr>cwp_chunk = c, cwp_payment = p\<rparr>) ChunkKind = (Inr v :: 's protocol_error + bytes)"
    by (auto simp: held_def)
  let ?cwp = "\<lparr>cwp_chunk = c, cwp_payment = p\<rparr>" and ?r = "local_kad_record (chunk_address c) v"
  have "header_from_record (wire N) ?r = Inr ChunkKind"
    "try_deserialize_record (dec_chunk (wire N)) ?r = (Inr ?cwp :: 's protocol_error failure + chunk_with_payment)"
    using chunk_record_read [OF assms(1), of ?cwp ?r] v assms(3) by (simp_all add: local_kad_record_def)
  moreover have "net_get C (chunk_address c) False n = (Inr ?r, after_get C n (chunk_address c) False)"
    using holds_get [OF h] by simp
  ultimately show ?thesis
    by (simp add: get_chunk_def from_chunk_address_def lift_err_def)
qed

lemma held_after_get:
  fixes N :: "('d, 's, 't, 'p) node_env" and C :: "('n, 'd, 's) client_net"
  assumes "keeps_records C" and "held N C n c"
  shows "held N C (after_get C n k re) c"
  using assms holds_after_get [OF assms(1)] unfolding held_def by blast

lemma store_chunk_result:
  fixes N :: "('d, 's, 't, 'p) node_env" and C :: "('n, 'd, 's) client_net"
  assumes "keeps_records C" and "store_chunk N C c p v n = (r, n')"
  shows "r \<noteq> Inl Panic" and "r = Inr () \<Longrightarrow> held N C n' c"
    and "held N C n d \<Longrightarrow> chunk_address d \<noteq> chunk_address c \<Longrightarrow> held N C n' d"
proof -
  let ?ser = "try_serialize_record (wire N) (enc_chunk (wire N) \<lparr>cwp_chunk = c, cwp_payment = p\<rparr>) ChunkKind :: 's protocol_error + bytes"
  have cases: "(\<exists>e. ?ser = Inl e \<and> r = Inl (Err (ProtocolErr e)) \<and> n' = n) \<or>
    (\<exists>w. ?ser = Inr w \<and> net_put C (local_kad_record (chunk_address c) w) v n = (r, n'))"
    using assms(2) by (cases ?ser) (auto simp: store_chunk_def from_chunk_address_def op_bind_def)
  have "fst (net_put C R v n) \<noteq> (Inl Panic :: 's client_error failure + unit)" for R
    by (cases "put_record R v (put_attempts C n R)") (simp_all add: net_put_def)
  with cases show "r \<noteq> Inl Panic" by (metis failure.distinct(1) fst_conv sum.inject(1))
  show "held N C n' c" if "r = Inr ()"
    using cases that net_put_kept [OF assms(1)] by (fastforce simp: held_def)
  show "held N C n' d" if "held N C n d" "chunk_address d \<noteq> chunk_address c"
  proof -
    from that(1) obtain q w where w: "holds C n (local_kad_record (chunk_address d) w)"
      "try_serialize_record (wire N) (enc_chunk (wire N) \<lparr>cwp_chunk = d, cwp_payment = q\<rparr>) ChunkKind = (Inr w :: 's protocol_error + bytes)"
      by (auto simp: held_def)
    have "n' = n \<or> (\<exists>u. n' = after_put C n (local_kad_record (chunk_address c) u) v)"
      using cases by (auto simp: net_put_def)
    then have "holds C n' (local_kad_record (chunk_address d) w)"
      using holds_after_put [OF assms(1) w(1)] w(1) that(2) by auto
    with w(2) show ?thesis by (auto simp: held_def)
  qed
qed

lemma join_all_tasks_Inr: "join_all_tasks rs = Inr () \<Longrightarrow> Inl (Err e) \<notin> set rs"
  by (induction rs rule: join_all_tasks.induct) auto

lemma upload_loop_held:
  fixes N :: "('d, 's, 't, 'p) node_env" and C :: "('n, 'd, 's) client_net"
  assumes keeps: "keeps_records C" and inj: "\<forall>c \<in> A. \<forall>d \<in> A. chunk_address c = chunk_address d \<longrightarrow> c = d"
    and "upload_loop N C proofs v started cs n = (Inr (), n')" and "set cs \<subseteq> A"
  shows "(\<forall>e. Inl (Err e) \<notin> set started) \<and> (\<forall>c \<in> set cs. held N C n' c) \<and> (\<forall>d \<in> A. held N C n d \<longrightarrow> held N C n' d)"
  using assms(3,4)
proof (induction cs arbitrary: started n)
  case Nil
  then show ?case using join_all_tasks_Inr [of started] by (auto split: if_splits)
next
  case (Cons c cs)
  from Cons.prems(1) obtain p where p: "bm_get proofs (chunk_address c) = Some p" by (auto split: option.splits)
  obtain r n1 where r: "store_chunk N C c p v n = (r, n1)" by fastforce
  have "(\<exists>started'. upload_loop N C proofs v started' cs n1 = (Inr (), n') \<and>
      (started' = started @ [r] \<or> started' = [] \<and> join_all_tasks (started @ [r]) = Inr ()))"
    using Cons.prems(1) p r by (auto split: if_splits sum.splits)
  then obtain started' where st: "upload_loop N C proofs v started' cs n1 = (Inr (), n')"
    "started' = started @ [r] \<or> started' = [] \<and> join_all_tasks (started @ [r]) = Inr ()" by blast
  note ih = Cons.IH [OF st(1)]
  have ok: "Inl (Err e) \<notin> set (started @ [r])" for e
    using st(2) ih Cons.prems(2) join_all_tasks_Inr by fastforce
  then have "r = Inr ()" using store_chunk_result(1) [OF keeps r] by (cases r) (auto split: failure.splits, metis failure.exhaust)
  then have "held N C n1 c" by (rule store_chunk_result(2) [OF keeps r])
  moreover have "held N C n1 d" if "d \<in> A" "held N C n d" for d
    using that inj Cons.prems(2) \<open>held N C n1 c\<close> store_chunk_result(3) [OF keeps r that(2)] by (cases "d = c") auto
  ultimately show ?case using ih ok Cons.prems(2) by auto
qed

section \<open>Lemmas on downloading\<close>

definition all_held :: "('d, 's, 't, 'p) node_env \<Rightarrow> ('n, 'd, 's) client_net \<Rightarrow> 'n \<Rightarrow> chunk set \<Rightarrow> bool" where
  "all_held N C n A \<longleftrightarrow> (\<forall>c \<in> A. held N C n c)"

lemma fetch_batch_held:
  fixes N :: "('d, 's, 't, 'p) node_env" and C :: "('n, 'd, 's) client_net"
  assumes "keeps_records C" and "rmp_laws (wire N)" and "all_held N C n A" and "(\<lambda>c. to_chunk (wire N) (ec_content c)) ` set cs \<subseteq> A"
  shows "\<exists>n'. fetch_batch N C (map (info_of (wire N)) cs) n = (cs, n') \<and> all_held N C n' A"
  using assms(3,4)
proof (induction cs arbitrary: n)
  case (Cons c cs)
  let ?a = "xor_content (wire N) (ec_content c)" and ?n1 = "after_get C n (xor_content (wire N) (ec_content c)) False"
  have "held N C n (to_chunk (wire N) (ec_content c))" using Cons.prems by (auto simp: all_held_def)
  from get_chunk_held [OF assms(2) this] have "get_chunk N C ?a n = (Inr (to_chunk (wire N) (ec_content c)), ?n1)" by simp
  moreover have "all_held N C ?n1 A" using Cons.prems(1) assms(1) by (simp add: all_held_def held_after_get)
  ultimately show ?case using Cons.IH [of ?n1] Cons.prems(2) by (auto simp: info_of_def)
qed simp

lemma fetch_batches_held:
  fixes N :: "('d, 's, 't, 'p) node_env" and C :: "('n, 'd, 's) client_net"
  assumes "keeps_records C" and "rmp_laws (wire N)" and "all_held N C n A" and "(\<lambda>c. to_chunk (wire N) (ec_content c)) ` set cs \<subseteq> A"
  shows "\<exists>n'. fetch_batches N C (map (info_of (wire N)) cs) n = (cs, n') \<and> all_held N C n' A"
  using assms(3,4)
proof (induction "length cs" arbitrary: cs n rule: less_induct)
  case less
  show ?case
  proof (cases "cs = []")
    case True
    with less.prems show ?thesis by (simp add: fetch_batches.simps)
  next
    case False
    let ?k = "CHUNKS_BATCH_MAX_SIZE"
    have sub: "(\<lambda>c. to_chunk (wire N) (ec_content c)) ` set (take ?k cs) \<subseteq> A"
      "(\<lambda>c. to_chunk (wire N) (ec_content c)) ` set (drop ?k cs) \<subseteq> A"
      using less.prems(2) by (auto dest: in_set_takeD in_set_dropD)
    obtain n1 where 1: "fetch_batch N C (map (info_of (wire N)) (take ?k cs)) n = (take ?k cs, n1)" "all_held N C n1 A"
      using fetch_batch_held [OF assms(1,2) less.prems(1) sub(1)] by blast
    have "length (drop ?k cs) < length cs" using False by (simp add: CHUNKS_BATCH_MAX_SIZE_def)
    from less.hyps [OF this 1(2) sub(2)] obtain n2 where
      2: "fetch_batches N C (map (info_of (wire N)) (drop ?k cs)) n1 = (drop ?k cs, n2)" "all_held N C n2 A" by blast
    from 1 2 False show ?thesis by (subst fetch_batches.simps) (simp add: take_map drop_map)
  qed
qed

lemma read_all_held:
  fixes N :: "('d, 's, 't, 'p) node_env" and C :: "('n, 'd, 's) client_net"
  assumes "keeps_records C" and "rmp_laws (wire N)" and "se_laws (wire N) S" and "all_held N C n A"
    and "se_encrypt S b = Inr (m, cs)" and "(\<lambda>c. to_chunk (wire N) (ec_content c)) ` set cs \<subseteq> A"
  shows "\<exists>n'. read_all N C S m n = (Inr b, n') \<and> all_held N C n' A"
proof -
  from assms(3,5) have m: "dm_infos S m = map (info_of (wire N)) cs" "se_decrypt_full_set S m cs = Inr b"
    by (auto simp: se_laws_def)
  from fetch_batches_held [OF assms(1,2,4,6)] m show ?thesis
    by (auto simp: read_all_def try_get_chunks_def op_bind_def)
qed

text \<open>A content that unpacks to the data map whenever the chunks of \<open>A\<close> are held.\<close>

definition resolves :: "('d, 's, 't, 'p) node_env \<Rightarrow> ('n, 'd, 's) client_net \<Rightarrow> 'm se_env \<Rightarrow> chunk set \<Rightarrow> 'm \<Rightarrow> bytes \<Rightarrow> bool" where
  "resolves N C S A dm v \<longleftrightarrow> (\<forall>n. all_held N C n A \<longrightarrow>
     (\<exists>n'. unpack_chunk N C S (to_chunk (wire N) v) n = Some (Inr dm, n') \<and> all_held N C n' A))"

lemma resolves_first:
  assumes "se_laws (wire N) S" and "level_ser S (First dm) = Some v"
  shows "resolves N C S A dm v"
  using assms by (auto simp: resolves_def se_laws_def unpack_chunk.simps)

lemma resolves_additional:
  fixes N :: "('d, 's, 't, 'p) node_env" and C :: "('n, 'd, 's) client_net"
  assumes laws: "keeps_records C" "rmp_laws (wire N)" "se_laws (wire N) S"
    and "resolves N C S A dm v" and "bytes_ser S v = Some b" and enc: "se_encrypt S b = Inr (m, cs)"
    and "level_ser S (Additional m) = Some v'" and sub: "(\<lambda>c. to_chunk (wire N) (ec_content c)) ` set cs \<subseteq> A"
  shows "resolves N C S A dm v'"
  unfolding resolves_def
proof (intro allI impI)
  fix n assume "all_held N C n A"
  from read_all_held [OF laws this enc sub] obtain n1 where r: "read_all N C S m n = (Inr b, n1)" "all_held N C n1 A" by blast
  from assms(4) r(2) obtain n2 where "unpack_chunk N C S (to_chunk (wire N) v) n1 = Some (Inr dm, n2)" "all_held N C n2 A"
    by (auto simp: resolves_def)
  moreover have "level_de S v' = Some (Additional m)" "bytes_de S b = Some v" using laws(3) assms(5,7) by (auto simp: se_laws_def)
  ultimately show "\<exists>n'. unpack_chunk N C S (to_chunk (wire N) v') n = Some (Inr dm, n') \<and> all_held N C n' A"
    using r by (subst unpack_chunk.simps) (simp add: chunk_deserialize_def to_chunk_def)
qed

text \<open>The head chunk of a large file leads to the data map of its contents.\<close>

lemma encrypt_large_resolves:
  fixes N :: "('d, 's, 't, 'p) node_env" and C :: "('n, 'd, 's) client_net"
  assumes laws: "keeps_records C" "rmp_laws (wire N)" "se_laws (wire N) S" and "data_maps_shrink S"
    and "encrypt_large (wire N) S bs = Some (Inr (head, chunks))"
  obtains dm cs v where "se_encrypt S bs = Inr (dm, cs)" "(\<lambda>c. to_chunk (wire N) (ec_content c)) ` set cs \<subseteq> set chunks"
    "resolves N C S (set chunks) dm v" "head = xor_content (wire N) v" "to_chunk (wire N) v \<in> set chunks"
proof -
  from assms(5) obtain dm cs where e: "se_encrypt S bs = Inr (dm, cs)" and p: "pack (wire N) S dm cs = Some (Inr (head, chunks))"
    by (auto simp: encrypt_large_def split: sum.splits)
  from p obtain v0 out where v0: "level_ser S (First dm) = Some v0" and l: "pack_loop (wire N) S v0 [] = Some (Inr (head, out))"
    and chunks: "chunks = map (\<lambda>c. to_chunk (wire N) (ec_content c)) cs @ out"
    by (auto simp: pack_def split: option.splits sum.splits if_splits)
  have start: "resolves N C S (set chunks) dm v0" by (rule resolves_first [OF laws(3) v0])
  have step: "resolves N C S (set chunks) dm v'" if "resolves N C S (set chunks) dm v" "bytes_ser S v = Some b"
      "se_encrypt S b = Inr (m, cs')" "level_ser S (Additional m) = Some v'"
      "(\<lambda>c. to_chunk (wire N) (ec_content c)) ` set cs' \<subseteq> set out" for v b m cs' v'
    using that(5) by (intro resolves_additional [OF laws that(1-4)]) (auto simp: chunks)
  have "set [] \<subseteq> set out \<and> (\<exists>v. resolves N C S (set chunks) dm v \<and> head = xor_content (wire N) v \<and> to_chunk (wire N) v \<in> set out)"
    by (rule pack_loop_induct [where P = "resolves N C S (set chunks) dm", OF assms(4) l start]) (rule step)
  then obtain v where "resolves N C S (set chunks) dm v" "head = xor_content (wire N) v" "to_chunk (wire N) v \<in> set out" by blast
  with e that [of dm cs v] show thesis by (auto simp: chunks)
qed

text \<open>A file whose chunks are all held is read back from the address of its head chunk.\<close>

lemma held_chunks_read:
  fixes N :: "('d, 's, 't, 'p) node_env" and C :: "('n, 'd, 's) client_net"
  assumes laws: "keeps_records C" "rmp_laws (wire N)" "se_laws (wire N) S" and "data_maps_shrink S"
    and small: "length bs < MIN_ENCRYPTABLE_BYTES S \<longrightarrow> level_de S bs = None"
    and chunks: "chunk_bytes (wire N) S bs = Some (Inr (address, chunks) :: 's client_error failure + _)" and held: "all_held N C n (set chunks)"
  shows "\<exists>n'. read_bytes N C S address n = Some (Inr bs, n')"
proof (cases "length bs < MIN_ENCRYPTABLE_BYTES S")
  case True
  with chunks have "chunks = [to_chunk (wire N) bs]" and a: "address = xor_content (wire N) bs"
    by (auto simp: chunk_bytes_def small_file_new_def package_small_def Let_def chunk_name_def split: if_splits)
  with held have "held N C n (to_chunk (wire N) bs)" by (simp add: all_held_def)
  from get_chunk_held [OF laws(2) this] small True show ?thesis by (simp add: read_bytes_def a unpack_chunk.simps)
next
  case False
  with chunks have e: "encrypt_large (wire N) S bs = Some (Inr (address, chunks))" by (auto simp: chunk_bytes_def)
  from encrypt_large_resolves [OF laws assms(4) e] obtain dm cs v where dm: "se_encrypt S bs = Inr (dm, cs)"
    "(\<lambda>c. to_chunk (wire N) (ec_content c)) ` set cs \<subseteq> set chunks" "resolves N C S (set chunks) dm v"
    "address = xor_content (wire N) v" "to_chunk (wire N) v \<in> set chunks" by blast
  let ?n1 = "after_get C n address False"
  have "get_chunk N C address n = (Inr (to_chunk (wire N) v), ?n1)"
    using get_chunk_held [OF laws(2), of C n "to_chunk (wire N) v"] held dm(4,5) by (simp add: all_held_def)
  moreover have "all_held N C ?n1 (set chunks)" using held laws(1) by (simp add: all_held_def held_after_get)
  with dm(3) obtain n2 where n2: "unpack_chunk N C S (to_chunk (wire N) v) ?n1 = Some (Inr dm, n2)" "all_held N C n2 (set chunks)"
    by (auto simp: resolves_def)
  moreover obtain n3 where "read_all N C S dm n2 = (Inr bs, n3)" using read_all_held [OF laws n2(2) dm(1,2)] by blast
  ultimately show ?thesis by (simp add: read_bytes_def)
qed

section \<open>A concrete file\<close>

text \<open>
  A file of four bytes whose data map needs a second level: the contents become two chunks and
  the data map 0; its serialisation is too large, so that it becomes two more chunks and the
  data map 1, which fits.
\<close>

definition demo_encrypted :: "nat \<Rightarrow> encrypted_chunk list" where
  "demo_encrypted m = (if m = 0 then [\<lparr>ec_index = 0, ec_content = [1, 2]\<rparr>, \<lparr>ec_index = 1, ec_content = [3, 4]\<rparr>]
     else [\<lparr>ec_index = 0, ec_content = [8]\<rparr>, \<lparr>ec_index = 1, ec_content = [9]\<rparr>])"

definition demo_se :: "nat se_env" where
  "demo_se = \<lparr>MIN_ENCRYPTABLE_BYTES = 3, MAX_CHUNK_SIZE = 4,
     se_encrypt = (\<lambda>b. if b = [1, 2, 3, 4] then Inr (0, demo_encrypted 0) else if b = [8, 9] then Inr (1, demo_encrypted 1) else Inl ''other''),
     se_decrypt_full_set = (\<lambda>m cs. Inr (concat (map ec_content cs))), se_decrypt_range = (\<lambda>m cs p l. Inl ''other''),
     se_seek_info = (\<lambda>s p l. (0, 0, 0)), dm_infos = (\<lambda>m. map (info_of demo_wire) (demo_encrypted m)), dm_file_size = (\<lambda>m. 4),
     level_ser = (\<lambda>l. if l = First 0 then Some [7, 7, 7, 7, 7] else if l = Additional 1 then Some [6] else None),
     level_de = (\<lambda>b. if b = [7, 7, 7, 7, 7] then Some (First 0) else if b = [6] then Some (Additional 1) else None),
     bytes_ser = (\<lambda>v. if v = [7, 7, 7, 7, 7] then Some [8, 9] else None),
     bytes_de = (\<lambda>b. if b = [8, 9] then Some [7, 7, 7, 7, 7] else None)\<rparr>"

definition demo_file_node :: "((bytes list \<times> bytes) btree_set, bytes, bytes list, bytes list \<times> u64 list) node_env" where
  "demo_file_node = demo_node\<lparr>wire := demo_wire\<rparr>"

lemma demo_file_node_sel [simp]: "wire demo_file_node = demo_wire"
  by (simp add: demo_file_node_def)

lemma demo_se_laws: "se_laws demo_wire demo_se" "data_maps_shrink demo_se"
  by (auto simp: se_laws_def data_maps_shrink_def demo_se_def demo_encrypted_def split: if_splits)

lemma demo_encrypt_large:
  "encrypt_large demo_wire demo_se [1, 2, 3, 4] = Some (Inr ([6], map (to_chunk demo_wire) [[1, 2], [3, 4], [9], [8], [6]]))"
proof -
  have "pack_loop demo_wire demo_se [6] (map (to_chunk demo_wire) [[8], [9]])
      = Some (Inr ([6], map (to_chunk demo_wire) [[9], [8], [6]]))"
    by (subst pack_loop.simps) (simp add: demo_se_def serialised_size_def Let_def)
  then have "pack_loop demo_wire demo_se [7, 7, 7, 7, 7] [] = Some (Inr ([6], map (to_chunk demo_wire) [[9], [8], [6]]))"
    by (subst pack_loop.simps) (simp add: demo_se_def serialised_size_def Let_def chunk_serialize_def demo_encrypted_def)
  then show ?thesis by (simp add: encrypt_large_def pack_def demo_se_def demo_encrypted_def Let_def)
qed

definition demo_free :: payment_proof where
  "demo_free = \<lparr>spent_ids = [], audit_trail = [], proof_path = []\<rparr>"

definition demo_free_proofs :: payment_proofs_map where
  "demo_free_proofs = map (\<lambda>a. (a, demo_free)) [[1, 2], [3, 4], [6], [8], [9]]"

lemma demo_store_chunk:
  "store_chunk demo_file_node map_net (to_chunk demo_wire b) demo_free v m = (Inr (), m(b \<mapsto> local_kad_record b (0x91 # 0 # 1 # b)))"
  by (simp add: store_chunk_def enc_chunk_def chunk_serialize_def demo_wire_def demo_free_def try_serialize_record_def
      header_try_serialize_def op_bind_def map_net_put from_chunk_address_def)

lemma demo_upload: "\<exists>n'. upload_bytes demo_file_node map_net demo_se [1, 2, 3, 4] demo_free_proofs v n = Some (Inr [6], n')"
proof -
  have "bm_get demo_free_proofs a = (if a \<in> {[1, 2], [3, 4], [6], [8], [9]} then Some demo_free else None)" for a
    by (simp add: demo_free_proofs_def)
  moreover have "\<not> length [1, 2, 3, 4 :: byte] < MIN_ENCRYPTABLE_BYTES demo_se" by (simp add: demo_se_def)
  ultimately show ?thesis
    using demo_encrypt_large
    by (simp add: upload_bytes_def upload_chunks_in_batches_def CHUNKS_BATCH_MAX_SIZE_def demo_store_chunk op_bind_def)
qed

section \<open>Properties\<close>

text \<open>C38: Uploading a file always comes to an end, with an address or an error, provided that the data
  map of a chunk too large for the network is shorter than the chunk; and so does calculating
  the file's address.\<close>

theorem upload_terminates:
  assumes "data_maps_shrink S"
  shows "(\<exists>res n'. upload_bytes N C S bs proofs v n = Some (res, n')) \<and> (\<exists>res. calculate_address (wire N) S bs = Some res)"
proof -
  have "\<exists>r. encrypt_large (wire N) S bs = Some r"
    using pack_loop_returns [OF assms, of "wire N" _ "[]"]
    by (auto simp: encrypt_large_def pack_def Let_def split: sum.splits option.splits) (metis option.distinct(1))+
  then show ?thesis
    by (auto simp: upload_bytes_def calculate_address_def chunk_bytes_def split: sum.splits)
qed

theorem upload_terminates_witness:
  "\<exists>res n'. upload_bytes demo_file_node map_net demo_se [1, 2, 3, 4] demo_free_proofs True Map.empty = Some (res, n')"
  using upload_terminates [OF demo_se_laws(2), of demo_file_node map_net "[1, 2, 3, 4]"] by blast

text \<open>C10: A file that was uploaded is read back: whatever its size, and however many levels of data
  maps its chunks needed, \<open>read_bytes\<close> at the address the upload returned gives the bytes that
  were uploaded. The network must keep what it accepts, the crates behave as documented, no
  two chunks of the file share a hash, and a small file must not itself be a serialised data
  map.\<close>

theorem file_roundtrip:
  fixes N :: "('d, 's, 't, 'p) node_env" and C :: "('n, 'd, 's) client_net"
  assumes laws: "keeps_records C" "rmp_laws (wire N)" "se_laws (wire N) S" and "data_maps_shrink S"
    and collision: "\<forall>head chunks. encrypt_large (wire N) S bs = Some (Inr (head, chunks)) \<longrightarrow> inj_on chunk_address (set chunks)"
    and small: "length bs < MIN_ENCRYPTABLE_BYTES S \<longrightarrow> level_de S bs = None"
    and up: "upload_bytes N C S bs proofs v n = Some (Inr address, n')"
  shows "\<exists>n''. read_bytes N C S address n' = Some (Inr bs, n'')"
proof -
  have "\<exists>chunks. chunk_bytes (wire N) S bs = Some (Inr (address, chunks) :: 's client_error failure + _) \<and> all_held N C n' (set chunks)"
  proof (cases "length bs < MIN_ENCRYPTABLE_BYTES S")
    case True
    with up obtain p where st: "store_chunk N C (to_chunk (wire N) bs) p v n = (Inr (), n')"
      and a: "address = xor_content (wire N) bs" and ne: "bs \<noteq> []"
      by (auto simp: upload_bytes_def upload_small_def op_bind_Inr small_file_new_def package_small_def Let_def split: if_splits)
    from store_chunk_result(2) [OF laws(1) st refl] a ne True show ?thesis
      by (simp add: chunk_bytes_def small_file_new_def package_small_def all_held_def chunk_name_def Let_def)
  next
    case False
    with up obtain chunks where e: "encrypt_large (wire N) S bs = Some (Inr (address, chunks))"
      and u: "upload_loop N C proofs v [] chunks n = (Inr (), n')"
      by (auto simp: upload_bytes_def upload_chunks_in_batches_def op_bind_Inr split: option.splits sum.splits)
    from collision e have "\<forall>c \<in> set chunks. \<forall>d \<in> set chunks. chunk_address c = chunk_address d \<longrightarrow> c = d" by (auto simp: inj_on_def)
    from upload_loop_held [OF laws(1) this u] e False show ?thesis by (simp add: all_held_def chunk_bytes_def)
  qed
  then show ?thesis using held_chunks_read [OF laws assms(4) small] by blast
qed

theorem file_roundtrip_witness:
  "\<exists>n' n''. upload_bytes demo_file_node map_net demo_se [1, 2, 3, 4] demo_free_proofs True Map.empty = Some (Inr [6], n') \<and>
     read_bytes demo_file_node map_net demo_se [6] n' = Some (Inr [1, 2, 3, 4], n'')"
proof -
  obtain n' where up: "upload_bytes demo_file_node map_net demo_se [1, 2, 3, 4] demo_free_proofs True Map.empty = Some (Inr [6], n')"
    using demo_upload by blast
  have "\<exists>n''. read_bytes demo_file_node map_net demo_se [6] n' = Some (Inr [1, 2, 3, 4], n'')"
  proof (rule file_roundtrip [OF map_net_keeps _ _ demo_se_laws(2) _ _ up])
    show "rmp_laws (wire demo_file_node)" "se_laws (wire demo_file_node) demo_se"
      using demo_wire_laws(1) demo_se_laws(1) by simp_all
    show "\<forall>head chunks. encrypt_large (wire demo_file_node) demo_se [1, 2, 3, 4] = Some (Inr (head, chunks)) \<longrightarrow> inj_on chunk_address (set chunks)"
      using demo_encrypt_large by (auto simp: inj_on_def to_chunk_def chunk_new_def)
    show "length [1, 2, 3, 4 :: byte] < MIN_ENCRYPTABLE_BYTES demo_se \<longrightarrow> level_de demo_se [1, 2, 3, 4] = None" by (simp add: demo_se_def)
  qed
  with up show ?thesis by blast
qed

text \<open>Reading a small file from a position beyond its end panics.\<close>

lemma read_from_beyond_end_panics:
  assumes "get_chunk N C address n = (Inr c, n1)" and "level_de S (chunk_value c) = None" and "length (chunk_value c) < pos"
  shows "read_from N C S address pos len n = Some (Inl Panic, n1)"
  using assms by (simp add: read_from_def unpack_chunk.simps split_and_truncate_def)

end
