(* ===== verification/Client_Faucet.thy ===== *)
theory Client_Faucet
  imports Client_Wallet
begin

text \<open>
  The faucet of sn_client (\<open>faucet/mod.rs\<close>): a wallet that is funded once with everything the
  genesis wallet holds, and from which tokens are handed out. The file system and the network
  are threaded through; random keys and derivation indices are arguments. (The genesis wallet's
  key file is written before the wallet is loaded, so that no key is drawn for it.)
  \<open>dbc_spends\<close> gives the signed spends a DBC carries.
\<close>

section \<open>Loading the faucet\<close>

definition load_faucet_wallet_from_genesis_wallet :: "('d, 's::linorder, 't, 'p) node_env \<Rightarrow> ('dbc, 's, 'b) genesis_env \<Rightarrow> 'dbc codec
    \<Rightarrow> io_faults \<Rightarrow> ('n, 'd, 's) client_net \<Rightarrow> ('dbc \<Rightarrow> 's btree_set) \<Rightarrow> client \<Rightarrow> main_key \<Rightarrow> derivation_index \<Rightarrow> derivation_index
    \<Rightarrow> file_system \<Rightarrow> 'n \<Rightarrow> ('s client_error failure + 'dbc local_wallet) \<times> file_system \<times> 'n" where
  "load_faucet_wallet_from_genesis_wallet N G K F C dbc_spends cl random_key index change_index fs n =
     (case create_faucet_wallet G K F random_key fs of
        Inl e \<Rightarrow> (Inl e, fs, n)
      | Inr (faucet_wallet, fs) \<Rightarrow>
          if wallet_balance faucet_wallet \<noteq> 0 then (Inr faucet_wallet, fs, n)
          else (case load_genesis_wallet G K F random_key fs of
             Inl e \<Rightarrow> (Inl e, fs, n)
           | Inr (genesis_wallet, fs) \<Rightarrow>
               (case send_from_wallet N (g_dbc G) K F C genesis_wallet (wallet_balance genesis_wallet)
                       (wallet_address (g_dbc G) faucet_wallet) cl True index change_index fs n of
                  (Inl e, n) \<Rightarrow> (lift_err TransfersErr (Inl e), fs, n)
                | (Inr (dbc, _, fs), n) \<Rightarrow>
                    let faucet_wallet = deposit (g_dbc G) faucet_wallet [dbc]
                    in case expect_result (wallet_store K F faucet_wallet fs) of
                         Inl e \<Rightarrow> (Inl e, fs, n)
                       | Inr fs \<Rightarrow>
                           (case client_verify N C (dbc_spends dbc) n of
                              (Inl _, n) \<Rightarrow> (Inl Panic, fs, n)
                            | (Inr _, n) \<Rightarrow> (Inr faucet_wallet, fs, n)))))"

definition get_tokens_from_faucet :: "('d, 's::linorder, 't, 'p) node_env \<Rightarrow> ('dbc, 's, 'b) genesis_env \<Rightarrow> 'dbc codec
    \<Rightarrow> io_faults \<Rightarrow> ('n, 'd, 's) client_net \<Rightarrow> ('dbc \<Rightarrow> 's btree_set) \<Rightarrow> client \<Rightarrow> token \<Rightarrow> public_address \<Rightarrow> main_key
    \<Rightarrow> derivation_index \<times> derivation_index \<Rightarrow> derivation_index \<times> derivation_index \<Rightarrow> file_system \<Rightarrow> 'n
    \<Rightarrow> ('s client_error failure + 'dbc) \<times> file_system \<times> 'n" where
  "get_tokens_from_faucet N G K F C dbc_spends cl amount to random_key genesis_indices indices fs n =
     (case load_faucet_wallet_from_genesis_wallet N G K F C dbc_spends cl random_key
             (fst genesis_indices) (snd genesis_indices) fs n of
        (Inl e, fs, n) \<Rightarrow> (Inl e, fs, n)
      | (Inr w, fs, n) \<Rightarrow>
          (case send_from_wallet N (g_dbc G) K F C w amount to cl True (fst indices) (snd indices) fs n of
             (Inl e, n) \<Rightarrow> (lift_err TransfersErr (Inl e), fs, n)
           | (Inr (dbc, _, fs), n) \<Rightarrow> (Inr dbc, fs, n)))"

section \<open>The genesis wallet\<close>

text \<open>\<open>build_without_verifying\<close> gives the same DBCs as \<open>build\<close>, one per output.\<close>

definition genesis_faithful :: "('dbc, 's, 'b) genesis_env \<Rightarrow> bool" where
  "genesis_faithful G \<longleftrightarrow> builder_faithful (g_dbc G) \<and> builder_faithful ((g_dbc G)\<lparr>built_dbcs := built_unverified G\<rparr>)"

lemma genesis_dbc_amount:
  assumes "genesis_faithful G" and "main_key_from_hex G GENESIS_DBC_SK = Inr gk" and "GENESIS_DBC G = Inr d"
  shows "dbc_token (g_dbc G) d = Inr GENESIS_DBC_AMOUNT \<and> is_ok (dbc_derived_key (g_dbc G) d gk)"
proof -
  from assms(2,3) obtain b out where "tb_build (g_dbc G) (first_dbc_builder G gk) (sn_hash (g_dbc G) genesis_reason) = Inr b"
    "built_unverified G b = Inr out" and "(case out of (genesis_dbc, _) # _ \<Rightarrow> Inr genesis_dbc
      | [] \<Rightarrow> Inl (GenesisDbcError ''DBC builder (unexpectedly) contains an empty set of outputs.'')) = Inr d"
    by (auto simp: GENESIS_DBC_def create_first_dbc_from_key_def Let_def)
  moreover from this(3) obtain t ds where "out = (d, t) # ds" by (auto split: list.splits prod.splits)
  ultimately have "list_all2 (\<lambda>(d, _) (t, a, i). dbc_id_of (g_dbc G) d = new_dbc_id (g_dbc G) a i \<and> dbc_token (g_dbc G) d = Inr t \<and>
      (\<forall>key. main_public_address (g_dbc G) key = a \<longrightarrow> is_ok (dbc_derived_key (g_dbc G) d key))) ((d, t) # ds)
      (tb_outputs (first_dbc_builder G gk))"
    using assms(1) by (simp add: genesis_faithful_def builder_faithful_def)
  then show ?thesis by (simp add: first_dbc_builder_def Let_def)
qed

lemma deposit_new_wallet:
  assumes "is_ok (dbc_derived_key D d key)" and "dbc_token D d = Inr t"
  shows "wallet_balance (deposit D (new_wallet key dir) [d]) = t \<and> wallet_value D (deposit D (new_wallet key dir) [d]) = unat t"
proof -
  have "wallet_value D (new_wallet key dir) = 0"
    by (simp add: wallet_value_def wallet_available_dbcs_def new_wallet_def keyless_wallet_new_def bm_values_def)
  with value_deposit_fresh [of "new_wallet key dir" D d t] assms
  have "wallet_value D (deposit D (new_wallet key dir) [d]) = unat t" by (simp add: new_wallet_def keyless_wallet_new_def)
  with deposit_balance [of "[d]" D "new_wallet key dir"] show ?thesis by simp
qed

text \<open>The wallet loaded the first time holds exactly the genesis DBC.\<close>

lemma load_genesis_wallet_first:
  assumes "genesis_faithful G" and "codec_ok K" and "main_key_from_hex G GENESIS_DBC_SK = Inr gk" and "length gk = SK_SIZE K"
    and "data_dir G = Some dd" and "\<not> fs_is_file (dd @ [''safe'', ''test_genesis'', ''wallet'', ''wallet'']) fs"
    and "load_genesis_wallet G K no_faults rk fs = (Inr (w, fs') :: 'e failure + _)"
  shows "wallet_balance w = GENESIS_DBC_AMOUNT" and "wallet_dir w = dd @ [''safe'', ''test_genesis'', ''wallet'']"
    and "fs_frame (dd @ [''safe'', ''test_genesis'']) fs fs'"
proof -
  let ?root = "dd @ [''safe'', ''test_genesis'']"
  let ?dir = "?root @ [''wallet'']" and ?D = "g_dbc G"
  from assms(7) obtain w0 fs4 where c: "create_genesis_wallet G K no_faults rk fs = (Inr (w0, fs4) :: 'e failure + _)"
    and "\<exists>d. GENESIS_DBC G = (Inr d :: 'e failure + _) \<and> w = deposit ?D w0 [d] \<and> wallet_store K no_faults w fs4 = Inr fs'"
    by (auto simp: load_genesis_wallet_def Let_def)
  then obtain d where d: "GENESIS_DBC G = (Inr d :: 'e failure + _)" and w: "w = deposit ?D w0 [d]"
    and 5: "wallet_store K no_faults w fs4 = Inr fs'" by blast
  from c assms(3,5) obtain fs1 fs2 fs3 where 1: "fs_create_dir_all no_faults ?root fs = Inr fs1"
    and 2: "fs_create_dir_all no_faults ?dir fs1 = Inr fs2"
    and 3: "fs_write no_faults (?dir @ [''main_key'']) (to_hex_text K (main_key_to_bytes K gk)) fs2 = Inr fs3"
    and 4: "load_from ?D K no_faults rk ?root fs3 = Inr (w0, fs4)"
    by (auto simp: create_genesis_wallet_def get_genesis_dir_def get_test_dir_def Let_def)
  note files = fs_create_dir_files [OF 1] fs_create_dir_files [OF 2] fs_write_files [OF 3]
  have "map_of (fs_files fs3) (?dir @ [''main_key'']) = Some (to_hex_text K (main_key_to_bytes K gk))"
    using files by simp
  then have "key_stored K ?dir gk fs3"
    using assms(2,4) by (simp add: key_stored_iff bls_secret_from_hex_def codec_ok_def)
  from load_from_key [OF 4 this] have "wal_key w0 = gk" .
  moreover have "w0 = new_wallet (wal_key w0) ?dir"
    using files assms(6) by (intro load_from_fresh [OF 4]) (simp add: fs_is_file_def)
  ultimately have w0: "w0 = new_wallet gk ?dir" by simp
  show "wallet_balance w = GENESIS_DBC_AMOUNT"
    unfolding w w0 using genesis_dbc_amount [OF assms(1,3) d] by (simp add: deposit_new_wallet)
  show dir: "wallet_dir w = dd @ [''safe'', ''test_genesis'', ''wallet'']" by (simp add: w w0) (simp add: new_wallet_def)
  have "fs_frame ?root fs fs2" by (rule fs_frame_trans [OF fs_frame_dir [OF 1] fs_frame_dir [OF 2]])
  moreover have "fs_frame ?root fs2 fs4"
    by (rule fs_frame_trans [OF fs_frame_write [OF 3] fs_frame_load_from [OF 4]]) simp
  moreover from 5 have "fs_frame ?root fs4 fs'"
    unfolding wallet_store_def by (rule fs_frame_store_wallet) (simp add: dir)
  ultimately show "fs_frame ?root fs fs'" by (rule fs_frame_trans [OF fs_frame_trans])
qed

lemma create_faucet_wallet_first:
  assumes "codec_ok K" and "length rk = SK_SIZE K" and "data_dir G = Some dd"
    and "\<not> fs_is_file (dd @ [''safe'', ''test_faucet'', ''wallet'', ''wallet'']) fs"
    and "create_faucet_wallet G K no_faults rk fs = (Inr (w, fs') :: 'e failure + _)"
  shows "w = new_wallet (wal_key w) (dd @ [''safe'', ''test_faucet'', ''wallet''])"
    and "key_stored K (dd @ [''safe'', ''test_faucet'', ''wallet'']) (wal_key w) fs'"
    and "dir_clear (dd @ [''safe'', ''test_faucet'', ''wallet'']) fs'" and "fs_frame (dd @ [''safe'', ''test_faucet'']) fs fs'"
proof -
  let ?root = "dd @ [''safe'', ''test_faucet'']"
  let ?dir = "?root @ [''wallet'']" and ?D = "g_dbc G"
  from assms(3,5) obtain fs1 where 1: "fs_create_dir_all no_faults ?root fs = Inr fs1"
    and 2: "load_from ?D K no_faults rk ?root fs1 = Inr (w, fs')"
    by (auto simp: create_faucet_wallet_def get_faucet_dir_def get_test_dir_def Let_def)
  from load_from_fresh [OF 2] assms(4) show "w = new_wallet (wal_key w) (dd @ [''safe'', ''test_faucet'', ''wallet''])"
    by (simp add: fs_is_file_def fs_create_dir_files [OF 1])
  show "fs_frame ?root fs fs'" using fs_frame_dir [OF 1] fs_frame_load_from [OF 2] by (rule fs_frame_trans)
  from load_from_keeps_key [OF assms(1,2) 2]
  show "key_stored K (dd @ [''safe'', ''test_faucet'', ''wallet'']) (wal_key w) fs'"
    "dir_clear (dd @ [''safe'', ''test_faucet'', ''wallet'']) fs'" by simp_all
qed

lemma create_faucet_wallet_stored:
  assumes "data_dir G = Some dd" and "key_stored K (dd @ [''safe'', ''test_faucet'', ''wallet'']) key fs"
    and "dir_clear (dd @ [''safe'', ''test_faucet'', ''wallet'']) fs"
    and "wallet_stored K (dd @ [''safe'', ''test_faucet'', ''wallet'']) w fs"
  shows "\<exists>fs2. create_faucet_wallet G K no_faults rk fs
      = Inr (\<lparr>wal_key = key, wallet = w, wallet_dir = dd @ [''safe'', ''test_faucet'', ''wallet'']\<rparr>, fs2) \<and> fs_files fs2 = fs_files fs"
proof -
  let ?root = "dd @ [''safe'', ''test_faucet'']"
  have "dir_clear ?root fs"
    unfolding dir_clear_def
  proof (intro allI impI)
    fix k assume "k \<le> length ?root"
    then have "take k ?root = take k (?root @ [''wallet''])" and "k \<le> length (?root @ [''wallet''])"
      by (simp_all only: take_append length_append) simp_all
    then show "\<not> fs_is_file (take k ?root) fs" using assms(3) unfolding dir_clear_def by simp
  qed
  then obtain fs1 where 1: "fs_create_dir_all no_faults ?root fs = Inr fs1" using fs_create_dir_all_ok by (auto simp: is_ok_iff)
  note files = fs_create_dir_files [OF 1]
  have "key_stored K (?root @ [''wallet'']) key fs1" "dir_clear (?root @ [''wallet'']) fs1" "wallet_stored K (?root @ [''wallet'']) w fs1"
    using assms(2-4) by (simp_all add: key_stored_iff dir_clear_def fs_is_file_def wallet_stored_def files)
  from load_from_stored [OF this, of "g_dbc G" rk] 1 files assms(1) show ?thesis
    by (auto simp: create_faucet_wallet_def get_faucet_dir_def get_test_dir_def Let_def)
qed

lemma stored_frame:
  assumes "fs_frame root fs fs'" and "\<not> prefix root dir" and "\<not> prefix root (dir @ [''main_key''])"
  shows "key_stored K dir key fs \<Longrightarrow> key_stored K dir key fs'" and "dir_clear dir fs \<Longrightarrow> dir_clear dir fs'"
proof -
  show "key_stored K dir key fs \<Longrightarrow> key_stored K dir key fs'" using assms by (simp add: key_stored_iff fs_frame_def)
  have "\<not> prefix root (take k dir)" for k using assms(2) by (meson prefix_order.trans take_is_prefix)
  then show "dir_clear dir fs \<Longrightarrow> dir_clear dir fs'" using assms(1) by (simp add: dir_clear_def fs_is_file_def fs_frame_def)
qed

lemma load_faucet_loaded:
  fixes N :: "('d, 's::linorder, 't, 'p) node_env"
  assumes "create_faucet_wallet G K F rk fs = (Inr (w, fs1) :: 's client_error failure + _)" and "wallet_balance w \<noteq> 0"
  shows "load_faucet_wallet_from_genesis_wallet N G K F C dbc_spends cl rk idx cidx fs n = (Inr w, fs1, n)"
  using assms by (simp add: load_faucet_wallet_from_genesis_wallet_def)

text \<open>What happened when an empty faucet wallet was funded.\<close>

lemma load_faucet_funding:
  fixes N :: "('d, 's::linorder, 't, 'p) node_env"
  assumes "load_faucet_wallet_from_genesis_wallet N G K F C dbc_spends cl rk idx cidx fs n = (Inr w, fs', n')"
    and "\<And>f fs1. create_faucet_wallet G K F rk fs = (Inr (f, fs1) :: 's client_error failure + _) \<Longrightarrow> wallet_balance f = 0"
  obtains f fs1 g fs2 d x fs3 n1 where "create_faucet_wallet G K F rk fs = (Inr (f, fs1) :: 's client_error failure + _)"
    "load_genesis_wallet G K F rk fs1 = (Inr (g, fs2) :: 's client_error failure + _)"
    "send_from_wallet N (g_dbc G) K F C g (wallet_balance g) (wallet_address (g_dbc G) f) cl True idx cidx fs2 n = (Inr (d, x, fs3), n1)"
    "wallet_store K F w fs3 = Inr fs'" "w = deposit (g_dbc G) f [d]"
proof -
  let ?D = "g_dbc G"
  obtain f fs1 where f: "create_faucet_wallet G K F rk fs = (Inr (f, fs1) :: 's client_error failure + _)"
    using assms(1) by (cases "create_faucet_wallet G K F rk fs :: 's client_error failure + _")
      (auto simp: load_faucet_wallet_from_genesis_wallet_def)
  note b = assms(2) [OF this]
  obtain g fs2 where g: "load_genesis_wallet G K F rk fs1 = (Inr (g, fs2) :: 's client_error failure + _)"
    using assms(1) f b by (cases "load_genesis_wallet G K F rk fs1 :: 's client_error failure + _")
      (auto simp: load_faucet_wallet_from_genesis_wallet_def)
  obtain r n1 where send: "send_from_wallet N ?D K F C g (wallet_balance g) (wallet_address ?D f) cl True idx cidx fs2 n = (r, n1)"
    by fastforce
  obtain d x fs3 where r: "r = Inr (d, x, fs3)"
    using assms(1) f g send b by (cases r) (auto simp: load_faucet_wallet_from_genesis_wallet_def lift_err_def)
  obtain fs4 where st: "wallet_store K F (deposit ?D f [d]) fs3 = Inr fs4"
    using assms(1) f g send r b by (cases "wallet_store K F (deposit ?D f [d]) fs3")
      (auto simp: load_faucet_wallet_from_genesis_wallet_def expect_result_def Let_def)
  then have "w = deposit ?D f [d]" "fs' = fs4"
    using assms(1) f g send r b
    by (auto simp: load_faucet_wallet_from_genesis_wallet_def expect_result_def Let_def split: sum.splits prod.splits)
  with that f g send r st show thesis by blast
qed

section \<open>Properties\<close>

text \<open>C34: The first time the faucet is loaded (neither it nor the genesis wallet has a wallet file), if
  the network accepts and confirms the transfer, the faucet ends up with exactly the tokens of
  the genesis DBC; and from then on loading it returns that same wallet without touching the
  network.\<close>

theorem faucet_funded_once:
  fixes N :: "('d, 's::linorder, 't, 'p) node_env" and G :: "('dbc, 's, 'b) genesis_env"
  assumes "genesis_faithful G" and "codec_ok K" and "main_key_from_hex G GENESIS_DBC_SK = Inr gk" and "length gk = SK_SIZE K"
    and "length rk = SK_SIZE K" and "data_dir G = Some dd"
    and fresh: "\<not> fs_is_file (dd @ [''safe'', ''test_genesis'', ''wallet'', ''wallet'']) fs"
      "\<not> fs_is_file (dd @ [''safe'', ''test_faucet'', ''wallet'', ''wallet'']) fs"
    and load: "load_faucet_wallet_from_genesis_wallet N G K no_faults C dbc_spends cl rk idx cidx fs n = (Inr w, fs', n')"
  shows "wallet_balance w = GENESIS_DBC_AMOUNT \<and> wallet_value (g_dbc G) w = unat GENESIS_DBC_AMOUNT \<and>
    (\<forall>rk2 idx2 cidx2 m. \<exists>fs2. load_faucet_wallet_from_genesis_wallet N G K no_faults C dbc_spends cl rk2 idx2 cidx2 fs' m
       = (Inr w, fs2, m) \<and> fs_files fs2 = fs_files fs')"
proof -
  let ?root = "dd @ [''safe'', ''test_faucet'']" and ?groot = "dd @ [''safe'', ''test_genesis'']" and ?D = "g_dbc G"
  let ?dir = "?root @ [''wallet'']"
  note first = create_faucet_wallet_first [OF assms(2,5,6) fresh(2)]
  have "wallet_balance f = 0" if "create_faucet_wallet G K no_faults rk fs = (Inr (f, fs1) :: 's client_error failure + _)" for f fs1
    by (subst first(1) [OF that]) (simp add: wallet_balance_def new_wallet_def keyless_wallet_new_def)
  then obtain f fs1 g fs2 d x fs3 n1
    where f: "create_faucet_wallet G K no_faults rk fs = (Inr (f, fs1) :: 's client_error failure + _)"
      and g: "load_genesis_wallet G K no_faults rk fs1 = (Inr (g, fs2) :: 's client_error failure + _)"
      and send: "send_from_wallet N ?D K no_faults C g (wallet_balance g) (wallet_address ?D f) cl True idx cidx fs2 n = (Inr (d, x, fs3), n1)"
      and st: "wallet_store K no_faults w fs3 = Inr fs'" and w: "w = deposit ?D f [d]"
    using load_faucet_funding [OF load] by metis
  note f0 = first [OF f]
  have "\<not> fs_is_file (dd @ [''safe'', ''test_genesis'', ''wallet'', ''wallet'']) fs1"
    using fresh(1) f0(4) by (simp add: fs_is_file_def fs_frame_def)
  note g0 = load_genesis_wallet_first [OF assms(1-4,6) this g]
  have bf: "builder_faithful ?D" using assms(1) by (simp add: genesis_faithful_def)
  note sent = send_from_wallet_Inr [OF bf send]
  from sent(1) have bal: "wallet_balance w = GENESIS_DBC_AMOUNT \<and> wallet_value ?D w = unat GENESIS_DBC_AMOUNT"
    unfolding w using deposit_new_wallet [of ?D d "wal_key f" GENESIS_DBC_AMOUNT ?dir] f0(1) g0(1)
    by (simp add: wallet_address_def)
  have "fs_frame ?groot fs1 fs3" using g0(3) sent(2) [of ?groot] g0(2) by (simp add: fs_frame_trans)
  note stored = stored_frame [OF this, of ?dir]
  have dir: "wallet_dir w = ?dir" and key: "wal_key w = wal_key f"
    unfolding w by (subst f0(1), simp, simp add: new_wallet_def) simp
  have "key_stored K ?dir (wal_key w) fs3" "dir_clear ?dir fs3" using f0(2,3) stored key by simp_all
  with store_stored [OF assms(2) _ _ st, of "wal_key w"] dir
  have "\<exists>fs2. create_faucet_wallet G K no_faults rk2 fs' = (Inr (w, fs2) :: 's client_error failure + _) \<and> fs_files fs2 = fs_files fs'" for rk2
    using create_faucet_wallet_stored [OF assms(6), of K "wal_key w" fs' "wallet w" rk2] by (cases w) auto
  moreover have "wallet_balance w \<noteq> 0" using bal GENESIS_DBC_AMOUNT_value by (metis unat_0 zero_neq_numeral)
  ultimately have "\<exists>fs2. load_faucet_wallet_from_genesis_wallet N G K no_faults C dbc_spends cl rk2 idx2 cidx2 fs' m = (Inr w, fs2, m) \<and>
      fs_files fs2 = fs_files fs'" for rk2 idx2 cidx2 m
    using load_faucet_loaded by metis
  with bal show ?thesis by blast
qed

definition demo_genesis_env :: "(dbc_id \<times> token, bytes, tx_builder) genesis_env" where
  "demo_genesis_env = \<lparr>g_dbc = demo_dbc_env, derive_key = (\<lambda>k i. k), derived_dbc_id = (\<lambda>k. k @ replicate 32 0), empty_tx = Transfers.demo_tx,
     built_unverified = built_dbcs demo_dbc_env, main_key_from_hex = (\<lambda>_. Inr [1]), data_dir = Some []\<rparr>"

definition demo_genesis_dbc :: "dbc_id \<times> token" where
  "demo_genesis_dbc = (1 # replicate 32 0, GENESIS_DBC_AMOUNT)"

definition demo_wallets :: "(dbc_id \<times> token) keyless_wallet list" where
  "demo_wallets = [keyless_wallet_new,
     keyless_wallet_new\<lparr>balance := GENESIS_DBC_AMOUNT, available_dbcs := [(fst demo_genesis_dbc, demo_genesis_dbc)]\<rparr>,
     keyless_wallet_new\<lparr>balance := GENESIS_DBC_AMOUNT, spent_dbcs := [(fst demo_genesis_dbc, demo_genesis_dbc)],
       dbcs_created_for_others := [([2, 3], GENESIS_DBC_AMOUNT)]\<rparr>,
     keyless_wallet_new\<lparr>balance := GENESIS_DBC_AMOUNT, available_dbcs := [([2, 3], ([2, 3], GENESIS_DBC_AMOUNT))]\<rparr>]"

definition demo_wallets_codec :: "(dbc_id \<times> token) codec" where
  "demo_wallets_codec = demo_codec\<lparr>
     wallet_serialize := (\<lambda>w. if w = demo_wallets ! 0 then Inr [0] else if w = demo_wallets ! 1 then Inr [1]
        else if w = demo_wallets ! 2 then Inr [2] else if w = demo_wallets ! 3 then Inr [3] else Inl ''unsupported''),
     wallet_deserialize := (\<lambda>b. Inr (demo_wallets ! unat (hd b)))\<rparr>"

definition demo_spend_node :: "((bytes list \<times> bytes) btree_set, bytes, bytes list, bytes list \<times> u64 list) node_env" where
  "demo_spend_node = demo_node\<lparr>spend_verify := (\<lambda>_ _. True)\<rparr>"

lemma demo_genesis_env_sel [simp]:
  "g_dbc demo_genesis_env = demo_dbc_env" "derive_key demo_genesis_env k i = k" "derived_dbc_id demo_genesis_env k = k @ replicate 32 0"
  "built_unverified demo_genesis_env = built_dbcs demo_dbc_env" "main_key_from_hex demo_genesis_env h = Inr [1]" "data_dir demo_genesis_env = Some []"
  by (simp_all add: demo_genesis_env_def)

lemma demo_wallets_codec_sel [simp]:
  "to_hex_text demo_wallets_codec b = b" "from_hex_text demo_wallets_codec b = Some b" "main_key_to_bytes demo_wallets_codec k = k"
  "SK_SIZE demo_wallets_codec = 1" "sk_from_bytes demo_wallets_codec b = Inr b" "public_address_to_bytes demo_wallets_codec a = a"
  "dbc_to_hex demo_wallets_codec d = Inr (fst d)" "xor_from_content demo_wallets_codec b = b" "hex_name demo_wallets_codec b = ''x''"
  by (simp_all add: demo_wallets_codec_def demo_codec_def)

text \<open>The four wallets differ, so each is written as its number.\<close>

lemma demo_amount_nonzero: "GENESIS_DBC_AMOUNT \<noteq> 0"
  using GENESIS_DBC_AMOUNT_value by (metis unat_0 zero_neq_numeral)

lemma demo_wallets_serialize:
  assumes "k < 4"
  shows "wallet_serialize demo_wallets_codec (demo_wallets ! k) = Inr [word_of_nat k]"
proof -
  have "k = 0 \<or> k = 1 \<or> k = 2 \<or> k = 3" using assms by linarith
  then show ?thesis using demo_amount_nonzero
    by (auto simp: demo_wallets_codec_def demo_wallets_def keyless_wallet_new_def demo_genesis_dbc_def)
qed

lemma demo_wallets_codec_ok: "codec_ok demo_wallets_codec"
  by (auto simp: codec_ok_def demo_wallets_codec_def demo_codec_def split: if_splits)

definition demo_files1 :: "(path \<times> bytes) list" where
  "demo_files1 = [([''safe'', ''test_faucet'', ''wallet'', ''main_key''], [2]), ([''safe'', ''test_faucet'', ''wallet'', ''public_address''], [2]),
    ([''safe'', ''test_faucet'', ''wallet'', ''wallet''], [0])]"

definition demo_dirs1 :: "path list" where
  "demo_dirs1 = [[''safe'', ''test_faucet'', ''wallet'', ''received_dbcs''], [''safe'', ''test_faucet'', ''wallet''], [], [''safe''], [''safe'', ''test_faucet'']]"

definition demo_fs2 :: "byte \<Rightarrow> file_system" where
  "demo_fs2 b = \<lparr>fs_files = demo_files1 @ [([''safe'', ''test_genesis'', ''wallet'', ''main_key''], [1]), ([''safe'', ''test_genesis'', ''wallet'', ''wallet''], [b])],
     fs_dirs = [[''safe'', ''test_genesis'', ''wallet'', ''received_dbcs''], [''safe'', ''test_genesis'', ''wallet''], [''safe'', ''test_genesis'']] @ demo_dirs1\<rparr>"

lemmas demo_fs_simps = fs_create_dir_all_def fs_is_file_def get_main_key_def store_new_keypair_def fs_write_def fs_put_def fs_read_def
  get_wallet_def store_wallet_def create_received_dbcs_dir_def Let_def load_from_def load_from_path_def get_test_dir_def
  bls_secret_from_hex_def expect_result_def

lemma demo_faucet_created: "create_faucet_wallet demo_genesis_env demo_wallets_codec no_faults [2] \<lparr>fs_files = [], fs_dirs = []\<rparr>
   = Inr (new_wallet [2] [''safe'', ''test_faucet'', ''wallet''], \<lparr>fs_files = demo_files1, fs_dirs = demo_dirs1\<rparr>)"
  using demo_wallets_serialize [of 0]
  by (simp add: create_faucet_wallet_def get_faucet_dir_def demo_fs_simps
     atLeastLessThanSuc demo_files1_def demo_dirs1_def new_wallet_def demo_wallets_def)

lemma demo_genesis_created: "create_genesis_wallet demo_genesis_env demo_wallets_codec no_faults [2] \<lparr>fs_files = demo_files1, fs_dirs = demo_dirs1\<rparr>
   = Inr (new_wallet [1] [''safe'', ''test_genesis'', ''wallet''], demo_fs2 0)"
  using demo_wallets_serialize [of 0]
  by (simp add: create_genesis_wallet_def get_genesis_dir_def demo_fs_simps
     atLeastLessThanSuc demo_files1_def demo_dirs1_def new_wallet_def demo_wallets_def demo_fs2_def)

lemma demo_genesis_dbc: "GENESIS_DBC demo_genesis_env = Inr demo_genesis_dbc"
  by (simp add: GENESIS_DBC_def create_first_dbc_from_key_def first_dbc_builder_def Let_def demo_genesis_dbc_def expect_result_def)

lemma demo_genesis_stored:
  "k < 4 \<Longrightarrow> wallet_store demo_wallets_codec no_faults \<lparr>wal_key = [1], wallet = demo_wallets ! k, wallet_dir = [''safe'', ''test_genesis'', ''wallet'']\<rparr>
     (demo_fs2 b) = Inr (demo_fs2 (word_of_nat k))"
  using demo_wallets_serialize [of k]
  by (simp add: wallet_store_def store_wallet_def fs_write_def fs_put_def demo_fs2_def demo_files1_def demo_dirs1_def)

lemma demo_genesis_loaded: "load_genesis_wallet demo_genesis_env demo_wallets_codec no_faults [2] \<lparr>fs_files = demo_files1, fs_dirs = demo_dirs1\<rparr>
   = Inr (\<lparr>wal_key = [1], wallet = demo_wallets ! 1, wallet_dir = [''safe'', ''test_genesis'', ''wallet'']\<rparr>, demo_fs2 1)"
proof -
  have "deposit demo_dbc_env (new_wallet [1] d) [demo_genesis_dbc] = \<lparr>wal_key = [1], wallet = demo_wallets ! 1, wallet_dir = d\<rparr>" for d
    by (simp add: deposit_def keyless_deposit_def new_wallet_def keyless_wallet_new_def demo_genesis_dbc_def demo_wallets_def
        bm_collect_def bm_append_def bm_contains_key_def available_sum_def)
  then show ?thesis using demo_genesis_stored [of 1]
    by (simp add: load_genesis_wallet_def demo_genesis_created demo_genesis_dbc expect_result_def)
qed

definition demo_grant :: "(dbc_id \<times> token, bytes) transfer_outputs" where
  "demo_grant = \<lparr>tx = Transfers.demo_tx\<lparr>inputs := [\<lparr>in_dbc_id = fst demo_genesis_dbc, in_token = GENESIS_DBC_AMOUNT\<rparr>]\<rparr>,
     created_dbcs = [([2, 3], GENESIS_DBC_AMOUNT)], change_dbc = None,
     all_spend_requests = [\<lparr>signed_spend = fst demo_genesis_dbc, parent_tx = Transfers.demo_tx\<rparr>]\<rparr>"

lemma demo_genesis_sends:
  "local_send demo_dbc_env \<lparr>wal_key = [1], wallet = demo_wallets ! 1, wallet_dir = d\<rparr> [(GENESIS_DBC_AMOUNT, [2])] None [[3]] [4]
    = Inr (\<lparr>wal_key = [1], wallet = demo_wallets ! 2, wallet_dir = d\<rparr>, demo_grant)"
proof -
  have sel: "select_inputs demo_dbc_env [(demo_genesis_dbc, [1])] GENESIS_DBC_AMOUNT = Inr ([(demo_genesis_dbc, [1])], 0)"
    by (simp add: select_inputs_def checked_add_def checked_sub_def demo_genesis_dbc_def GENESIS_DBC_AMOUNT_value)
  have "total_amount [(GENESIS_DBC_AMOUNT, a, i)] = Some GENESIS_DBC_AMOUNT" for a i
    by (simp add: total_amount_def checked_add_def GENESIS_DBC_AMOUNT_value)
  then have "create_transfer demo_dbc_env [(demo_genesis_dbc, [1])] [(GENESIS_DBC_AMOUNT, [2], [3])] [1] hash_default [4] = Inr demo_grant"
    by (simp add: create_transfer_def sel create_transfer_with_def transfer_builder_def bm_collect_def bm_append_def
        bm_contains_key_def demo_grant_def) (simp add: demo_genesis_dbc_def)
  moreover have "wallet_available_dbcs demo_dbc_env \<lparr>wal_key = [1], wallet = demo_wallets ! 1, wallet_dir = d\<rparr> = [(demo_genesis_dbc, [1])]"
    by (simp add: wallet_available_dbcs_def demo_wallets_def bm_values_def demo_genesis_dbc_def)
  ultimately show ?thesis
    by (simp add: local_send_def wallet_address_def)
      (simp add: update_local_wallet_def demo_grant_def demo_wallets_def bs_collect_def bs_extend_def bs_insert_def Let_def
        insort_insert_key_def bm_remove_def bm_collect_def bm_append_def keyless_wallet_new_def)
qed

definition demo_fs3 :: "byte \<Rightarrow> file_system" where
  "demo_fs3 b = \<lparr>fs_files = take 2 demo_files1 @ [([''safe'', ''test_faucet'', ''wallet'', ''wallet''], [b])] @ drop 3 (fs_files (demo_fs2 2)) @
       [([''safe'', ''test_genesis'', ''wallet'', ''created_dbcs'', ''public_address_x'', ''x.dbc''], [2, 3])],
     fs_dirs = [[''safe'', ''test_genesis'', ''wallet'', ''created_dbcs''], [''safe'', ''test_genesis'', ''wallet'', ''created_dbcs'', ''public_address_x'']]
       @ fs_dirs (demo_fs2 2)\<rparr>"

lemma demo_dbc_stored:
  "store_created_dbc demo_dbc_env demo_wallets_codec no_faults \<lparr>wal_key = [1], wallet = w, wallet_dir = [''safe'', ''test_genesis'', ''wallet'']\<rparr>
     ([2, 3], GENESIS_DBC_AMOUNT) (demo_fs2 2) = Inr (demo_fs3 0)"
  by (simp add: store_created_dbc_def store_created_dbcs_def dbc_file_path_def fs_create_dir_all_def fs_is_file_def fs_write_def fs_put_def
      demo_fs2_def demo_fs3_def demo_files1_def demo_dirs1_def atLeastLessThanSuc)

lemma demo_faucet_stored:
  "wallet_store demo_wallets_codec no_faults \<lparr>wal_key = [2], wallet = demo_wallets ! 3, wallet_dir = [''safe'', ''test_faucet'', ''wallet'']\<rparr>
     (demo_fs3 0) = Inr (demo_fs3 3)"
  using demo_wallets_serialize [of 3]
  by (simp add: wallet_store_def store_wallet_def fs_write_def fs_put_def demo_fs3_def demo_fs2_def demo_files1_def demo_dirs1_def)

lemma demo_faucet_loaded:
  "\<exists>n'. load_faucet_wallet_from_genesis_wallet demo_spend_node demo_genesis_env demo_wallets_codec no_faults map_net
      (\<lambda>_. [fst demo_genesis_dbc]) (client_new [1]) [2] [3] [4] \<lparr>fs_files = [], fs_dirs = []\<rparr> Map.empty
    = (Inr \<lparr>wal_key = [2], wallet = demo_wallets ! 3, wallet_dir = [''safe'', ''test_faucet'', ''wallet'']\<rparr>, demo_fs3 3, n')"
proof -
  let ?g = "\<lambda>k. \<lparr>wal_key = [1], wallet = demo_wallets ! k, wallet_dir = [''safe'', ''test_genesis'', ''wallet'']\<rparr>"
  let ?r = "local_kad_record [1] (0x91 # 1 # 9 # fst demo_genesis_dbc)"
  have bal: "wallet_balance (?g 1) = GENESIS_DBC_AMOUNT" by (simp add: wallet_balance_def demo_wallets_def)
  have put: "client_send demo_spend_node map_net demo_grant True Map.empty = (Inr (), [[1] \<mapsto> ?r])"
    using demo_serialize [of "[fst demo_genesis_dbc]"]
    by (simp add: client_send_def network_store_spend_def Let_def op_bind_def map_net_put demo_grant_def demo_spend_node_def
        from_dbc_address_def dbc_address_from_dbc_id_def demo_genesis_dbc_def)
  have created: "created_dbcs demo_grant = [([2, 3], GENESIS_DBC_AMOUNT)]" by (simp add: demo_grant_def)
  have sent: "send_from_wallet demo_spend_node demo_dbc_env demo_wallets_codec no_faults map_net (?g 1) GENESIS_DBC_AMOUNT [2] (client_new [1]) True
      [3] [4] (demo_fs2 1) Map.empty = (Inr (([2, 3], GENESIS_DBC_AMOUNT), ?g 2, demo_fs3 0), [[1] \<mapsto> ?r])"
    using demo_amount_nonzero demo_genesis_stored [of 2 1]
    by (simp add: send_from_wallet_def wc_send_def resend_pending_txs_def wallet_client_new_def demo_genesis_sends [unfolded One_nat_def] put retry_nothing
        created demo_dbc_stored expect_result_def Let_def)
  have dep: "deposit demo_dbc_env (new_wallet [2] d) [([2, 3], GENESIS_DBC_AMOUNT)] = \<lparr>wal_key = [2], wallet = demo_wallets ! 3, wallet_dir = d\<rparr>" for d
    by (simp add: deposit_def keyless_deposit_def new_wallet_def keyless_wallet_new_def demo_wallets_def
        bm_collect_def bm_append_def bm_contains_key_def available_sum_def)
  have "client_spend_from_record demo_spend_node [1] ?r = Inr (fst demo_genesis_dbc)"
    by (simp add: client_spend_from_record_def header_from_record_def header_try_deserialize_def RECORD_HEADER_SIZE_def
        kind_from_u32_def try_deserialize_record_def map_failure_def demo_spend_node_def demo_genesis_dbc_def)
  then have ver: "client_verify demo_spend_node map_net [fst demo_genesis_dbc] [[1] \<mapsto> ?r] = (Inr (), [[1] \<mapsto> ?r])"
    by (simp add: client_verify_def client_get_spend_def op_bind_def op_map_err_def map_net_get dbc_address_from_dbc_id_def from_dbc_address_def
        bs_insert_def insort_insert_key_def demo_spend_node_def demo_genesis_dbc_def)
  have "wallet_balance (new_wallet [2] d :: (dbc_id \<times> token) local_wallet) = 0" "wallet_address demo_dbc_env (new_wallet [2] d) = [2]" for d
    by (simp_all add: wallet_balance_def new_wallet_def keyless_wallet_new_def wallet_address_def)
  then show ?thesis
    by (simp add: load_faucet_wallet_from_genesis_wallet_def demo_faucet_created demo_genesis_loaded [unfolded One_nat_def]
        bal [unfolded One_nat_def] sent [unfolded One_nat_def] dep demo_faucet_stored ver expect_result_def Let_def)
qed

theorem faucet_funded_once_witness:
  "\<exists>w fs' n'. load_faucet_wallet_from_genesis_wallet demo_spend_node demo_genesis_env demo_wallets_codec no_faults map_net
      (\<lambda>_. [fst demo_genesis_dbc]) (client_new [1]) [2] [3] [4] \<lparr>fs_files = [], fs_dirs = []\<rparr> Map.empty = (Inr w, fs', n') \<and>
    wallet_balance w = GENESIS_DBC_AMOUNT"
proof -
  obtain n' where load: "load_faucet_wallet_from_genesis_wallet demo_spend_node demo_genesis_env demo_wallets_codec no_faults map_net
      (\<lambda>_. [fst demo_genesis_dbc]) (client_new [1]) [2] [3] [4] \<lparr>fs_files = [], fs_dirs = []\<rparr> Map.empty
    = (Inr \<lparr>wal_key = [2], wallet = demo_wallets ! 3, wallet_dir = [''safe'', ''test_faucet'', ''wallet'']\<rparr>, demo_fs3 3, n')"
    using demo_faucet_loaded by blast
  have "demo_dbc_env\<lparr>built_dbcs := built_dbcs demo_dbc_env\<rparr> = demo_dbc_env" by simp
  then have laws: "genesis_faithful demo_genesis_env" by (simp add: genesis_faithful_def demo_builder_faithful)
  from faucet_funded_once [OF laws demo_wallets_codec_ok _ _ _ _ _ _ load, of "[1]" "[]"] load show ?thesis
    by (simp add: fs_is_file_def)
qed

end
