(* ===== verification/Cli_Wallet.thy ===== *)
theory Cli_Wallet
  imports Client_Wallet Client_Files
begin

text \<open>
  The command line client sn_cli: the wallet commands (\<open>subcommands/wallet.rs\<close>). A command is an
  operation on the world: the file system, the network and the lines printed so far. It returns
  \<open>None\<close> when it does not come to an end, which only packing a file can cause. The third-party
  functions used here (parsing tokens and URLs, HTTP, standard input, the clock, the temporary
  directory, bincode) are the record \<open>cli_env\<close>; everything else is passed as to the client.
  Printed lines are values of \<open>cli_line\<close>, without their wording; lines that only announce what is
  about to happen are left out. A directory walk is the list of files below the directory at its
  start.
\<close>

section \<open>The world of a command\<close>

datatype 's cli_error =
    CliWalletErr wallet_error
  | CliClientErr "'s client_error"
  | CliTokenErr string
  | CliUrlErr string
  | CliHttpErr string
  | CliStdinErr string
  | CliBincodeErr
  | CliNoFiles
  | CliRegisterErr reg_error
  | CliNoPeers

datatype 's cli_line =
    AddressLine bytes
  | BalanceLine token
  | FaucetRefused bytes
  | GotTokens
  | NothingDeposited
  | DepositedLine token
  | DepositNotStored token
  | DbcDeposited token token
  | InvalidAmount
  | SentLine token public_address
  | NotSent token public_address
  | WalletStored token
  | WalletNotStored
  | DbcStored
  | SkippedFile string
  | PaidLine token nat token
  | NothingPaid nat
  | ChunkNotRead string
  | FileStored string xorname
  | FileNotStored string
  | IndexLoaded string nat
  | FileFetched string
  | FileNotFetched string
  | FileNotWritten string
  | RegisterCreated string register_address
  | MergingBranches nat
  | RegisterNotRetrieved register_address
  | RegisterEntries "(entry_hash \<times> entry) btree_set"

record ('n, 's) world =
  w_fs :: file_system
  w_net :: 'n
  printed :: "'s cli_line list"

type_synonym ('n, 's, 'a) cli_op = "('n, 's) world \<Rightarrow> (('s cli_error failure + 'a) \<times> ('n, 's) world) option"

record cli_env =
  token_from_str :: "string \<Rightarrow> string + token"
  url_ok :: "string \<Rightarrow> string option"
  http_get :: "string \<Rightarrow> string + bool \<times> (string + bytes)"
  stdin_text :: "string + bytes"
  received_dbcs_path :: "path option"
  temp_dir :: path
  hex_string :: "bytes \<Rightarrow> string"
  unhex_string :: "string \<Rightarrow> bytes option"
  utf8_name :: "string \<Rightarrow> bool"
  date_time :: string
  index_ser :: "(xorname \<times> string) list \<Rightarrow> bytes option"
  index_de :: "bytes \<Rightarrow> (xorname \<times> string) list option"
  cli_faults :: io_faults

definition cli_return :: "'a \<Rightarrow> ('n, 's, 'a) cli_op" where
  "cli_return x = (\<lambda>w. Some (Inr x, w))"

definition cli_fail :: "'s cli_error failure \<Rightarrow> ('n, 's, 'a) cli_op" where
  "cli_fail e = (\<lambda>w. Some (Inl e, w))"

definition cli_bind :: "('n, 's, 'a) cli_op \<Rightarrow> ('a \<Rightarrow> ('n, 's, 'b) cli_op) \<Rightarrow> ('n, 's, 'b) cli_op" where
  "cli_bind m f = (\<lambda>w. case m w of None \<Rightarrow> None | Some (Inl e, w') \<Rightarrow> Some (Inl e, w') | Some (Inr x, w') \<Rightarrow> f x w')"

text \<open>The result of a pure computation, with the conversion of its error that \<open>?\<close> makes.\<close>

definition cli_try :: "('e \<Rightarrow> 's cli_error failure) \<Rightarrow> 'e + 'a \<Rightarrow> ('n, 's, 'a) cli_op" where
  "cli_try g m = (\<lambda>w. Some (map_err g m, w))"

definition say :: "'s cli_line \<Rightarrow> ('n, 's, unit) cli_op" where
  "say l = (\<lambda>w. Some (Inr (), w\<lparr>printed := printed w @ [l]\<rparr>))"

text \<open>An operation on files: a failing one leaves them as they are.\<close>

definition cli_file :: "(file_system \<Rightarrow> wallet_error + 'a \<times> file_system) \<Rightarrow> ('n, 's, wallet_error + 'a) cli_op" where
  "cli_file f = (\<lambda>w. case f (w_fs w) of Inl e \<Rightarrow> Some (Inr (Inl e), w) | Inr (x, fs) \<Rightarrow> Some (Inr (Inr x), w\<lparr>w_fs := fs\<rparr>))"

abbreviation or_wallet_err :: "('n, 's, wallet_error + 'a) cli_op \<Rightarrow> ('n, 's, 'a) cli_op" where
  "or_wallet_err m \<equiv> cli_bind m (cli_try (\<lambda>e. Err (CliWalletErr e)))"

definition cli_load_from :: "('dbc, 's, 'b) dbc_env \<Rightarrow> 'dbc codec \<Rightarrow> cli_env \<Rightarrow> main_key \<Rightarrow> path \<Rightarrow> ('n, 's, 'dbc local_wallet) cli_op" where
  "cli_load_from D K E random_key root_dir = or_wallet_err (cli_file (load_from D K (cli_faults E) random_key root_dir))"

definition cli_store :: "'dbc codec \<Rightarrow> cli_env \<Rightarrow> 'dbc local_wallet \<Rightarrow> ('n, 's, wallet_error + unit) cli_op" where
  "cli_store K E wal = cli_file (\<lambda>fs. bind_result (wallet_store K (cli_faults E) wal fs) (\<lambda>fs. Inr ((), fs)))"

section \<open>Looking at and depositing into the wallet\<close>

definition cli_address :: "('dbc, 's, 'b) dbc_env \<Rightarrow> 'dbc codec \<Rightarrow> cli_env \<Rightarrow> main_key \<Rightarrow> path \<Rightarrow> ('n, 's, unit) cli_op" where
  "cli_address D K E random_key root_dir =
     cli_bind (cli_load_from D K E random_key root_dir) (\<lambda>wal.
       say (AddressLine (to_hex_text K (public_address_to_bytes K (wallet_address D wal)))))"

definition cli_balance :: "('dbc, 's, 'b) dbc_env \<Rightarrow> 'dbc codec \<Rightarrow> cli_env \<Rightarrow> main_key \<Rightarrow> path \<Rightarrow> ('n, 's, unit) cli_op" where
  "cli_balance D K E random_key root_dir =
     cli_bind (cli_load_from D K E random_key root_dir) (\<lambda>wal. say (BalanceLine (wallet_balance wal)))"

definition deposit_from_dbc_hex :: "('dbc, 's, 'b) dbc_env \<Rightarrow> 'dbc codec \<Rightarrow> cli_env \<Rightarrow> main_key \<Rightarrow> path \<Rightarrow> bytes \<Rightarrow> ('n, 's, unit) cli_op" where
  "deposit_from_dbc_hex D K E random_key root_dir input =
     cli_bind (cli_load_from D K E random_key root_dir) (\<lambda>wal.
     cli_bind (cli_try (\<lambda>e. Err (CliWalletErr (DbcErr e))) (dbc_from_hex K (str_trim K input))) (\<lambda>dbc.
       let old_balance = wallet_balance wal;
           wal = deposit D wal [dbc];
           new_balance = wallet_balance wal
       in cli_bind (or_wallet_err (cli_store K E wal)) (\<lambda>_. say (DbcDeposited old_balance new_balance))))"

definition read_dbc_from_stdin :: "('dbc, 's, 'b) dbc_env \<Rightarrow> 'dbc codec \<Rightarrow> cli_env \<Rightarrow> main_key \<Rightarrow> path \<Rightarrow> ('n, 's, unit) cli_op" where
  "read_dbc_from_stdin D K E random_key root_dir =
     cli_bind (cli_try (\<lambda>e. Err (CliStdinErr e)) (stdin_text E)) (\<lambda>input.
       deposit_from_dbc_hex D K E random_key root_dir input)"

text \<open>The amount deposited is the difference of the balances, which wraps around in a release build.\<close>

definition cli_deposit :: "('dbc, 's, 'b) dbc_env \<Rightarrow> 'dbc codec \<Rightarrow> cli_env \<Rightarrow> main_key \<Rightarrow> path \<Rightarrow> bool \<Rightarrow> bytes option
    \<Rightarrow> ('n, 's, unit) cli_op" where
  "cli_deposit D K E random_key root_dir read_stdin dbc =
     (if read_stdin then read_dbc_from_stdin D K E random_key root_dir
      else case dbc of
        Some dbc_hex \<Rightarrow> deposit_from_dbc_hex D K E random_key root_dir dbc_hex
      | None \<Rightarrow>
          cli_bind (cli_load_from D K E random_key root_dir) (\<lambda>wal.
            let previous_balance = wallet_balance wal
            in cli_bind (\<lambda>w. cli_try (\<lambda>e. Err (CliWalletErr e))
                 (try_load_deposits D K (cli_faults E) (received_dbcs_path E) (w_fs w) wal) w) (\<lambda>wal.
               let deposited = wallet_balance wal - previous_balance
               in if deposited = 0 then say NothingDeposited
                  else cli_bind (cli_store K E wal) (\<lambda>stored.
                    say (case stored of Inl _ \<Rightarrow> DepositNotStored deposited | Inr _ \<Rightarrow> DepositedLine deposited)))))"

definition cli_get_faucet :: "('dbc, 's, 'b) dbc_env \<Rightarrow> 'dbc codec \<Rightarrow> cli_env \<Rightarrow> main_key \<Rightarrow> path \<Rightarrow> string \<Rightarrow> ('n, 's, unit) cli_op" where
  "cli_get_faucet D K E random_key root_dir url =
     cli_bind (cli_load_from D K E random_key root_dir) (\<lambda>wal.
       let address_hex = hex_string E (public_address_to_bytes K (wallet_address D wal));
           url = (if sublist ''://'' url then url else ''http://'' @ url);
           req_url = url @ ''/'' @ address_hex
       in case url_ok E req_url of
            Some e \<Rightarrow> cli_fail (Err (CliUrlErr e))
          | None \<Rightarrow>
              cli_bind (cli_try (\<lambda>e. Err (CliHttpErr e)) (http_get E req_url)) (\<lambda>(is_success, text).
              cli_bind (cli_try (\<lambda>e. Err (CliHttpErr e)) text) (\<lambda>body.
                if is_success
                then cli_bind (deposit_from_dbc_hex D K E random_key root_dir body) (\<lambda>_. say GotTokens)
                else say (FaucetRefused body))))"

section \<open>Sending\<close>

definition cli_wc_send :: "('d, 's::linorder, 't, 'p) node_env \<Rightarrow> ('dbc, 's, 'b) dbc_env \<Rightarrow> ('n, 'd, 's) client_net \<Rightarrow> token \<Rightarrow> public_address
    \<Rightarrow> bool \<Rightarrow> derivation_index \<Rightarrow> derivation_index \<Rightarrow> ('dbc, 's) wallet_client
    \<Rightarrow> ('n, 's, (wallet_error failure + 'dbc) \<times> ('dbc, 's) wallet_client) cli_op" where
  "cli_wc_send N D C amount to verify_store index change_index wc = (\<lambda>w.
     case wc_send N D C amount to verify_store index change_index wc (w_net w) of
       (res, wc, n) \<Rightarrow> Some (Inr (res, wc), w\<lparr>w_net := n\<rparr>))"

definition cli_send :: "('d, 's::linorder, 't, 'p) node_env \<Rightarrow> ('dbc, 's, 'b) dbc_env \<Rightarrow> 'dbc codec \<Rightarrow> cli_env \<Rightarrow> ('n, 'd, 's) client_net
    \<Rightarrow> client \<Rightarrow> main_key \<Rightarrow> path \<Rightarrow> derivation_index \<times> derivation_index \<Rightarrow> string \<Rightarrow> bytes \<Rightarrow> bool \<Rightarrow> ('n, 's, unit) cli_op" where
  "cli_send N D K E C cl random_key root_dir indices amount_str to verify_store =
     cli_bind (cli_try (\<lambda>e. Err (CliWalletErr e)) (parse_public_address K to)) (\<lambda>address.
     cli_bind (cli_try (\<lambda>e. Err (CliTokenErr e)) (token_from_str E amount_str)) (\<lambda>amount.
       if amount = 0 then say InvalidAmount
       else cli_bind (cli_load_from D K E random_key root_dir) (\<lambda>wal.
         cli_bind (cli_wc_send N D C amount address verify_store (fst indices) (snd indices) (wallet_client_new cl wal)) (\<lambda>(res, wc).
           case res of
             Inl Panic \<Rightarrow> cli_fail Panic
           | Inl (Err _) \<Rightarrow> say (NotSent amount address)
           | Inr new_dbc \<Rightarrow>
               cli_bind (say (SentLine amount address)) (\<lambda>_.
               let wal = wc_wallet wc; new_balance = wallet_balance wal
               in cli_bind (cli_store K E wal) (\<lambda>stored.
                  cli_bind (say (case stored of Inl _ \<Rightarrow> WalletNotStored | Inr _ \<Rightarrow> WalletStored new_balance)) (\<lambda>_.
                  cli_bind (or_wallet_err (cli_file (\<lambda>fs.
                      bind_result (store_created_dbc D K (cli_faults E) wal new_dbc fs) (\<lambda>fs. Inr ((), fs))))) (\<lambda>_.
                    say DbcStored))))))))"

section \<open>Chunking files and paying for them\<close>

record chunked_file =
  cf_name :: string
  cf_size :: nat
  cf_chunks :: "(xorname \<times> path) list"

definition cli_io :: "(file_system \<Rightarrow> wallet_error + 'a \<times> file_system) \<Rightarrow> ('n, 's, 'a) cli_op" where
  "cli_io f = or_wallet_err (cli_file f)"

fun write_chunks :: "cli_env \<Rightarrow> chunk list \<Rightarrow> (xorname \<times> path) list \<Rightarrow> ('n, 's, (xorname \<times> path) list) cli_op" where
  "write_chunks E [] paths = cli_return paths"
| "write_chunks E (c # cs) paths =
     (let p = temp_dir E @ [hex_string E (chunk_name c)]
      in cli_bind (cli_io (\<lambda>fs. bind_result (fs_write (cli_faults E) p (chunk_value c) fs) (\<lambda>fs. Inr ((), fs)))) (\<lambda>_.
           write_chunks E cs (paths @ [(chunk_name c, p)])))"

definition cli_chunk_bytes :: "('d, 's) wire_env \<Rightarrow> 'm se_env \<Rightarrow> bytes \<Rightarrow> ('n, 's, xorname \<times> chunk list) cli_op" where
  "cli_chunk_bytes W S bs = (\<lambda>w.
     case chunk_bytes W S bs of
       None \<Rightarrow> None
     | Some r \<Rightarrow> Some (map_err (\<lambda>f. case f of Err e \<Rightarrow> Err (CliClientErr e) | Panic \<Rightarrow> Panic) r, w))"

fun chunk_files :: "('d, 's) wire_env \<Rightarrow> 'm se_env \<Rightarrow> cli_env \<Rightarrow> path list \<Rightarrow> (xorname, chunked_file) btree_map
    \<Rightarrow> ('n, 's, (xorname, chunked_file) btree_map) cli_op" where
  "chunk_files W S E [] chunked_files = cli_return chunked_files"
| "chunk_files W S E (p # ps) chunked_files =
     (if \<not> utf8_name E (last p) then cli_bind (say (SkippedFile (last p))) (\<lambda>_. chunk_files W S E ps chunked_files)
      else cli_bind (cli_io (\<lambda>fs. bind_result (fs_read (cli_faults E) p fs) (\<lambda>bs. Inr (bs, fs)))) (\<lambda>bs.
           cli_bind (cli_chunk_bytes W S bs) (\<lambda>(file_addr, chunks).
           cli_bind (write_chunks E chunks []) (\<lambda>chunks_paths.
             chunk_files W S E ps (bm_insert file_addr
               \<lparr>cf_name = last p, cf_size = length bs, cf_chunks = chunks_paths\<rparr> chunked_files)))))"

definition walk :: "path \<Rightarrow> file_system \<Rightarrow> path list" where
  "walk dir fs = filter (prefix dir) (map fst (fs_files fs))"

definition addrs_of :: "(xorname, chunked_file) btree_map \<Rightarrow> xorname list" where
  "addrs_of m = concat (map (\<lambda>cf. map fst (cf_chunks cf)) (bm_values m))"

definition cli_pay :: "('d, 's::linorder, 't, 'p) node_env \<Rightarrow> ('dbc, 's, 'b) dbc_env \<Rightarrow> ('n, 'd, 's) client_net \<Rightarrow> xorname list \<Rightarrow> bool
    \<Rightarrow> xorname \<Rightarrow> derivation_index \<Rightarrow> ('dbc, 's) wallet_client
    \<Rightarrow> ('n, 's, (payment_proofs_map \<times> token option) \<times> ('dbc, 's) wallet_client) cli_op" where
  "cli_pay N D C addrs verify_store random_target change_index wc = (\<lambda>w.
     case pay_for_storage N D C addrs verify_store random_target change_index wc (w_net w) of
       (res, wc, n) \<Rightarrow> Some (map_err (\<lambda>f. case f of Err e \<Rightarrow> Err (CliWalletErr e) | Panic \<Rightarrow> Panic) (bind_result res (\<lambda>x. Inr (x, wc))),
                         w\<lparr>w_net := n\<rparr>))"

definition chunk_and_pay_for_storage :: "('d, 's::linorder, 't, 'p) node_env \<Rightarrow> ('dbc, 's, 'b) dbc_env \<Rightarrow> 'dbc codec \<Rightarrow> 'm se_env \<Rightarrow> cli_env
    \<Rightarrow> ('n, 'd, 's) client_net \<Rightarrow> client \<Rightarrow> main_key \<Rightarrow> xorname \<Rightarrow> derivation_index \<Rightarrow> path \<Rightarrow> path \<Rightarrow> bool
    \<Rightarrow> ('n, 's, (xorname, chunked_file) btree_map \<times> payment_proofs_map) cli_op" where
  "chunk_and_pay_for_storage N D K S E C cl random_key random_target change_index root_dir files_path verify_store =
     cli_bind (cli_load_from D K E random_key root_dir) (\<lambda>wal.
     cli_bind (\<lambda>w. chunk_files (wire N) S E (walk files_path (w_fs w)) [] w) (\<lambda>chunked_files.
       if chunked_files = [] then cli_fail (Err CliNoFiles)
       else cli_bind (cli_pay N D C (addrs_of chunked_files) verify_store random_target change_index (wallet_client_new cl wal)) (\<lambda>((proofs, cost), wc).
         cli_bind (say (case cost of Some c \<Rightarrow> PaidLine (word_of_nat (length proofs) * c) (length proofs) c | None \<Rightarrow> NothingPaid (length proofs))) (\<lambda>_.
         cli_bind (cli_store K E (wc_wallet wc)) (\<lambda>stored.
         cli_bind (say (case stored of Inl _ \<Rightarrow> WalletNotStored | Inr _ \<Rightarrow> WalletStored (wallet_balance (wc_wallet wc)))) (\<lambda>_.
           cli_return (chunked_files, proofs)))))))"

section \<open>Dispatch\<close>

datatype wallet_command = AddressCmd | BalanceCmd | DepositCmd bool "bytes option" | GetFaucetCmd string | SendCmd string bytes | PayCmd path

definition wallet_cmds :: "('d, 's::linorder, 't, 'p) node_env \<Rightarrow> ('dbc, 's, 'b) dbc_env \<Rightarrow> 'dbc codec \<Rightarrow> 'm se_env \<Rightarrow> cli_env
    \<Rightarrow> ('n, 'd, 's) client_net \<Rightarrow> client \<Rightarrow> main_key \<Rightarrow> xorname \<Rightarrow> derivation_index \<times> derivation_index \<Rightarrow> path \<Rightarrow> bool \<Rightarrow> wallet_command
    \<Rightarrow> ('n, 's, unit) cli_op" where
  "wallet_cmds N D K S E C cl random_key random_target indices root_dir verify_store cmds =
     (case cmds of
        AddressCmd \<Rightarrow> cli_address D K E random_key root_dir
      | BalanceCmd \<Rightarrow> cli_balance D K E random_key root_dir
      | DepositCmd read_stdin dbc \<Rightarrow> cli_deposit D K E random_key root_dir read_stdin dbc
      | GetFaucetCmd url \<Rightarrow> cli_get_faucet D K E random_key root_dir url
      | SendCmd amount to \<Rightarrow> cli_send N D K E C cl random_key root_dir indices amount to verify_store
      | PayCmd p \<Rightarrow>
          cli_bind (chunk_and_pay_for_storage N D K S E C cl random_key random_target (snd indices) root_dir p verify_store) (\<lambda>_. cli_return ()))"

section \<open>Lemmas on commands\<close>

named_theorems cli_simps \<open>what a command that succeeds did\<close>

lemma cli_bind_Inr [cli_simps]:
  "cli_bind m f w = Some (Inr y, w') \<longleftrightarrow> (\<exists>x w1. m w = Some (Inr x, w1) \<and> f x w1 = Some (Inr y, w'))"
  by (auto simp: cli_bind_def split: option.splits sum.splits prod.splits)

lemma cli_return_Inr [cli_simps]: "cli_return x w = Some (Inr y, w') \<longleftrightarrow> y = x \<and> w' = w"
  by (auto simp: cli_return_def)

lemma cli_fail_Inr [cli_simps]: "cli_fail e w \<noteq> Some (Inr y, w')"
  by (simp add: cli_fail_def)

lemma cli_try_Inr [cli_simps]: "cli_try g m w = Some (Inr x, w') \<longleftrightarrow> m = Inr x \<and> w' = w"
  by (auto simp: cli_try_def)

lemma say_Inr [cli_simps]: "say l w = Some (Inr u, w') \<longleftrightarrow> w' = w\<lparr>printed := printed w @ [l]\<rparr>"
  by (auto simp: say_def)

lemma cli_file_Inr [cli_simps]:
  "cli_file f w = Some (Inr r, w') \<longleftrightarrow> (case f (w_fs w) of Inl e \<Rightarrow> r = Inl e \<and> w' = w | Inr (x, fs) \<Rightarrow> r = Inr x \<and> w' = w\<lparr>w_fs := fs\<rparr>)"
  by (auto simp: cli_file_def split: sum.splits)

lemma cli_load_from_Inr [cli_simps]:
  "cli_load_from D K E rk root w = Some (Inr wal, w') \<longleftrightarrow> (\<exists>fs. load_from D K (cli_faults E) rk root (w_fs w) = Inr (wal, fs) \<and> w' = w\<lparr>w_fs := fs\<rparr>)"
  by (auto simp: cli_load_from_def cli_simps split: sum.splits)

lemma cli_store_Inr [cli_simps]:
  "cli_store K E wal w = Some (Inr r, w') \<longleftrightarrow>
    (case wallet_store K (cli_faults E) wal (w_fs w) of Inl e \<Rightarrow> r = Inl e \<and> w' = w | Inr fs \<Rightarrow> r = Inr () \<and> w' = w\<lparr>w_fs := fs\<rparr>)"
  by (auto simp: cli_store_def cli_file_Inr split: sum.splits)

lemma cli_wc_send_Inr [cli_simps]:
  "cli_wc_send N D C amount to v i j wc w = Some (Inr r, w') \<longleftrightarrow>
     (\<exists>n. wc_send N D C amount to v i j wc (w_net w) = (fst r, snd r, n) \<and> w' = w\<lparr>w_net := n\<rparr>)"
  by (cases r) (auto simp: cli_wc_send_def split: prod.splits)

section \<open>What a send does to the wallet\<close>

lemma local_send_owner: "local_send D w to rh is j = Inr (w', t) \<Longrightarrow> same_owner w w'"
  by (erule local_send_cases) (simp add: same_owner_def update_local_wallet_sel)

lemma single_send_value:
  assumes "builder_faithful D" and "wallet_ok D w" and "local_send D w [(amount, to)] None [i] j = Inr (w', t)"
    and "fresh_change D w [(amount, to, i)] j"
  shows "wallet_ok D w'" and "wallet_value D w = wallet_value D w' + unat amount" and "same_owner w w'"
proof -
  from assms(3) obtain amt sel ch where amt: "total_amount [(amount, to, i)] = Some amt"
    and sel: "select_inputs D (wallet_available_dbcs D w) amt = Inr (sel, ch)"
    and out: "create_transfer_with D \<lparr>dbcs_to_spend = sel, recipients = [(amount, to, i)], change = (ch, wallet_address D w)\<rparr>
      hash_default None j = Inr t"
    and w': "w' = update_local_wallet D w t"
    by (rule local_send_cases) simp
  have "unat amt = unat amount" using total_amount_sum [OF amt] by simp
  with send_effect [OF assms(1,2) select_inputs_subseq [OF sel] out assms(4)] select_inputs_Inr [OF sel] w'
  show "wallet_ok D w'" "wallet_value D w = wallet_value D w' + unat amount" by auto
  show "same_owner w w'" using assms(3) by (rule local_send_owner)
qed

lemma wallet_held_other_file:
  assumes "wallet_held K root w fs" and "fs_write F p bs fs = Inr fs'"
    and "\<not> prefix p (wallet_dir w)" and "p \<notin> {wallet_dir w @ [''wallet''], wallet_dir w @ [''main_key'']}"
  shows "wallet_held K root w fs'"
proof -
  have "take k (wallet_dir w) \<noteq> p" for k using assms(3) take_is_prefix by metis
  then show ?thesis
    using assms(1,4) fs_write_files [OF assms(2)]
    by (auto simp: wallet_held_def key_stored_iff wallet_stored_def dir_clear_def fs_is_file_def)
qed

lemma store_created_dbc_held:
  assumes "wallet_held K root w fs" and "store_created_dbc D K F w d fs = Inr fs'"
  shows "wallet_held K root w fs' \<and> (\<exists>dir name hex. dbc_file_path D K (wallet_dir w) d = (dir, name) \<and> dbc_to_hex K d = Inr hex \<and>
    map_of (fs_files fs') (dir @ [name]) = Some hex)"
proof -
  obtain dir name where p: "dbc_file_path D K (wallet_dir w) d = (dir, name)" by fastforce
  then have path: "\<exists>a. dir = wallet_dir w @ [''created_dbcs'', a]" by (auto simp: dbc_file_path_def)
  from assms(2) p obtain fs1 hex where d: "fs_create_dir_all F dir fs = Inr fs1" and hex: "dbc_to_hex K d = Inr hex"
    and wr: "fs_write F (dir @ [name]) hex fs1 = Inr fs'"
    by (auto simp: store_created_dbc_def store_created_dbcs_def)
  have "wallet_held K root w fs1" using assms(1) by (rule wallet_held_files [OF fs_create_dir_files [OF d], THEN iffD2])
  then have "wallet_held K root w fs'"
    by (rule wallet_held_other_file [OF _ wr]) (use path in \<open>auto dest: prefix_length_le\<close>)
  with p hex fs_write_files [OF wr] show ?thesis by auto
qed

lemma cli_send_Inr:
  assumes "cli_faults E = no_faults" and "wallet_held K root w (w_fs world)"
    and "parse_public_address K hex = Inr to" and "token_from_str E text = Inr amount" and "amount \<noteq> 0"
    and "cli_send N D K E C cl rk root (i, j) text hex v world = Some (Inr (), world')"
    and "NotSent amount to \<notin> set (drop (length (printed world)) (printed world'))"
  obtains w' t d ds stored fs1 where
    "local_send D w [(amount, to)] None [i] j = Inr (w', t)" "created_dbcs t = d # ds"
    "wallet_held K root w fs1" "stored = wallet_store K no_faults w' fs1"
    "store_created_dbc D K no_faults w' d (case stored of Inl _ \<Rightarrow> fs1 | Inr fs2 \<Rightarrow> fs2) = Inr (w_fs world')"
    "printed world' = printed world @ [SentLine amount to,
       case stored of Inl _ \<Rightarrow> WalletNotStored | Inr _ \<Rightarrow> WalletStored (wallet_balance w'), DbcStored]"
proof -
  from disk.load_held [OF assms(2), of D rk]
  obtain fs1 where fs1: "load_from D K no_faults rk root (w_fs world) = Inr (w, fs1)" "wallet_held K root w fs1" by blast
  obtain res wc n where send: "wc_send N D C amount to v i j (wallet_client_new cl w) (w_net world) = (res, wc, n)"
    by (metis prod_cases3)
  have res: "\<exists>d. res = Inr d"
    using assms(1,3-7) fs1 send
    by (cases res) (auto simp: cli_send_def cli_simps split: failure.splits)
  then obtain d where d: "res = Inr d" by blast
  from wc_send_Inr [OF send [unfolded d]] obtain t ds where
    "local_send D w [(amount, to)] None [i] j = Inr (wc_wallet wc, t)" "created_dbcs t = d # ds" .
  moreover obtain stored where stored: "wallet_store K no_faults (wc_wallet wc) fs1 = stored" by blast
  moreover have "store_created_dbc D K no_faults (wc_wallet wc) d (case stored of Inl _ \<Rightarrow> fs1 | Inr fs2 \<Rightarrow> fs2) = Inr (w_fs world') \<and>
     printed world' = printed world @ [SentLine amount to,
       case stored of Inl _ \<Rightarrow> WalletNotStored | Inr _ \<Rightarrow> WalletStored (wallet_balance (wc_wallet wc)), DbcStored]"
    using assms(1,3-6) fs1(1) send d stored
    by (cases stored; cases "store_created_dbc D K no_faults (wc_wallet wc) d (case stored of Inl _ \<Rightarrow> fs1 | Inr fs2 \<Rightarrow> fs2)")
      (auto simp: cli_send_def cli_simps Let_def)
  ultimately show thesis using fs1(2) that by blast
qed

section \<open>Properties\<close>

text \<open>C12: A \<open>send\<close> command that does not report a failure takes exactly the amount out of the wallet in the
  directory, leaves a consistent wallet there, puts a DBC of that amount which the recipient can
  spend into its file, and reports all three, whatever the network answered.\<close>

theorem cli_send_exact:
  assumes "builder_faithful D" and "cli_faults E = no_faults" and "wallet_held K root w (w_fs world)" and "wallet_ok D w"
    and "fresh_change D w [(amount, to, i)] j"
    and "parse_public_address K hex = Inr to" and "token_from_str E text = Inr amount" and "amount \<noteq> 0"
    and "cli_send N D K E C cl rk root (i, j) text hex v world = Some (Inr (), world')"
    and "set (drop (length (printed world)) (printed world')) \<inter> {NotSent amount to, WalletNotStored} = {}"
  shows "\<exists>w' d dir name. wallet_held K root w' (w_fs world') \<and> wallet_ok D w' \<and>
    wallet_value D w = wallet_value D w' + unat amount \<and>
    dbc_token D d = Inr amount \<and> (\<forall>key. main_public_address D key = to \<longrightarrow> is_ok (dbc_derived_key D d key)) \<and>
    dbc_file_path D K (wallet_dir w) d = (dir, name) \<and>
    Inr (the (map_of (fs_files (w_fs world')) (dir @ [name]))) = dbc_to_hex K d \<and>
    printed world' = printed world @ [SentLine amount to, WalletStored (wallet_balance w'), DbcStored]"
proof -
  from assms(10) have "NotSent amount to \<notin> set (drop (length (printed world)) (printed world'))" by blast
  from cli_send_Inr [OF assms(2,3,6-9) this] obtain w' t d ds stored fs1 where
    l: "local_send D w [(amount, to)] None [i] j = Inr (w', t)" "created_dbcs t = d # ds"
    and fs1: "wallet_held K root w fs1" and st: "stored = wallet_store K no_faults w' fs1"
    and cr: "store_created_dbc D K no_faults w' d (case stored of Inl _ \<Rightarrow> fs1 | Inr fs2 \<Rightarrow> fs2) = Inr (w_fs world')"
    and pr: "printed world' = printed world @ [SentLine amount to,
       case stored of Inl _ \<Rightarrow> WalletNotStored | Inr _ \<Rightarrow> WalletStored (wallet_balance w'), DbcStored]" .
  note val = single_send_value [OF assms(1,4) l(1) assms(5)]
  from pr assms(10) obtain fs2 where fs2: "stored = Inr fs2" by (cases stored) auto
  with st have "wallet_store K no_faults w' fs1 = Inr fs2" by simp
  from disk.store_held [OF fs1 val(3) this] have "wallet_held K root w' fs2" .
  moreover from cr fs2 have "store_created_dbc D K no_faults w' d fs2 = Inr (w_fs world')" by simp
  ultimately have "wallet_held K root w' (w_fs world') \<and> (\<exists>dir name h. dbc_file_path D K (wallet_dir w') d = (dir, name) \<and>
    dbc_to_hex K d = Inr h \<and> map_of (fs_files (w_fs world')) (dir @ [name]) = Some h)"
    by (rule store_created_dbc_held)
  with val created_dbc_amount [OF assms(1) l] pr fs2 show ?thesis
    by (intro exI [of _ w'] exI [of _ d]) (auto simp: same_owner_def)
qed

text \<open>A client of which only \<open>ws\<close> can be written as wallets, each as its position in the list.\<close>

definition listed_codec :: "(dbc_id \<times> token) keyless_wallet list \<Rightarrow> (dbc_id \<times> token) codec" where
  "listed_codec ws = demo_codec\<lparr>
     wallet_serialize := (\<lambda>w. case List.find (\<lambda>i. ws ! i = w) [0..<length ws] of
        Some i \<Rightarrow> if i < 256 then Inr [word_of_nat i] else Inl ''unsupported'' | None \<Rightarrow> Inl ''unsupported''),
     wallet_deserialize := (\<lambda>bs. case bs of [b] \<Rightarrow> if unat b < length ws then Inr (ws ! unat b) else Inl ''unsupported'' | _ \<Rightarrow> Inl ''unsupported'')\<rparr>"

lemma listed_codec_sel [simp]:
  "from_hex_text (listed_codec ws) = Some" "SK_SIZE (listed_codec ws) = 1" "PK_SIZE (listed_codec ws) = 1" "sk_from_bytes (listed_codec ws) = Inr"
  "pk_of_bytes (listed_codec ws) = Inr" "dbc_to_hex (listed_codec ws) d = Inr (fst d)"
  "wallet_deserialize (listed_codec (v # ws)) [0] = Inr v"
  by (simp_all add: listed_codec_def demo_codec_def)

lemma listed_codec_ok: "codec_ok (listed_codec ws)"
proof -
  have "wallet_deserialize (listed_codec ws) bs = Inr w" if "wallet_serialize (listed_codec ws) w = Inr bs" for w bs
    using that by (auto simp: listed_codec_def find_Some_iff unat_of_nat split: option.splits if_splits)
  then show ?thesis by (simp add: codec_ok_def) (simp add: listed_codec_def demo_codec_def)
qed

definition refusing_net :: "(record_key \<rightharpoonup> kad_record, 'd, 's) client_net" where
  "refusing_net = map_net\<lparr>put_attempts := (\<lambda>m r _. (Answer (Inl RecordNotFound), \<lambda>_. Answer (Inr r)))\<rparr>"

lemma refusing_net_put: "net_put refusing_net r v m = (Inl (Err (NetworkErr RecordNotFound)), m(rec_key r \<mapsto> r))"
  by (simp add: net_put_def refusing_net_def map_net_def put_record_def put_record_with_retries_def PUT_RECORD_RETRIES_def
      put_record_once_def get_record_from_network_def VERIFICATION_ATTEMPTS_def await_with_def target_matches_def
      is_verify_failure_def eval_nat_numeral)

definition demo_sent :: "(dbc_id \<times> token) local_wallet \<times> (dbc_id \<times> token, bytes) transfer_outputs" where
  "demo_sent = projr (local_send demo_dbc_env demo_wallet [(8, [2])] None [[3]] [4])"

lemma demo_sent_eq: "local_send demo_dbc_env demo_wallet [(8, [2])] None [[3]] [4] = Inr demo_sent"
  using demo_wallet_send(1) by (auto simp: demo_sent_def is_ok_iff)

lemma demo_sent_dbc: "created_dbcs (snd demo_sent) = [([2, 3], 8)] \<and> all_spend_requests (snd demo_sent) \<noteq> []"
  by (simp add: demo_sent_def local_send_def demo_wallet_available create_transfer_def demo_total demo_select
      create_transfer_with_def transfer_builder_def bm_collect_def bm_append_def bm_contains_key_def)

abbreviation demo_cli_codec :: "(dbc_id \<times> token) codec" where
  "demo_cli_codec \<equiv> listed_codec [wallet demo_wallet, wallet (fst demo_sent)]"

definition demo_cli_env :: cli_env where
  "demo_cli_env = \<lparr>token_from_str = (\<lambda>t. if t = ''8'' then Inr 8 else Inl ''no token''), url_ok = (\<lambda>_. None),
     http_get = (\<lambda>_. Inl ''no network''), stdin_text = Inr [], received_dbcs_path = None, temp_dir = [''tmp''],
     hex_string = map (char_of \<circ> unat), unhex_string = (\<lambda>t. Some (map (word_of_nat \<circ> of_char) t)), utf8_name = (\<lambda>_. True),
     date_time = ''now'', index_ser = (\<lambda>_. Some []), index_de = (\<lambda>_. Some []), cli_faults = no_faults\<rparr>"

definition demo_cli_world :: "(record_key \<rightharpoonup> kad_record, bytes) world" where
  "demo_cli_world = \<lparr>w_fs = \<lparr>fs_files = [([''wallet'', ''main_key''], [1]), ([''wallet'', ''wallet''], [0])], fs_dirs = [[''wallet''], []]\<rparr>,
     w_net = Map.empty, printed = []\<rparr>"

lemma demo_cli_held: "wallet_held demo_cli_codec [] demo_wallet (w_fs demo_cli_world)"
proof -
  have "wallet_dir demo_wallet = [''wallet'']" "wal_key demo_wallet = [1]" by (simp_all add: demo_wallet_eq)
  moreover have "take k [''wallet''] \<noteq> [''wallet'', x]" for k x by (cases k) simp_all
  ultimately show ?thesis
    by (simp add: wallet_held_def listed_codec_ok key_stored_iff wallet_stored_def dir_clear_def fs_is_file_def demo_cli_world_def
        bls_secret_from_hex_def)
qed

lemma join_all_forall: "(\<And>f n. f \<in> set fs \<Longrightarrow> Q (fst (f n))) \<Longrightarrow> \<forall>r \<in> set (fst (join_all fs n)). Q r"
  by (induction fs arbitrary: n) (auto split: prod.splits, metis fst_conv, metis fst_conv)

lemma demo_refused: "\<exists>n e. client_send demo_node refusing_net (snd demo_sent) v m = (Inl (Err e), n)"
proof -
  have "\<exists>e. fst (network_store_spend demo_node refusing_net req v m) = Inl (Err e)" for req m
    by (cases "try_serialize_record (wire demo_node) (rmp_spends_enc (wire demo_node) [signed_spend req]) DbcSpendKind")
      (auto simp: network_store_spend_def op_bind_def Let_def refusing_net_put)
  then have "\<forall>r \<in> set (fst (join_all (map (\<lambda>req. network_store_spend demo_node refusing_net req v) reqs) m)). \<exists>e. r = Inl (Err e)"
    for reqs by (intro join_all_forall) auto
  moreover obtain rs m' where rs: "join_all (map (\<lambda>req. network_store_spend demo_node refusing_net req v) (all_spend_requests (snd demo_sent))) m = (rs, m')"
    by fastforce
  ultimately have "\<forall>r \<in> set rs. \<exists>e. r = Inl (Err e)" by (metis fst_conv)
  moreover have "rs \<noteq> []" using join_all_results [OF rs] demo_sent_dbc by auto
  ultimately show ?thesis using rs by (cases rs) (auto simp: client_send_def wallet_failure_def)
qed

lemmas cli_run = cli_bind_def cli_try_def cli_load_from_def cli_file_def cli_wc_send_def cli_store_def say_def

lemma demo_cli_load: "load_from demo_dbc_env demo_cli_codec no_faults rk [] (w_fs demo_cli_world)
   = Inr (demo_wallet, w_fs demo_cli_world)"
  by (simp add: load_from_def load_from_path_def fs_create_dir_all_def fs_is_file_def get_main_key_def get_wallet_def fs_read_def
      bls_secret_from_hex_def demo_cli_world_def Let_def atLeastLessThanSuc)
    (simp add: demo_wallet_eq)

lemma demo_cli_sent: "\<exists>world'. cli_send demo_node demo_dbc_env demo_cli_codec demo_cli_env refusing_net (client_new [1]) [7] [] ([3], [4]) ''8'' [2] True
    demo_cli_world = Some (Inr (), world') \<and>
    printed world' = [SentLine 8 [2], WalletStored (wallet_balance (fst demo_sent)), DbcStored]"
proof -
  obtain n e where "client_send demo_node refusing_net (snd demo_sent) True (w_net demo_cli_world) = (Inl (Err e), n)"
    using demo_refused by blast
  then have "wc_send demo_node demo_dbc_env refusing_net 8 [2] True [3] [4] (wallet_client_new (client_new [1]) demo_wallet) (w_net demo_cli_world)
     = (Inr ([2, 3], 8), \<lparr>wc_client = client_new [1], wc_wallet = fst demo_sent, unconfirmed_txs = [snd demo_sent]\<rparr>, n)"
    using demo_sent_eq demo_sent_dbc by (simp add: wc_send_def resend_pending_txs_def wallet_client_new_def Let_def case_prod_beta)
  moreover have "wallet_dir (fst demo_sent) = [''wallet'']"
    using local_send_owner [of demo_dbc_env demo_wallet _ _ _ _ "fst demo_sent" "snd demo_sent"] demo_sent_eq
    by (auto simp: same_owner_def demo_wallet_eq)
  moreover have "parse_public_address demo_cli_codec [2] = Inr [2]"
    by (simp add: parse_public_address_def bls_public_from_hex_def listed_codec_def demo_codec_def)
  moreover have "token_from_str demo_cli_env ''8'' = Inr 8" "cli_faults demo_cli_env = no_faults" by (simp_all add: demo_cli_env_def)
  moreover obtain bs where "wallet_serialize demo_cli_codec (wallet (fst demo_sent)) = Inr bs"
    by (cases "wallet demo_wallet = wallet (fst demo_sent)") (simp_all add: listed_codec_def)
  with calculation(2) have "wallet_store demo_cli_codec no_faults (fst demo_sent) (w_fs demo_cli_world)
      = Inr \<lparr>fs_files = [([''wallet'', ''main_key''], [1]), ([''wallet'', ''wallet''], bs)], fs_dirs = [[''wallet''], []]\<rparr>"
    by (simp add: wallet_store_def store_wallet_def fs_write_def fs_put_def demo_cli_world_def)
  moreover obtain fs3 where "store_created_dbc demo_dbc_env demo_cli_codec no_faults (fst demo_sent) ([2, 3], 8)
      \<lparr>fs_files = [([''wallet'', ''main_key''], [1]), ([''wallet'', ''wallet''], bs)], fs_dirs = [[''wallet''], []]\<rparr> = Inr fs3"
    using calculation(2)
    by (simp add: store_created_dbc_def store_created_dbcs_def dbc_file_path_def fs_create_dir_all_def fs_is_file_def fs_write_def fs_put_def
        atLeastLessThanSuc)
  moreover have "printed demo_cli_world = []" by (simp add: demo_cli_world_def)
  ultimately show ?thesis using demo_cli_load [of "[7]"] by (simp add: cli_send_def cli_run Let_def)
qed

theorem cli_send_exact_witness:
  "\<exists>world' w' d. cli_send demo_node demo_dbc_env demo_cli_codec demo_cli_env refusing_net (client_new [1]) [7] [] ([3], [4]) ''8'' [2] True demo_cli_world
      = Some (Inr (), world') \<and> wallet_held demo_cli_codec [] w' (w_fs world') \<and>
    wallet_value demo_dbc_env demo_wallet = wallet_value demo_dbc_env w' + 8 \<and> dbc_token demo_dbc_env d = Inr 8"
proof -
  obtain world' where sent: "cli_send demo_node demo_dbc_env demo_cli_codec demo_cli_env refusing_net (client_new [1]) [7] [] ([3], [4]) ''8'' [2] True
    demo_cli_world = Some (Inr (), world')" and pr: "printed world' = [SentLine 8 [2], WalletStored (wallet_balance (fst demo_sent)), DbcStored]"
    using demo_cli_sent by blast
  from cli_send_exact [OF demo_builder_faithful _ demo_cli_held demo_wallet_ok demo_wallet_send(3) _ _ _ sent] sent pr show ?thesis
    by (auto simp: demo_cli_env_def demo_cli_world_def parse_public_address_def bls_public_from_hex_def listed_codec_def demo_codec_def)
qed

text \<open>A \<open>send\<close> command whose spends the network refused reports the amount as sent: the error is kept
  in the client's list of unconfirmed transfers, which is dropped with the client, while the
  wallet with the DBCs marked as spent is stored.\<close>

theorem cli_send_reports_refused:
  assumes "cli_faults E = no_faults" and "wallet_held K root w (w_fs world)"
    and "parse_public_address K hex = Inr to" and "token_from_str E text = Inr amount" and "amount \<noteq> 0"
    and "local_send D w [(amount, to)] None [i] j = Inr (w', t)" and "created_dbcs t = d # ds"
    and "client_send N C t v (w_net world) = (Inl (Err e), n)"
  shows "\<exists>r world' stored more. cli_send N D K E C cl rk root (i, j) text hex v world = Some (r, world') \<and> w_net world' = n \<and>
    printed world' = printed world @ SentLine amount to # stored # more \<and> stored \<in> {WalletStored (wallet_balance w'), WalletNotStored} \<and>
    (stored \<noteq> WalletNotStored \<longrightarrow> wallet_held K root w' (w_fs world'))"
proof -
  from disk.load_held [OF assms(2), of D rk]
  obtain fs1 where fs1: "load_from D K no_faults rk root (w_fs world) = Inr (w, fs1)" "wallet_held K root w fs1" by blast
  let ?wc = "(wallet_client_new cl w)\<lparr>wc_wallet := w', unconfirmed_txs := [t]\<rparr>"
  have send: "wc_send N D C amount to v i j (wallet_client_new cl w) (w_net world) = (Inr d, ?wc, n)"
    using assms(6-8) by (simp add: wc_send_def resend_pending_txs_def wallet_client_new_def)
  have "same_owner w w'" using assms(6) by (rule local_send_owner)
  then have held: "wallet_held K root w' fs2" if "wallet_store K no_faults w' fs1 = Inr fs2" for fs2
    using disk.store_held [OF fs1(2) _ that] by blast
  have created: "wallet_held K root w' fs3" if "wallet_store K no_faults w' fs1 = Inr fs2"
    "store_created_dbc D K no_faults w' d fs2 = Inr fs3" for fs2 fs3
    using store_created_dbc_held [OF held [OF that(1)] that(2)] by blast
  note run = cli_send_def cli_run Let_def
  show ?thesis
  proof (cases "wallet_store K no_faults w' fs1")
    case (Inl x)
    then show ?thesis using assms(1,3-5) fs1(1) send
      by (cases "store_created_dbc D K no_faults w' d fs1") (simp_all add: run)
  next
    case (Inr fs2)
    then show ?thesis using assms(1,3-5) fs1(1) send held created
      by (cases "store_created_dbc D K no_faults w' d fs2") (simp_all add: run)
  qed
qed

theorem cli_send_reports_refused_witness:
  "\<exists>r world' more. cli_send demo_node demo_dbc_env demo_cli_codec demo_cli_env refusing_net (client_new [1]) [7] [] ([3], [4]) ''8'' [2] True
     demo_cli_world = Some (r, world') \<and> printed world' = SentLine 8 [2] # more"
proof -
  obtain n e where "client_send demo_node refusing_net (snd demo_sent) True (w_net demo_cli_world) = (Inl (Err e), n)"
    using demo_refused by blast
  from cli_send_reports_refused [OF _ demo_cli_held _ _ _ _ _ this, of demo_cli_env "[2]" "[2]" "''8''" 8 demo_dbc_env "[3]" "[4]" "fst demo_sent"
    "([2, 3], 8)" "[]" "client_new [1]" "[7]"] demo_sent_eq demo_sent_dbc
  show ?thesis
    by (fastforce simp: demo_cli_env_def demo_cli_world_def parse_public_address_def bls_public_from_hex_def listed_codec_def demo_codec_def)
qed

text \<open>The \<open>deposit\<close> command decides by the difference of the balances whether anything was deposited.
  The balance is stale after a send without change; when what is received is worth just as much as
  was sent, the command says that nothing was deposited and the wallet in the directory stays
  without the received DBCs.\<close>

theorem cli_deposit_lost:
  assumes "cli_faults E = no_faults" and "wallet_held K root w (w_fs world)"
    and "load_received_dbcs K no_faults (received_dbcs_path E) (wallet_dir w) (w_fs world) = Inr ds" and "ds \<noteq> []"
    and "wallet_balance w = word_of_nat (wallet_value D (deposit D w ds))"
  shows "\<exists>world'. cli_deposit D K E rk root False None world = Some (Inr (), world') \<and>
    printed world' = printed world @ [NothingDeposited] \<and> wallet_held K root w (w_fs world')"
proof -
  from load_from_stored [of K root "wal_key w" "w_fs world" "wallet w" D rk] assms(2)
  obtain fs1 where fs1: "load_from D K no_faults rk root (w_fs world) = Inr (w, fs1)" and files: "fs_files fs1 = fs_files (w_fs world)"
    by (cases w) (auto simp: wallet_held_def)
  from files assms(3) have "load_received_dbcs K no_faults (received_dbcs_path E) (wallet_dir w) fs1 = Inr ds"
    by (simp add: load_received_dbcs_def fs_read_def)
  with fs1 assms(1,4,5) have "cli_deposit D K E rk root False None world
     = Some (Inr (), world\<lparr>w_fs := fs1, printed := printed world @ [NothingDeposited]\<rparr>)"
    by (simp add: cli_deposit_def cli_run Let_def try_load_deposits_def deposit_balance)
  with wallet_held_files [OF files] assms(2) show ?thesis by auto
qed

definition stale_wallet :: "(dbc_id \<times> token) local_wallet" where
  "stale_wallet = \<lparr>wal_key = [1], wallet = \<lparr>balance = 21, spent_dbcs = [], available_dbcs = [([1, 12], ([1, 12], 9))],
     dbcs_created_for_others = [], paymet_proofs = []\<rparr>, wallet_dir = [''wallet'']\<rparr>"

definition stale_world :: "(unit, bytes) world" where
  "stale_world = \<lparr>w_fs = \<lparr>fs_files = [([''wallet'', ''main_key''], [1]), ([''wallet'', ''wallet''], [0]),
     ([''wallet'', ''received_dbcs'', ''a''], [1, 20])], fs_dirs = [[''wallet''], []]\<rparr>, w_net = (), printed = []\<rparr>"

abbreviation stale_codec :: "(dbc_id \<times> token) codec" where
  "stale_codec \<equiv> (listed_codec [wallet stale_wallet])\<lparr>dbc_from_hex := (\<lambda>b. Inr (b, 12))\<rparr>"

theorem cli_deposit_lost_witness:
  "\<exists>world'. cli_deposit demo_dbc_env stale_codec demo_cli_env [7] [] False None stale_world = Some (Inr (), world') \<and>
    printed world' = [NothingDeposited] \<and> wallet_held stale_codec [] stale_wallet (w_fs world')"
proof -
  have "codec_ok stale_codec" using listed_codec_ok [of "[wallet stale_wallet]"] by (simp add: codec_ok_def)
  moreover have "take k [''wallet''] \<noteq> ''wallet'' # x # xs" for k x xs by (cases k) simp_all
  ultimately have held: "wallet_held stale_codec [] stale_wallet (w_fs stale_world)"
    by (simp add: wallet_held_def key_stored_iff wallet_stored_def dir_clear_def fs_is_file_def stale_world_def
        bls_secret_from_hex_def) (simp add: stale_wallet_def)
  have ds: "load_received_dbcs stale_codec no_faults (received_dbcs_path demo_cli_env) (wallet_dir stale_wallet) (w_fs stale_world) = Inr [([1, 20], 12)]"
    by (simp add: load_received_dbcs_def demo_cli_env_def stale_wallet_def stale_world_def fs_read_def Let_def)
      (simp add: listed_codec_def demo_codec_def)
  have "wallet_balance stale_wallet = word_of_nat (wallet_value demo_dbc_env (deposit demo_dbc_env stale_wallet [([1, 20], 12)]))"
    by (simp add: wallet_balance_def wallet_value_def wallet_available_dbcs_def stale_wallet_def deposit_def keyless_deposit_def
        bm_contains_key_def bm_collect_def bm_append_def bm_values_def available_sum_def)
  from cli_deposit_lost [OF _ held ds _ this] show ?thesis by (simp add: demo_cli_env_def stale_world_def)
qed

end
