(* ===== verification/Cli_Files.thy ===== *)
theory Cli_Files
  imports Cli_Wallet
begin

text \<open>
  The file commands of sn_cli (\<open>subcommands/files.rs\<close>): uploading the files of a directory after
  paying for their chunks, and downloading the files listed in the index documents the uploads
  left behind.
\<close>

section \<open>Uploading\<close>

text \<open>The chunks that can be read back from the temporary directory; the others are skipped with a line.\<close>

fun read_chunks :: "cli_env \<Rightarrow> string \<Rightarrow> (xorname \<times> path) list \<Rightarrow> ('n, 's, chunk list) cli_op" where
  "read_chunks E file_name [] = cli_return []"
| "read_chunks E file_name ((name, chunk_path) # rest) =
     cli_bind (cli_file (\<lambda>fs. bind_result (fs_read (cli_faults E) chunk_path fs) (\<lambda>bs. Inr (bs, fs)))) (\<lambda>r.
       case r of
         Inr bs \<Rightarrow> cli_bind (read_chunks E file_name rest) (\<lambda>cs. cli_return (\<lparr>chunk_address = name, chunk_value = bs\<rparr> # cs))
       | Inl _ \<Rightarrow> cli_bind (say (ChunkNotRead file_name)) (\<lambda>_. read_chunks E file_name rest))"

definition cli_net :: "('n, 's, 'a) client_op \<Rightarrow> ('n, 's, 's client_error failure + 'a) cli_op" where
  "cli_net m = (\<lambda>w. case m (w_net w) of (r, n) \<Rightarrow> Some (Inr r, w\<lparr>w_net := n\<rparr>))"

text \<open>The result of uploading is looked at by the caller, so that only a panic ends the command.\<close>

definition upload_chunks :: "('d, 's, 't, 'p) node_env \<Rightarrow> cli_env \<Rightarrow> ('n, 'd, 's) client_net \<Rightarrow> string \<Rightarrow> (xorname \<times> path) list
    \<Rightarrow> payment_proofs_map \<Rightarrow> bool \<Rightarrow> ('n, 's, 's client_error failure + unit) cli_op" where
  "upload_chunks N E C file_name chunks_paths payment_proofs verify_store =
     cli_bind (read_chunks E file_name chunks_paths) (\<lambda>chunks.
       cli_net (upload_chunks_in_batches N C chunks payment_proofs verify_store))"

fun upload_each :: "('d, 's, 't, 'p) node_env \<Rightarrow> cli_env \<Rightarrow> ('n, 'd, 's) client_net \<Rightarrow> payment_proofs_map \<Rightarrow> bool
    \<Rightarrow> (xorname \<times> chunked_file) list \<Rightarrow> ('n, 's, (xorname \<times> string) list) cli_op" where
  "upload_each N E C payment_proofs verify_store [] = cli_return []"
| "upload_each N E C payment_proofs verify_store ((file_addr, cf) # rest) =
     cli_bind (upload_chunks N E C (cf_name cf) (cf_chunks cf) payment_proofs verify_store) (\<lambda>r.
       case r of
         Inl Panic \<Rightarrow> cli_fail Panic
       | Inl (Err _) \<Rightarrow>
           cli_bind (say (FileNotStored (cf_name cf))) (\<lambda>_.
           cli_bind (upload_each N E C payment_proofs verify_store rest) (\<lambda>fetch. cli_return ((file_addr, cf_name cf) # fetch)))
       | Inr _ \<Rightarrow>
           cli_bind (say (FileStored (cf_name cf) file_addr)) (\<lambda>_.
           cli_bind (upload_each N E C payment_proofs verify_store rest) (\<lambda>fetch. cli_return ((file_addr, cf_name cf) # fetch))))"

definition index_path :: "cli_env \<Rightarrow> path \<Rightarrow> path" where
  "index_path E root_dir = root_dir @ [''uploaded_files'', ''file_names_'' @ date_time E]"

definition upload_files :: "('d, 's::linorder, 't, 'p) node_env \<Rightarrow> ('dbc, 's, 'b) dbc_env \<Rightarrow> 'dbc codec \<Rightarrow> 'm se_env \<Rightarrow> cli_env
    \<Rightarrow> ('n, 'd, 's) client_net \<Rightarrow> client \<Rightarrow> main_key \<Rightarrow> xorname \<Rightarrow> derivation_index \<Rightarrow> path \<Rightarrow> path \<Rightarrow> bool \<Rightarrow> ('n, 's, unit) cli_op" where
  "upload_files N D K S E C cl random_key random_target change_index files_path root_dir verify_store =
     cli_bind (chunk_and_pay_for_storage N D K S E C cl random_key random_target change_index root_dir files_path True)
       (\<lambda>(chunks_to_upload, payment_proofs).
     cli_bind (upload_each N E C payment_proofs verify_store chunks_to_upload) (\<lambda>chunks_to_fetch.
     cli_bind (cli_try (\<lambda>_. Err CliBincodeErr) (ok_or () (index_ser E chunks_to_fetch))) (\<lambda>content.
     cli_bind (cli_io (\<lambda>fs. bind_result (fs_create_dir_all (cli_faults E) (root_dir @ [''uploaded_files'']) fs) (\<lambda>fs. Inr ((), fs)))) (\<lambda>_.
       cli_io (\<lambda>fs. bind_result (fs_write (cli_faults E) (index_path E root_dir) content fs) (\<lambda>fs. Inr ((), fs)))))))"

section \<open>Downloading\<close>

definition download_file :: "('d, 's, 't, 'p) node_env \<Rightarrow> 'm se_env \<Rightarrow> cli_env \<Rightarrow> ('n, 'd, 's) client_net \<Rightarrow> xorname \<Rightarrow> string \<Rightarrow> path
    \<Rightarrow> ('n, 's, unit) cli_op" where
  "download_file N S E C name file_name download_path = (\<lambda>w.
     case read_bytes N C S name (w_net w) of
       None \<Rightarrow> None
     | Some (Inl Panic, n) \<Rightarrow> Some (Inl Panic, w\<lparr>w_net := n\<rparr>)
     | Some (Inl (Err _), n) \<Rightarrow> say (FileNotFetched file_name) (w\<lparr>w_net := n\<rparr>)
     | Some (Inr bs, n) \<Rightarrow>
         cli_bind (say (FileFetched file_name)) (\<lambda>_.
         cli_bind (cli_file (\<lambda>fs. bind_result (fs_write (cli_faults E) (download_path @ [file_name]) bs fs) (\<lambda>fs. Inr ((), fs)))) (\<lambda>r.
           case r of Inr _ \<Rightarrow> cli_return () | Inl _ \<Rightarrow> say (FileNotWritten file_name))) (w\<lparr>w_net := n\<rparr>))"

fun download_each :: "('d, 's, 't, 'p) node_env \<Rightarrow> 'm se_env \<Rightarrow> cli_env \<Rightarrow> ('n, 'd, 's) client_net \<Rightarrow> path \<Rightarrow> (xorname \<times> string) list
    \<Rightarrow> ('n, 's, unit) cli_op" where
  "download_each N S E C download_path [] = cli_return ()"
| "download_each N S E C download_path ((name, file_name) # rest) =
     cli_bind (download_file N S E C name file_name download_path) (\<lambda>_. download_each N S E C download_path rest)"

fun download_indices :: "('d, 's, 't, 'p) node_env \<Rightarrow> 'm se_env \<Rightarrow> cli_env \<Rightarrow> ('n, 'd, 's) client_net \<Rightarrow> path \<Rightarrow> path list
    \<Rightarrow> ('n, 's, unit) cli_op" where
  "download_indices N S E C download_path [] = cli_return ()"
| "download_indices N S E C download_path (p # ps) =
     cli_bind (cli_io (\<lambda>fs. bind_result (fs_read (cli_faults E) p fs) (\<lambda>bs. Inr (bs, fs)))) (\<lambda>index_doc_bytes.
     cli_bind (cli_try (\<lambda>_. Err CliBincodeErr) (ok_or () (index_de E index_doc_bytes))) (\<lambda>files_to_fetch.
     cli_bind (say (IndexLoaded (last p) (length files_to_fetch))) (\<lambda>_.
     cli_bind (download_each N S E C download_path files_to_fetch) (\<lambda>_.
       download_indices N S E C download_path ps))))"

definition download_files :: "('d, 's, 't, 'p) node_env \<Rightarrow> 'm se_env \<Rightarrow> cli_env \<Rightarrow> ('n, 'd, 's) client_net \<Rightarrow> path \<Rightarrow> ('n, 's, unit) cli_op" where
  "download_files N S E C root_dir =
     (let download_path = root_dir @ [''downloaded_files'']
      in cli_bind (cli_io (\<lambda>fs. bind_result (fs_create_dir_all (cli_faults E) download_path fs) (\<lambda>fs. Inr ((), fs)))) (\<lambda>_ w.
           download_indices N S E C download_path (walk (root_dir @ [''uploaded_files'']) (w_fs w)) w))"

section \<open>Dispatch\<close>

datatype files_command = UploadCmd path | DownloadCmd "string option" "string option"

definition xor_name_from_hex :: "cli_env \<Rightarrow> string \<Rightarrow> 's cli_error failure + xorname" where
  "xor_name_from_hex E address =
     bind_result (ok_or Panic (unhex_string E address)) (\<lambda>bs. if length bs = 32 then Inr bs else Inl Panic)"

definition files_cmds :: "('d, 's::linorder, 't, 'p) node_env \<Rightarrow> ('dbc, 's, 'b) dbc_env \<Rightarrow> 'dbc codec \<Rightarrow> 'm se_env \<Rightarrow> cli_env
    \<Rightarrow> ('n, 'd, 's) client_net \<Rightarrow> client \<Rightarrow> main_key \<Rightarrow> xorname \<Rightarrow> derivation_index \<Rightarrow> path \<Rightarrow> bool \<Rightarrow> files_command \<Rightarrow> ('n, 's, unit) cli_op" where
  "files_cmds N D K S E C cl random_key random_target change_index root_dir verify_store cmds =
     (case cmds of
        UploadCmd p \<Rightarrow> upload_files N D K S E C cl random_key random_target change_index p root_dir verify_store
      | DownloadCmd (Some name) (Some address) \<Rightarrow>
          cli_bind (cli_try (\<lambda>f. f) (xor_name_from_hex E address)) (\<lambda>x. download_file N S E C x name root_dir)
      | DownloadCmd _ _ \<Rightarrow> download_files N S E C root_dir)"

section \<open>Lemmas on commands\<close>

lemma cli_net_Inr [cli_simps]: "cli_net m w = Some (Inr r, w') \<longleftrightarrow> (\<exists>n. m (w_net w) = (r, n) \<and> w' = w\<lparr>w_net := n\<rparr>)"
  by (auto simp: cli_net_def split: prod.splits)

lemma cli_io_Inr [cli_simps]: "cli_io f w = Some (Inr x, w') \<longleftrightarrow> (\<exists>fs. f (w_fs w) = Inr (x, fs) \<and> w' = w\<lparr>w_fs := fs\<rparr>)"
  by (auto simp: cli_io_def cli_simps split: sum.splits)

end
