(* ===== verification/Cli_Main.thy ===== *)
theory Cli_Main
  imports Cli_Files Client_Register
begin

text \<open>
  The register commands of sn_cli (\<open>subcommands/register.rs\<close>), and the command line client as a
  whole (\<open>main.rs\<close>): the client's key and data directory and the dispatch to the commands. The
  options are given as clap parsed them; connecting to the network (\<open>Client::new\<close>) is the argument
  \<open>connect\<close>, which fails or gives the network's state.
\<close>

section \<open>Registers\<close>

datatype register_command = CreateRegister string | EditRegister string bool bytes | GetRegisters "string list" bool

definition xorname_of_text :: "('d, 's) wire_env \<Rightarrow> string \<Rightarrow> xorname" where
  "xorname_of_text W t = xor_content W (map of_char t)"

definition parse_addr :: "('d, 's) wire_env \<Rightarrow> string \<Rightarrow> bool \<Rightarrow> public_key \<Rightarrow> 'e cli_error failure + register_address" where
  "parse_addr W address_str use_name pk =
     (if use_name then Inr (address_new (xorname_of_text W address_str) pk)
      else map_err (\<lambda>f. case f of Err e \<Rightarrow> Err (CliRegisterErr e) | Panic \<Rightarrow> Panic) (address_from_hex (w_reg W) address_str))"

definition client_failure :: "'s client_error failure \<Rightarrow> 's cli_error failure" where
  "client_failure f = (case f of Err e \<Rightarrow> Err (CliClientErr e) | Panic \<Rightarrow> Panic)"

text \<open>An operation of the client, with \<open>?\<close> on its result.\<close>

definition cli_client :: "('n, 's, 'a) client_op \<Rightarrow> ('n, 's, 'a) cli_op" where
  "cli_client m = cli_bind (cli_net m) (cli_try client_failure)"

definition create_register_cmd :: "('d, 's, 't, 'p) node_env \<Rightarrow> ('n, 'd, 's) client_net \<Rightarrow> client \<Rightarrow> string \<Rightarrow> bool \<Rightarrow> ('n, 's, unit) cli_op" where
  "create_register_cmd N C cl name verify_store =
     cli_bind (cli_client (client_create_register N C cl (xorname_of_text (wire N) name) verify_store)) (\<lambda>cr.
       say (RegisterCreated name (register_address (cr_register cr))))"

definition edit_register :: "('d, 's, 't, 'p) node_env \<Rightarrow> ('n, 'd, 's) client_net \<Rightarrow> client \<Rightarrow> string \<Rightarrow> bool \<Rightarrow> bytes \<Rightarrow> bool
    \<Rightarrow> ('n, 's, unit) cli_op" where
  "edit_register N C cl address_str use_name entry verify_store =
     cli_bind (cli_try (\<lambda>f. f) (parse_addr (wire N) address_str use_name (signer_pk N cl))) (\<lambda>address.
     cli_bind (cli_net (client_get_register N C cl address)) (\<lambda>found. case found of
         Inl error \<Rightarrow> cli_bind (say (RegisterNotRetrieved address)) (\<lambda>_. cli_fail (client_failure error))
       | Inr cr \<Rightarrow>
           cli_bind (cli_net (\<lambda>n. case write_online N C cr entry verify_store n of (res, cr, n) \<Rightarrow> (Inr (res, cr), n))) (\<lambda>r.
             case r of
               Inl f \<Rightarrow> cli_fail (client_failure f)
             | Inr (Inr _, _) \<Rightarrow> cli_return ()
             | Inr (Inl (Err (ContentBranchDetected branches)), cr) \<Rightarrow>
                 cli_bind (say (MergingBranches (length branches))) (\<lambda>_.
                 cli_client (\<lambda>n. case write_merging_branches_online N C cr entry verify_store n of (res, _, n) \<Rightarrow> (res, n)))
             | Inr (Inl f, _) \<Rightarrow> cli_fail (client_failure f))))"

fun get_registers :: "('d, 's, 't, 'p) node_env \<Rightarrow> ('n, 'd, 's) client_net \<Rightarrow> client \<Rightarrow> string list \<Rightarrow> bool \<Rightarrow> ('n, 's, unit) cli_op" where
  "get_registers N C cl [] use_name = cli_return ()"
| "get_registers N C cl (addr # addrs) use_name =
     cli_bind (cli_try (\<lambda>f. f) (parse_addr (wire N) addr use_name (signer_pk N cl))) (\<lambda>address.
     cli_bind (cli_net (client_get_register N C cl address)) (\<lambda>found. case found of
         Inl error \<Rightarrow> cli_bind (say (RegisterNotRetrieved address)) (\<lambda>_. cli_fail (client_failure error))
       | Inr cr \<Rightarrow>
           cli_bind (say (RegisterEntries (register_read (w_reg (wire N)) (cr_register cr)))) (\<lambda>_.
             get_registers N C cl addrs use_name)))"

definition register_cmds :: "('d, 's, 't, 'p) node_env \<Rightarrow> ('n, 'd, 's) client_net \<Rightarrow> client \<Rightarrow> bool \<Rightarrow> register_command \<Rightarrow> ('n, 's, unit) cli_op" where
  "register_cmds N C cl verify_store cmds =
     (case cmds of
        CreateRegister name \<Rightarrow> create_register_cmd N C cl name verify_store
      | EditRegister address use_name entry \<Rightarrow> edit_register N C cl address use_name entry verify_store
      | GetRegisters addresses use_name \<Rightarrow> get_registers N C cl addresses use_name)"

section \<open>The client as a whole\<close>

definition CLIENT_KEY :: string where
  "CLIENT_KEY = ''clientkey''"

text \<open>\<open>base_dir\<close> is what \<open>dirs_next::data_dir\<close> returns.\<close>

definition get_client_data_dir_path :: "cli_env \<Rightarrow> path option \<Rightarrow> ('n, 's, path) cli_op" where
  "get_client_data_dir_path E base_dir =
     (case base_dir of
        None \<Rightarrow> cli_fail Panic
      | Some dir \<Rightarrow>
          let home_dirs = dir @ [''safe'', ''client'']
          in cli_bind (cli_io (\<lambda>fs. bind_result (fs_create_dir_all (cli_faults E) home_dirs fs) (\<lambda>fs. Inr ((), fs)))) (\<lambda>_. cli_return home_dirs))"

text \<open>\<open>random_key\<close> is the key drawn when there is no key file.\<close>

definition get_client_secret_key :: "'dbc codec \<Rightarrow> cli_env \<Rightarrow> main_key \<Rightarrow> path \<Rightarrow> ('n, 's, main_key) cli_op" where
  "get_client_secret_key K E random_key root_dir =
     cli_bind (cli_io (\<lambda>fs. bind_result (fs_create_dir_all (cli_faults E) root_dir fs) (\<lambda>fs. Inr ((), fs)))) (\<lambda>_.
     let key_path = root_dir @ [CLIENT_KEY]
     in cli_io (\<lambda>fs.
          if fs_is_file key_path fs
          then bind_result (fs_read (cli_faults E) key_path fs) (\<lambda>secret_hex_bytes.
               bind_result (bls_secret_from_hex K secret_hex_bytes) (\<lambda>secret_key. Inr (secret_key, fs)))
          else bind_result (fs_write (cli_faults E) key_path (to_hex_text K (main_key_to_bytes K random_key)) fs) (\<lambda>fs.
                 Inr (random_key, fs))))"

datatype sub_cmd = WalletCmd wallet_command | FilesCmd files_command | RegisterCmd register_command

record opt =
  opt_peers :: "multiaddr list"
  opt_cmd :: sub_cmd
  opt_timeout :: "nat option"
  no_verify :: bool

text \<open>
  Random draws: the key of a new wallet and of a new client, the address asked for a quote, and
  the two derivation indices of a transfer.
\<close>

record draws =
  dr_wallet_key :: main_key
  dr_client_key :: main_key
  dr_target :: xorname
  dr_indices :: "derivation_index \<times> derivation_index"

definition cli_main :: "('d, 's::linorder, 't, 'p) node_env \<Rightarrow> ('dbc, 's, 'b) dbc_env \<Rightarrow> 'dbc codec \<Rightarrow> 'm se_env \<Rightarrow> cli_env
    \<Rightarrow> ('n, 'd, 's) client_net \<Rightarrow> (main_key \<Rightarrow> multiaddr list \<Rightarrow> nat option \<Rightarrow> ('n, 's, client) client_op) \<Rightarrow> bool \<Rightarrow> path option \<Rightarrow> draws \<Rightarrow> opt
    \<Rightarrow> ('n, 's, unit) cli_op" where
  "cli_main N D K S E C connect mdns base_dir dr opt =
     cli_bind (get_client_data_dir_path E base_dir) (\<lambda>client_data_dir_path.
     cli_bind (get_client_secret_key K E (dr_client_key dr) client_data_dir_path) (\<lambda>secret_key.
       if opt_peers opt = [] \<and> \<not> mdns then cli_fail (Err CliNoPeers)
       else cli_bind (cli_client (connect secret_key (opt_peers opt) (opt_timeout opt))) (\<lambda>cl.
         let should_verify_store = \<not> no_verify opt
         in case opt_cmd opt of
              WalletCmd cmds \<Rightarrow> wallet_cmds N D K S E C cl (dr_wallet_key dr) (dr_target dr) (dr_indices dr) client_data_dir_path should_verify_store cmds
            | FilesCmd cmds \<Rightarrow> files_cmds N D K S E C cl (dr_wallet_key dr) (dr_target dr) (snd (dr_indices dr)) client_data_dir_path should_verify_store cmds
            | RegisterCmd cmds \<Rightarrow> register_cmds N C cl should_verify_store cmds)))"

section \<open>Lemmas on commands\<close>

lemma cli_client_Inr [cli_simps]: "cli_client m w = Some (Inr x, w') \<longleftrightarrow> (\<exists>n. m (w_net w) = (Inr x, n) \<and> w' = w\<lparr>w_net := n\<rparr>)"
  by (auto simp: cli_client_def cli_simps)

text \<open>The key drawn for a new client is the key every later run finds.\<close>

lemma client_key_stable:
  assumes "codec_ok K" and "cli_faults E = no_faults" and "length rk = SK_SIZE K"
    and "get_client_secret_key K E rk root w = Some (Inr key, w')" and "w_fs w2 = w_fs w'"
    and "dir_clear root (w_fs w')"
  shows "\<exists>w3. get_client_secret_key K E rk2 root w2 = Some (Inr key, w3)"
proof -
  let ?p = "root @ [CLIENT_KEY]"
  from assms(2,4) obtain fs1 where run: "(if fs_is_file ?p fs1
      then bind_result (fs_read no_faults ?p fs1) (\<lambda>hex. bind_result (bls_secret_from_hex K hex) (\<lambda>k. Inr (k, fs1)))
      else bind_result (fs_write no_faults ?p (to_hex_text K (main_key_to_bytes K rk)) fs1) (\<lambda>fs. Inr (rk, fs))) = Inr (key, w_fs w')"
    by (auto simp: get_client_secret_key_def cli_simps Let_def cong: if_cong)
  have "bls_secret_from_hex K (to_hex_text K (main_key_to_bytes K rk)) = Inr rk"
    using assms(1,3) by (simp add: codec_ok_def bls_secret_from_hex_def)
  with run obtain hex where hex: "map_of (fs_files (w_fs w')) ?p = Some hex" "bls_secret_from_hex K hex = Inr key"
    by (auto simp: fs_read_def fs_is_file_def split: if_splits dest!: fs_write_files)
  obtain fs2 where fs2: "fs_create_dir_all no_faults root (w_fs w2) = Inr fs2"
    using assms(5,6) fs_create_dir_all_ok [of root "w_fs w2"] by (auto simp: is_ok_iff)
  from hex assms(2,5) fs2 fs_create_dir_files [OF fs2] show ?thesis
    by (simp add: get_client_secret_key_def cli_run cli_io_def Let_def fs_is_file_def fs_read_def)
qed

section \<open>A register edited from the command line\<close>

lemma map_err_Inl [simp]: "map_err g m = Inl e \<longleftrightarrow> (\<exists>x. m = Inl x \<and> e = g x)"
  by (cases m) auto

lemma bind_result_Inl: "bind_result m f = Inl e \<longleftrightarrow> m = Inl e \<or> (\<exists>x. m = Inr x \<and> f x = Inl e)"
  by (cases m) auto

text \<open>Publishing never reports branches: only a write does, before anything is published.\<close>

lemma publish_no_branch: "fst (publish_register N C cmd v n) \<noteq> Inl (Err (ContentBranchDetected b))"
  by (auto simp: publish_register_def op_bind_def register_to_publish_def get_signed_register_from_network_def op_map_err_def
      net_get_def net_put_def map_failure_def bind_result_Inl Let_def
      split: prod.splits sum.splits option.splits failure.splits register_cmd.splits if_splits)
    (metis failure.exhaust)+

lemma push_no_branch: "fst (push_loop N C v cmds n) \<noteq> Inl (Err (ContentBranchDetected b))"
proof (induction cmds arbitrary: n)
  case (Cons cmd cmds)
  with publish_no_branch [of N C cmd v n b] show ?case by (auto split: prod.splits sum.splits)
qed simp

lemma write_branches_detected:
  assumes "write_online N C cr e v n = (Inl (Err (ContentBranchDetected b)), cr', n')"
  shows "cr' = cr \<and> n' = n"
proof -
  have "fst (push N C v cr1 n) \<noteq> Inl (Err (ContentBranchDetected b))" for cr1
    using push_no_branch [of N C v "rev (cr_ops cr1)" n b] by (auto simp: push_def split: prod.splits)
  with assms show ?thesis by (auto simp: write_online_def then_push_def split: sum.splits) (metis fst_conv)+
qed

lemma edit_register_Inr:
  fixes N :: "('d, 's, 't, 'p) node_env" and C :: "('n, 'd, 's) client_net"
  assumes "edit_register N C cl t use_name e v w = Some (Inr (), w')"
    and "parse_addr (wire N) t use_name (signer_pk N cl) = (Inr address :: 's cli_error failure + _)"
    and "cr_retrieve N C cl address (w_net w) = (Inr cr, n1)"
  shows "\<exists>cr'. write_online N C cr e v n1 = (Inr (), cr', w_net w') \<or> write_merging_branches_online N C cr e v n1 = (Inr (), cr', w_net w')"
proof -
  obtain res cr1 n2 where run: "write_online N C cr e v n1 = (res, cr1, n2)" by (metis prod_cases3)
  show ?thesis
  proof (cases "res = Inr ()")
    case True
    with run assms show ?thesis by (auto simp: edit_register_def cli_simps)
  next
    case False
    with run assms obtain b where b: "res = Inl (Err (ContentBranchDetected b))"
      by (cases res) (auto simp: edit_register_def cli_simps split: failure.splits client_error.splits)
    from write_branches_detected [OF run [unfolded b]] have "cr1 = cr" "n2 = n1" by simp_all
    with run b assms show ?thesis by (auto simp: edit_register_def cli_simps split: prod.splits)
  qed
qed

lemma in_step_cong: "cr_register cr = cr_register cr' \<Longrightarrow> in_step N C cr n k = in_step N C cr' n k"
  by (simp add: in_step_def)

lemma in_step_retrieve:
  fixes N :: "('d, 's, 't, 'p) node_env" and C :: "('n, 'd, 's) client_net"
  assumes "rmp_laws (wire N)" and "keeps_records C" and "in_step N C cr n k"
  shows "\<exists>n1. cr_retrieve N C cl (register_address (cr_register cr)) n = (Inr \<lparr>cr_client = cl, cr_register = cr_register cr, cr_ops = []\<rparr>, n1) \<and>
    in_step N C cr n1 k"
proof -
  let ?a = "register_address (cr_register cr)"
  let ?k = "to_record_key (wire N) (from_register_address ?a)"
  from in_step_read [OF assms(1,3)] obtain n1 where n1: "get_register_from_network N C ?a n = (Inr (cr_register cr), n1)"
    by (metis prod.collapse)
  from n1 have "n1 = after_get C n ?k False"
    by (auto simp: get_register_from_network_def get_signed_register_from_network_def op_bind_def op_map_err_def net_get_def Let_def
        split: sum.splits)
  then have "in_step N C cr n1 k" using assms(3) holds_after_get [OF assms(2)] unfolding in_step_def Let_def by blast
  with n1 show ?thesis by (simp add: cr_retrieve_def)
qed

lemma edit_in_step:
  fixes N :: "('d, 's, 't, 'p) node_env" and C :: "('n, 'd, 's) client_net"
  assumes laws: "merkle_reg_laws (w_reg (wire N))" "rmp_laws (wire N)" "keeps_records C"
    and step: "in_step N C cr (w_net w) k" and "k < MAX_REG_NUM_ENTRIES"
    and owner: "signer_pk N cl = register_owner (cr_register cr)"
    and addr: "parse_addr (wire N) t use_name (signer_pk N cl) = (Inr (register_address (cr_register cr)) :: 's cli_error failure + _)"
    and run: "edit_register N C cl t use_name e v w = Some (Inr (), w')"
  shows "\<exists>op. node_value (op_crdt_op op) = e \<and>
    in_step N C (cr\<lparr>cr_register := apply_effect (w_reg (wire N)) (cr_register cr) op\<rparr>) (w_net w') (Suc k)"
proof -
  let ?cr = "\<lparr>cr_client = cl, cr_register = cr_register cr, cr_ops = []\<rparr>"
  from in_step_retrieve [OF laws(2,3) step] obtain n1 where
    r: "cr_retrieve N C cl (register_address (cr_register cr)) (w_net w) = (Inr ?cr, n1)" and s: "in_step N C cr n1 k" by blast
  from edit_register_Inr [OF run addr r] obtain cr' where "write_online N C ?cr e v n1 = (Inr (), cr', w_net w') \<or>
    write_merging_branches_online N C ?cr e v n1 = (Inr (), cr', w_net w')" by blast
  then obtain ch where "then_push N C v ?cr (write_atop N ?cr e ch) n1 = (Inr (), cr', w_net w')"
    using online_write_atop [of N C ?cr e v n1 cr' "w_net w'"] by blast
  from owner_write_pushed [OF _ _ _ this] owner laws(1) obtain op where
    op: "publish_register N C (RegEdit op) v n1 = (Inr (), w_net w')" "op_address op = register_address (cr_register cr)"
      "length (node_value (op_crdt_op op)) \<le> MAX_REG_ENTRY_SIZE" "node_value (op_crdt_op op) = e"
    by (auto simp: merkle_reg_laws_def)
  from s have "in_step N C ?cr n1 k" by (simp add: in_step_cong [of ?cr cr])
  from publish_edit_in_step [OF _ _ _ laws(2,3) this assms(5) op(1)] op(2,3) laws(1)
  have "in_step N C (?cr\<lparr>cr_register := apply_effect (w_reg (wire N)) (cr_register cr) op, cr_ops := []\<rparr>) (w_net w') (Suc k)"
    by (simp add: merkle_reg_laws_def)
  with op(4) show ?thesis by (auto simp: in_step_def)
qed

text \<open>Editing one register several times, one command after the other.\<close>

fun edit_all :: "('d, 's, 't, 'p) node_env \<Rightarrow> ('n, 'd, 's) client_net \<Rightarrow> client \<Rightarrow> string \<Rightarrow> bool \<Rightarrow> bytes list \<Rightarrow> ('n, 's, unit) cli_op" where
  "edit_all N C cl name v [] = cli_return ()"
| "edit_all N C cl name v (e # es) = cli_bind (edit_register N C cl name True e v) (\<lambda>_. edit_all N C cl name v es)"

lemma edits_in_step:
  fixes N :: "('d, 's, 't, 'p) node_env" and C :: "('n, 'd, 's) client_net"
  assumes laws: "merkle_reg_laws (w_reg (wire N))" "rmp_laws (wire N)" "keeps_records C"
    and "in_step N C cr (w_net w) k" and "k + length es \<le> MAX_REG_NUM_ENTRIES"
    and "signer_pk N cl = register_owner (cr_register cr)"
    and "register_address (cr_register cr) = address_new (xorname_of_text (wire N) name) (signer_pk N cl)"
    and "edit_all N C cl name v es w = Some (Inr (), w')"
  shows "\<exists>os. map (\<lambda>op. node_value (op_crdt_op op)) os = es \<and>
    in_step N C (cr\<lparr>cr_register := foldl (apply_effect (w_reg (wire N))) (cr_register cr) os\<rparr>) (w_net w') (k + length es)"
  using assms(4-)
proof (induction es arbitrary: cr w k)
  case Nil
  then show ?case by (auto simp: cli_simps)
next
  case (Cons e es)
  let ?E = "w_reg (wire N)"
  from Cons.prems(5) obtain w1 where one: "edit_register N C cl name True e v w = Some (Inr (), w1)"
    and more: "edit_all N C cl name v es w1 = Some (Inr (), w')" by (auto simp: cli_simps)
  have "parse_addr (wire N) name True (signer_pk N cl) = (Inr (register_address (cr_register cr)) :: 's cli_error failure + _)"
    using Cons.prems(4) by (simp add: parse_addr_def)
  from edit_in_step [OF laws Cons.prems(1) _ Cons.prems(3) this one] Cons.prems(2) obtain op where
    op: "node_value (op_crdt_op op) = e" "in_step N C (cr\<lparr>cr_register := apply_effect ?E (cr_register cr) op\<rparr>) (w_net w1) (Suc k)" by auto
  from Cons.IH [OF op(2)] Cons.prems(2-4) more obtain os where "map (\<lambda>op. node_value (op_crdt_op op)) os = es"
    "in_step N C (cr\<lparr>cr_register := foldl (apply_effect ?E) (apply_effect ?E (cr_register cr) op) os\<rparr>) (w_net w') (Suc k + length es)"
    by auto
  with op(1) show ?case by (intro exI [of _ "op # os"]) simp
qed

section \<open>Properties\<close>

text \<open>C14: A register created by name on the command line and then edited any number of times (up to the
  number of entries a register has room for) is shown by \<open>get\<close> as the new register with
  exactly these entries written to it in this order, provided the address was free and the
  network keeps the records it accepts.\<close>

theorem cli_register_roundtrip:
  fixes N :: "('d, 's, 't, 'p) node_env" and C :: "('n, 'd, 's) client_net"
  assumes laws: "sig_correct (w_reg (wire N))" "merkle_reg_laws (w_reg (wire N))" "rmp_laws (wire N)" "keeps_records C"
    and absent: "get_signed_register_from_network N C (RegisterAddress m (signer_pk N cl)) (w_net w) = (Inl (Err e1), n1)"
      "get_signed_register_from_network N C (RegisterAddress m (signer_pk N cl)) n1 = (Inl (Err e2), n2)"
    and m: "m = xorname_of_text (wire N) name"
    and created: "create_register_cmd N C cl name v w = Some (Inr (), w1)"
    and edited: "edit_all N C cl name v es w1 = Some (Inr (), w2)" and room: "length es \<le> MAX_REG_NUM_ENTRIES"
  shows "\<exists>os w3. map (\<lambda>op. node_value (op_crdt_op op)) os = es \<and> get_registers N C cl [name] True w2 = Some (Inr (), w3) \<and>
    printed w3 = printed w2 @ [RegisterEntries (register_read (w_reg (wire N))
      (foldl (apply_effect (w_reg (wire N))) (cr_register (cr_create N cl m)) os))]"
proof -
  let ?E = "w_reg (wire N)" and ?cr = "cr_create N cl m"
  from created obtain cr where cr: "create_online N C cl m v (w_net w) = (Inr cr, w_net w1)"
    by (auto simp: create_register_cmd_def cli_simps m)
  from create_online_in_step [OF laws absent cr] have start: "in_step N C ?cr (w_net w1) 0" by metis
  have addr: "register_address (cr_register ?cr) = address_new m (signer_pk N cl)" "signer_pk N cl = register_owner (cr_register ?cr)"
    by (simp_all add: cr_create_def cr_create_register_def register_owner_def register_address_def register_new_def crdt_new_def address_new_def)
  from addr(1) have "register_address (cr_register ?cr) = address_new (xorname_of_text (wire N) name) (signer_pk N cl)" by (simp only: m)
  from edits_in_step [OF laws(2-4) start _ addr(2) this edited] room obtain os where
    os: "map (\<lambda>op. node_value (op_crdt_op op)) os = es"
    and step: "in_step N C (?cr\<lparr>cr_register := foldl (apply_effect ?E) (cr_register ?cr) os\<rparr>) (w_net w2) (length es)" by auto
  have kept: "register_address (foldl (apply_effect ?E) (cr_register ?cr) os) = address_new m (signer_pk N cl)"
    using addr(1) by (induction os rule: rev_induct) simp_all
  from in_step_retrieve [OF laws(3,4) step, of cl] kept obtain n3 where
    "cr_retrieve N C cl (address_new m (signer_pk N cl)) (w_net w2)
      = (Inr \<lparr>cr_client = cl, cr_register = foldl (apply_effect ?E) (cr_register ?cr) os, cr_ops = []\<rparr>, n3)" by auto
  then have "get_registers N C cl [name] True w2 = Some (Inr (), w2\<lparr>w_net := n3,
      printed := printed w2 @ [RegisterEntries (register_read ?E (foldl (apply_effect ?E) (cr_register ?cr) os))]\<rparr>)"
    by (simp add: parse_addr_def cli_run cli_return_def cli_net_def m)
  with os show ?thesis by auto
qed

definition demo_name :: string where
  "demo_name = [CHR 0x07]"

lemma demo_name_xor: "xorname_of_text (wire demo_reg_node) demo_name = [7]"
  by (simp add: xorname_of_text_def demo_name_def)

lemma map_net_retrieve: "snd (cr_retrieve N map_net cl a n) = n"
  by (simp add: cr_retrieve_def get_register_from_network_def get_signed_register_from_network_def Let_def op_map_err_def op_bind_def map_net_get
      split: sum.splits)

lemma demo_edit:
  "edit_register demo_reg_node map_net (client_new [1]) demo_name True [5] True
     \<lparr>w_fs = fs, w_net = demo_reg_store (signed_register_new demo_register [1, 7, 1]) demo_reg_node [0x91, 2, 1], printed = ls\<rparr>
   = Some (Inr (), \<lparr>w_fs = fs, w_net = demo_reg_store (demo_signed 5) demo_reg_node [0x91, 2, 2], printed = ls\<rparr>)"
proof -
  let ?n = "demo_reg_store (signed_register_new demo_register [1, 7, 1]) demo_reg_node [0x91, 2, 1]"
  let ?cr = "cr_create demo_reg_node (client_new [1]) [7]"
  have "in_step demo_reg_node map_net ?cr ?n 0"
    using create_online_in_step [OF _ _ demo_reg_laws(1) map_net_keeps demo_reg_absent demo_reg_absent demo_create_online] demo_env_laws demo_reg_laws
    by simp
  from in_step_retrieve [OF demo_reg_laws(1) map_net_keeps this, of "client_new [1]"] map_net_retrieve [of demo_reg_node "client_new [1]" _ ?n]
  have "cr_retrieve demo_reg_node map_net (client_new [1]) (register_address (cr_register ?cr)) ?n = (Inr ?cr, ?n)"
    by (metis demo_cr_create client_register.select_convs(2) snd_conv)
  moreover have "register_address (cr_register ?cr) = address_new [7] (signer_pk demo_reg_node (client_new [1]))"
    by (simp add: cr_create_def cr_create_register_def register_address_def register_new_def crdt_new_def address_new_def)
  ultimately show ?thesis
    by (simp add: edit_register_def parse_addr_def demo_name_xor cli_run cli_net_def cli_return_def demo_write_online)
qed

theorem cli_register_roundtrip_witness:
  "\<exists>os w2 w3. map (\<lambda>op. node_value (op_crdt_op op)) os = [[5]] \<and>
    edit_all demo_reg_node map_net (client_new [1]) demo_name True [[5]]
      \<lparr>w_fs = \<lparr>fs_files = [], fs_dirs = []\<rparr>, w_net = demo_reg_store (signed_register_new demo_register [1, 7, 1]) demo_reg_node [0x91, 2, 1],
        printed = [RegisterCreated demo_name (register_address demo_register)]\<rparr> = Some (Inr (), w2) \<and>
    get_registers demo_reg_node map_net (client_new [1]) [demo_name] True w2 = Some (Inr (), w3) \<and>
    printed w3 = printed w2 @ [RegisterEntries (register_read demo_env (foldl (apply_effect demo_env) demo_register os))]"
proof -
  let ?w = "\<lparr>w_fs = \<lparr>fs_files = [], fs_dirs = []\<rparr>, w_net = Map.empty, printed = []\<rparr> :: (record_key \<rightharpoonup> kad_record, bytes) world"
  let ?n1 = "demo_reg_store (signed_register_new demo_register [1, 7, 1]) demo_reg_node [0x91, 2, 1]"
  let ?w1 = "?w\<lparr>w_net := ?n1, printed := [RegisterCreated demo_name (register_address demo_register)]\<rparr>"
  have created: "create_register_cmd demo_reg_node map_net (client_new [1]) demo_name True ?w = Some (Inr (), ?w1)"
    by (simp add: create_register_cmd_def cli_client_def cli_run cli_net_def demo_name_xor demo_create_online) (simp add: demo_cr_create)
  obtain w2 where edited: "edit_all demo_reg_node map_net (client_new [1]) demo_name True [[5]] ?w1 = Some (Inr (), w2)"
    by (simp add: cli_run cli_return_def demo_edit)
  have absent: "get_signed_register_from_network demo_reg_node map_net (RegisterAddress [7] (signer_pk demo_reg_node (client_new [1]))) (w_net ?w)
      = (Inl (Err (ProtocolErr (RegisterNotFound (RegisterAddress [7] (signer_pk demo_reg_node (client_new [1])))))), Map.empty)"
    by (simp add: demo_reg_absent)
  have "\<exists>os w3. map (\<lambda>op. node_value (op_crdt_op op)) os = [[5]] \<and>
      get_registers demo_reg_node map_net (client_new [1]) [demo_name] True w2 = Some (Inr (), w3) \<and>
      printed w3 = printed w2 @ [RegisterEntries (register_read (w_reg (wire demo_reg_node))
        (foldl (apply_effect (w_reg (wire demo_reg_node))) (cr_register (cr_create demo_reg_node (client_new [1]) [7])) os))]"
    by (rule cli_register_roundtrip [OF _ _ demo_reg_laws(1) map_net_keeps absent demo_reg_absent _ created edited])
      (use demo_env_laws demo_reg_laws in \<open>simp_all add: demo_reg_absent demo_name_xor MAX_REG_NUM_ENTRIES_def\<close>)
  then obtain os w3 where "map (\<lambda>op. node_value (op_crdt_op op)) os = [[5]]"
    "get_registers demo_reg_node map_net (client_new [1]) [demo_name] True w2 = Some (Inr (), w3)"
    "printed w3 = printed w2 @ [RegisterEntries (register_read demo_env (foldl (apply_effect demo_env) demo_register os))]"
    unfolding demo_cr_create by (metis client_register.select_convs(2) demo_reg_node_sel(1))
  with edited [unfolded world.update_convs] show ?thesis by (intro exI [of _ os] exI [of _ w2] exI [of _ w3] conjI)
qed

end
