(* ===== verification/Network_Handle.thy ===== *)
theory Network_Handle
  imports Swarm_State
begin

text \<open>
  The handle \<open>Network\<close> of sn_networking (\<open>lib.rs\<close>): the calls by which the node and the client use
  the swarm driver. A call sends a command over the driver's channel and waits for the reply on
  a oneshot channel. For the commands the driver answers at once, a call is run together with the
  driver that handles it in whatever state it has reached by then; for the others
  (\<open>GetClosestPeers\<close>, \<open>SendRequest\<close>), the reply is an argument of type \<open>answer\<close>.
  The capacity is the number of free slots of the command channel when the call is made.
\<close>

section \<open>Asking the driver\<close>

record network =
  nw_peer_id :: peer_id
  root_dir_path :: "string list"
  keypair :: bytes

definition reply_to :: "sender \<Rightarrow> ('d, 's) action list \<Rightarrow> ('d, 's) reply option" where
  "reply_to s as = (case List.map_filter (\<lambda>a. case a of Reply s' r \<Rightarrow> if s' = s then Some r else None | _ \<Rightarrow> None) as of
     [] \<Rightarrow> None | r # _ \<Rightarrow> Some r)"

text \<open>
  \<open>payload\<close> is the type of the reply channel: a reply of another type cannot be sent on it.
\<close>

definition ask :: "net_error \<Rightarrow> (('d, 's) reply \<Rightarrow> 'a option) \<Rightarrow> nat \<Rightarrow> ('d, 's) wire_env \<Rightarrow> swarm_in \<Rightarrow> (sender \<Rightarrow> ('d, 's) swarm_cmd)
    \<Rightarrow> sender \<Rightarrow> ('d, 's) driver \<Rightarrow> (net_error + 'a) \<times> ('d, 's) driver" where
  "ask dropped payload capacity W I cmd s d =
     (case send_swarm_cmd capacity of
        Inl e \<Rightarrow> (Inl e, d)
      | Inr _ \<Rightarrow>
          let d' = fst (handle_cmd W I (cmd s) d)
          in (ok_or dropped (Option.bind (reply_to s (drop (length (outbox d)) (outbox d'))) payload), d'))"

definition tell :: "nat \<Rightarrow> ('d, 's) wire_env \<Rightarrow> swarm_in \<Rightarrow> ('d, 's) swarm_cmd \<Rightarrow> ('d, 's) driver
    \<Rightarrow> (net_error + unit) \<times> ('d, 's) driver" where
  "tell capacity W I cmd d =
     (case send_swarm_cmd capacity of Inl e \<Rightarrow> (Inl e, d) | Inr _ \<Rightarrow> (Inr (), fst (handle_cmd W I cmd d)))"

fun unit_payload :: "('d, 's) reply \<Rightarrow> (net_error + unit) option" where
  "unit_payload (UnitReply r) = Some r" | "unit_payload _ = None"

fun peers_payload :: "('d, 's) reply \<Rightarrow> peer_id list option" where
  "peers_payload (PeersReply r) = Some r" | "peers_payload _ = None"

fun state_payload :: "('d, 's) reply \<Rightarrow> swarm_local_state option" where
  "state_payload (StateReply r) = Some r" | "state_payload _ = None"

fun bool_payload :: "('d, 's) reply \<Rightarrow> bool option" where
  "bool_payload (BoolReply r) = Some r" | "bool_payload _ = None"

fun addresses_payload :: "('d, 's) reply \<Rightarrow> network_address list option" where
  "addresses_payload (AddressesReply r) = Some r" | "addresses_payload _ = None"

fun token_payload :: "('d, 's) reply \<Rightarrow> token option" where
  "token_payload (TokenReply r) = Some r" | "token_payload _ = None"

fun local_record_payload :: "('d, 's) reply \<Rightarrow> kad_record option option" where
  "local_record_payload (LocalRecordReply r) = Some r" | "local_record_payload _ = None"

section \<open>Calls the driver answers at once\<close>

definition network_sign :: "(bytes \<Rightarrow> bytes \<Rightarrow> string + bytes) \<Rightarrow> network \<Rightarrow> bytes \<Rightarrow> net_error + bytes" where
  "network_sign keypair_sign nw msg = map_err SigningFailed (keypair_sign (keypair nw) msg)"

text \<open>The reply of the two calls below is itself a result.\<close>

definition flatten_result :: "('e + ('e + 'a)) \<times> 'd \<Rightarrow> ('e + 'a) \<times> 'd" where
  "flatten_result r = (bind_result (fst r) (\<lambda>x. x), snd r)"

definition start_listening :: "nat \<Rightarrow> ('d, 's) wire_env \<Rightarrow> swarm_in \<Rightarrow> multiaddr \<Rightarrow> sender \<Rightarrow> ('d, 's) driver
    \<Rightarrow> (net_error + unit) \<times> ('d, 's) driver" where
  "start_listening capacity W I addr s d = flatten_result (ask SenderDropped unit_payload capacity W I (StartListening addr) s d)"

definition network_dial :: "nat \<Rightarrow> ('d, 's) wire_env \<Rightarrow> swarm_in \<Rightarrow> multiaddr \<Rightarrow> sender \<Rightarrow> ('d, 's) driver
    \<Rightarrow> (net_error + unit) \<times> ('d, 's) driver" where
  "network_dial capacity W I addr s d = flatten_result (ask SenderDropped unit_payload capacity W I (Dial addr) s d)"

definition get_closest_local_peers :: "nat \<Rightarrow> ('d, 's) wire_env \<Rightarrow> swarm_in \<Rightarrow> network_address \<Rightarrow> sender \<Rightarrow> ('d, 's) driver
    \<Rightarrow> (net_error + peer_id list) \<times> ('d, 's) driver" where
  "get_closest_local_peers capacity W I key s d =
     ask InternalMsgChannelDropped peers_payload capacity W I (GetClosestLocalPeers key) s d"

definition network_get_all_local_peers :: "nat \<Rightarrow> ('d, 's) wire_env \<Rightarrow> swarm_in \<Rightarrow> sender \<Rightarrow> ('d, 's) driver
    \<Rightarrow> (net_error + peer_id list) \<times> ('d, 's) driver" where
  "network_get_all_local_peers capacity W I s d = ask InternalMsgChannelDropped peers_payload capacity W I GetAllLocalPeers s d"

definition get_our_close_group :: "nat \<Rightarrow> ('d, 's) wire_env \<Rightarrow> swarm_in \<Rightarrow> sender \<Rightarrow> ('d, 's) driver
    \<Rightarrow> (net_error + peer_id list) \<times> ('d, 's) driver" where
  "get_our_close_group capacity W I s d = ask InternalMsgChannelDropped peers_payload capacity W I GetOurCloseGroup s d"

definition get_local_storecost :: "nat \<Rightarrow> ('d, 's) wire_env \<Rightarrow> swarm_in \<Rightarrow> sender \<Rightarrow> ('d, 's) driver
    \<Rightarrow> (net_error + token) \<times> ('d, 's) driver" where
  "get_local_storecost capacity W I s d = ask InternalMsgChannelDropped token_payload capacity W I GetLocalStoreCost s d"

definition get_local_record :: "nat \<Rightarrow> ('d, 's) wire_env \<Rightarrow> swarm_in \<Rightarrow> record_key \<Rightarrow> sender \<Rightarrow> ('d, 's) driver
    \<Rightarrow> (net_error + kad_record option) \<times> ('d, 's) driver" where
  "get_local_record capacity W I key s d =
     ask InternalMsgChannelDropped local_record_payload capacity W I (GetLocalRecord key) s d"

definition put_local_record :: "nat \<Rightarrow> ('d, 's) wire_env \<Rightarrow> swarm_in \<Rightarrow> kad_record \<Rightarrow> ('d, 's) driver
    \<Rightarrow> (net_error + unit) \<times> ('d, 's) driver" where
  "put_local_record capacity W I r d = tell capacity W I (PutLocalRecord r) d"

definition is_key_present_locally :: "nat \<Rightarrow> ('d, 's) wire_env \<Rightarrow> swarm_in \<Rightarrow> record_key \<Rightarrow> sender \<Rightarrow> ('d, 's) driver
    \<Rightarrow> (net_error + bool) \<times> ('d, 's) driver" where
  "is_key_present_locally capacity W I key s d =
     ask InternalMsgChannelDropped bool_payload capacity W I (RecordStoreHasKey key) s d"

definition get_all_local_record_addresses :: "nat \<Rightarrow> ('d, 's) wire_env \<Rightarrow> swarm_in \<Rightarrow> sender \<Rightarrow> ('d, 's) driver
    \<Rightarrow> (net_error + network_address list) \<times> ('d, 's) driver" where
  "get_all_local_record_addresses capacity W I s d =
     ask InternalMsgChannelDropped addresses_payload capacity W I GetAllLocalRecordAddresses s d"

definition add_keys_to_replication_fetcher :: "nat \<Rightarrow> ('d, 's) wire_env \<Rightarrow> swarm_in \<Rightarrow> peer_id \<Rightarrow> network_address list \<Rightarrow> ('d, 's) driver
    \<Rightarrow> (net_error + unit) \<times> ('d, 's) driver" where
  "add_keys_to_replication_fetcher capacity W I peer keys d = tell capacity W I (AddKeysToReplicationFetcher peer keys) d"

definition send_req_ignore_reply :: "nat \<Rightarrow> ('d, 's) wire_env \<Rightarrow> swarm_in \<Rightarrow> request \<Rightarrow> peer_id \<Rightarrow> ('d, 's) driver
    \<Rightarrow> (net_error + unit) \<times> ('d, 's) driver" where
  "send_req_ignore_reply capacity W I req peer d = tell capacity W I (SendRequest req peer None) d"

definition network_send_response :: "nat \<Rightarrow> ('d, 's) wire_env \<Rightarrow> swarm_in \<Rightarrow> ('d, 's) response \<Rightarrow> msg_responder \<Rightarrow> ('d, 's) driver
    \<Rightarrow> (net_error + unit) \<times> ('d, 's) driver" where
  "network_send_response capacity W I resp channel d = tell capacity W I (SendResponse resp channel) d"

definition get_swarm_local_state :: "nat \<Rightarrow> ('d, 's) wire_env \<Rightarrow> swarm_in \<Rightarrow> sender \<Rightarrow> ('d, 's) driver
    \<Rightarrow> (net_error + swarm_local_state) \<times> ('d, 's) driver" where
  "get_swarm_local_state capacity W I s d = ask SenderDropped state_payload capacity W I GetSwarmLocalState s d"

section \<open>Calls that wait for the network\<close>

definition client_get_closest_peers :: "('d, 's) wire_env \<Rightarrow> network \<Rightarrow> network_address \<Rightarrow> peer_id list answer \<Rightarrow> net_error + peer_id list" where
  "client_get_closest_peers W nw key a = get_closest_peers W (nw_peer_id nw) key True a"

definition node_get_closest_peers :: "('d, 's) wire_env \<Rightarrow> network \<Rightarrow> network_address \<Rightarrow> peer_id list answer \<Rightarrow> net_error + peer_id list" where
  "node_get_closest_peers W nw key a = get_closest_peers W (nw_peer_id nw) key False a"

text \<open>The reply of \<open>send_request\<close> is itself a result.\<close>

definition send_request :: "(net_error + ('d, 's) response) answer \<Rightarrow> net_error + ('d, 's) response" where
  "send_request a = bind_result (await_with SenderDropped a) (\<lambda>r. r)"

text \<open>\<open>replies\<close> gives the answer to the request sent to a peer; \<open>order\<close> is the order in which they arrive.\<close>

definition node_send_to_closest :: "('d, 's) wire_env \<Rightarrow> network \<Rightarrow> request \<Rightarrow> peer_id list answer
    \<Rightarrow> (peer_id \<Rightarrow> (net_error + ('d, 's) response) answer) \<Rightarrow> (peer_id list \<Rightarrow> peer_id list)
    \<Rightarrow> net_error + (net_error + ('d, 's) response) list" where
  "node_send_to_closest W nw req a replies order =
     bind_result (node_get_closest_peers W nw (request_dst req) a) (\<lambda>closest_peers.
       Inr (send_and_get_responses (map (send_request \<circ> replies) (order closest_peers)) True []))"

definition client_send_to_closest :: "('d, 's) wire_env \<Rightarrow> network \<Rightarrow> request \<Rightarrow> bool \<Rightarrow> peer_id list answer
    \<Rightarrow> (peer_id \<Rightarrow> (net_error + ('d, 's) response) answer) \<Rightarrow> (peer_id list \<Rightarrow> peer_id list)
    \<Rightarrow> net_error + (net_error + ('d, 's) response) list" where
  "client_send_to_closest W nw req expect_all_responses a replies order =
     bind_result (client_get_closest_peers W nw (request_dst req) a) (\<lambda>closest_peers.
       Inr (send_and_get_responses (map (send_request \<circ> replies) (order closest_peers)) expect_all_responses []))"

text \<open>The loop ends at the first peer for which the command channel is full.\<close>

fun send_to_peers :: "('d, 's) wire_env \<Rightarrow> request \<Rightarrow> (peer_id \<times> nat \<times> swarm_in) list \<Rightarrow> ('d, 's) driver
    \<Rightarrow> (net_error + unit) \<times> ('d, 's) driver" where
  "send_to_peers W req [] d = (Inr (), d)"
| "send_to_peers W req ((peer, capacity, I) # rest) d =
     (case send_req_ignore_reply capacity W I req peer d of
        (Inl e, d) \<Rightarrow> (Inl e, d)
      | (Inr _, d) \<Rightarrow> send_to_peers W req rest d)"

definition send_req_no_reply_to_closest :: "('d, 's) wire_env \<Rightarrow> network \<Rightarrow> request \<Rightarrow> peer_id list answer \<Rightarrow> (peer_id \<Rightarrow> nat \<times> swarm_in)
    \<Rightarrow> ('d, 's) driver \<Rightarrow> (net_error + unit) \<times> ('d, 's) driver" where
  "send_req_no_reply_to_closest W nw req a turn d =
     (case node_get_closest_peers W nw (request_dst req) a of
        Inl e \<Rightarrow> (Inl e, d)
      | Inr closest_peers \<Rightarrow> send_to_peers W req (map (\<lambda>p. (p, turn p)) closest_peers) d)"

definition send_req_no_reply_to_self_closest :: "('d, 's) wire_env \<Rightarrow> network \<Rightarrow> request \<Rightarrow> peer_id list answer \<Rightarrow> (peer_id \<Rightarrow> nat \<times> swarm_in)
    \<Rightarrow> ('d, 's) driver \<Rightarrow> (net_error + unit) \<times> ('d, 's) driver" where
  "send_req_no_reply_to_self_closest W nw req a turn d =
     (case client_get_closest_peers W nw (request_dst req) a of
        Inl e \<Rightarrow> (Inl e, d)
      | Inr closest_peers \<Rightarrow> send_to_peers W req (map (\<lambda>p. (p, turn p)) closest_peers) d)"

section \<open>Types of the reply channels\<close>

text \<open>
  A oneshot sender has the type of the one reply it can carry. \<open>\<tau>\<close> assigns the types; a command
  is well typed when it carries a sender of the type its reply has, and a driver when every
  sender it keeps, and every reply it sent, has the right type.
\<close>

datatype reply_kind = UnitK | PeersK | StateK | ResponseK | BoolK | AddressesK | RecordK | TokenK | LocalRecordK

fun kind_of :: "('d, 's) reply \<Rightarrow> reply_kind" where
  "kind_of (UnitReply _) = UnitK"
| "kind_of (PeersReply _) = PeersK"
| "kind_of (StateReply _) = StateK"
| "kind_of (ResponseReply _) = ResponseK"
| "kind_of (BoolReply _) = BoolK"
| "kind_of (AddressesReply _) = AddressesK"
| "kind_of (RecordReply _) = RecordK"
| "kind_of (TokenReply _) = TokenK"
| "kind_of (LocalRecordReply _) = LocalRecordK"

fun carries :: "('d, 's) swarm_cmd \<Rightarrow> (sender \<times> reply_kind) option" where
  "carries (StartListening _ s) = Some (s, UnitK)"
| "carries (Dial _ s) = Some (s, UnitK)"
| "carries (GetClosestPeers _ s) = Some (s, PeersK)"
| "carries (GetClosestLocalPeers _ s) = Some (s, PeersK)"
| "carries (GetAllLocalPeers s) = Some (s, PeersK)"
| "carries (GetOurCloseGroup s) = Some (s, PeersK)"
| "carries (GetSwarmLocalState s) = Some (s, StateK)"
| "carries (SendRequest _ _ so) = map_option (\<lambda>s. (s, ResponseK)) so"
| "carries (SendResponse _ (FromSelf so)) = map_option (\<lambda>s. (s, ResponseK)) so"
| "carries (SendResponse _ (FromPeer _)) = None"
| "carries (RecordStoreHasKey _ s) = Some (s, BoolK)"
| "carries (GetAllLocalRecordAddresses s) = Some (s, AddressesK)"
| "carries (GetNetworkRecord _ s) = Some (s, RecordK)"
| "carries (GetLocalStoreCost s) = Some (s, TokenK)"
| "carries (GetLocalRecord _ s) = Some (s, LocalRecordK)"
| "carries (PutRecord _ s) = Some (s, UnitK)"
| "carries (PutLocalRecord _) = None"
| "carries (AddKeysToReplicationFetcher _ _) = None"

definition cmd_typed :: "(sender \<Rightarrow> reply_kind) \<Rightarrow> ('d, 's) swarm_cmd \<Rightarrow> bool" where
  "cmd_typed \<tau> c \<longleftrightarrow> (case carries c of Some (s, k) \<Rightarrow> \<tau> s = k | None \<Rightarrow> True)"

definition action_typed :: "(sender \<Rightarrow> reply_kind) \<Rightarrow> ('d, 's) action \<Rightarrow> bool" where
  "action_typed \<tau> a \<longleftrightarrow> (case a of Reply s r \<Rightarrow> \<tau> s = kind_of r
     | Event (RequestReceived _ (FromSelf (Some s))) \<Rightarrow> \<tau> s = ResponseK | _ \<Rightarrow> True)"

definition driver_typed :: "(sender \<Rightarrow> reply_kind) \<Rightarrow> ('d, 's) driver \<Rightarrow> bool" where
  "driver_typed \<tau> d \<longleftrightarrow> (\<forall>(_, s, _) \<in> set (pending_get_closest_peers d). \<tau> s = PeersK) \<and>
     (\<forall>(_, so) \<in> set (pending_requests d). \<forall>s. so = Some s \<longrightarrow> \<tau> s = ResponseK) \<and>
     (\<forall>(_, s, _) \<in> set (pending_get_record d). \<tau> s = RecordK) \<and> (\<forall>a \<in> set (outbox d). action_typed \<tau> a)"

named_theorems typed_intros \<open>steps that keep the types of the reply channels\<close>

lemma typed_emit [typed_intros]: "driver_typed \<tau> d \<Longrightarrow> action_typed \<tau> a \<Longrightarrow> driver_typed \<tau> (emit a d)"
  by (simp add: driver_typed_def emit_def)

lemma typed_send_event [typed_intros]:
  "driver_typed \<tau> d \<Longrightarrow> action_typed \<tau> (Event e) \<Longrightarrow> driver_typed \<tau> (send_event I e d)"
  by (simp add: send_event_def typed_emit)

lemma typed_oneshot [typed_intros]: "driver_typed \<tau> d \<Longrightarrow> \<tau> s = kind_of r \<Longrightarrow> driver_typed \<tau> (oneshot_send I s r d)"
  by (simp add: oneshot_send_def typed_emit action_typed_def)

lemma typed_updates [simp]:
  "driver_typed \<tau> (store_update f1 d) = driver_typed \<tau> d"
  "driver_typed \<tau> (replication_fetcher_update f2 d) = driver_typed \<tau> d"
  "driver_typed \<tau> (dialed_peers_update f3 d) = driver_typed \<tau> d"
  "driver_typed \<tau> (close_group_update f4 d) = driver_typed \<tau> d"
  "driver_typed \<tau> (bootstrap_done_update f5 d) = driver_typed \<tau> d"
  by (simp_all add: driver_typed_def)

lemma set_bm_insert_subset: "set (bm_insert k v m) \<subseteq> insert (k, v) (set m)"
  by (induction k v m rule: bm_insert.induct) (auto split: if_splits)

lemma set_bm_remove_subset: "set (bm_remove k m) \<subseteq> set m"
  by (auto simp: bm_remove_def)

lemma typed_pending [typed_intros]:
  "driver_typed \<tau> d \<Longrightarrow> \<tau> s = PeersK \<Longrightarrow> driver_typed \<tau> (d\<lparr>pending_get_closest_peers := bm_insert q (s, ps) (pending_get_closest_peers d)\<rparr>)"
  "driver_typed \<tau> d \<Longrightarrow> (\<And>s. so = Some s \<Longrightarrow> \<tau> s = ResponseK) \<Longrightarrow> driver_typed \<tau> (d\<lparr>pending_requests := bm_insert q so (pending_requests d)\<rparr>)"
  "driver_typed \<tau> d \<Longrightarrow> \<tau> s = RecordK \<Longrightarrow> driver_typed \<tau> (d\<lparr>pending_get_record := bm_insert q (s, m) (pending_get_record d)\<rparr>)"
  using set_bm_insert_subset unfolding driver_typed_def by fastforce+

lemma typed_removed [typed_intros]:
  "driver_typed \<tau> d \<Longrightarrow> driver_typed \<tau> (d\<lparr>pending_get_closest_peers := bm_remove q (pending_get_closest_peers d)\<rparr>)"
  "driver_typed \<tau> d \<Longrightarrow> driver_typed \<tau> (d\<lparr>pending_requests := bm_remove q (pending_requests d)\<rparr>)"
  "driver_typed \<tau> d \<Longrightarrow> driver_typed \<tau> (d\<lparr>pending_get_record := bm_remove q (pending_get_record d)\<rparr>)"
  using set_bm_remove_subset unfolding driver_typed_def by fastforce+

lemma emit_pending [simp]:
  "(emit a d)\<lparr>pending_get_closest_peers := x\<rparr> = emit a (d\<lparr>pending_get_closest_peers := x\<rparr>)"
  "(emit a d)\<lparr>pending_requests := y\<rparr> = emit a (d\<lparr>pending_requests := y\<rparr>)"
  "(emit a d)\<lparr>pending_get_record := z\<rparr> = emit a (d\<lparr>pending_get_record := z\<rparr>)"
  by (simp_all add: emit_def)

lemma typed_found:
  "driver_typed \<tau> d \<Longrightarrow> bm_get (pending_get_closest_peers d) q = Some (s, ps) \<Longrightarrow> \<tau> s = PeersK"
  "driver_typed \<tau> d \<Longrightarrow> bm_get (pending_requests d) q = Some (Some s) \<Longrightarrow> \<tau> s = ResponseK"
  "driver_typed \<tau> d \<Longrightarrow> bm_get (pending_get_record d) q = Some (s, m) \<Longrightarrow> \<tau> s = RecordK"
  by (auto simp: driver_typed_def dest!: map_of_SomeD)

lemma action_typed_simps [simp]:
  "action_typed \<tau> (Event (RequestReceived req (FromSelf so))) \<longleftrightarrow> (\<forall>s. so = Some s \<longrightarrow> \<tau> s = ResponseK)"
  "action_typed \<tau> (Event (RequestReceived req (FromPeer c)))" "action_typed \<tau> (Event (ResponseReceived resp))"
  "action_typed \<tau> (Event (PeerAdded p))" "action_typed \<tau> (Event (PeerRemoved p))" "action_typed \<tau> (Event (KeysForReplication ks))"
  "action_typed \<tau> (Event (NewListenAddr m))" "action_typed \<tau> (Event (NatStatusChanged st))" "action_typed \<tau> (Event (UnverifiedRecordEvent r))"
  "action_typed \<tau> (SwarmListen a)" "action_typed \<tau> (SwarmDial po a)" "action_typed \<tau> (KadGetRecord k)" "action_typed \<tau> (KadPutRecord r)"
  "action_typed \<tau> (KadGetClosest b)" "action_typed \<tau> (SendReq p rq)" "action_typed \<tau> (SendResp c rp)" "action_typed \<tau> (AddExternalAddress a)"
  "action_typed \<tau> (KadAddAddress p a)" "action_typed \<tau> (AutonatAddServer p a)" "action_typed \<tau> KadBootstrap"
  by (auto simp: action_typed_def split: option.splits)

lemma typed_fold: "(\<And>x d. x \<in> set xs \<Longrightarrow> driver_typed \<tau> d \<Longrightarrow> driver_typed \<tau> (f x d)) \<Longrightarrow> driver_typed \<tau> d \<Longrightarrow> driver_typed \<tau> (fold f xs d)"
  by (induction xs arbitrary: d) auto

lemma typed_check [typed_intros]: "driver_typed \<tau> d \<Longrightarrow> driver_typed \<tau> (fst (check_for_change_in_our_close_group W I d))"
  by (auto simp: check_for_change_in_our_close_group_def update_record_distance_range_def Let_def split: sum.splits)

lemma typed_dial [typed_intros]: "driver_typed \<tau> d \<Longrightarrow> driver_typed \<tau> (fst (dial I a d))"
  by (auto simp: dial_def split: prod.splits intro!: typed_intros)

lemma typed_cmd:
  assumes "driver_typed \<tau> d" and "cmd_typed \<tau> c"
  shows "driver_typed \<tau> (fst (handle_cmd W I c d))"
proof (cases c)
  case (Dial a s)
  have "driver_typed \<tau> (fst (dial I a d))" using assms(1) by (intro typed_intros)
  with Dial assms(2) show ?thesis by (auto simp: cmd_typed_def split: prod.splits intro!: typed_intros)
qed (use assms in \<open>auto simp: cmd_typed_def cmd_add_keys_def cmd_put_local_record_def cmd_put_record_def cmd_send_request_def
      cmd_send_response_def Let_def split: prod.splits sum.splits msg_responder.splits option.splits intro!: typed_intros\<close>)

lemma typed_msg: "driver_typed \<tau> d \<Longrightarrow> driver_typed \<tau> (fst (handle_msg I e d))"
  by (cases e) (auto simp: Let_def split: option.splits intro!: typed_intros dest: typed_found)

lemma typed_split_record: "driver_typed \<tau> d \<Longrightarrow> driver_typed \<tau> (try_update_self_for_split_record W I m d)"
  by (auto simp: try_update_self_for_split_record_def split: list.splits sum.splits)

lemma typed_found_record: "driver_typed \<tau> d \<Longrightarrow> driver_typed \<tau> (accumulate_get_record_ok W I q p r n d)"
proof -
  assume d: "driver_typed \<tau> d"
  have "driver_typed \<tau> (d\<lparr>pending_get_record := bm_insert q (s, m) (bm_remove q (pending_get_record d))\<rparr>)" if "\<tau> s = RecordK" for s m
    using typed_pending(3) [OF typed_removed(3) [OF d] that, of q m q] by simp
  with d typed_found(3) [OF d] show ?thesis
    by (auto simp: accumulate_get_record_ok_def Let_def split: option.splits intro!: typed_intros typed_split_record)
qed

lemma typed_closest_ok: "driver_typed \<tau> d \<Longrightarrow> driver_typed \<tau> (fst (kad_get_closest_ok I q ps l d))"
proof -
  assume d: "driver_typed \<tau> d"
  have "driver_typed \<tau> (d\<lparr>pending_get_closest_peers := bm_insert q (s, qs) (bm_remove q (pending_get_closest_peers d))\<rparr>)" if "\<tau> s = PeersK" for s qs
    using typed_pending(1) [OF typed_removed(1) [OF d] that, of q qs q] by simp
  with d typed_found(1) [OF d] show ?thesis
    by (auto simp: kad_get_closest_ok_def Let_def split: option.splits intro!: typed_intros)
qed

lemma typed_kad: "driver_typed \<tau> d \<Longrightarrow> driver_typed \<tau> (fst (handle_kad_event W I e d))"
  by (cases e) (auto simp: kad_finished_def kad_get_record_err_def kad_routing_updated_def Let_def
      split: option.splits list.splits prod.splits intro!: typed_intros typed_found_record typed_closest_ok dest: typed_found)

lemma typed_identify: "driver_typed \<tau> d \<Longrightarrow> driver_typed \<tau> (identify_received I p info d)"
  unfolding identify_received_def Let_def by (auto intro!: typed_fold typed_emit)

lemma typed_swarm: "driver_typed \<tau> d \<Longrightarrow> driver_typed \<tau> (fst (handle_swarm_events W I e d))"
  by (cases e) (auto simp: new_listen_addr_def connection_established_def outgoing_connection_error_def mdns_discovered_def Let_def
      split: option.splits intro!: typed_intros typed_kad typed_msg typed_identify typed_fold)

definition input_typed :: "(sender \<Rightarrow> reply_kind) \<Rightarrow> ('d, 's) driver_input \<Rightarrow> bool" where
  "input_typed \<tau> i \<longleftrightarrow> (case snd i of Inl c \<Rightarrow> cmd_typed \<tau> c | Inr _ \<Rightarrow> True)"

lemma typed_step: "driver_typed \<tau> d \<Longrightarrow> input_typed \<tau> i \<Longrightarrow> driver_typed \<tau> (driver_step W i d)"
  by (auto simp: driver_step_def input_typed_def typed_cmd typed_swarm split: sum.splits)

interpretation typed: invariant_system "driver_step W" "\<lambda>i _. input_typed \<tau> i" "driver_typed \<tau>"
  by unfold_locales (rule typed_step)

lemma typed_run: "list_all (input_typed \<tau>) tr \<Longrightarrow> driver_typed \<tau> d \<Longrightarrow> driver_typed \<tau> (driver_run W tr d)"
  unfolding driver_run_def by (rule typed.run_inv) simp_all

section \<open>How often a reply channel is used\<close>

text \<open>
  How many times the driver has replied on a sender, and in how many places it keeps the sender to
  reply later. A request to self hands the sender to the upper layer instead.
\<close>

definition replied :: "sender \<Rightarrow> ('d, 's) driver \<Rightarrow> nat" where
  "replied s d = length (filter (\<lambda>a. case a of Reply s' _ \<Rightarrow> s' = s | _ \<Rightarrow> False) (outbox d))"

definition waiting :: "sender \<Rightarrow> ('d, 's) driver \<Rightarrow> nat" where
  "waiting s d = length (filter (\<lambda>(_, s', _). s' = s) (pending_get_closest_peers d)) +
     length (filter (\<lambda>(_, so). so = Some s) (pending_requests d)) +
     length (filter (\<lambda>(_, s', _). s' = s) (pending_get_record d))"

definition uses :: "sender \<Rightarrow> ('d, 's) driver \<Rightarrow> nat" where
  "uses s d = replied s d + waiting s d"

definition input_uses :: "peer_id \<Rightarrow> sender \<Rightarrow> ('d, 's) driver_input \<Rightarrow> nat" where
  "input_uses self s i = (case snd i of
     Inl c \<Rightarrow> (if map_option fst (carries c) = Some s \<and> (\<forall>req so. c \<noteq> SendRequest req self so) then 1 else 0) | Inr _ \<Rightarrow> 0)"

text \<open>The tables of pending calls have one entry for an id; a caller waits for its answer, and the next ids are fresh.\<close>

definition calls_ok :: "peer_id \<Rightarrow> ('d, 's) driver \<Rightarrow> bool" where
  "calls_ok self d \<longleftrightarrow> self_peer_id d = self \<and> bm_ok (pending_get_closest_peers d) \<and> bm_ok (pending_requests d) \<and> bm_ok (pending_get_record d)"

definition awaits :: "sender \<Rightarrow> ('d, 's) driver_input \<Rightarrow> ('d, 's) driver \<Rightarrow> bool" where
  "awaits s i d \<longleftrightarrow> receiver_alive (fst i) s \<and> bm_get (pending_get_closest_peers d) (new_query_id (fst i)) = None \<and>
     bm_get (pending_get_record d) (new_query_id (fst i)) = None \<and> bm_get (pending_requests d) (new_request_id (fst i)) = None"

lemma length_filter_insert:
  "bm_get m k = None \<Longrightarrow> length (filter P (bm_insert k v m)) = of_bool (P (k, v)) + length (filter P m)"
  by (induction k v m rule: bm_insert.induct) (auto split: if_splits)

lemma length_filter_remove:
  assumes "bm_ok m" and "bm_get m k = Some v"
  shows "length (filter P m) = of_bool (P (k, v)) + length (filter P (bm_remove k m))"
proof -
  have "distinct (map fst m)" using assms(1) by (simp add: bm_ok_distinct)
  with assms(2) show ?thesis
  proof (induction m)
    case (Cons x m)
    obtain k' v' where x: "x = (k', v')" by force
    show ?case
    proof (cases "k' = k")
      case True
      with Cons.prems(2) x have "filter (\<lambda>(k', _). k' \<noteq> k) m = m" by (force simp: filter_id_conv)
      with True Cons.prems(1) x show ?thesis by (simp add: bm_remove_def)
    next
      case False
      with Cons x show ?thesis by (simp add: bm_remove_def)
    qed
  qed simp
qed

lemma bm_get_removed [simp]: "bm_get (bm_remove k m) k = None"
  by (force simp: bm_remove_def map_of_eq_None_iff)

lemma pending_emit [simp]:
  "pending_get_closest_peers (emit a d) = pending_get_closest_peers d" "pending_requests (emit a d) = pending_requests d"
  "pending_get_record (emit a d) = pending_get_record d"
  by (simp_all add: emit_def)

lemma pending_sent [simp]:
  "pending_get_closest_peers (oneshot_send I s r d) = pending_get_closest_peers d" "pending_requests (oneshot_send I s r d) = pending_requests d"
  "pending_get_record (oneshot_send I s r d) = pending_get_record d"
  "pending_get_closest_peers (send_event I e d) = pending_get_closest_peers d" "pending_requests (send_event I e d) = pending_requests d"
  "pending_get_record (send_event I e d) = pending_get_record d"
  by (simp_all add: oneshot_send_def send_event_def)

lemma uses_emit [simp]: "uses s (emit a d) = uses s d + (case a of Reply s' _ \<Rightarrow> of_bool (s' = s) | _ \<Rightarrow> 0)"
  by (cases a) (auto simp: uses_def waiting_def replied_def emit_def)

lemma uses_send_event [simp]: "uses s (send_event I e d) = uses s d"
  by (simp add: send_event_def)

lemma uses_oneshot [simp]: "receiver_alive I s \<Longrightarrow> uses s (oneshot_send I s' r d) = uses s d + of_bool (s' = s)"
  by (auto simp: oneshot_send_def)

lemma uses_updates [simp]:
  "uses s (store_update f1 d) = uses s d" "uses s (replication_fetcher_update f2 d) = uses s d"
  "uses s (dialed_peers_update f3 d) = uses s d" "uses s (close_group_update f4 d) = uses s d"
  "uses s (bootstrap_done_update f5 d) = uses s d"
  by (simp_all add: uses_def waiting_def replied_def)

lemma uses_insert:
  "bm_get (pending_get_closest_peers d) q = None \<Longrightarrow>
    uses s (d\<lparr>pending_get_closest_peers := bm_insert q (s', ps) (pending_get_closest_peers d)\<rparr>) = uses s d + of_bool (s' = s)"
  "bm_get (pending_requests d) q = None \<Longrightarrow>
    uses s (d\<lparr>pending_requests := bm_insert q so (pending_requests d)\<rparr>) = uses s d + of_bool (so = Some s)"
  "bm_get (pending_get_record d) q = None \<Longrightarrow>
    uses s (d\<lparr>pending_get_record := bm_insert q (s', m) (pending_get_record d)\<rparr>) = uses s d + of_bool (s' = s)"
  by (simp_all add: uses_def waiting_def replied_def length_filter_insert)

lemma uses_remove:
  "bm_ok (pending_get_closest_peers d) \<Longrightarrow> bm_get (pending_get_closest_peers d) q = Some (s', ps) \<Longrightarrow>
    uses s d = uses s (d\<lparr>pending_get_closest_peers := bm_remove q (pending_get_closest_peers d)\<rparr>) + of_bool (s' = s)"
  "bm_ok (pending_requests d) \<Longrightarrow> bm_get (pending_requests d) q = Some so \<Longrightarrow>
    uses s d = uses s (d\<lparr>pending_requests := bm_remove q (pending_requests d)\<rparr>) + of_bool (so = Some s)"
  "bm_ok (pending_get_record d) \<Longrightarrow> bm_get (pending_get_record d) q = Some (s', m) \<Longrightarrow>
    uses s d = uses s (d\<lparr>pending_get_record := bm_remove q (pending_get_record d)\<rparr>) + of_bool (s' = s)"
  using length_filter_remove [of "pending_get_closest_peers d" q "(s', ps)" "\<lambda>(_, s', _). s' = s"]
    length_filter_remove [of "pending_requests d" q so "\<lambda>(_, so). so = Some s"]
    length_filter_remove [of "pending_get_record d" q "(s', m)" "\<lambda>(_, s', _). s' = s"]
  by (simp_all add: uses_def waiting_def replied_def)

lemma remove_absent: "bm_get m q = None \<Longrightarrow> bm_remove q m = m"
  by (force simp: bm_remove_def filter_id_conv map_of_eq_None_iff)

lemma uses_kept [simp]:
  "uses s (fst (check_for_change_in_our_close_group W I d)) = uses s d" "uses s (fst (dial I a d)) = uses s d"
  by (auto simp: check_for_change_in_our_close_group_def update_record_distance_range_def dial_def Let_def split: sum.splits prod.splits)

lemma uses_split [simp]: "uses s (try_update_self_for_split_record W I m d) = uses s d"
  by (auto simp: try_update_self_for_split_record_def split: list.splits sum.splits)

lemma uses_fold: "(\<And>x d. uses s (f x d) = uses s d) \<Longrightarrow> uses s (fold f xs d) = uses s d"
  by (induction xs arbitrary: d) auto

lemma uses_cmd:
  assumes "calls_ok self d" and "awaits s (I, Inl c) d"
  shows "uses s (fst (handle_cmd W I c d)) = uses s d + input_uses self s (I, Inl c)"
proof -
  have alive: "receiver_alive I s" using assms(2) by (simp add: awaits_def)
  show ?thesis
  proof (cases c)
    case (SendRequest req peer so)
    with assms uses_insert(2) [of "emit (SendReq peer req) d" "new_request_id I" s so] show ?thesis
      by (auto simp: cmd_send_request_def input_uses_def calls_ok_def awaits_def split: option.splits)
  next
    case (GetNetworkRecord k s')
    with assms uses_insert(3) [of "emit (KadGetRecord k) d" "new_query_id I" s s' "[]"] show ?thesis
      by (auto simp: input_uses_def awaits_def)
  next
    case (GetClosestPeers k s')
    with assms uses_insert(1) [of "emit (KadGetClosest (as_bytes W k)) d" "new_query_id I" s s' "[]"] show ?thesis
      by (auto simp: input_uses_def awaits_def)
  next
    case (Dial a s')
    with alive show ?thesis using uses_kept(2) [of s I a d] by (auto simp: input_uses_def split: prod.splits simp del: uses_kept)
  qed (use alive in \<open>auto simp: input_uses_def cmd_add_keys_def cmd_put_local_record_def cmd_put_record_def cmd_send_response_def Let_def
        split: prod.splits sum.splits msg_responder.splits option.splits\<close>)
qed

lemma uses_msg:
  assumes "calls_ok self d" and "receiver_alive I s"
  shows "uses s (fst (handle_msg I e d)) = uses s d"
  using assms uses_remove(2) [of d _ _ s] remove_absent [of "pending_requests d"]
  by (cases e) (auto simp: calls_ok_def Let_def split: option.splits)

lemma uses_found_record:
  assumes "calls_ok self d" and "receiver_alive I s"
  shows "uses s (accumulate_get_record_ok W I q p r n d) = uses s d"
proof (cases "bm_get (pending_get_record d) q")
  case (Some sm)
  obtain s' m where sm: "sm = (s', m)" by (cases sm)
  let ?d = "d\<lparr>pending_get_record := bm_remove q (pending_get_record d)\<rparr>"
  have "uses s d = uses s ?d + of_bool (s' = s)" using Some sm assms(1) by (simp add: uses_remove calls_ok_def)
  moreover have "uses s (d\<lparr>pending_get_record := bm_insert q (s', m') (bm_remove q (pending_get_record d))\<rparr>) = uses s ?d + of_bool (s' = s)" for m'
    using uses_insert(3) [of ?d q s s' m'] by simp
  ultimately show ?thesis using Some sm assms(2) by (auto simp: accumulate_get_record_ok_def Let_def)
qed (simp add: accumulate_get_record_ok_def Let_def)

lemma uses_closest_ok:
  assumes "calls_ok self d" and "receiver_alive I s"
  shows "uses s (fst (kad_get_closest_ok I q ps l d)) = uses s d"
proof (cases "bm_get (pending_get_closest_peers d) q")
  case (Some sm)
  obtain s' cs where sm: "sm = (s', cs)" by (cases sm)
  let ?d = "d\<lparr>pending_get_closest_peers := bm_remove q (pending_get_closest_peers d)\<rparr>"
  have "uses s d = uses s ?d + of_bool (s' = s)" using Some sm assms(1) by (simp add: uses_remove calls_ok_def)
  moreover have "uses s (d\<lparr>pending_get_closest_peers := bm_insert q (s', qs) (bm_remove q (pending_get_closest_peers d))\<rparr>) = uses s ?d + of_bool (s' = s)" for qs
    using uses_insert(1) [of ?d q s s' qs] by simp
  ultimately show ?thesis using Some sm assms(2) by (auto simp: kad_get_closest_ok_def Let_def)
qed (simp add: kad_get_closest_ok_def)

lemma uses_kad:
  assumes "calls_ok self d" and "receiver_alive I s"
  shows "uses s (fst (handle_kad_event W I e d)) = uses s d"
proof (cases e)
  case (FinishedWithNoAdditionalRecord q)
  then show ?thesis using assms uses_remove(3) [of d q _ _ s]
    by (auto simp: kad_finished_def calls_ok_def Let_def split: option.splits list.splits)
next
  case (GetRecordErr q)
  then show ?thesis using assms uses_remove(3) [of d q _ _ s] by (auto simp: kad_get_record_err_def calls_ok_def split: option.splits)
qed (auto simp: uses_found_record [OF assms] uses_closest_ok [OF assms] kad_routing_updated_def Let_def)

lemma uses_swarm:
  assumes "calls_ok self d" and "receiver_alive I s"
  shows "uses s (fst (handle_swarm_events W I e d)) = uses s d"
proof (cases e)
  case (MdnsDiscovered ps)
  then show ?thesis by (auto simp: mdns_discovered_def case_prod_beta uses_fold)
next
  case (IdentifyReceived p info)
  then show ?thesis by (auto simp: identify_received_def Let_def uses_fold)
qed (auto simp: uses_kad [OF assms] uses_msg [OF assms] new_listen_addr_def connection_established_def outgoing_connection_error_def Let_def
    split: option.splits)

lemma uses_step:
  assumes "calls_ok self d" and "awaits s i d"
  shows "uses s (driver_step W i d) = uses s d + input_uses self s i"
proof -
  obtain I x where i: "i = (I, x)" by force
  have "receiver_alive I s" using assms(2) by (simp add: awaits_def i)
  with uses_cmd [OF assms(1), of s I _ W] uses_swarm [OF assms(1), of I s W] assms(2) show ?thesis
    by (cases x) (auto simp: driver_step_def input_uses_def i)
qed

lemma calls_ok_updates [simp]:
  "calls_ok self (emit a d) = calls_ok self d" "calls_ok self (oneshot_send I s r d) = calls_ok self d"
  "calls_ok self (send_event I e d) = calls_ok self d"
  "calls_ok self (store_update f1 d) = calls_ok self d" "calls_ok self (replication_fetcher_update f2 d) = calls_ok self d"
  "calls_ok self (dialed_peers_update f3 d) = calls_ok self d" "calls_ok self (close_group_update f4 d) = calls_ok self d"
  "calls_ok self (bootstrap_done_update f5 d) = calls_ok self d"
  by (simp_all add: calls_ok_def)

lemma calls_ok_kept [simp]:
  "calls_ok self (fst (check_for_change_in_our_close_group W I d)) = calls_ok self d" "calls_ok self (fst (dial I a d)) = calls_ok self d"
  "calls_ok self (try_update_self_for_split_record W I m d) = calls_ok self d"
  by (auto simp: check_for_change_in_our_close_group_def update_record_distance_range_def dial_def try_update_self_for_split_record_def
      Let_def split: sum.splits prod.splits list.splits)

lemma calls_ok_fold: "(\<And>x d. calls_ok self (f x d) = calls_ok self d) \<Longrightarrow> calls_ok self (fold f xs d) = calls_ok self d"
  by (induction xs arbitrary: d) auto

lemma calls_ok_tables:
  "calls_ok self d \<Longrightarrow> bm_ok m1 \<Longrightarrow> calls_ok self (d\<lparr>pending_get_closest_peers := m1\<rparr>)"
  "calls_ok self d \<Longrightarrow> bm_ok m2 \<Longrightarrow> calls_ok self (d\<lparr>pending_requests := m2\<rparr>)"
  "calls_ok self d \<Longrightarrow> bm_ok m3 \<Longrightarrow> calls_ok self (d\<lparr>pending_get_record := m3\<rparr>)"
  "calls_ok self d \<Longrightarrow> bm_ok (pending_get_closest_peers d)" "calls_ok self d \<Longrightarrow> bm_ok (pending_requests d)"
  "calls_ok self d \<Longrightarrow> bm_ok (pending_get_record d)"
  by (simp_all add: calls_ok_def)

lemma calls_ok_cmd: "calls_ok self d \<Longrightarrow> calls_ok self (fst (handle_cmd W I c d))"
proof (cases c)
  case (Dial a s')
  moreover assume "calls_ok self d"
  ultimately show ?thesis using calls_ok_kept(2) [of self I a d] by (auto split: prod.splits simp del: calls_ok_kept)
qed (auto simp: cmd_add_keys_def cmd_put_local_record_def cmd_put_record_def cmd_send_request_def cmd_send_response_def Let_def
    bm_ok_insert calls_ok_tables split: prod.splits sum.splits msg_responder.splits option.splits)

lemma calls_ok_swarm: "calls_ok self d \<Longrightarrow> calls_ok self (fst (handle_swarm_events W I e d))"
proof (cases e)
  case (MsgReceived m)
  then show "calls_ok self d \<Longrightarrow> ?thesis"
    by (cases m) (auto simp: Let_def bm_ok_remove calls_ok_tables split: option.splits)
next
  case (Kademlia k)
  then show "calls_ok self d \<Longrightarrow> ?thesis"
    by (cases k) (auto simp: kad_get_closest_ok_def accumulate_get_record_ok_def kad_finished_def kad_get_record_err_def kad_routing_updated_def
        Let_def bm_ok_remove bm_ok_insert calls_ok_tables split: option.splits list.splits)
next
  case (MdnsDiscovered ps)
  then show "calls_ok self d \<Longrightarrow> ?thesis" by (auto simp: mdns_discovered_def case_prod_beta calls_ok_fold)
next
  case (IdentifyReceived p info)
  then show "calls_ok self d \<Longrightarrow> ?thesis" by (auto simp: identify_received_def Let_def calls_ok_fold)
qed (auto simp: new_listen_addr_def connection_established_def outgoing_connection_error_def Let_def split: option.splits)

interpretation calls: accounted_system "driver_step W" "awaits s" "calls_ok self" "uses s" "input_uses self s"
proof
  show "calls_ok self (driver_step W i d)" if "calls_ok self d" for i d
    using that by (cases "snd i") (simp_all add: driver_step_def calls_ok_cmd calls_ok_swarm)
qed (rule uses_step)

text \<open>The call a final event of a query or a request ends.\<close>

fun ended_call :: "('d, 's) driver \<Rightarrow> ('d, 's) swarm_event \<Rightarrow> sender option" where
  "ended_call d (Kademlia (FinishedWithNoAdditionalRecord q)) = map_option fst (bm_get (pending_get_record d) q)"
| "ended_call d (Kademlia (GetRecordErr q)) = map_option fst (bm_get (pending_get_record d) q)"
| "ended_call d (Kademlia (GetClosestPeersOk q peers last_step)) =
     (if last_step then map_option fst (bm_get (pending_get_closest_peers d) q) else None)"
| "ended_call d (MsgReceived (ResponseMsg rid resp)) = Option.bind (bm_get (pending_requests d) rid) id"
| "ended_call d (MsgReceived (OutboundFailure rid err)) = Option.bind (bm_get (pending_requests d) rid) id"
| "ended_call d _ = None"

lemma ended_call_replied:
  assumes "ended_call d e = Some s" and "receiver_alive I s"
  shows "replied s (driver_step W (I, Inr e) d) = Suc (replied s d)"
  using assms by (induction d e rule: ended_call.induct)
    (auto simp: driver_step_def kad_finished_def kad_get_record_err_def kad_get_closest_ok_def Let_def replied_def oneshot_send_def emit_def
      bind_eq_Some_conv split: option.splits list.splits if_splits)

section \<open>Lemmas on calls\<close>

definition settle :: "nat list \<Rightarrow> ('d, 's) driver \<Rightarrow> ('d, 's) driver" where
  "settle order d = d\<lparr>store := run_schedule order (store d)\<rparr>"

lemma reply_to_own: "reply_to s [Reply s r] = Some r"
  by (simp add: reply_to_def List.map_filter_def)

text \<open>A command answered at once, with the caller waiting and room in the channel.\<close>

lemma ask_answered:
  assumes "capacity > 0" and "receiver_alive I s" and "fst (handle_cmd W I (cmd s) d) = oneshot_send I s r d"
  shows "ask e payload capacity W I cmd s d = (ok_or e (payload r), emit (Reply s r) d)"
  using assms by (simp add: ask_def send_swarm_cmd_def oneshot_send_def emit_def Let_def reply_to_own)

lemma local_reads:
  assumes "capacity > 0" and "receiver_alive I s"
  shows "get_local_record capacity W I k s d = (Inr (rs_get (store d) k), emit (Reply s (LocalRecordReply (rs_get (store d) k))) d)"
    and "is_key_present_locally capacity W I k s d = (Inr (rs_contains (store d) k), emit (Reply s (BoolReply (rs_contains (store d) k))) d)"
    and "get_all_local_record_addresses capacity W I s d =
      (Inr (record_addresses (store d)), emit (Reply s (AddressesReply (record_addresses (store d)))) d)"
    and "get_our_close_group capacity W I s d = (Inr (close_group d), emit (Reply s (PeersReply (close_group d))) d)"
  unfolding get_local_record_def is_key_present_locally_def get_all_local_record_addresses_def get_our_close_group_def
  by (subst ask_answered [OF assms], simp, simp)+

lemma put_local_record_store:
  assumes "capacity > 0" and "put_local_record capacity W I r d = (res, d')"
  shows "res = Inr ()" and "store d' = (case put_verified W (store_iter I) (store d) r of Inl _ \<Rightarrow> store d | Inr st \<Rightarrow> st)"
  using assms by (auto simp: put_local_record_def tell_def send_swarm_cmd_def cmd_put_local_record_def send_event_def emit_def Let_def
      split: sum.splits prod.splits if_splits)

text \<open>A record the store takes is in it, and read from it when the spawned tasks have run.\<close>

lemma put_local_record_read:
  assumes "distance_law W" and "store_ok (store d)" and "iterates (store_iter I) (store d)" and "bm_ok (disk (store d))"
    and "\<forall>t \<in> set (tasks (store d)). task_file t \<noteq> key_to_hex (rec_key r)"
    and "c > 0" and "put_local_record c W I r d = (res, d1)" and "put_verified W (store_iter I) (store d) r = Inr st"
    and "tasks (run_schedule order (store d1)) = []"
  shows "rs_get (run_schedule order (store d1)) (rec_key r) =
      Some \<lparr>rec_key = rec_key r, rec_value = rec_value r, rec_publisher = None, rec_expires = None\<rparr>"
    and "rec_key r \<in> set (records (store d1))"
proof -
  have "store d1 = st" using put_local_record_store [OF assms(6,7)] assms(8) by simp
  with put_verified_settles [OF assms(1-5,8)] settled_get [of "rec_key r" "rec_value r" st order] assms(9)
  show "rs_get (run_schedule order (store d1)) (rec_key r) =
      Some \<lparr>rec_key = rec_key r, rec_value = rec_value r, rec_publisher = None, rec_expires = None\<rparr>"
    and "rec_key r \<in> set (records (store d1))" by simp_all
qed

section \<open>Properties\<close>

text \<open>Each reply has the type of the channel it is sent on.\<close>

lemma replies_typed:
  fixes W :: "('d, 's) wire_env"
  assumes "list_all (input_typed \<tau>) tr" and "Reply s r \<in> set (outbox (driver_run W tr (driver_new self st f loc client cap)))"
  shows "kind_of r = \<tau> s"
proof -
  let ?d = "driver_new self st f loc client cap :: ('d, 's) driver"
  have "driver_typed \<tau> ?d" by (simp add: driver_typed_def driver_new_def)
  from typed_run [OF assms(1) this] assms(2) show ?thesis by (fastforce simp: driver_typed_def action_typed_def)
qed

text \<open>C13: No call is forgotten. In every run of a new driver, whatever it is asked and whatever happens on
  the network, the replies it has sent on a channel and the pending queries and requests in
  which it keeps the channel are together exactly as many as the commands that handed it the
  channel: every call is answered once or still pending, none is dropped and none answered twice.
  And the last event of a query for a record (finished or failed), of a query for the closest
  peers, or of a request (response or failure) answers the call it belongs to. (The caller keeps
  waiting, and libp2p's ids of new queries and requests are not among the pending ones. A request
  to the node itself is not counted: it is passed on together with its channel. For a query for the closest peers
  the driver has no event that reports failure; such a call stays pending.)\<close>

theorem no_call_forgotten:
  fixes W :: "('d, 's) wire_env"
  assumes "guarded (awaits s) (driver_step W) tr (driver_new self st f loc client cap)"
    and "d = driver_run W tr (driver_new self st f loc client cap)"
  shows "replied s d + waiting s d = sum_list (map (input_uses self s) tr) \<and>
    (ended_call d e = Some s \<and> receiver_alive I s \<longrightarrow> replied s (driver_step W (I, Inr e) d) = Suc (replied s d))"
proof -
  let ?d = "driver_new self st f loc client cap :: ('d, 's) driver"
  have new: "calls_ok self ?d" "uses s ?d = 0" by (simp_all add: calls_ok_def uses_def replied_def waiting_def driver_new_def)
  from calls.run_level [OF new(1) assms(1)] have "uses s d = sum_list (map (input_uses self s) tr)"
    by (simp add: new(2) assms(2) driver_run_def)
  then show ?thesis using ended_call_replied [of d e s I W] by (simp add: uses_def)
qed

theorem no_call_forgotten_witness:
  "\<exists>d :: ((bytes list \<times> bytes) btree_set, bytes) driver. replied 3 d + waiting 3 d = 2 \<and>
    replied 3 (driver_step demo_wire (demo_in, Inr (Kademlia (GetRecordErr 1))) d) = 2"
proof -
  let ?tr = "[(demo_in, Inl (GetLocalRecord [1] 3)), (demo_in, Inl (GetNetworkRecord [5] 3))] :: ((bytes list \<times> bytes) btree_set, bytes) driver_input list"
  let ?d = "driver_run demo_wire ?tr (driver_new [0] demo_store fetcher_new False False 5)"
  have "guarded (awaits 3) (driver_step demo_wire) ?tr (driver_new [0] demo_store fetcher_new False False 5)"
    by (simp add: awaits_def driver_new_def driver_step_def demo_in_def oneshot_send_def emit_def)
  note calls = no_call_forgotten [OF this refl, of "Kademlia (GetRecordErr 1)" demo_in]
  have "ended_call ?d (Kademlia (GetRecordErr 1)) = Some 3" "receiver_alive demo_in 3" "replied 3 ?d = 1"
    by (simp_all add: driver_run_def driver_new_def driver_step_def demo_in_def oneshot_send_def emit_def replied_def)
  with calls show ?thesis by (intro exI [of _ ?d]) (simp add: input_uses_def)
qed

text \<open>C29: A record the node puts into its store while no task for its file is still pending (a removal spawned
  earlier may otherwise delete it again) is what it reads back, once all
  spawned tasks have run, in whatever order, unless the store is full and holds no record further
  away than the new one: then the store is left as it was. Either way \<open>put_local_record\<close> returns
  \<open>Ok\<close>. (The store is well formed and its keys are iterated over completely, distances are symmetric, and
  the command channel has room.)\<close>

theorem local_record_roundtrip:
  assumes "distance_law W" and "store_ok (store d)" and "iterates (store_iter I) (store d)" and "bm_ok (disk (store d))"
    and "\<forall>t \<in> set (tasks (store d)). task_file t \<noteq> key_to_hex (rec_key r)"
    and "c > 0" and "put_local_record c W I r d = (res, d1)" and "tasks (run_schedule order (store d1)) = []"
    and "c' > 0" and "receiver_alive I' s"
  shows "res = Inr () \<and>
    (if length (records (store d)) = max_records (config (store d)) \<and>
        (\<forall>k \<in> set (records (store d)). key_distance W (store d) k \<le> key_distance W (store d) (rec_key r))
     then store d1 = store d
     else fst (get_local_record c' W I' (rec_key r) s (settle order d1)) =
            Inr (Some \<lparr>rec_key = rec_key r, rec_value = rec_value r, rec_publisher = None, rec_expires = None\<rparr>) \<and>
          fst (is_key_present_locally c' W I' (rec_key r) s (settle order d1)) = Inr True \<and>
          (\<exists>as. fst (get_all_local_record_addresses c' W I' s (settle order d1)) = Inr as \<and> from_record_key (rec_key r) \<in> set as))"
proof -
  note put = put_local_record_store [OF assms(6,7)]
  show ?thesis
  proof (cases "put_verified W (store_iter I) (store d) r")
    case (Inl err)
    from assms(3,2,1) have "length (records (store d)) = max_records (config (store d)) \<and>
        (\<forall>k \<in> set (records (store d)). key_distance W (store d) k \<le> key_distance W (store d) (rec_key r))"
      by (rule put_verified_cases [where r = r]) (use Inl in auto)
    with put Inl show ?thesis by simp
  next
    case (Inr st)
    from assms(3,2,1) have room: "\<not> (length (records (store d)) = max_records (config (store d)) \<and>
        (\<forall>k \<in> set (records (store d)). key_distance W (store d) k \<le> key_distance W (store d) (rec_key r)))"
      by (rule put_verified_cases [where r = r]) (use Inr in \<open>auto simp: not_le\<close>)
    with put(1) put_local_record_read [OF assms(1-7) Inr assms(8)] show ?thesis
      by (simp only: local_reads [OF assms(9,10)] if_False) (auto simp: settle_def rs_contains_def record_addresses_def)
  qed
qed

theorem local_record_roundtrip_witness:
  "\<exists>d1. put_local_record 1 demo_wire demo_in (demo_record 7) demo_driver = (Inr (), d1) \<and>
    fst (get_local_record 1 demo_wire demo_in [5] 3 (settle [1, 0] d1)) = Inr (Some (demo_record 7))"
proof -
  obtain res d1 where put: "put_local_record 1 demo_wire demo_in (demo_record 7) demo_driver = (res, d1)" by fastforce
  have st: "store demo_driver = demo_store" "store_iter demo_in = [[9], [1]]" "receiver_alive demo_in 3"
    by (simp_all add: demo_driver_def driver_new_def demo_in_def)
  have "put_verified demo_wire [[9], [1]] demo_store (demo_record 7) =
     Inr (demo_store\<lparr>records := [[1], [5]], tasks := [RemoveTask (key_to_hex [9]), WriteTask (key_to_hex [5]) [7]]\<rparr>)"
    by (simp add: put_verified_def prune_storage_if_needed_for_record_def demo_store_def with_config_def demo_record_def
        default_config_def demo_wire_def key_distance_def Let_def remove_record_def bs_insert_def insort_insert_key_def)
  with put_local_record_store [OF _ put] st
  have tasks: "tasks (run_schedule [1, 0] (store d1)) = []" by (simp add: run_schedule_def run_task_def)
  have "bm_ok (disk demo_store)" "\<not> key_distance demo_wire demo_store [9] \<le> key_distance demo_wire demo_store [5]" "[9] \<in> set (records demo_store)"
    by (simp_all add: demo_store_def with_config_def key_distance_def demo_wire_def)
  then show ?thesis
    using local_record_roundtrip [OF demo_wire_laws(3) _ _ _ _ _ put tasks, of 1 demo_in 3] put demo_store_ok st
    by (auto simp: demo_record_def split: if_splits)
qed

end
