(* ===== verification/Swarm_Start.thy ===== *)
theory Swarm_Start
  imports Network_Handle Wallet_Disk
begin

text \<open>
  How sn_networking builds a swarm (\<open>SwarmDriver::new\<close>, \<open>new_client\<close> and \<open>with\<close> in \<open>lib.rs\<close>) and runs
  it (\<open>SwarmDriver::run\<close>). What libp2p is given is the record \<open>swarm_config\<close>: the settings of the
  behaviours and the transport. libp2p's defaults, the noise handshake's key and mDNS belong to
  \<open>swarm_env\<close>. A record store starts empty, whatever files an earlier run left behind.
\<close>

section \<open>Configuration\<close>

text \<open>Durations are in seconds.\<close>

record kad_config =
  kbucket_inserts_manual :: bool
  kad_replication_interval :: "nat option"
  kad_publication_interval :: "nat option"
  kad_max_packet_size :: nat
  kad_replication_factor :: nat
  kad_query_timeout :: nat
  kad_disjoint_query_paths :: bool
  kad_record_ttl :: "nat option"
  kad_provider_publication_interval :: "nat option"

datatype protocol_support = FullSupport | OutboundSupport

record autonat_config =
  boot_delay :: nat
  autonat_timeout :: nat
  throttle_server_period :: nat

record swarm_config =
  request_timeout :: nat
  connection_keep_alive :: nat
  req_res_protocol :: "string \<times> protocol_support"
  kademlia_cfg :: kad_config
  identify_protocol :: string
  agent_version :: string
  mdns_query_interval :: "nat option"
  global_only :: bool
  autonat :: "autonat_config option"
  listening :: "multiaddr option"

record swarm_env =
  kad_default :: kad_config
  keypair_peer_id :: "bytes \<Rightarrow> peer_id"
  noise_config :: "bytes \<Rightarrow> bool"
  mdns_feature :: bool
  mdns_behaviour :: "peer_id \<Rightarrow> string + unit"
  listen_on :: "multiaddr \<Rightarrow> string + unit"
  pkg_version :: string
  sw_temp_dir :: path
  sw_faults :: io_faults

definition MAX_PACKET_SIZE :: nat where
  "MAX_PACKET_SIZE = 1024 * 1024 * 2"

definition REQUEST_TIMEOUT_DEFAULT_S :: nat where
  "REQUEST_TIMEOUT_DEFAULT_S = 30"

definition CONNECTION_KEEP_ALIVE_TIMEOUT :: nat where
  "CONNECTION_KEEP_ALIVE_TIMEOUT = 30"

definition SN_NODE_VERSION_STR :: "swarm_env \<Rightarrow> string" where
  "SN_NODE_VERSION_STR E = ''safe/node/'' @ pkg_version E"

definition REQ_RESPONSE_VERSION_STR :: "swarm_env \<Rightarrow> string" where
  "REQ_RESPONSE_VERSION_STR E = ''/safe/node/'' @ pkg_version E"

definition IDENTIFY_CLIENT_VERSION_STR :: "swarm_env \<Rightarrow> string" where
  "IDENTIFY_CLIENT_VERSION_STR E = ''safe/client/'' @ pkg_version E"

definition IDENTIFY_PROTOCOL_STR :: "swarm_env \<Rightarrow> string" where
  "IDENTIFY_PROTOCOL_STR E = ''safe/'' @ pkg_version E"

section \<open>Building\<close>

definition show_path :: "path \<Rightarrow> string" where
  "show_path p = concat (map (\<lambda>c. CHR ''/'' # c) p)"

text \<open>
  The last result is the file system with the store's directory. \<open>expect\<close> on the noise
  configuration panics.
\<close>

definition swarm_with :: "swarm_env \<Rightarrow> path \<Rightarrow> bytes \<Rightarrow> kad_config \<Rightarrow> bool \<Rightarrow> bool \<Rightarrow> nat \<Rightarrow> nat option \<Rightarrow> protocol_support \<Rightarrow> string
    \<Rightarrow> file_system \<Rightarrow> net_error failure + (network \<times> ('d, 's) driver \<times> swarm_config) \<times> file_system" where
  "swarm_with E root_dir kp kad_cfg loc client interval request_response_timeout support identify_version fs =
     (let peer = keypair_peer_id E kp;
          storage_dir_path = root_dir @ [''record_store'']
      in case fs_create_dir_all (sw_faults E) storage_dir_path fs of
           Inl error \<Rightarrow> Inl (Err (FailedToCreateRecordStoreDir (show_path storage_dir_path)
             (case error of IoErr e \<Rightarrow> e | _ \<Rightarrow> [])))
         | Inr fs \<Rightarrow>
             let store_cfg = (default_config interval (show_path (sw_temp_dir E)))
                   \<lparr>max_value_bytes := MAX_PACKET_SIZE, storage_dir := show_path storage_dir_path, replication_interval := interval\<rparr>
             in bind_result (if mdns_feature E then map_err (Err \<circ> NetIo) (mdns_behaviour E peer) else Inr ()) (\<lambda>_.
                if \<not> noise_config E kp then Inl Panic
                else Inr ((\<lparr>nw_peer_id = peer, root_dir_path = root_dir, keypair = kp\<rparr>,
                   driver_new peer (with_config peer store_cfg True) fetcher_new loc client 63,
                   \<lparr>request_timeout = (case request_response_timeout of Some t \<Rightarrow> t | None \<Rightarrow> REQUEST_TIMEOUT_DEFAULT_S),
                    connection_keep_alive = CONNECTION_KEEP_ALIVE_TIMEOUT,
                    req_res_protocol = (REQ_RESPONSE_VERSION_STR E, support),
                    kademlia_cfg = kad_cfg,
                    identify_protocol = IDENTIFY_PROTOCOL_STR E,
                    agent_version = identify_version,
                    mdns_query_interval = (if mdns_feature E then Some 5 else None),
                    global_only = (\<not> loc),
                    autonat = (if \<not> loc \<and> \<not> client
                      then Some \<lparr>boot_delay = 3, autonat_timeout = 301, throttle_server_period = 15\<rparr> else None),
                    listening = None\<rparr>), fs)))"

datatype ip_addr = V4 ipv4 | V6 string

type_synonym socket_addr = "ip_addr \<times> 16 word"

fun multiaddr_of_ip :: "ip_addr \<Rightarrow> multiaddr" where
  "multiaddr_of_ip (V4 a) = [Ip4 a]"
| "multiaddr_of_ip (V6 a) = [OtherProtocol a]"

definition replication_factor_ok :: "net_error failure + unit" where
  "replication_factor_ok = (if CLOSE_GROUP_SIZE = 0 then Inl (Err InvalidCloseGroupSize) else Inr ())"

definition swarm_new :: "swarm_env \<Rightarrow> nat \<Rightarrow> bytes \<Rightarrow> socket_addr \<Rightarrow> bool \<Rightarrow> path \<Rightarrow> file_system
    \<Rightarrow> net_error failure + (network \<times> ('d, 's) driver \<times> swarm_config) \<times> file_system" where
  "swarm_new E interval kp addr loc root_dir fs =
     bind_result replication_factor_ok (\<lambda>_.
     bind_result (swarm_with E root_dir kp
       ((kad_default E)\<lparr>kbucket_inserts_manual := True, kad_replication_interval := None, kad_publication_interval := None,
          kad_max_packet_size := MAX_PACKET_SIZE, kad_replication_factor := CLOSE_GROUP_SIZE, kad_query_timeout := 5 * 60,
          kad_disjoint_query_paths := True, kad_record_ttl := None, kad_provider_publication_interval := None\<rparr>)
       loc False interval None FullSupport (SN_NODE_VERSION_STR E) fs) (\<lambda>((nw, d, cfg), fs).
     let a = multiaddr_of_ip (fst addr) @ [Tcp (snd addr)]
     in if \<not> is_ok (listen_on E a) then Inl Panic else Inr ((nw, d, cfg\<lparr>listening := Some a\<rparr>), fs)))"

text \<open>\<open>kp\<close> is the key pair generated for the client.\<close>

definition swarm_new_client :: "swarm_env \<Rightarrow> bytes \<Rightarrow> bool \<Rightarrow> nat option \<Rightarrow> file_system
    \<Rightarrow> net_error failure + (network \<times> ('d, 's) driver \<times> swarm_config) \<times> file_system" where
  "swarm_new_client E kp loc timeout fs =
     bind_result replication_factor_ok (\<lambda>_.
       swarm_with E (sw_temp_dir E) kp
         ((kad_default E)\<lparr>kad_max_packet_size := MAX_PACKET_SIZE, kad_disjoint_query_paths := True,
            kad_replication_factor := CLOSE_GROUP_SIZE\<rparr>)
         loc True 1000 timeout OutboundSupport (IDENTIFY_CLIENT_VERSION_STR E) fs)"

section \<open>Running\<close>

text \<open>
  What wakes the loop: an input of the driver, or the command channel being closed, which the
  loop ignores. An error of a handler is only logged.
\<close>

fun swarm_run :: "('d, 's) wire_env \<Rightarrow> ('d, 's) driver_input option list \<Rightarrow> ('d, 's) driver \<Rightarrow> ('d, 's) driver" where
  "swarm_run W [] d = d"
| "swarm_run W (Some i # wakes) d = swarm_run W wakes (driver_step W i d)"
| "swarm_run W (None # wakes) d = swarm_run W wakes d"

text \<open>What holds of the outside at every step of a run.\<close>

fun wakes_ok :: "('d, 's) wire_env \<Rightarrow> ('d, 's) driver_input option list \<Rightarrow> ('d, 's) driver \<Rightarrow> bool" where
  "wakes_ok W [] d \<longleftrightarrow> True"
| "wakes_ok W (Some i # wakes) d \<longleftrightarrow> input_ok (fst i) d \<and> wakes_ok W wakes (driver_step W i d)"
| "wakes_ok W (None # wakes) d \<longleftrightarrow> wakes_ok W wakes d"

section \<open>Lemmas\<close>

lemma swarm_run_run: "swarm_run W wakes d = driver_run W (List.map_filter (\<lambda>x. x) wakes) d"
  by (induction W wakes d rule: swarm_run.induct) (simp_all add: driver_run_def map_filter_simps)

lemma wakes_ok_guarded:
  "wakes_ok W wakes d \<longleftrightarrow> guarded (\<lambda>i. input_ok (fst i)) (driver_step W) (List.map_filter (\<lambda>x. x) wakes) d"
  by (induction W wakes d rule: swarm_run.induct) (simp_all add: map_filter_simps)

interpretation reachable: invariant_system "driver_step W" "\<lambda>i. input_ok (fst i)" "driver_reach W"
  by unfold_locales (rule reach_step)

lemma swarm_run_reach: "driver_reach W d \<Longrightarrow> wakes_ok W wakes d \<Longrightarrow> driver_reach W (swarm_run W wakes d)"
  unfolding swarm_run_run driver_run_def wakes_ok_guarded by (rule reachable.run_inv)

text \<open>What no step of a driver changes.\<close>

definition fixed_parts :: "('d, 's) driver \<Rightarrow> peer_id \<times> store_config \<times> bytes" where
  "fixed_parts d = (self_peer_id d, config (store d), local_key (store d))"

lemma prune_config:
  "prune_storage_if_needed_for_record W iter s k = Inr s' \<Longrightarrow> config s' = config s \<and> local_key s' = local_key s"
  by (auto simp: prune_storage_if_needed_for_record_def remove_record_def Let_def split: if_splits)

lemma put_verified_config: "put_verified W iter s r = Inr s' \<Longrightarrow> config s' = config s \<and> local_key s' = local_key s"
  by (auto simp: put_verified_def dest: prune_config)

lemma check_config:
  "config (store (fst (check_for_change_in_our_close_group W I d))) = config (store d) \<and>
   local_key (store (fst (check_for_change_in_our_close_group W I d))) = local_key (store d)"
  by (auto simp: check_for_change_in_our_close_group_def update_record_distance_range_def set_distance_range_def Let_def
      split: sum.splits)

lemma driver_step_fixed: "fixed_parts (driver_step W i d) = fixed_parts d"
proof -
  from effect_step obtain f where "has_effect W (fst i) f d (driver_step W i d)" by blast
  then have "config (store (driver_step W i d)) = config (store d) \<and> local_key (store (driver_step W i d)) = local_key (store d)"
    by (cases f) (auto dest: put_verified_config simp: check_config)
  then show ?thesis by (simp add: fixed_parts_def)
qed

interpretation fixed: invariant_system "driver_step W" "\<lambda>_ _. True" "\<lambda>d. fixed_parts d = p"
  by unfold_locales (simp add: driver_step_fixed)

lemma swarm_run_fixed: "fixed_parts (swarm_run W wakes d) = fixed_parts d"
  unfolding swarm_run_run driver_run_def by (rule fixed.run_inv) simp_all

lemma swarm_with_driver:
  fixes d :: "('d, 's) driver"
  assumes "swarm_with E root kp kcfg loc client interval t support v fs = Inr ((nw, d, c), fs')"
  shows "driver_reach W d" and "nw_peer_id nw = keypair_peer_id E kp" and "root_dir_path nw = root" and "is_client d = client"
    and "fixed_parts d = (keypair_peer_id E kp, \<lparr>storage_dir = show_path (root @ [''record_store'']), max_records = MAX_RECORDS_COUNT,
      max_value_bytes = MAX_PACKET_SIZE, replication_interval = interval\<rparr>, keypair_peer_id E kp)"
    and "root @ [''record_store''] \<in> set (fs_dirs fs')"
proof -
  have "driver_reach W (driver_new p (with_config p (default_config i td
      \<lparr>max_value_bytes := m, storage_dir := sd, replication_interval := i2\<rparr>) True) f l cl cap)" for p i td m sd i2 f l cl cap
    by (rule reach_start) (simp add: store_ok_def bs_ok_def with_config_def default_config_def MAX_RECORDS_COUNT_def)
  with assms show "driver_reach W d"
    by (auto simp: swarm_with_def Let_def split: sum.splits if_splits)
  show "nw_peer_id nw = keypair_peer_id E kp" "root_dir_path nw = root" "is_client d = client"
    "fixed_parts d = (keypair_peer_id E kp, \<lparr>storage_dir = show_path (root @ [''record_store'']), max_records = MAX_RECORDS_COUNT,
      max_value_bytes = MAX_PACKET_SIZE, replication_interval = interval\<rparr>, keypair_peer_id E kp)"
    using assms by (auto simp: swarm_with_def Let_def fixed_parts_def driver_new_def with_config_def default_config_def
        split: sum.splits if_splits)
  have "p \<in> set (fs_dirs fs2)" if "fs_create_dir_all F p fs1 = Inr fs2" for F p fs1 fs2
  proof -
    have "length p \<in> {0..<Suc (length p)}" by simp
    with that show ?thesis by (auto simp: fs_create_dir_all_def split: option.splits if_splits intro: rev_image_eqI)
  qed
  with assms show "root @ [''record_store''] \<in> set (fs_dirs fs')"
    by (auto simp: swarm_with_def Let_def split: sum.splits if_splits)
qed

lemma swarm_new_with:
  assumes "swarm_new E interval kp addr loc root fs = Inr ((nw, d, cfg), fs')"
  obtains kcfg c where "swarm_with E root kp kcfg loc False interval None FullSupport (SN_NODE_VERSION_STR E) fs = Inr ((nw, d, c), fs')"
  using assms by (auto simp: swarm_new_def Let_def split: if_splits)

section \<open>Properties\<close>

text \<open>C7: However a node's swarm driver runs after it was built, and whatever it is woken by, it keeps
  the identity of the node's key pair, which the handle shows, and the configuration of its store;
  it never indexes more than 2048 records, each once, and its close group, once known, is eight
  distinct peers sorted by their distance to the node.\<close>

theorem running_driver_invariant:
  fixes d :: "('d, 's) driver"
  assumes "swarm_new E interval kp addr loc root fs = Inr ((nw, d, cfg), fs')" and "distance_law W" and "wakes_ok W wakes d"
    and "d' = swarm_run W wakes d"
  shows "self_peer_id d' = nw_peer_id nw \<and> nw_peer_id nw = keypair_peer_id E kp \<and>
    storage_dir (config (store d')) = show_path (root_dir_path nw @ [''record_store'']) \<and>
    max_value_bytes (config (store d')) = MAX_PACKET_SIZE \<and>
    distinct (records (store d')) \<and> length (records (store d')) \<le> 2048 \<and>
    (close_group d' \<noteq> [] \<longrightarrow> length (close_group d') = 8 \<and> distinct (close_group d') \<and> sorted (map (own_distance W d') (close_group d')))"
proof -
  obtain kcfg c where "swarm_with E root kp kcfg loc False interval None FullSupport (SN_NODE_VERSION_STR E) fs = Inr ((nw, d, c), fs')"
    by (rule swarm_new_with [OF assms(1)])
  note built = swarm_with_driver [OF this]
  have "driver_reach W d'" unfolding assms(4) by (rule swarm_run_reach [OF built(1) assms(3)])
  from reach_invariant [OF this assms(2)] have "store_ok (store d')" and "group_ok W d'" by auto
  moreover have "fixed_parts d' = fixed_parts d" unfolding assms(4) by (rule swarm_run_fixed)
  ultimately show ?thesis
    using built(2,3,5) by (auto simp: fixed_parts_def store_ok_def bs_ok_def group_ok_def MAX_RECORDS_COUNT_def CLOSE_GROUP_SIZE_def)
qed

definition demo_swarm_env :: swarm_env where
  "demo_swarm_env = \<lparr>kad_default = \<lparr>kbucket_inserts_manual = False, kad_replication_interval = Some 3600, kad_publication_interval = Some 86400,
       kad_max_packet_size = 16384, kad_replication_factor = 20, kad_query_timeout = 60, kad_disjoint_query_paths = False,
       kad_record_ttl = Some 129600, kad_provider_publication_interval = Some 43200\<rparr>,
     keypair_peer_id = (\<lambda>kp. kp), noise_config = (\<lambda>_. True), mdns_feature = False, mdns_behaviour = (\<lambda>_. Inr ()), listen_on = (\<lambda>_. Inr ()),
     pkg_version = ''0.1'', sw_temp_dir = [''tmp''], sw_faults = no_faults\<rparr>"

definition demo_fs :: file_system where
  "demo_fs = \<lparr>fs_files = [], fs_dirs = [[]]\<rparr>"

theorem running_driver_invariant_witness:
  "\<exists>nw (d :: ((bytes list \<times> bytes) btree_set, bytes) driver) cfg fs'.
     swarm_new demo_swarm_env 200 [0] (V4 (0, 0, 0, 0), 0) True [''node''] demo_fs = Inr ((nw, d, cfg), fs') \<and>
     length (records (store (swarm_run demo_wire [None, Some (demo_in\<lparr>store_iter := []\<rparr>, Inr (Kademlia (RoutingUpdated [3] True None)))] d))) \<le> 2048"
proof -
  have "\<exists>nw d cfg fs'. swarm_new demo_swarm_env 200 [0] (V4 (0, 0, 0, 0), 0) True [''node''] demo_fs =
      Inr ((nw, d :: ((bytes list \<times> bytes) btree_set, bytes) driver, cfg), fs') \<and> self_peer_id d = [0] \<and> records (store d) = []"
    by (simp add: swarm_new_def swarm_with_def replication_factor_ok_def demo_swarm_env_def demo_fs_def fs_create_dir_all_def
        fs_is_file_def Let_def CLOSE_GROUP_SIZE_def is_ok_def driver_new_def with_config_def)
  then obtain nw and d :: "((bytes list \<times> bytes) btree_set, bytes) driver" and cfg fs' where
    new: "swarm_new demo_swarm_env 200 [0] (V4 (0, 0, 0, 0), 0) True [''node''] demo_fs = Inr ((nw, d, cfg), fs')"
    and d: "self_peer_id d = [0]" "records (store d) = []" by blast
  have "input_ok (demo_in\<lparr>store_iter := []\<rparr>) d"
    using d by (simp add: input_ok_def iterates_def demo_in_def get_all_local_peers_def)
  then have "wakes_ok demo_wire [None, Some (demo_in\<lparr>store_iter := []\<rparr>, Inr (Kademlia (RoutingUpdated [3] True None)))] d" by simp
  from running_driver_invariant [OF new demo_wire_laws(3) this refl] new show ?thesis by blast
qed

end
