(* ===== verification/Peers.thy ===== *)
theory Peers
  imports Networking "HOL-Library.Char_ord"
begin

text \<open>
  sn_peers_acquisition: the addresses of peers given on the command line or in the environment.
  The parser of socket addresses of the standard library is written out; the parser of
  multiaddresses is libp2p's and an argument.
\<close>

section \<open>Socket addresses\<close>

definition is_digit :: "char \<Rightarrow> bool" where
  "is_digit c \<longleftrightarrow> 48 \<le> (of_char c :: nat) \<and> (of_char c :: nat) \<le> 57"

definition digit_value :: "char \<Rightarrow> nat" where
  "digit_value c = of_char c - 48"

definition decimal_value :: "string \<Rightarrow> nat" where
  "decimal_value ds = foldl (\<lambda>n c. 10 * n + digit_value c) 0 ds"

text \<open>
  \<open>read_number\<close>: the digits at the front as a number below \<open>bound\<close>; \<open>max_digits\<close> limits their
  count, and without \<open>allow_zero_prefix\<close> a longer number must not start with a zero.
\<close>

definition read_number :: "nat option \<Rightarrow> bool \<Rightarrow> nat \<Rightarrow> string \<Rightarrow> (nat \<times> string) option" where
  "read_number max_digits allow_zero_prefix bound s =
     (let ds = takeWhile is_digit s
      in if ds = [] \<or> (case max_digits of Some m \<Rightarrow> length ds > m | None \<Rightarrow> False) \<or>
            (\<not> allow_zero_prefix \<and> hd ds = CHR ''0'' \<and> length ds > 1) \<or> decimal_value ds \<ge> bound
         then None else Some (decimal_value ds, dropWhile is_digit s))"

definition read_given_char :: "char \<Rightarrow> string \<Rightarrow> string option" where
  "read_given_char c s = (case s of c' # rest \<Rightarrow> if c' = c then Some rest else None | [] \<Rightarrow> None)"

definition read_octet :: "string \<Rightarrow> (byte \<times> string) option" where
  "read_octet s = map_option (\<lambda>(n, rest). (word_of_nat n, rest)) (read_number (Some 3) False 256 s)"

definition read_ipv4_addr :: "string \<Rightarrow> (ipv4 \<times> string) option" where
  "read_ipv4_addr s =
     Option.bind (read_octet s) (\<lambda>(a, s). Option.bind (read_given_char CHR ''.'' s) (\<lambda>s.
     Option.bind (read_octet s) (\<lambda>(b, s). Option.bind (read_given_char CHR ''.'' s) (\<lambda>s.
     Option.bind (read_octet s) (\<lambda>(c, s). Option.bind (read_given_char CHR ''.'' s) (\<lambda>s.
     Option.bind (read_octet s) (\<lambda>(d, s). Some ((a, b, c, d), s))))))))"

definition socket_addr_v4_from_str :: "string \<Rightarrow> (ipv4 \<times> 16 word) option" where
  "socket_addr_v4_from_str s =
     Option.bind (read_ipv4_addr s) (\<lambda>(ip, s). Option.bind (read_given_char CHR '':'' s) (\<lambda>s.
     Option.bind (read_number None True 65536 s) (\<lambda>(port, s). if s = [] then Some (ip, word_of_nat port) else None)))"

section \<open>Peers\<close>

definition SAFE_PEERS_ENV :: string where
  "SAFE_PEERS_ENV = ''SAFE_PEERS''"

definition parse_peer_addr :: "(string \<Rightarrow> multiaddr option) \<Rightarrow> string \<Rightarrow> string + multiaddr" where
  "parse_peer_addr multiaddr_from_str addr =
     (case socket_addr_v4_from_str addr of
        Some (ip, port) \<Rightarrow> Inr [Ip4 ip, Tcp port]
      | None \<Rightarrow>
          (case multiaddr_from_str addr of
             Some a \<Rightarrow> Inr a
           | None \<Rightarrow> Inl ''invalid multiaddr or socket address''))"

section \<open>Printing\<close>

text \<open>\<open>Display\<close> of socket addresses.\<close>

fun decimal :: "nat \<Rightarrow> string" where
  "decimal n = (if n < 10 then [char_of (48 + n)] else decimal (n div 10) @ [char_of (48 + n mod 10)])"

declare decimal.simps [simp del]

fun show_ipv4 :: "ipv4 \<Rightarrow> string" where
  "show_ipv4 (a, b, c, d) = decimal (unat a) @ ''.'' @ decimal (unat b) @ ''.'' @ decimal (unat c) @ ''.'' @ decimal (unat d)"

definition show_socket_addr :: "ipv4 \<Rightarrow> 16 word \<Rightarrow> string" where
  "show_socket_addr ip port = show_ipv4 ip @ '':'' @ decimal (unat port)"

section \<open>Lemmas on decimal numbers\<close>

lemma digit_char: "k < 10 \<Longrightarrow> is_digit (char_of (48 + k)) \<and> digit_value (char_of (48 + k)) = k"
  by (simp add: is_digit_def digit_value_def)

lemma decimal_value_snoc: "decimal_value (ds @ [c]) = 10 * decimal_value ds + digit_value c"
  by (simp add: decimal_value_def)

lemma decimal_digits: "decimal n \<noteq> [] \<and> list_all is_digit (decimal n) \<and> decimal_value (decimal n) = n"
proof (induction n rule: less_induct)
  case (less n)
  show ?case
  proof (cases "n < 10")
    case True
    then show ?thesis using digit_char [of n] by (simp add: decimal.simps [of n] decimal_value_def)
  next
    case False
    then have "n div 10 < n" by simp
    from less.IH [OF this] False show ?thesis
      using digit_char [of "n mod 10"] by (simp add: decimal.simps [of n] decimal_value_snoc)
  qed
qed

lemma decimal_no_zero_prefix: "length (decimal n) > 1 \<Longrightarrow> hd (decimal n) \<noteq> CHR ''0''"
proof (induction n rule: less_induct)
  case (less n)
  show ?case
  proof (cases "n < 10")
    case True
    with less.prems show ?thesis by (simp add: decimal.simps [of n])
  next
    case False
    have "hd (decimal (n div 10)) \<noteq> CHR ''0''"
    proof (cases "n div 10 < 10")
      case True
      with False have k: "0 < n div 10" "n div 10 < 10" by simp_all
      then have "digit_value (char_of (48 + n div 10)) \<noteq> digit_value CHR ''0''" using digit_char by (simp add: digit_value_def)
      with True show ?thesis by (auto simp: decimal.simps [of "n div 10"])
    next
      case big: False
      then have "length (decimal (n div 10)) > 1"
        using decimal_digits [of "n div 10 div 10"] by (simp add: decimal.simps [of "n div 10"])
      with less.IH [of "n div 10"] False show ?thesis by simp
    qed
    with False decimal_digits [of "n div 10"] show ?thesis by (simp add: decimal.simps [of n] hd_append)
  qed
qed

lemma length_decimal: "n < 10 ^ Suc k \<Longrightarrow> length (decimal n) \<le> Suc k"
proof (induction k arbitrary: n)
  case 0
  then show ?case by (simp add: decimal.simps [of n])
next
  case (Suc k)
  then have "n div 10 < 10 ^ Suc k" by simp
  with Suc.IH [of "n div 10"] show ?case by (simp add: decimal.simps [of n])
qed

text \<open>A printed number followed by something that is not a digit is read back.\<close>

lemma read_number_decimal:
  assumes "n < bound" and "rest = [] \<or> \<not> is_digit (hd rest)" and "\<forall>m. max_digits = Some m \<longrightarrow> length (decimal n) \<le> m"
  shows "read_number max_digits allow_zero bound (decimal n @ rest) = Some (n, rest)"
proof -
  have digits: "list_all is_digit (decimal n)" "decimal n \<noteq> []" "decimal_value (decimal n) = n" using decimal_digits [of n] by auto
  have "takeWhile is_digit (decimal n @ rest) = decimal n" "dropWhile is_digit (decimal n @ rest) = rest"
    using digits(1) assms(2) by (cases rest; simp add: takeWhile_append2 dropWhile_append2 list_all_iff)+
  then show ?thesis
    using digits assms(1,3) decimal_no_zero_prefix [of n] by (auto simp: read_number_def Let_def split: option.splits)
qed

lemma read_octet_decimal: "rest = [] \<or> \<not> is_digit (hd rest) \<Longrightarrow> read_octet (decimal (unat b) @ rest) = Some (b, rest)"
proof -
  assume r: "rest = [] \<or> \<not> is_digit (hd rest)"
  have b: "unat b < 2 ^ LENGTH(8)" by (rule unsigned_less)
  then have "length (decimal (unat b)) \<le> Suc 2" by (intro length_decimal) simp
  with b read_number_decimal [of "unat b" 256 rest "Some 3" False] r show ?thesis by (simp add: read_octet_def)
qed

lemma socket_addr_v4_show: "socket_addr_v4_from_str (show_socket_addr ip port) = Some (ip, port)"
proof -
  obtain a b c d where ip: "ip = (a, b, c, d)" by (cases ip)
  have sep: "\<not> is_digit CHR ''.''" "\<not> is_digit CHR '':''" by (simp_all add: is_digit_def)
  have "unat port < 2 ^ LENGTH(16)" by (rule unsigned_less)
  then have "read_number None True 65536 (decimal (unat port)) = Some (unat port, [])"
    using read_number_decimal [of "unat port" 65536 "[]" None True] by simp
  then show ?thesis
    by (simp add: socket_addr_v4_from_str_def show_socket_addr_def ip read_ipv4_addr_def read_octet_decimal read_given_char_def sep)
qed

section \<open>Properties\<close>

text \<open>Every IPv4 address and port, written the usual way, is parsed as the multiaddress of that
  address and that TCP port, whatever the parser of multiaddresses accepts.\<close>

theorem socket_addr_roundtrip:
  "parse_peer_addr multiaddr_from_str (show_socket_addr ip port) = Inr [Ip4 ip, Tcp port]"
  by (simp add: parse_peer_addr_def socket_addr_v4_show)

end
