(* ===== verification/Logging.thy ===== *)
theory Logging
  imports Wallet_Disk
begin

text \<open>
  sn_logging: what is logged, where and in which format. The layers themselves (formatting,
  rotation of the files) belong to tracing; \<open>init_logging\<close> gives the layer it would install:
  the destination, the format and the filter of targets with their levels.
\<close>

section \<open>Data\<close>

datatype log_output_dest = LogStdout | LogPath path

datatype log_format = LogDefault | LogJson

datatype level = TRACE | DEBUG | INFO | WARN | ERROR

datatype logging_error = LoggingConfigurationError string | LoggingIo wallet_error

definition parse_log_format :: "string \<Rightarrow> logging_error + log_format" where
  "parse_log_format val =
     (if val = ''default'' then Inr LogDefault
      else if val = ''json'' then Inr LogJson
      else Inl (LoggingConfigurationError ''The only valid values for this argument are default or json''))"

section \<open>Targets\<close>

text \<open>\<open>str::split\<close> on a character: one part more than there are separators.\<close>

fun split_on :: "char \<Rightarrow> string \<Rightarrow> string list" where
  "split_on c [] = [[]]"
| "split_on c (x # xs) =
     (if x = c then [] # split_on c xs
      else case split_on c xs of p # ps \<Rightarrow> (x # p) # ps | [] \<Rightarrow> [[x]])"

definition ascii_lower :: "char \<Rightarrow> char" where
  "ascii_lower c = (if 65 \<le> (of_char c :: nat) \<and> (of_char c :: nat) \<le> 90 then char_of ((of_char c :: nat) + 32) else c)"

definition ALL_SN_LOGS :: string where
  "ALL_SN_LOGS = ''all''"

definition get_log_level_from_str :: "string \<Rightarrow> logging_error + level" where
  "get_log_level_from_str log_level =
     (let l = map ascii_lower log_level
      in if l = ''info'' then Inr INFO
         else if l = ''debug'' then Inr DEBUG
         else if l = ''trace'' then Inr TRACE
         else if l = ''warn'' then Inr WARN
         else if l = ''error'' then Inr WARN
         else Inl (LoggingConfigurationError (''Log level '' @ log_level @ '' is not supported'')))"

definition all_targets :: "(string \<times> level) list" where
  "all_targets = map (\<lambda>n. (n, TRACE)) [''safenode'', ''safe'', ''sn_build_info'', ''sn_cli'', ''sn_client'', ''sn_logging'', ''sn_networking'',
     ''sn_node'', ''sn_peers_acquisition'', ''sn_protocol'', ''sn_registers'', ''sn_testnet'', ''sn_transfers'']"

fun targets_loop :: "string list \<Rightarrow> (string \<times> level) list \<Rightarrow> logging_error + (string \<times> level) list" where
  "targets_loop [] targets = Inr targets"
| "targets_loop (c # crates) targets =
     (if c = ALL_SN_LOGS then Inr all_targets
      else case split_on CHR ''='' c of
             [] \<Rightarrow> Inl (LoggingConfigurationError ''Could not obtain crate name in logging string'')
           | crate_name # rest \<Rightarrow>
               bind_result (get_log_level_from_str (case rest of log_level # _ \<Rightarrow> log_level | [] \<Rightarrow> ''trace'')) (\<lambda>l.
                 targets_loop crates (targets @ [(crate_name, l)])))"

definition get_logging_targets :: "string \<Rightarrow> logging_error + (string \<times> level) list" where
  "get_logging_targets logging_env_value = targets_loop (split_on CHR '','' logging_env_value) []"

section \<open>Layers\<close>

record layer =
  layer_dest :: log_output_dest
  layer_format :: log_format
  layer_targets :: "(string \<times> level) list"

text \<open>\<open>sn_log\<close> is the value of \<open>SN_LOG\<close>, if set. A log directory is created; standard output ignores the format.\<close>

definition fmt_layer :: "io_faults \<Rightarrow> string option \<Rightarrow> (string \<times> level) list \<Rightarrow> log_output_dest \<Rightarrow> log_format \<Rightarrow> file_system
    \<Rightarrow> logging_error + layer \<times> file_system" where
  "fmt_layer F sn_log default_logging_targets output_dest format fs =
     bind_result (case output_dest of
         LogStdout \<Rightarrow> Inr (LogDefault, fs)
       | LogPath p \<Rightarrow> bind_result (map_err LoggingIo (fs_create_dir_all F p fs)) (\<lambda>fs. Inr (format, fs))) (\<lambda>(fmt, fs).
     bind_result (case sn_log of Some v \<Rightarrow> get_logging_targets v | None \<Rightarrow> Inr default_logging_targets) (\<lambda>targets.
       Inr (\<lparr>layer_dest = output_dest, layer_format = fmt, layer_targets = targets\<rparr>, fs)))"

text \<open>The result is the guard of the file writer, present when logging to a directory.\<close>

definition init_logging :: "io_faults \<Rightarrow> string option \<Rightarrow> (string \<times> level) list \<Rightarrow> log_output_dest \<Rightarrow> log_format \<Rightarrow> file_system
    \<Rightarrow> logging_error + (bool \<times> layer) \<times> file_system" where
  "init_logging F sn_log default_logging_targets output_dest format fs =
     bind_result (fmt_layer F sn_log default_logging_targets output_dest format fs) (\<lambda>(l, fs).
       Inr ((case output_dest of LogPath _ \<Rightarrow> True | LogStdout \<Rightarrow> False, l), fs))"

section \<open>Lemmas\<close>

lemma split_on_plain: "c \<notin> set s \<Longrightarrow> split_on c s = [s]"
  by (induction s) auto

lemma split_on_append: "c \<notin> set s \<Longrightarrow> split_on c (s @ c # t) = s # split_on c t"
  by (induction s) auto

fun show_level :: "level \<Rightarrow> string" where
  "show_level TRACE = ''trace''" | "show_level DEBUG = ''debug''" | "show_level INFO = ''info''"
| "show_level WARN = ''warn''" | "show_level ERROR = ''error''"

text \<open>A list of targets the way it is written in \<open>SN_LOG\<close>.\<close>

fun show_targets :: "(string \<times> level) list \<Rightarrow> string" where
  "show_targets [] = []"
| "show_targets [(n, l)] = n @ ''='' @ show_level l"
| "show_targets ((n, l) # ts) = n @ ''='' @ show_level l @ '','' @ show_targets ts"

lemma parse_level: "get_log_level_from_str (show_level l) = Inr (if l = ERROR then WARN else l)"
  by (cases l) (simp_all add: get_log_level_from_str_def ascii_lower_def Let_def)

definition crate_name_ok :: "string \<Rightarrow> bool" where
  "crate_name_ok n \<longleftrightarrow> CHR '','' \<notin> set n \<and> CHR ''='' \<notin> set n"

lemma target_part:
  assumes "crate_name_ok n"
  shows "split_on CHR ''='' (n @ ''='' @ show_level l) = [n, show_level l]" and "CHR '','' \<notin> set (n @ ''='' @ show_level l)"
    and "n @ ''='' @ show_level l \<noteq> ALL_SN_LOGS"
proof -
  have "CHR ''='' \<notin> set (show_level l)" "CHR '','' \<notin> set (show_level l)" by (cases l; simp)+
  then show "split_on CHR ''='' (n @ ''='' @ show_level l) = [n, show_level l]" "CHR '','' \<notin> set (n @ ''='' @ show_level l)"
    using assms by (simp_all add: crate_name_ok_def split_on_append split_on_plain)
  have "CHR ''='' \<in> set (n @ ''='' @ show_level l)" "CHR ''='' \<notin> set ALL_SN_LOGS" by (simp_all add: ALL_SN_LOGS_def)
  then show "n @ ''='' @ show_level l \<noteq> ALL_SN_LOGS" by metis
qed

lemma targets_loop_shown:
  "list_all (crate_name_ok \<circ> fst) ts \<Longrightarrow>
    targets_loop (map (\<lambda>(n, l). n @ ''='' @ show_level l) ts) acc = Inr (acc @ map (\<lambda>(n, l). (n, if l = ERROR then WARN else l)) ts)"
proof (induction ts arbitrary: acc)
  case (Cons t ts)
  obtain n l where t: "t = (n, l)" by (cases t)
  with Cons.prems have "crate_name_ok n" by simp
  from target_part [OF this, of l] Cons t show ?case by (simp add: parse_level)
qed simp

lemma split_shown:
  "list_all (crate_name_ok \<circ> fst) ts \<Longrightarrow> ts \<noteq> [] \<Longrightarrow> split_on CHR '','' (show_targets ts) = map (\<lambda>(n, l). n @ ''='' @ show_level l) ts"
proof (induction ts rule: show_targets.induct)
  case (2 n l)
  with target_part [of n l] show ?case by (simp add: split_on_plain)
next
  case (3 n l t ts)
  then have "crate_name_ok n" by simp
  from target_part(2) [OF this, of l] 3 split_on_append [of "CHR '',''" "n @ ''='' @ show_level l"] show ?case by simp
qed simp

section \<open>Properties\<close>

text \<open>A list of crates with their levels, written as \<open>SN_LOG\<close> expects it, is what \<open>get_logging_targets\<close>
  reads back, in the same order -- except that \<open>error\<close> is taken as the level \<open>WARN\<close>.\<close>

theorem logging_targets_roundtrip:
  assumes "list_all (crate_name_ok \<circ> fst) ts" and "ts \<noteq> []"
  shows "get_logging_targets (show_targets ts) = Inr (map (\<lambda>(n, l). (n, if l = ERROR then WARN else l)) ts)"
  unfolding get_logging_targets_def split_shown [OF assms] targets_loop_shown [OF assms(1)] append_Nil by (rule refl)

theorem logging_targets_roundtrip_witness:
  "get_logging_targets ''sn_node=error,safe=info'' = Inr [(''sn_node'', WARN), (''safe'', INFO)]"
  using logging_targets_roundtrip [of "[(''sn_node'', ERROR), (''safe'', INFO)]"] by (simp add: crate_name_ok_def)

end
