(* ===== verification/Safenode.thy ===== *)
theory Safenode
  imports Node_Validation Swarm_Start Peers Logging
begin

text \<open>
  The node binary: the running node (\<open>RunningNode\<close> and \<open>Node::run\<close> in sn_node's \<open>api.rs\<close>), the
  process around it (\<open>bin/safenode/main.rs\<close>) and its admin service (\<open>bin/safenode/rpc.rs\<close>). The
  options are given as clap parsed them. Spawned tasks run one after the other; what a task
  receives from a channel is the list of results of its \<open>recv\<close> calls. The operating system, the
  ed25519 keys and the environment variables belong to \<open>safenode_env\<close>. Durations of control
  messages are in milliseconds.
\<close>

section \<open>The running node\<close>

record safenode_env =
  sys :: swarm_env
  create_fault :: "path \<Rightarrow> string option"
  ed25519_from_bytes :: "bytes \<Rightarrow> string + bytes"
  keypair_of_secret :: "bytes \<Rightarrow> bytes"
  peer_id_text :: "peer_id \<Rightarrow> string"
  sys_data_dir :: "path option"
  sn_log_var :: "string option"
  safe_peers_var :: "string option"
  multiaddr_from_str :: "string \<Rightarrow> multiaddr option"
  process_id :: "32 word"
  current_exe :: "path option"
  spawn_process :: "path \<Rightarrow> string list \<Rightarrow> string + unit"

text \<open>The environment of the source's \<open>?\<close>: every error becomes a report.\<close>

datatype report = Msg string | NetReport net_error | IoReport wallet_error | LogReport logging_error

definition running_peer_id :: "network \<Rightarrow> peer_id" where
  "running_peer_id running = nw_peer_id running"

definition running_root_dir_path :: "network \<Rightarrow> path" where
  "running_root_dir_path running = root_dir_path running"

definition running_swarm_local_state :: "nat \<Rightarrow> ('d, 's) wire_env \<Rightarrow> swarm_in \<Rightarrow> sender \<Rightarrow> ('d, 's) driver
    \<Rightarrow> (net_error + swarm_local_state) \<times> ('d, 's) driver" where
  "running_swarm_local_state capacity W I s d = get_swarm_local_state capacity W I s d"

definition get_all_record_addresses :: "nat \<Rightarrow> ('d, 's) wire_env \<Rightarrow> swarm_in \<Rightarrow> sender \<Rightarrow> ('d, 's) driver
    \<Rightarrow> (net_error + network_address list) \<times> ('d, 's) driver" where
  "get_all_record_addresses capacity W I s d = get_all_local_record_addresses capacity W I s d"

text \<open>
  What wakes the node's loop: an event (with what its handler reads from outside), the closing of
  the event channel, or the inactivity timeout, for which a random peer id is drawn.
\<close>

datatype ('d, 's) node_wake = NetEvent node_in "('d, 's) network_event" | EventsClosed | Inactivity node_in peer_id

fun node_loop :: "('d, 's::linorder, 't, 'p) node_env \<Rightarrow> network \<Rightarrow> multiaddr list \<Rightarrow> ('d, 's) node_wake list \<Rightarrow> ('d, 's) node_action list" where
  "node_loop N nw peers [] = []"
| "node_loop N nw peers (NetEvent I event # wakes) =
     handle_network_event N (I\<lparr>self_id := nw_peer_id nw, initial_peers := peers\<rparr>) event @ node_loop N nw peers wakes"
| "node_loop N nw peers (EventsClosed # wakes) = [Broadcast ChannelClosed]"
| "node_loop N nw peers (Inactivity I random_peer # wakes) =
     (if cmd_room I 0 then [Send (GetClosestPeers (from_peer random_peer) 0)] else []) @ node_loop N nw peers wakes"

text \<open>The result is the running node with the swarm driver and the node's event loop it spawned.\<close>

definition node_run :: "safenode_env \<Rightarrow> ('d, 's::linorder, 't, 'p) node_env \<Rightarrow> nat \<Rightarrow> bytes \<Rightarrow> socket_addr \<Rightarrow> multiaddr list \<Rightarrow> bool \<Rightarrow> path \<Rightarrow> file_system
    \<Rightarrow> net_error failure + (network \<times> ('d, 's) driver \<times> (('d, 's) node_wake list \<Rightarrow> ('d, 's) node_action list)) \<times> file_system" where
  "node_run E N interval kp addr peers loc root_dir fs =
     bind_result (swarm_new (sys E) interval kp addr loc root_dir fs) (\<lambda>((nw, d, _), fs).
       Inr ((nw, d, node_loop N nw peers), fs))"

section \<open>Options\<close>

datatype log_output_dest_arg = DestStdout | DestDataDir | DestPath path

text \<open>A path given as text is taken by its components; paths are printed as absolute ones.\<close>

definition path_from_text :: "string \<Rightarrow> path" where
  "path_from_text t = filter (\<lambda>c. c \<noteq> []) (split_on CHR ''/'' t)"

definition parse_log_output :: "string \<Rightarrow> log_output_dest_arg" where
  "parse_log_output val =
     (if val = ''stdout'' then DestStdout else if val = ''data-dir'' then DestDataDir else DestPath (path_from_text val))"

fun show_log_output :: "log_output_dest_arg \<Rightarrow> string" where
  "show_log_output DestStdout = ''stdout''"
| "show_log_output DestDataDir = ''data-dir''"
| "show_log_output (DestPath p) = show_path p"

record safenode_opt =
  so_log_output_dest :: log_output_dest_arg
  so_log_format :: "log_format option"
  so_root_dir :: "path option"
  so_port :: "16 word"
  so_ip :: ip_addr
  so_peers :: "multiaddr list"
  so_rpc :: "socket_addr option"
  so_local :: bool

datatype node_ctrl = Stop nat report | Restart nat | Update nat

section \<open>Keys and directories\<close>

text \<open>Reading a file: \<open>None\<close> is the error kind \<open>NotFound\<close>.\<close>

definition std_read :: "io_faults \<Rightarrow> path \<Rightarrow> file_system \<Rightarrow> string option + bytes" where
  "std_read F p fs =
     (case F (ReadFile p) of
        Some e \<Rightarrow> Inl (Some e)
      | None \<Rightarrow> (case map_of (fs_files fs) p of
          Some bs \<Rightarrow> Inr bs
        | None \<Rightarrow> Inl (if p \<in> set (fs_dirs fs) then Some ''is a directory'' else None)))"

text \<open>\<open>create_new\<close>: the file must not exist; a file that was created is empty.\<close>

definition create_secret_key_file :: "safenode_env \<Rightarrow> path \<Rightarrow> file_system \<Rightarrow> string + file_system" where
  "create_secret_key_file E p fs =
     (case create_fault E p of
        Some e \<Rightarrow> Inl e
      | None \<Rightarrow>
          if fs_is_file p fs \<or> p \<in> set (fs_dirs fs) then Inl ''file exists''
          else if butlast p \<notin> set (fs_dirs fs) then Inl ''not found''
          else Inr (fs\<lparr>fs_files := fs_put p [] (fs_files fs)\<rparr>))"

text \<open>
  Both results of the operations below carry the file system: a failing write leaves the file
  that was created behind.
\<close>

definition write_new_key :: "safenode_env \<Rightarrow> path \<Rightarrow> bytes \<Rightarrow> file_system \<Rightarrow> (report + unit) \<times> file_system" where
  "write_new_key E p secret_key fs =
     (case create_secret_key_file E p fs of
        Inl err \<Rightarrow> (Inl (Msg (''could not create secret key file: '' @ err)), fs)
      | Inr fs \<Rightarrow>
          (case fs_write (sw_faults (sys E)) p secret_key fs of
             Inl err \<Rightarrow> (Inl (IoReport err), fs)
           | Inr fs \<Rightarrow> (Inr (), fs)))"

text \<open>\<open>secret_key\<close> is the key that is generated if there is none.\<close>

definition keypair_from_path :: "safenode_env \<Rightarrow> bytes \<Rightarrow> path \<Rightarrow> file_system \<Rightarrow> (report + bytes) \<times> file_system" where
  "keypair_from_path E secret_key p fs =
     (case std_read (sw_faults (sys E)) p fs of
        Inr key \<Rightarrow> (map_err (\<lambda>err. Msg (''could not read ed25519 key from file: '' @ err)) (ed25519_from_bytes E key), fs)
      | Inl None \<Rightarrow>
          (case write_new_key E p secret_key fs of
             (Inl err, fs) \<Rightarrow> (Inl err, fs)
           | (Inr _, fs) \<Rightarrow> (Inr (keypair_of_secret E secret_key), fs))
      | Inl (Some err) \<Rightarrow> (Inl (Msg (''failed to read secret key file: '' @ err)), fs))"

definition get_root_dir :: "safenode_env \<Rightarrow> peer_id \<Rightarrow> report + path" where
  "get_root_dir E peer =
     bind_result (ok_or (Msg ''could not obtain root directory path'') (sys_data_dir E)) (\<lambda>dir.
       Inr (dir @ [''safe'', ''node'', peer_id_text E peer]))"

definition get_root_dir_and_keypair :: "safenode_env \<Rightarrow> bytes \<Rightarrow> path option \<Rightarrow> file_system \<Rightarrow> (report + path \<times> bytes) \<times> file_system" where
  "get_root_dir_and_keypair E secret_key root_dir fs =
     (case root_dir of
        Some dir \<Rightarrow>
          (case fs_create_dir_all (sw_faults (sys E)) dir fs of
             Inl err \<Rightarrow> (Inl (IoReport err), fs)
           | Inr fs \<Rightarrow>
               (case keypair_from_path E secret_key (dir @ [''secret-key'']) fs of
                  (Inl err, fs) \<Rightarrow> (Inl err, fs)
                | (Inr kp, fs) \<Rightarrow> (Inr (dir, kp), fs)))
      | None \<Rightarrow>
          let kp = keypair_of_secret E secret_key
          in case get_root_dir E (keypair_peer_id (sys E) kp) of
               Inl err \<Rightarrow> (Inl err, fs)
             | Inr dir \<Rightarrow>
                 (case fs_create_dir_all (sw_faults (sys E)) dir fs of
                    Inl err \<Rightarrow> (Inl (IoReport err), fs)
                  | Inr fs \<Rightarrow>
                      (case write_new_key E (dir @ [''secret-key'']) secret_key fs of
                         (Inl err, fs) \<Rightarrow> (Inl err, fs)
                       | (Inr _, fs) \<Rightarrow> (Inr (dir, kp), fs))))"

section \<open>Logging\<close>

definition node_logging_targets :: "(string \<times> level) list" where
  "node_logging_targets = [(''safenode'', INFO), (''sn_transfers'', INFO), (''sn_networking'', INFO), (''sn_node'', INFO)]"

fun show_log_dest :: "log_output_dest \<Rightarrow> string" where
  "show_log_dest LogStdout = ''stdout''"
| "show_log_dest (LogPath p) = show_path p"

definition node_init_logging :: "safenode_env \<Rightarrow> log_output_dest_arg \<Rightarrow> peer_id \<Rightarrow> log_format option \<Rightarrow> file_system
    \<Rightarrow> report + (string \<times> bool \<times> layer) \<times> file_system" where
  "node_init_logging E dest peer format fs =
     bind_result (case dest of
         DestStdout \<Rightarrow> Inr LogStdout
       | DestDataDir \<Rightarrow> bind_result (get_root_dir E peer) (\<lambda>dir. Inr (LogPath (dir @ [''logs''])))
       | DestPath p \<Rightarrow> Inr (LogPath p)) (\<lambda>output_dest.
     bind_result (map_err LogReport (init_logging (sw_faults (sys E)) (sn_log_var E) node_logging_targets output_dest
         (case format of Some f \<Rightarrow> f | None \<Rightarrow> LogDefault) fs)) (\<lambda>((guard, l), fs).
       Inr ((show_log_dest output_dest, guard, l), fs)))"

section \<open>Control\<close>

text \<open>Results of \<open>recv\<close> on the broadcast channel of node events.\<close>

datatype event_recv = Received node_event | Lagged nat | RecvClosed

text \<open>
  \<open>sends\<close> tells for the control messages the task sends, one after the other, whether the
  receiver is still there. The result is the messages that were sent.
\<close>

fun monitor_node_events :: "bool list \<Rightarrow> event_recv list \<Rightarrow> node_ctrl list" where
  "monitor_node_events sends [] = []"
| "monitor_node_events sends (r # rs) =
     (let stop = (\<lambda>cause. case sends of
            True # sends' \<Rightarrow> Stop 1000 (Msg cause) # monitor_node_events sends' rs
          | _ \<Rightarrow> [])
      in case r of
           Received ChannelClosed \<Rightarrow> stop ''Node events channel closed!''
         | RecvClosed \<Rightarrow> stop ''Node events channel closed!''
         | Received BehindNat \<Rightarrow> stop ''We have been determined to be behind a NAT. This means we are not reachable externally by other nodes. In the future, the network will implement relays that allow us to still join the network.''
         | Received _ \<Rightarrow> monitor_node_events sends rs
         | Lagged _ \<Rightarrow> monitor_node_events sends rs)"

text \<open>The control loop; \<open>None\<close> as its result means that it still waits.\<close>

fun ctrl_loop :: "node_ctrl option list \<Rightarrow> (report + unit) option" where
  "ctrl_loop [] = None"
| "ctrl_loop (Some (Restart delay) # rs) = Some (Inr ())"
| "ctrl_loop (Some (Stop delay cause) # rs) = Some (Inl cause)"
| "ctrl_loop (Some (Update delay) # rs) = ctrl_loop rs"
| "ctrl_loop (None # rs) = Some (Inl (Msg ''Internal node ctrl cmds channel has been closed''))"

text \<open>
  \<open>ctrl\<close> is what the control channel gives, one message after the other. The result is how the node
  ended, if it did, and the file system.
\<close>

definition start_node :: "safenode_env \<Rightarrow> ('d, 's::linorder, 't, 'p) node_env \<Rightarrow> nat \<Rightarrow> bytes \<Rightarrow> socket_addr \<Rightarrow> multiaddr list \<Rightarrow> bool \<Rightarrow> path
    \<Rightarrow> node_ctrl option list \<Rightarrow> file_system \<Rightarrow> (report failure + unit) option \<times> file_system" where
  "start_node E N interval kp addr peers loc root_dir ctrl fs =
     (case node_run E N interval kp addr peers loc root_dir fs of
        Inl Panic \<Rightarrow> (Some (Inl Panic), fs)
      | Inl (Err e) \<Rightarrow> (Some (Inl (Err (NetReport e))), fs)
      | Inr ((nw, _, _), fs) \<Rightarrow>
          let pid_file = running_root_dir_path nw @ [''safenode.pid'']
          in case fs_write (sw_faults (sys E)) pid_file (map of_char (decimal (unat (process_id E)))) fs of
               Inl e \<Rightarrow> (Some (Inl (Err (IoReport e))), fs)
             | Inr fs \<Rightarrow> (map_option (map_err Err) (ctrl_loop ctrl), fs))"

text \<open>The outcome is the command line of the new process, if one was started; without arguments, or
  without a path of the executable, the process panics.\<close>

definition start_new_node_process :: "safenode_env \<Rightarrow> string list \<Rightarrow> report failure + (path \<times> string list) option" where
  "start_new_node_process E args =
     (case current_exe E of
        None \<Rightarrow> Inl Panic
      | Some exe \<Rightarrow>
          if args = [] then Inl Panic
          else Inr (if is_ok (spawn_process E exe (tl args)) then Some (exe, tl args) else None))"

text \<open>\<open>SAFE_PEERS\<close> as a fallback for the initial peers.\<close>

definition with_env_peers :: "safenode_env \<Rightarrow> multiaddr list \<Rightarrow> multiaddr list" where
  "with_env_peers E peers =
     (if mdns_feature (sys E) then peers
      else case safe_peers_var E of
             None \<Rightarrow> peers
           | Some str \<Rightarrow>
               (case parse_peer_addr (multiaddr_from_str E) str of
                  Inl _ \<Rightarrow> peers
                | Inr peer \<Rightarrow> if peer \<in> set peers then peers else peers @ [peer]))"

definition node_main :: "safenode_env \<Rightarrow> ('d, 's::linorder, 't, 'p) node_env \<Rightarrow> nat \<Rightarrow> bytes \<Rightarrow> string list \<Rightarrow> safenode_opt \<Rightarrow> node_ctrl option list
    \<Rightarrow> file_system \<Rightarrow> (report failure + (path \<times> string list) option) option \<times> file_system" where
  "node_main E N interval secret_key args opt ctrl fs =
     (case get_root_dir_and_keypair E secret_key (so_root_dir opt) fs of
        (Inl e, fs) \<Rightarrow> (Some (Inl (Err e)), fs)
      | (Inr (root_dir, kp), fs) \<Rightarrow>
          (case node_init_logging E (so_log_output_dest opt) (keypair_peer_id (sys E) kp) (so_log_format opt) fs of
             Inl e \<Rightarrow> (Some (Inl (Err e)), fs)
           | Inr (_, fs) \<Rightarrow>
               (case start_node E N interval kp (so_ip opt, so_port opt) (with_env_peers E (so_peers opt)) (so_local opt) root_dir ctrl fs of
                  (None, fs) \<Rightarrow> (None, fs)
                | (Some (Inl e), fs) \<Rightarrow> (Some (Inl e), fs)
                | (Some (Inr _), fs) \<Rightarrow> (Some (start_new_node_process E args), fs))))"

section \<open>The admin service\<close>

text \<open>\<open>uptime\<close> is the time since the service was started.\<close>

record node_info_response =
  ni_peer_id :: bytes
  ni_log_dir :: string
  ni_pid :: "32 word"
  ni_bin_version :: string
  ni_uptime_secs :: nat

definition rpc_node_info :: "safenode_env \<Rightarrow> network \<Rightarrow> string \<Rightarrow> nat \<Rightarrow> node_info_response" where
  "rpc_node_info E nw log_dir uptime =
     \<lparr>ni_peer_id = running_peer_id nw, ni_log_dir = log_dir, ni_pid = process_id E, ni_bin_version = pkg_version (sys E), ni_uptime_secs = uptime\<rparr>"

text \<open>\<open>unwrap\<close> on the answer of the swarm driver panics when there is none. \<open>show\<close> prints multiaddresses.\<close>

definition rpc_network_info :: "(multiaddr \<Rightarrow> string) \<Rightarrow> nat \<Rightarrow> ('d, 's) wire_env \<Rightarrow> swarm_in \<Rightarrow> sender \<Rightarrow> ('d, 's) driver
    \<Rightarrow> (report failure + bytes list \<times> string list) \<times> ('d, 's) driver" where
  "rpc_network_info show_multiaddr capacity W I s d =
     (case running_swarm_local_state capacity W I s d of
        (Inl _, d) \<Rightarrow> (Inl Panic, d)
      | (Inr st, d) \<Rightarrow> (Inr (connected_peers st, map show_multiaddr (listeners st)), d))"

definition rpc_record_addresses :: "nat \<Rightarrow> ('d, 's) wire_env \<Rightarrow> swarm_in \<Rightarrow> sender \<Rightarrow> ('d, 's) driver
    \<Rightarrow> (report failure + bytes list) \<times> ('d, 's) driver" where
  "rpc_record_addresses capacity W I s d =
     (case get_all_record_addresses capacity W I s d of
        (Inl _, d) \<Rightarrow> (Inl Panic, d)
      | (Inr addresses, d) \<Rightarrow> (Inr (map (as_bytes W) addresses), d))"

text \<open>The stream of node events: it ends at the first error of the channel, a lag included, and when the
  client is gone; an event that cannot be encoded is skipped. \<open>sends\<close> as above.\<close>

fun rpc_node_events :: "(node_event \<Rightarrow> string + bytes) \<Rightarrow> bool list \<Rightarrow> event_recv list \<Rightarrow> bytes list" where
  "rpc_node_events to_bytes sends (Received event # rs) =
     (case to_bytes event of
        Inl _ \<Rightarrow> rpc_node_events to_bytes sends rs
      | Inr event_bytes \<Rightarrow>
          (case sends of True # sends' \<Rightarrow> event_bytes # rpc_node_events to_bytes sends' rs | _ \<Rightarrow> []))"
| "rpc_node_events to_bytes sends _ = []"

datatype rpc_request = RpcStop "string option" u64 | RpcRestart u64 | RpcUpdate u64

text \<open>
  The three requests that control the process: the control message, and the answer, an internal
  error when the receiver is gone.
\<close>

fun rpc_ctrl :: "rpc_request \<Rightarrow> node_ctrl" where
  "rpc_ctrl (RpcStop remote delay_millis) = Stop (unat delay_millis) (Msg (case remote of
     Some addr \<Rightarrow> ''Node has been stopped by an RPC request from '' @ addr @ ''.''
   | None \<Rightarrow> ''Node has been stopped by an RPC request from an unknown address.''))"
| "rpc_ctrl (RpcRestart delay_millis) = Restart (unat delay_millis)"
| "rpc_ctrl (RpcUpdate delay_millis) = Update (unat delay_millis)"

definition rpc_control :: "bool \<Rightarrow> rpc_request \<Rightarrow> (string + unit) \<times> node_ctrl list" where
  "rpc_control receiver_there req =
     (if receiver_there then (Inr (), [rpc_ctrl req])
      else (Inl (case req of RpcStop _ _ \<Rightarrow> ''Failed to stop the node'' | RpcRestart _ \<Rightarrow> ''Failed to restart the node''
                 | RpcUpdate _ \<Rightarrow> ''Failed to update the node''), []))"

section \<open>Lemmas on keys\<close>

text \<open>The documented behaviour of \<open>ed25519_from_bytes\<close>: it takes back the 32 bytes of a secret key.\<close>

definition key_law :: "safenode_env \<Rightarrow> bool" where
  "key_law E \<longleftrightarrow> (\<forall>sk. length sk = 32 \<longrightarrow> ed25519_from_bytes E sk = Inr (keypair_of_secret E sk))"

text \<open>The key file of a root directory holds the secret of a key pair.\<close>

definition key_held :: "safenode_env \<Rightarrow> path \<Rightarrow> bytes \<Rightarrow> file_system \<Rightarrow> bool" where
  "key_held E dir kp fs \<longleftrightarrow> (\<exists>sk. map_of (fs_files fs) (dir @ [''secret-key'']) = Some sk \<and> ed25519_from_bytes E sk = Inr kp) \<and>
     dir_clear dir fs"

lemma write_new_key_files:
  "write_new_key E p sk fs = (Inr (), fs') \<Longrightarrow> map_of (fs_files fs') = (map_of (fs_files fs))(p \<mapsto> sk)"
  by (auto simp: write_new_key_def create_secret_key_file_def map_of_fs_put dest!: fs_write_files split: sum.splits option.splits if_splits)

lemma dir_clear_key:
  "dir_clear dir fs \<Longrightarrow> map_of (fs_files fs') = (map_of (fs_files fs))(dir @ [n] \<mapsto> bs) \<Longrightarrow> dir_clear dir fs'"
  by (auto simp: dir_clear_def fs_is_file_def dest: arg_cong [of _ _ length])

lemma fs_create_dir_clear: "fs_create_dir_all F p fs = Inr fs' \<Longrightarrow> dir_clear p fs"
  using fs_create_dir_all_ok [of p fs] by (auto simp: fs_create_dir_all_def is_ok_def split: option.splits if_splits)

lemma dir_clear_files: "fs_files fs' = fs_files fs \<Longrightarrow> dir_clear p fs \<Longrightarrow> dir_clear p fs'"
  by (simp add: dir_clear_def fs_is_file_def)

lemma keypair_from_path_held:
  assumes "key_law E" and "length sk = 32" and "keypair_from_path E sk (dir @ [''secret-key'']) fs = (Inr kp, fs')" and "dir_clear dir fs"
  shows "key_held E dir kp fs'"
proof (cases "std_read (sw_faults (sys E)) (dir @ [''secret-key'']) fs")
  case (Inl e)
  with assms(3) obtain u where "write_new_key E (dir @ [''secret-key'']) sk fs = (Inr u, fs')" and kp: "kp = keypair_of_secret E sk"
    by (auto simp: keypair_from_path_def split: option.splits prod.splits sum.splits)
  then have "map_of (fs_files fs') = (map_of (fs_files fs))(dir @ [''secret-key''] \<mapsto> sk)" by (simp add: write_new_key_files)
  with assms(1,2,4) kp show ?thesis using dir_clear_key [OF assms(4)] by (auto simp: key_held_def key_law_def)
next
  case (Inr key)
  with assms(3,4) show ?thesis
    by (auto simp: keypair_from_path_def key_held_def std_read_def split: option.splits)
qed

lemma root_dir_key_held:
  assumes "key_law E" and "length sk = 32" and "get_root_dir_and_keypair E sk (Some dir) fs = (Inr (dir', kp), fs')"
  shows "dir' = dir \<and> key_held E dir kp fs'"
proof -
  from assms(3) obtain fs1 where dir: "fs_create_dir_all (sw_faults (sys E)) dir fs = Inr fs1"
    and key: "keypair_from_path E sk (dir @ [''secret-key'']) fs1 = (Inr kp, fs')" and "dir' = dir"
    by (auto simp: get_root_dir_and_keypair_def split: sum.splits prod.splits)
  have "dir_clear dir fs1" by (rule dir_clear_files [OF fs_create_dir_files [OF dir] fs_create_dir_clear [OF dir]])
  with keypair_from_path_held [OF assms(1,2) key] \<open>dir' = dir\<close> show ?thesis by simp
qed

lemma key_held_found:
  assumes "key_held E dir kp fs" and "sw_faults (sys E) = no_faults"
  shows "\<exists>fs'. get_root_dir_and_keypair E sk (Some dir) fs = (Inr (dir, kp), fs')"
proof -
  from assms(1) obtain fs1 where fs1: "fs_create_dir_all no_faults dir fs = Inr fs1"
    using fs_create_dir_all_ok [of dir fs] by (auto simp: key_held_def is_ok_iff)
  with assms show ?thesis using fs_create_dir_files [OF fs1]
    by (auto simp: get_root_dir_and_keypair_def keypair_from_path_def std_read_def key_held_def)
qed

text \<open>Files other than the key file may come and go.\<close>

lemma key_held_write:
  assumes "key_held E dir kp fs" and "fs_write F (dir @ [n]) bs fs = Inr fs'" and "n \<noteq> ''secret-key''"
  shows "key_held E dir kp fs'"
  using assms dir_clear_key unfolding key_held_def by (auto dest!: fs_write_files)

lemma key_held_files: "fs_files fs' = fs_files fs \<Longrightarrow> key_held E dir kp fs' \<longleftrightarrow> key_held E dir kp fs"
  by (simp add: key_held_def dir_clear_def fs_is_file_def)

lemma key_held_node_run:
  assumes "node_run E N i kp' addr peers loc root fs = Inr (x, fs')"
  shows "key_held E dir kp fs' \<longleftrightarrow> key_held E dir kp fs"
proof -
  from assms have "fs_files fs' = fs_files fs"
    by (auto simp: node_run_def swarm_new_def swarm_with_def Let_def dest!: fs_create_dir_files split: sum.splits if_splits)
  then show ?thesis by (rule key_held_files)
qed

lemma key_held_logging:
  assumes "node_init_logging E dest peer fmt fs = Inr (x, fs')"
  shows "key_held E dir kp fs' \<longleftrightarrow> key_held E dir kp fs"
proof -
  from assms have "fs_files fs' = fs_files fs"
    by (auto simp: node_init_logging_def init_logging_def fmt_layer_def dest!: fs_create_dir_files
        split: log_output_dest_arg.splits log_output_dest.splits option.splits)
  then show ?thesis by (rule key_held_files)
qed

lemma key_held_start_node:
  assumes "start_node E N i kp' addr peers loc dir ctrl fs = (res, fs')" and "key_held E dir kp fs"
  shows "key_held E dir kp fs'"
proof (cases "node_run E N i kp' addr peers loc dir fs")
  case (Inl e)
  with assms show ?thesis by (auto simp: start_node_def split: failure.splits)
next
  case (Inr r)
  then obtain nw d l fs1 where run: "node_run E N i kp' addr peers loc dir fs = Inr ((nw, d, l), fs1)" by (cases r) auto
  then have root: "root_dir_path nw = dir"
    by (auto simp: node_run_def elim!: swarm_new_with dest!: swarm_with_driver(3))
  from assms(2) have "key_held E dir kp fs1" using key_held_node_run [OF run] by blast
  with assms(1) run root show ?thesis
    by (auto simp: start_node_def running_root_dir_path_def Let_def intro: key_held_write split: sum.splits)
qed

section \<open>Lemmas on control messages\<close>

lemma monitor_only_stops: "c \<in> set (monitor_node_events sends rs) \<Longrightarrow> \<exists>delay cause. c = Stop delay cause"
proof (induction sends rs rule: monitor_node_events.induct)
  case (2 sends r rs)
  show ?case
  proof (cases "\<exists>cause. c = Stop 1000 (Msg cause)")
    case False
    with "2.prems" "2.IH" show ?thesis
      by (auto simp: Let_def split: event_recv.splits node_event.splits list.splits bool.splits)
  qed auto
qed simp

lemma ctrl_loop_restart: "ctrl_loop rs = Some (Inr ()) \<Longrightarrow> \<exists>delay. Some (Restart delay) \<in> set rs"
  by (induction rs rule: ctrl_loop.induct) auto

lemma ctrl_loop_stop: "Some (Stop delay cause) \<in> set rs \<Longrightarrow> ctrl_loop rs \<noteq> None"
  by (induction rs rule: ctrl_loop.induct) auto

lemma rpc_ctrl_restart: "rpc_ctrl req = Restart delay \<longleftrightarrow> (\<exists>ms. req = RpcRestart ms \<and> delay = unat ms)"
  by (cases req) auto

text \<open>The first event that asks for it makes the monitor stop the node.\<close>

lemma monitor_stops:
  assumes "Received ChannelClosed \<in> set rs"
  shows "\<exists>delay cause. Stop delay cause \<in> set (monitor_node_events (True # sends) rs)"
  using assms
proof (induction rs)
  case (Cons r rs)
  then show ?case by (auto simp: Let_def split: event_recv.splits node_event.splits)
qed simp

definition broadcasts :: "('d, 's) node_action list \<Rightarrow> node_event list" where
  "broadcasts acts = List.map_filter (\<lambda>a. case a of Broadcast e \<Rightarrow> Some e | _ \<Rightarrow> None) acts"

lemma node_loop_closes: "EventsClosed \<in> set wakes \<Longrightarrow> ChannelClosed \<in> set (broadcasts (node_loop N nw peers wakes))"
  by (induction N nw peers wakes rule: node_loop.induct) (auto simp: broadcasts_def map_filter_def)

section \<open>Properties\<close>

text \<open>C15: A node that was started with a root directory and restarts keeps its identity: the process it
  starts has the same arguments, and from the file system the old one leaves behind it gets the
  same root directory and the same key pair, whatever key it would have drawn.\<close>

theorem restart_keeps_identity:
  assumes "key_law E" and "length secret_key = 32" and "sw_faults (sys E) = no_faults" and "so_root_dir opt = Some dir"
    and "node_main E N interval secret_key args opt ctrl fs = (Some (Inr launched), fs')"
  shows "\<exists>kp fs0 fs''. get_root_dir_and_keypair E secret_key (Some dir) fs = (Inr (dir, kp), fs0) \<and>
    get_root_dir_and_keypair E secret_key' (Some dir) fs' = (Inr (dir, kp), fs'') \<and>
    (\<forall>cmd. launched = Some cmd \<longrightarrow> snd cmd = tl args \<and> Some (fst cmd) = current_exe E)"
proof -
  from assms(4,5) obtain dir' kp fs0 l fs1 where key: "get_root_dir_and_keypair E secret_key (Some dir) fs = (Inr (dir', kp), fs0)"
    and log: "node_init_logging E (so_log_output_dest opt) (keypair_peer_id (sys E) kp) (so_log_format opt) fs0 = Inr (l, fs1)"
    and start: "start_node E N interval kp (so_ip opt, so_port opt) (with_env_peers E (so_peers opt)) (so_local opt) dir' ctrl fs1 = (Some (Inr ()), fs')"
    and new: "start_new_node_process E args = Inr launched"
    by (auto simp: node_main_def split: prod.splits sum.splits option.splits)
  from root_dir_key_held [OF assms(1,2) key] have dir: "dir' = dir" and held: "key_held E dir kp fs0" by auto
  from held have "key_held E dir kp fs1" using key_held_logging [OF log] by blast
  then have "key_held E dir kp fs'" using key_held_start_node start dir by blast
  from key_held_found [OF this assms(3)] obtain fs'' where "get_root_dir_and_keypair E secret_key' (Some dir) fs' = (Inr (dir, kp), fs'')" by blast
  moreover have "\<forall>cmd. launched = Some cmd \<longrightarrow> snd cmd = tl args \<and> Some (fst cmd) = current_exe E"
    using new by (auto simp: start_new_node_process_def split: option.splits if_splits)
  ultimately show ?thesis using key dir by blast
qed

definition demo_safenode :: safenode_env where
  "demo_safenode = \<lparr>sys = demo_swarm_env, create_fault = (\<lambda>_. None), ed25519_from_bytes = Inr, keypair_of_secret = (\<lambda>sk. sk),
     peer_id_text = (\<lambda>p. map (char_of \<circ> unat) p), sys_data_dir = Some [''data''], sn_log_var = None, safe_peers_var = None,
     multiaddr_from_str = (\<lambda>_. None), process_id = 7, current_exe = Some [''safenode''], spawn_process = (\<lambda>_ _. Inr ())\<rparr>"

definition demo_safenode_opt :: safenode_opt where
  "demo_safenode_opt = \<lparr>so_log_output_dest = DestStdout, so_log_format = None, so_root_dir = Some [''node''], so_port = 0,
     so_ip = V4 (0, 0, 0, 0), so_peers = [], so_rpc = None, so_local = True\<rparr>"

lemmas safenode_run = node_main_def get_root_dir_and_keypair_def keypair_from_path_def std_read_def write_new_key_def create_secret_key_file_def
  node_init_logging_def init_logging_def fmt_layer_def start_node_def node_run_def swarm_new_def swarm_with_def replication_factor_ok_def
  running_root_dir_path_def start_new_node_process_def demo_safenode_def demo_safenode_opt_def demo_swarm_env_def demo_fs_def
  fs_create_dir_all_def fs_write_def fs_is_file_def fs_put_def CLOSE_GROUP_SIZE_def is_ok_def Let_def

lemma demo_safenode_laws: "key_law demo_safenode" "sw_faults (sys demo_safenode) = no_faults"
  by (simp_all add: key_law_def demo_safenode_def demo_swarm_env_def)

theorem restart_keeps_identity_witness:
  "\<exists>fs' fs''. node_main demo_safenode demo_node 200 (replicate 32 1) [''safenode'', ''--local''] demo_safenode_opt [Some (Update 0), Some (Restart 5)] demo_fs =
       (Some (Inr (Some ([''safenode''], [''--local'']))), fs') \<and>
     get_root_dir_and_keypair demo_safenode (replicate 32 2) (Some [''node'']) fs' = (Inr ([''node''], replicate 32 1), fs'')"
proof -
  have "\<exists>fs'. node_main demo_safenode demo_node 200 (replicate 32 1) [''safenode'', ''--local''] demo_safenode_opt [Some (Update 0), Some (Restart 5)] demo_fs =
       (Some (Inr (Some ([''safenode''], [''--local'']))), fs')"
    by (auto simp: safenode_run take_Cons' split: if_splits)
  then obtain fs' where run: "node_main demo_safenode demo_node 200 (replicate 32 1) [''safenode'', ''--local''] demo_safenode_opt
      [Some (Update 0), Some (Restart 5)] demo_fs = (Some (Inr (Some ([''safenode''], [''--local'']))), fs')" by blast
  have "so_root_dir demo_safenode_opt = Some [''node'']" by (simp add: demo_safenode_opt_def)
  from restart_keeps_identity [OF demo_safenode_laws(1) _ demo_safenode_laws(2) this run, of "replicate 32 2"] obtain kp fs0 fs'' where
    "get_root_dir_and_keypair demo_safenode (replicate 32 1) (Some [''node'']) demo_fs = (Inr ([''node''], kp), fs0)"
    and again: "get_root_dir_and_keypair demo_safenode (replicate 32 2) (Some [''node'']) fs' = (Inr ([''node''], kp), fs'')" by auto
  then have "kp = replicate 32 1" by (simp add: safenode_run)
  with run again show ?thesis by blast
qed

text \<open>C30: Whatever the node's events are, the process only restarts when an admin request asked for it:
  with the control messages of the event monitor and of the admin requests arriving in any order,
  and the channel possibly closing, a node that ends without an error had a restart request.\<close>

theorem restart_only_on_request:
  assumes "ms \<in> shuffles (monitor_node_events sends events) (map rpc_ctrl requests)" and "closed = [] \<or> closed = [None]"
    and "start_node E N interval kp addr peers loc root_dir (map Some ms @ closed) fs = (Some (Inr ()), fs')"
  shows "\<exists>delay. RpcRestart delay \<in> set requests"
proof -
  from assms(3) have "ctrl_loop (map Some ms @ closed) = Some (Inr ())"
    by (auto simp: start_node_def Let_def split: sum.splits failure.splits)
  from ctrl_loop_restart [OF this] assms(2) obtain delay where "Restart delay \<in> set ms" by auto
  then have "Restart delay \<in> set (monitor_node_events sends events) \<union> set (map rpc_ctrl requests)"
    using set_shuffles [OF assms(1)] by simp
  then obtain req where "req \<in> set requests" and "rpc_ctrl req = Restart delay" using monitor_only_stops by fastforce
  then show ?thesis by (auto simp: rpc_ctrl_restart)
qed

theorem restart_only_on_request_witness:
  "\<exists>delay. RpcRestart delay \<in> set [RpcUpdate 0, RpcRestart 3]"
proof -
  let ?ms = "[Update 0, Restart 3]"
  have "\<exists>fs'. start_node demo_safenode demo_node 200 [1] (V4 (0, 0, 0, 0), 0) [] True [''node''] (map Some ?ms @ [None]) demo_fs = (Some (Inr ()), fs')"
    by (simp add: safenode_run)
  then obtain fs' where "start_node demo_safenode demo_node 200 [1] (V4 (0, 0, 0, 0), 0) [] True [''node''] (map Some ?ms @ [None]) demo_fs = (Some (Inr ()), fs')"
    by blast
  moreover have "?ms \<in> shuffles (monitor_node_events [] [Received ConnectedToNetwork]) (map rpc_ctrl [RpcUpdate 0, RpcRestart 3])" by simp
  ultimately show ?thesis using restart_only_on_request [of ?ms "[]" "[Received ConnectedToNetwork]" "[RpcUpdate 0, RpcRestart 3]" "[None]"] by blast
qed

text \<open>C20: When the channel of network events closes, the process does not hang: the event is broadcast,
  the monitor turns it into a control message, and the control loop ends, whatever admin requests
  arrive in between. (The monitor is taken to have subscribed before the channel closes: it does so just after
  the node is started, and an event broadcast before that would not reach it.)\<close>

theorem closed_network_ends_process:
  assumes "EventsClosed \<in> set wakes" and "events = map Received (broadcasts (node_loop N nw peers wakes))"
    and "ms \<in> shuffles (monitor_node_events (True # sends) events) (map rpc_ctrl requests)"
  shows "fst (start_node E N interval kp addr peers' loc root_dir (map Some ms) fs) \<noteq> None"
proof -
  have "Received ChannelClosed \<in> set events" using node_loop_closes [OF assms(1), of N nw peers] by (auto simp: assms(2))
  from monitor_stops [OF this] set_shuffles [OF assms(3)] obtain delay cause where "Stop delay cause \<in> set ms" by blast
  then have "ctrl_loop (map Some ms) \<noteq> None" by (intro ctrl_loop_stop) auto
  then show ?thesis by (auto simp: start_node_def Let_def split: sum.splits failure.splits)
qed

theorem closed_network_ends_process_witness:
  "fst (start_node demo_safenode demo_node 200 [1] (V4 (0, 0, 0, 0), 0) [] True [''node'']
     [Some (Update 3), Some (Stop 1000 (Msg ''Node events channel closed!''))] demo_fs) \<noteq> None"
proof -
  have "EventsClosed \<in> set [Inactivity demo_node_in [4], EventsClosed]" by simp
  moreover have "[Update 3, Stop 1000 (Msg ''Node events channel closed!'')] \<in> shuffles (monitor_node_events (True # [])
      (map Received (broadcasts (node_loop demo_node \<lparr>nw_peer_id = [1], root_dir_path = [''node''], keypair = [1]\<rparr> [] [Inactivity demo_node_in [4], EventsClosed]))))
      (map rpc_ctrl [RpcUpdate 3])"
    by (simp add: broadcasts_def map_filter_simps)
  ultimately show ?thesis
    using closed_network_ends_process [OF _ refl, of "[Inactivity demo_node_in [4], EventsClosed]"
        "[Update 3, Stop 1000 (Msg ''Node events channel closed!'')]" "[]" demo_node _ "[]" "[RpcUpdate 3]"
        demo_safenode 200 "[1]" "(V4 (0, 0, 0, 0), 0)" "[]" True "[''node'']" demo_fs] by fastforce
qed

end
