(* ===== verification/Client_Start.thy ===== *)
theory Client_Start
  imports Client Swarm_Start
begin

text \<open>
  How a client connects (\<open>Client::new\<close> in sn_client's \<open>api.rs\<close>): it builds a swarm in client mode,
  dials the peers it was given, and waits until enough peers were added to its routing table.
  The three tasks that are spawned run one after the other: the dialling, the handler of network
  events, and the loop that waits for the client's own events.
\<close>

section \<open>Starting\<close>

definition INACTIVITY_TIMEOUT :: nat where
  "INACTIVITY_TIMEOUT = 30"

text \<open>What wakes the handler of network events: an event, the closing of their channel, or the timeout.\<close>

datatype ('d, 's) client_wake = ClientNet "('d, 's) network_event" | ClientNetClosed | ClientTimeout

text \<open>The result is the handler's copy of the client and the events it broadcasts.\<close>

fun client_event_loop :: "bool \<Rightarrow> client \<Rightarrow> ('d, 's) client_wake list \<Rightarrow> client \<times> client_event list" where
  "client_event_loop subscribed cl [] = (cl, [])"
| "client_event_loop subscribed cl (ClientNet event # wakes) =
     (case client_handle_network_event subscribed cl event of
        (cl, events, _) \<Rightarrow> (case client_event_loop subscribed cl wakes of (cl, later) \<Rightarrow> (cl, events @ later)))"
| "client_event_loop subscribed cl (ClientNetClosed # wakes) = client_event_loop subscribed cl wakes"
| "client_event_loop subscribed cl (ClientTimeout # wakes) =
     (case client_event_loop subscribed cl wakes of
        (cl, later) \<Rightarrow> (cl, (if subscribed then [InactiveClient INACTIVITY_TIMEOUT] else []) @ later))"

text \<open>The loop that waits for the connection; \<open>None\<close> as a received value is an error of the channel,
  \<open>None\<close> as the result means that it still waits.\<close>

fun connect_loop :: "client_event option list \<Rightarrow> ('s client_error failure + unit) option" where
  "connect_loop [] = None"
| "connect_loop (Some ClientConnected # rs) = Some (Inr ())"
| "connect_loop (Some (InactiveClient timeout) # rs) = connect_loop rs"
| "connect_loop (None # rs) = Some (Inl (Err EventsReceiver))"

text \<open>
  \<open>received\<close> turns the broadcast events into what the receiver gets, a lag of the channel included.
  The client that is returned is not the handler's copy: its count of peers stays zero.
\<close>

definition client_start :: "swarm_env \<Rightarrow> bytes \<Rightarrow> secret_key \<Rightarrow> multiaddr list option \<Rightarrow> nat option \<Rightarrow> ('d, 's) client_wake list
    \<Rightarrow> (client_event list \<Rightarrow> client_event option list) \<Rightarrow> (nat \<Rightarrow> bool) \<Rightarrow> file_system
    \<Rightarrow> ('s client_error failure + client \<times> network \<times> ('d, 's) driver \<times> ('d, 's) swarm_cmd list) option" where
  "client_start E kp sk peers timeout wakes receive room fs =
     (case swarm_new_client E kp (client_is_local peers) timeout fs of
        Inl e \<Rightarrow> Some (lift_err NetworkErr (Inl e))
      | Inr ((nw, d, _), _) \<Rightarrow>
          let cl = client_new sk;
              dials = List.map_filter (\<lambda>(n, addr). if room n then Some (Dial addr n) else None)
                (List.enumerate 0 (case peers of Some ps \<Rightarrow> ps | None \<Rightarrow> []))
          in map_option (\<lambda>r. bind_result r (\<lambda>_. Inr (cl, nw, d, dials)))
               (connect_loop (receive (snd (client_event_loop True cl wakes)))))"

section \<open>Lemmas\<close>

definition peers_seen :: "('d, 's) client_wake list \<Rightarrow> nat" where
  "peers_seen wakes = length (filter (\<lambda>w. case w of ClientNet (PeerAdded _) \<Rightarrow> True | _ \<Rightarrow> False) wakes)"

lemma client_event_loop_connected:
  "ClientConnected \<in> set (snd (client_event_loop True cl wakes)) \<longleftrightarrow>
     peers_seen wakes > 0 \<and> peers_added cl + peers_seen wakes \<ge> CLOSE_GROUP_SIZE"
proof (induction wakes arbitrary: cl)
  case Nil
  then show ?case by (simp add: peers_seen_def)
next
  case (Cons w wakes)
  show ?case
  proof (cases "\<exists>p. w = ClientNet (PeerAdded p)")
    case True
    then obtain p where w: "w = ClientNet (PeerAdded p)" by blast
    show ?thesis
    proof (cases "Suc (peers_added cl) \<ge> CLOSE_GROUP_SIZE")
      case True
      then show ?thesis by (auto simp: w client_handle_network_event_def peers_seen_def Let_def split: prod.splits)
    next
      case False
      with Cons.IH [of "cl\<lparr>peers_added := Suc (peers_added cl)\<rparr>"] show ?thesis
        by (auto simp: w client_handle_network_event_def peers_seen_def Let_def split: prod.splits)
    qed
  next
    case False
    then have "peers_seen (w # wakes) = peers_seen wakes"
      by (auto simp: peers_seen_def split: client_wake.splits network_event.splits)
    moreover have "ClientConnected \<in> set (snd (client_event_loop True cl (w # wakes))) \<longleftrightarrow>
        ClientConnected \<in> set (snd (client_event_loop True cl wakes))"
      using False by (cases w) (auto simp: client_handle_network_event_def split: prod.splits network_event.splits)
    ultimately show ?thesis using Cons.IH by simp
  qed
qed

lemma connect_loop_events:
  "connect_loop (map Some events) = (if ClientConnected \<in> set events then Some (Inr ()) else None)"
proof (induction events)
  case (Cons e events)
  then show ?case by (cases e) auto
qed simp

section \<open>Properties\<close>

text \<open>C21: A client whose swarm could be built and whose event channel does not lag connects exactly when
  eight peers have been added to its routing table; before that it neither fails nor returns,
  however often it is reported as inactive.\<close>

theorem client_connects_with_close_group:
  fixes d :: "('d, 's) driver" and wakes :: "('d, 's) client_wake list"
  assumes "swarm_new_client E kp (client_is_local peers) timeout fs = Inr ((nw, d, cfg), fs')"
  shows "(case client_start E kp sk peers timeout wakes (map Some) room fs of
      None \<Rightarrow> peers_seen wakes < 8
    | Some (Inl e) \<Rightarrow> False
    | Some (Inr (cl, nw', d', dials)) \<Rightarrow> peers_seen wakes \<ge> 8 \<and> cl = client_new sk \<and> nw' = nw \<and> d' = d \<and> is_client d' \<and>
        self_peer_id d' = nw_peer_id nw')"
proof -
  from assms obtain kcfg where "swarm_with E (sw_temp_dir E) kp kcfg (client_is_local peers) True 1000 timeout OutboundSupport
      (IDENTIFY_CLIENT_VERSION_STR E) fs = Inr ((nw, d, cfg), fs')"
    by (auto simp: swarm_new_client_def)
  note built = swarm_with_driver [OF this]
  have "is_client d" "self_peer_id d = nw_peer_id nw" using built(2,4,5) by (auto simp: fixed_parts_def)
  moreover have "ClientConnected \<in> set (snd (client_event_loop True (client_new sk) wakes)) \<longleftrightarrow> peers_seen wakes \<ge> 8"
    by (auto simp: client_event_loop_connected client_new_def CLOSE_GROUP_SIZE_def)
  ultimately show ?thesis using assms by (auto simp: client_start_def connect_loop_events Let_def)
qed

theorem client_connects_with_close_group_witness:
  "(case client_start demo_swarm_env [0] [1] None None
       (replicate 7 (ClientNet (PeerAdded [2])) @ [ClientTimeout] :: ((bytes list \<times> bytes) btree_set, bytes) client_wake list) (map Some) (\<lambda>_. True) demo_fs
     of None \<Rightarrow> True | Some _ \<Rightarrow> False)"
proof -
  have "\<exists>nw (d :: ((bytes list \<times> bytes) btree_set, bytes) driver) cfg fs'.
      swarm_new_client demo_swarm_env [0] (client_is_local None) None demo_fs = Inr ((nw, d, cfg), fs')"
    by (simp add: swarm_new_client_def swarm_with_def replication_factor_ok_def demo_swarm_env_def demo_fs_def fs_create_dir_all_def
        fs_is_file_def Let_def CLOSE_GROUP_SIZE_def is_ok_def)
  then obtain nw cfg fs' and d :: "((bytes list \<times> bytes) btree_set, bytes) driver" where
    "swarm_new_client demo_swarm_env [0] (client_is_local None) None demo_fs = Inr ((nw, d, cfg), fs')" by blast
  from client_connects_with_close_group [OF this, where sk = "[1]" and wakes = "replicate 7 (ClientNet (PeerAdded [2])) @ [ClientTimeout]"
      and room = "\<lambda>_. True"]
  show ?thesis by (auto simp: peers_seen_def split: option.splits sum.splits prod.splits)
qed

end
