(* ===== verification/Faucet_Server.thy ===== *)
theory Faucet_Server
  imports Client_Faucet Client_Start Safenode
begin

text \<open>
  The faucet binary (\<open>bin/faucet/main.rs\<close> and \<open>faucet_server.rs\<close> in sn_node): it claims the genesis
  DBC for the faucet's wallet, sends tokens from it, and serves requests for tokens over HTTP. A
  request is given with the random draws its handling makes; the responses are the status code
  and the body. \<open>token_from_text\<close> is the parser of amounts.
\<close>

section \<open>Commands\<close>

datatype faucet_cmd = ClaimGenesis | SendTokens string bytes | FaucetServer

datatype 's faucet_error =
    FaucetWallet wallet_error
  | FaucetToken string
  | FaucetMsg string
  | FaucetClient "'s client_error"
  | FaucetDbc dbc_error
  | FaucetLog logging_error

record faucet_draws =
  fd_key :: main_key
  fd_genesis_indices :: "derivation_index \<times> derivation_index"
  fd_indices :: "derivation_index \<times> derivation_index"

text \<open>The result of claiming the genesis DBC is dropped; a panic is not.\<close>

definition claim_genesis :: "('d, 's::linorder, 't, 'p) node_env \<Rightarrow> ('dbc, 's, 'b) genesis_env \<Rightarrow> 'dbc codec \<Rightarrow> io_faults \<Rightarrow> ('n, 'd, 's) client_net
    \<Rightarrow> ('dbc \<Rightarrow> 's btree_set) \<Rightarrow> client \<Rightarrow> faucet_draws \<Rightarrow> file_system \<Rightarrow> 'n \<Rightarrow> ('s faucet_error failure + unit) \<times> file_system \<times> 'n" where
  "claim_genesis N G K F C dbc_spends cl dr fs n =
     (case load_faucet_wallet_from_genesis_wallet N G K F C dbc_spends cl (fd_key dr) (fst (fd_genesis_indices dr)) (snd (fd_genesis_indices dr)) fs n of
        (Inl Panic, fs, n) \<Rightarrow> (Inl Panic, fs, n)
      | (_, fs, n) \<Rightarrow> (Inr (), fs, n))"

definition send_tokens :: "(string \<Rightarrow> string + token) \<Rightarrow> ('d, 's::linorder, 't, 'p) node_env \<Rightarrow> ('dbc, 's, 'b) genesis_env \<Rightarrow> 'dbc codec \<Rightarrow> io_faults
    \<Rightarrow> ('n, 'd, 's) client_net \<Rightarrow> ('dbc \<Rightarrow> 's btree_set) \<Rightarrow> client \<Rightarrow> string \<Rightarrow> bytes \<Rightarrow> faucet_draws \<Rightarrow> file_system \<Rightarrow> 'n
    \<Rightarrow> ('s faucet_error failure + bytes) \<times> file_system \<times> 'n" where
  "send_tokens token_from_text N G K F C dbc_spends cl amount_text to_hex dr fs n =
     (case bind_result (map_err (\<lambda>e. Err (FaucetWallet e)) (parse_public_address K to_hex)) (\<lambda>to.
           bind_result (map_err (\<lambda>e. Err (FaucetToken e)) (token_from_text amount_text)) (\<lambda>amount.
             if amount = 0 then Inl (Err (FaucetMsg ''Invalid format or zero amount passed in. Nothing sent.''))
             else Inr (to, amount))) of
        Inl e \<Rightarrow> (Inl e, fs, n)
      | Inr (to, amount) \<Rightarrow>
          (case get_tokens_from_faucet N G K F C dbc_spends cl amount to (fd_key dr) (fd_genesis_indices dr) (fd_indices dr) fs n of
             (Inl e, fs, n) \<Rightarrow> (lift_err FaucetClient (Inl e), fs, n)
           | (Inr dbc, fs, n) \<Rightarrow> (map_err (\<lambda>e. Err (FaucetDbc e)) (dbc_to_hex K dbc), fs, n)))"

section \<open>The server\<close>

text \<open>\<open>trim_matches\<close> with the path separator.\<close>

definition trim_separators :: "string \<Rightarrow> string" where
  "trim_separators s = rev (dropWhile (\<lambda>c. c = CHR ''/'') (rev (dropWhile (\<lambda>c. c = CHR ''/'') s)))"

text \<open>The loop over the requests; the body of an error response is its error.\<close>

fun serve_requests :: "(string \<Rightarrow> string + token) \<Rightarrow> ('d, 's::linorder, 't, 'p) node_env \<Rightarrow> ('dbc, 's, 'b) genesis_env \<Rightarrow> 'dbc codec \<Rightarrow> io_faults
    \<Rightarrow> ('n, 'd, 's) client_net \<Rightarrow> ('dbc \<Rightarrow> 's btree_set) \<Rightarrow> client \<Rightarrow> (string \<times> faucet_draws) list \<Rightarrow> file_system \<Rightarrow> 'n
    \<Rightarrow> ('s faucet_error failure + (nat \<times> ('s faucet_error + bytes)) list) \<times> file_system \<times> 'n" where
  "serve_requests token_from_text N G K F C dbc_spends cl [] fs n = (Inr [], fs, n)"
| "serve_requests token_from_text N G K F C dbc_spends cl ((url, dr) # requests) fs n =
     (case send_tokens token_from_text N G K F C dbc_spends cl ''100'' (map of_char (trim_separators url)) dr fs n of
        (Inl Panic, fs, n) \<Rightarrow> (Inl Panic, fs, n)
      | (Inl (Err e), fs, n) \<Rightarrow>
          (case serve_requests token_from_text N G K F C dbc_spends cl requests fs n of
             (res, fs, n) \<Rightarrow> (bind_result res (\<lambda>rs. Inr ((500, Inl e) # rs)), fs, n))
      | (Inr dbc, fs, n) \<Rightarrow>
          (case serve_requests token_from_text N G K F C dbc_spends cl requests fs n of
             (res, fs, n) \<Rightarrow> (bind_result res (\<lambda>rs. Inr ((200, Inr dbc) # rs)), fs, n)))"

text \<open>\<open>server\<close> is the result of opening the port.\<close>

definition run_faucet_server :: "(string \<Rightarrow> string + token) \<Rightarrow> ('d, 's::linorder, 't, 'p) node_env \<Rightarrow> ('dbc, 's, 'b) genesis_env \<Rightarrow> 'dbc codec \<Rightarrow> io_faults
    \<Rightarrow> ('n, 'd, 's) client_net \<Rightarrow> ('dbc \<Rightarrow> 's btree_set) \<Rightarrow> client \<Rightarrow> string + unit \<Rightarrow> faucet_draws \<Rightarrow> (string \<times> faucet_draws) list \<Rightarrow> file_system \<Rightarrow> 'n
    \<Rightarrow> ('s faucet_error failure + (nat \<times> ('s faucet_error + bytes)) list) \<times> file_system \<times> 'n" where
  "run_faucet_server token_from_text N G K F C dbc_spends cl server dr requests fs n =
     (case server of
        Inl e \<Rightarrow> (Inl (Err (FaucetMsg (''Failed to start server: '' @ e))), fs, n)
      | Inr _ \<Rightarrow>
          (case claim_genesis N G K F C dbc_spends cl dr fs n of
             (Inl e, fs, n) \<Rightarrow> (Inl e, fs, n)
           | (Inr _, fs, n) \<Rightarrow> serve_requests token_from_text N G K F C dbc_spends cl requests fs n))"

definition faucet_cmds :: "(string \<Rightarrow> string + token) \<Rightarrow> ('d, 's::linorder, 't, 'p) node_env \<Rightarrow> ('dbc, 's, 'b) genesis_env \<Rightarrow> 'dbc codec \<Rightarrow> io_faults
    \<Rightarrow> ('n, 'd, 's) client_net \<Rightarrow> ('dbc \<Rightarrow> 's btree_set) \<Rightarrow> client \<Rightarrow> string + unit \<Rightarrow> faucet_draws \<Rightarrow> (string \<times> faucet_draws) list \<Rightarrow> faucet_cmd
    \<Rightarrow> file_system \<Rightarrow> 'n \<Rightarrow> ('s faucet_error failure + unit) \<times> file_system \<times> 'n" where
  "faucet_cmds token_from_text N G K F C dbc_spends cl server dr requests cmds fs n =
     (case cmds of
        ClaimGenesis \<Rightarrow> claim_genesis N G K F C dbc_spends cl dr fs n
      | SendTokens amount to \<Rightarrow>
          (case send_tokens token_from_text N G K F C dbc_spends cl amount to dr fs n of
             (res, fs, n) \<Rightarrow> (bind_result res (\<lambda>_. Inr ()), fs, n))
      | FaucetServer \<Rightarrow>
          (case run_faucet_server token_from_text N G K F C dbc_spends cl server dr requests fs n of
             (res, fs, n) \<Rightarrow> (bind_result res (\<lambda>_. Inr ()), fs, n)))"

definition faucet_parse_log_output :: "path option \<Rightarrow> string \<Rightarrow> report + log_output_dest" where
  "faucet_parse_log_output base val =
     (if val = ''stdout'' then Inr LogStdout
      else if val = ''data-dir''
      then bind_result (ok_or (Msg ''could not obtain data directory path'') base) (\<lambda>dir.
             Inr (LogPath (dir @ [''safe'', ''test_faucet'', ''logs''])))
      else Inr (LogPath (path_from_text val)))"

text \<open>\<open>connect\<close> stands for \<open>Client::new\<close> with a random key.\<close>

definition faucet_main :: "safenode_env \<Rightarrow> (string \<Rightarrow> string + token) \<Rightarrow> ('d, 's::linorder, 't, 'p) node_env \<Rightarrow> ('dbc, 's, 'b) genesis_env \<Rightarrow> 'dbc codec
    \<Rightarrow> ('n, 'd, 's) client_net \<Rightarrow> ('dbc \<Rightarrow> 's btree_set) \<Rightarrow> (multiaddr list \<Rightarrow> ('n, 's, client) client_op) \<Rightarrow> string + unit \<Rightarrow> faucet_draws
    \<Rightarrow> (string \<times> faucet_draws) list \<Rightarrow> log_output_dest option \<Rightarrow> multiaddr list \<Rightarrow> faucet_cmd \<Rightarrow> file_system \<Rightarrow> 'n
    \<Rightarrow> ('s faucet_error failure + unit) \<times> file_system \<times> 'n" where
  "faucet_main E token_from_text N G K C dbc_spends connect server dr requests dest peers cmds fs n =
     (let F = sw_faults (sys E)
      in case (case dest of
                 None \<Rightarrow> Inr fs
               | Some d \<Rightarrow> bind_result (init_logging F (sn_log_var E) [(''safe'', INFO), (''sn_client'', INFO), (''sn_networking'', INFO)] d LogDefault fs) (\<lambda>(_, fs).
                   Inr fs)) of
           Inl e \<Rightarrow> (Inl (Err (FaucetLog e)), fs, n)
         | Inr fs \<Rightarrow>
             (case connect (with_env_peers E peers) n of
                (Inl e, n) \<Rightarrow> (lift_err FaucetClient (Inl e), fs, n)
              | (Inr cl, n) \<Rightarrow> faucet_cmds token_from_text N G K F C dbc_spends cl server dr requests cmds fs n))"

section \<open>Lemmas\<close>

lemma send_tokens_Inr:
  assumes "builder_faithful (g_dbc G)" and "send_tokens tf N G K F C sp cl amount_text to_hex dr fs n = (Inr hex, fs', n')"
  shows "\<exists>dbc t to. tf amount_text = Inr t \<and> t \<noteq> 0 \<and> parse_public_address K to_hex = Inr to \<and> dbc_to_hex K dbc = Inr hex \<and>
    dbc_token (g_dbc G) dbc = Inr t \<and> (\<forall>key. main_public_address (g_dbc G) key = to \<longrightarrow> is_ok (dbc_derived_key (g_dbc G) dbc key))"
proof -
  from assms(2) obtain to t dbc fs1 n1 where t: "tf amount_text = Inr t" "t \<noteq> 0" and to: "parse_public_address K to_hex = Inr to"
    and got: "get_tokens_from_faucet N G K F C sp cl t to (fd_key dr) (fd_genesis_indices dr) (fd_indices dr) fs n = (Inr dbc, fs1, n1)"
    and hex: "dbc_to_hex K dbc = Inr hex"
    by (auto simp: send_tokens_def lift_err_def split: sum.splits prod.splits if_splits)
  from got obtain w fs2 n2 x where "send_from_wallet N (g_dbc G) K F C w t to cl True (fst (fd_indices dr)) (snd (fd_indices dr)) fs2 n2 =
      (Inr (dbc, x, fs1), n1)"
    by (auto simp: get_tokens_from_faucet_def lift_err_def split: sum.splits prod.splits)
  from send_from_wallet_Inr(1) [OF assms(1) this] t to hex show ?thesis by blast
qed

text \<open>A response to a request: an error, or the text of a DBC that belongs to the address in the URL.\<close>

definition answers :: "(string \<Rightarrow> string + token) \<Rightarrow> ('dbc, 's, 'b) genesis_env \<Rightarrow> 'dbc codec \<Rightarrow> string \<times> faucet_draws \<Rightarrow> nat \<times> ('s faucet_error + bytes) \<Rightarrow> bool" where
  "answers tf G K request response \<longleftrightarrow> (case snd response of
      Inl e \<Rightarrow> fst response = 500
    | Inr hex \<Rightarrow> fst response = 200 \<and> (\<exists>dbc t to. tf ''100'' = Inr t \<and> parse_public_address K (map of_char (trim_separators (fst request))) = Inr to \<and>
        dbc_to_hex K dbc = Inr hex \<and> dbc_token (g_dbc G) dbc = Inr t \<and>
        (\<forall>key. main_public_address (g_dbc G) key = to \<longrightarrow> is_ok (dbc_derived_key (g_dbc G) dbc key))))"

section \<open>Properties\<close>

text \<open>The faucet's server answers every request, in order: with an error, or with a DBC of exactly a
  hundred tokens which the owner of the address in the request's URL can spend.\<close>

theorem faucet_answers_exactly:
  assumes "builder_faithful (g_dbc G)"
    and "run_faucet_server tf N G K F C sp cl server dr requests fs n = (Inr responses, fs', n')"
  shows "list_all2 (answers tf G K) requests responses"
proof -
  have "list_all2 (answers tf G K) requests responses" if "serve_requests tf N G K F C sp cl requests fs n = (Inr responses, fs', n')" for fs n
    using that
  proof (induction requests arbitrary: fs n responses)
    case (Cons r requests)
    obtain url dr where r: "r = (url, dr)" by (cases r)
    obtain sent fs1 n1 where sent: "send_tokens tf N G K F C sp cl ''100'' (map of_char (trim_separators url)) dr fs n = (sent, fs1, n1)"
      by (metis prod_cases3)
    show ?case
    proof (cases sent)
      case (Inl e)
      with Cons.prems sent r Cons.IH show ?thesis by (auto simp: answers_def split: failure.splits prod.splits)
    next
      case (Inr hex)
      with Cons.prems sent r Cons.IH send_tokens_Inr [OF assms(1) sent [unfolded Inr]] show ?thesis
        by (auto simp: answers_def split: prod.splits)
    qed
  qed simp
  with assms(2) show ?thesis by (auto simp: run_faucet_server_def split: sum.splits prod.splits)
qed

theorem faucet_answers_exactly_witness:
  "\<exists>responses fs' n'. run_faucet_server (\<lambda>_. Inr 100) demo_spend_node demo_genesis_env demo_wallets_codec no_faults map_net (\<lambda>_. [fst demo_genesis_dbc])
       (client_new [1]) (Inr ()) \<lparr>fd_key = [2], fd_genesis_indices = ([3], [4]), fd_indices = ([5], [6])\<rparr>
       [(''/'', \<lparr>fd_key = [2], fd_genesis_indices = ([3], [4]), fd_indices = ([5], [6])\<rparr>)] \<lparr>fs_files = [], fs_dirs = []\<rparr> Map.empty
     = (Inr responses, fs', n') \<and> map fst responses = [500]"
proof -
  let ?dr = "\<lparr>fd_key = [2], fd_genesis_indices = ([3], [4]), fd_indices = ([5], [6])\<rparr>"
  have "parse_public_address demo_wallets_codec [] = Inl FailedToParseBlsKey"
    by (simp add: parse_public_address_def bls_public_from_hex_def ok_or_def demo_wallets_codec_def demo_codec_def)
  then have "send_tokens (\<lambda>_. Inr 100) demo_spend_node demo_genesis_env demo_wallets_codec no_faults map_net (\<lambda>_. [fst demo_genesis_dbc])
      (client_new [1]) ''100'' (map of_char (trim_separators ''/'')) ?dr fs n = (Inl (Err (FaucetWallet FailedToParseBlsKey)), fs, n)" for fs n
    by (simp add: send_tokens_def trim_separators_def)
  with demo_faucet_loaded have "\<exists>fs' n'. run_faucet_server (\<lambda>_. Inr 100) demo_spend_node demo_genesis_env demo_wallets_codec no_faults map_net
      (\<lambda>_. [fst demo_genesis_dbc]) (client_new [1]) (Inr ()) ?dr [(''/'', ?dr)] \<lparr>fs_files = [], fs_dirs = []\<rparr> Map.empty
      = (Inr [(500, Inl (FaucetWallet FailedToParseBlsKey))], fs', n')"
    by (auto simp: run_faucet_server_def claim_genesis_def)
  then obtain fs' n' where run: "run_faucet_server (\<lambda>_. Inr 100) demo_spend_node demo_genesis_env demo_wallets_codec no_faults map_net
      (\<lambda>_. [fst demo_genesis_dbc]) (client_new [1]) (Inr ()) ?dr [(''/'', ?dr)] \<lparr>fs_files = [], fs_dirs = []\<rparr> Map.empty
      = (Inr [(500, Inl (FaucetWallet FailedToParseBlsKey))], fs', n')" by blast
  have "builder_faithful (g_dbc demo_genesis_env)" by (simp add: demo_builder_faithful)
  from faucet_answers_exactly [OF this run] run show ?thesis by (auto simp: answers_def)
qed

end
