(* ===== verification/Testnet.thy ===== *)
theory Testnet
  imports Safenode
begin

text \<open>
  sn_testnet: launching the nodes of a local network (\<open>lib.rs\<close>), checking that they joined
  (\<open>check_testnet.rs\<close>) and the binary around it (\<open>main.rs\<close>). The processes that were launched are a
  list of command lines; whether the n-th launch works, the answers of the nodes' admin services,
  the regular expressions on log lines and the other programs that are run belong to
  \<open>testnet_env\<close>. The log files are those of the file system when they are read.
\<close>

section \<open>Data\<close>

type_synonym command_line = "path \<times> string list"

record testnet_env =
  te_faults :: io_faults
  te_data_dir :: "path option"
  launch_result :: "nat \<Rightarrow> string + unit"
  query_node_info :: "ipv4 \<times> 16 word \<Rightarrow> string + node_info_response"
  query_network_info :: "ipv4 \<times> 16 word \<Rightarrow> string + bytes list \<times> string list"
  peer_id_from_bytes :: "bytes \<Rightarrow> string + peer_id"
  peer_id_from_str :: "string \<Rightarrow> peer_id option"
  te_peer_text :: "peer_id \<Rightarrow> string"
  te_multiaddr :: "string \<Rightarrow> multiaddr option"
  file_lines :: "bytes \<Rightarrow> string list"
  re_node :: "string \<Rightarrow> (string \<times> string) option"
  re_listener :: "string \<Rightarrow> string option"
  random_peer :: peer_id
  cargo_install_list :: "string + string"
  which_perf :: "string + bool"
  cargo_build :: "string list \<Rightarrow> string + bool"
  features :: "string list"
  cargo_target_dir_var :: "path option"

definition DEFAULT_NODE_LAUNCH_INTERVAL :: u64 where
  "DEFAULT_NODE_LAUNCH_INTERVAL = 1000"

definition SAFENODE_BIN_NAME :: string where
  "SAFENODE_BIN_NAME = ''safenode''"

definition FAUCET_BIN_NAME :: string where
  "FAUCET_BIN_NAME = ''faucet''"

record testnet_builder =
  tb_node_bin_path :: "path option"
  tb_node_launch_interval :: "u64 option"
  tb_nodes_dir_path :: "path option"
  clear_nodes_dir :: bool
  tb_flamegraph_mode :: bool

record testnet =
  node_bin_path :: path
  node_launch_interval :: u64
  nodes_dir_path :: path
  flamegraph_mode :: bool
  node_count :: nat

definition testnet_builder_new :: testnet_builder where
  "testnet_builder_new = \<lparr>tb_node_bin_path = None, tb_node_launch_interval = None, tb_nodes_dir_path = None,
     clear_nodes_dir = False, tb_flamegraph_mode = False\<rparr>"

definition set_node_bin_path :: "path \<Rightarrow> testnet_builder \<Rightarrow> testnet_builder" where
  "set_node_bin_path p b = b\<lparr>tb_node_bin_path := Some p\<rparr>"

definition set_node_launch_interval :: "u64 \<Rightarrow> testnet_builder \<Rightarrow> testnet_builder" where
  "set_node_launch_interval i b = b\<lparr>tb_node_launch_interval := Some i\<rparr>"

definition set_nodes_dir_path :: "path \<Rightarrow> testnet_builder \<Rightarrow> testnet_builder" where
  "set_nodes_dir_path p b = b\<lparr>tb_nodes_dir_path := Some p\<rparr>"

definition set_flamegraph_mode :: "bool \<Rightarrow> testnet_builder \<Rightarrow> testnet_builder" where
  "set_flamegraph_mode f b = b\<lparr>tb_flamegraph_mode := f\<rparr>"

section \<open>Building\<close>

text \<open>Removing a directory with everything below it; \<open>None\<close> is the error kind \<open>NotFound\<close>.\<close>

definition fs_remove_dir_all :: "io_faults \<Rightarrow> path \<Rightarrow> file_system \<Rightarrow> string option + file_system" where
  "fs_remove_dir_all F p fs =
     (case F (WriteFile p) of
        Some e \<Rightarrow> Inl (Some e)
      | None \<Rightarrow>
          if p \<notin> set (fs_dirs fs) then Inl (if fs_is_file p fs then Some ''not a directory'' else None)
          else Inr \<lparr>fs_files = filter (\<lambda>(q, _). \<not> prefix p q) (fs_files fs), fs_dirs = filter (\<lambda>q. \<not> prefix p q) (fs_dirs fs)\<rparr>)"

definition child_dirs :: "path \<Rightarrow> file_system \<Rightarrow> path list" where
  "child_dirs p fs = remdups (filter (\<lambda>q. q \<noteq> [] \<and> butlast q = p) (fs_dirs fs))"

definition testnet_new :: "testnet_env \<Rightarrow> path \<Rightarrow> u64 \<Rightarrow> path \<Rightarrow> bool \<Rightarrow> file_system \<Rightarrow> report + testnet" where
  "testnet_new E bin interval dir flame fs =
     bind_result (if dir \<notin> set (fs_dirs fs) \<and> \<not> fs_is_file dir fs then Inr 0
        else (case te_faults E (ReadFile dir) of
                Some e \<Rightarrow> Inl (IoReport (IoErr e))
              | None \<Rightarrow> if fs_is_file dir fs then Inl (IoReport (IoErr ''not a directory'')) else Inr (length (child_dirs dir fs)))) (\<lambda>num.
       Inr \<lparr>node_bin_path = bin, node_launch_interval = interval, nodes_dir_path = dir, flamegraph_mode = flame, node_count = num\<rparr>)"

definition testnet_build :: "testnet_env \<Rightarrow> testnet_builder \<Rightarrow> file_system \<Rightarrow> report + testnet \<times> file_system" where
  "testnet_build E b fs =
     bind_result (ok_or (Msg ''Failed to obtain data directory path'') (te_data_dir E)) (\<lambda>base.
     let default_node_dir_path = base @ [''safe'', ''node''];
         dir = (case tb_nodes_dir_path b of Some p \<Rightarrow> p | None \<Rightarrow> default_node_dir_path)
     in bind_result (if clear_nodes_dir b \<and> (dir \<in> set (fs_dirs fs) \<or> fs_is_file dir fs)
          then map_err (\<lambda>e. IoReport (IoErr (case e of Some t \<Rightarrow> t | None \<Rightarrow> ''not found''))) (fs_remove_dir_all (te_faults E) dir fs)
          else Inr fs) (\<lambda>fs.
        bind_result (testnet_new E (case tb_node_bin_path b of Some p \<Rightarrow> p | None \<Rightarrow> [SAFENODE_BIN_NAME])
          (case tb_node_launch_interval b of Some i \<Rightarrow> i | None \<Rightarrow> DEFAULT_NODE_LAUNCH_INTERVAL) dir (tb_flamegraph_mode b) fs) (\<lambda>t.
          Inr (t, fs))))"

section \<open>Launching\<close>

definition get_launch_args :: "testnet \<Rightarrow> string \<Rightarrow> (ipv4 \<times> 16 word) option \<Rightarrow> string list \<Rightarrow> string list" where
  "get_launch_args t node_name rpc_address node_args =
     (if flamegraph_mode t
      then [''flamegraph'', ''--output'', show_path (nodes_dir_path t @ [node_name @ ''-flame.svg'']), ''--root'', ''--bin'', ''safenode'', ''--''] else []) @
     [''--log-output-dest'', ''data-dir'', ''--local''] @
     (case rpc_address of Some (ip, port) \<Rightarrow> [''--rpc'', show_socket_addr ip port] | None \<Rightarrow> []) @ node_args"

definition get_launch_bin :: "testnet \<Rightarrow> path" where
  "get_launch_bin t = (if flamegraph_mode t then [''cargo''] else node_bin_path t)"

definition launch :: "testnet_env \<Rightarrow> path \<Rightarrow> string list \<Rightarrow> command_line list \<Rightarrow> (report failure + unit) \<times> command_line list" where
  "launch E bin args launched =
     (case launch_result E (length launched) of
        Inl e \<Rightarrow> (Inl (Err (IoReport (IoErr e))), launched)
      | Inr _ \<Rightarrow> (Inr (), launched @ [(bin, args)]))"

definition parse_socket :: "string \<Rightarrow> report failure + ipv4 \<times> 16 word" where
  "parse_socket text = ok_or (Err (Msg ''invalid socket address syntax'')) (socket_addr_v4_from_str text)"

definition te_obtain_peer_id :: "testnet_env \<Rightarrow> ipv4 \<times> 16 word \<Rightarrow> report failure + peer_id" where
  "te_obtain_peer_id E address =
     bind_result (map_err (\<lambda>e. Err (Msg e)) (query_node_info E address)) (\<lambda>info.
       map_err (\<lambda>e. Err (Msg e)) (peer_id_from_bytes E (ni_peer_id info)))"

definition genesis_multi_addr :: "testnet_env \<Rightarrow> peer_id \<Rightarrow> string" where
  "genesis_multi_addr E peer = ''/ip4/127.0.0.1/tcp/'' @ decimal 11101 @ ''/p2p/'' @ te_peer_text E peer"

definition launch_genesis :: "testnet_env \<Rightarrow> testnet \<Rightarrow> string list \<Rightarrow> command_line list \<Rightarrow> (report failure + string) \<times> command_line list" where
  "launch_genesis E t node_args launched =
     (if node_count t \<noteq> 0 then (Inl (Err (Msg ''A new testnet cannot be launched until the data directory is cleared'')), launched)
      else case parse_socket ''127.0.0.1:12001'' of
        Inl e \<Rightarrow> (Inl e, launched)
      | Inr rpc_address \<Rightarrow>
          let launch_args = get_launch_args t ''safenode-1'' (Some rpc_address) node_args @ [''--port'', decimal 11101]
          in case launch E (get_launch_bin t) launch_args launched of
               (Inl e, launched) \<Rightarrow> (Inl e, launched)
             | (Inr _, launched) \<Rightarrow>
                 (case te_obtain_peer_id E rpc_address of
                    Inl e \<Rightarrow> (Inl e, launched)
                  | Inr peer \<Rightarrow> (Inr (genesis_multi_addr E peer), launched)))"

definition rpc_text :: "nat \<Rightarrow> string" where
  "rpc_text port = ''127.0.0.1:'' @ decimal port"

fun launch_loop :: "testnet_env \<Rightarrow> testnet \<Rightarrow> string list \<Rightarrow> nat list \<Rightarrow> command_line list \<Rightarrow> (report failure + unit) \<times> command_line list" where
  "launch_loop E t node_args [] launched = (Inr (), launched)"
| "launch_loop E t node_args (i # rest) launched =
     (case parse_socket (rpc_text (12000 + i)) of
        Inl e \<Rightarrow> (Inl e, launched)
      | Inr rpc_address \<Rightarrow>
          (case launch E (get_launch_bin t) (get_launch_args t (''safenode-'' @ decimal i) (Some rpc_address) node_args) launched of
             (Inl e, launched) \<Rightarrow> (Inl e, launched)
           | (Inr _, launched) \<Rightarrow> launch_loop E t node_args rest launched))"

definition launch_nodes :: "testnet_env \<Rightarrow> testnet \<Rightarrow> nat \<Rightarrow> string list \<Rightarrow> command_line list
    \<Rightarrow> (report failure + unit) \<times> testnet \<times> command_line list" where
  "launch_nodes E t number_of_nodes node_args launched =
     (let start = (if node_count t = 0 then node_count t + 2 else node_count t + 1);
          last_node = node_count t + number_of_nodes
      in case launch_loop E t node_args [start..<Suc last_node] launched of
           (Inl e, launched) \<Rightarrow> (Inl e, t, launched)
         | (Inr _, launched) \<Rightarrow> (Inr (), t\<lparr>node_count := node_count t + number_of_nodes\<rparr>, launched))"

section \<open>Checking\<close>

definition LOG_FILENAME_PREFIX :: string where
  "LOG_FILENAME_PREFIX = ''safenode.log''"

record log_info =
  li_pid :: "32 word"
  li_peer_id :: peer_id
  li_listeners :: "multiaddr list"
  li_log_path :: path

definition update_node_info :: "testnet_env \<Rightarrow> (path, log_info) btree_map \<Rightarrow> path \<Rightarrow> (32 word \<times> peer_id) option \<Rightarrow> multiaddr option
    \<Rightarrow> (path, log_info) btree_map" where
  "update_node_info E nodes log_path peer_info listener =
     (let info = (case bm_get nodes log_path of Some i \<Rightarrow> i
            | None \<Rightarrow> \<lparr>li_pid = 0, li_peer_id = random_peer E, li_listeners = [], li_log_path = log_path\<rparr>);
          info = (case peer_info of Some (pid, peer) \<Rightarrow> info\<lparr>li_pid := pid, li_peer_id := peer\<rparr> | None \<Rightarrow> info)
      in bm_insert log_path (info\<lparr>li_listeners := li_listeners info @ (case listener of Some a \<Rightarrow> [a] | None \<Rightarrow> [])\<rparr>) nodes)"

definition parse_u32 :: "string \<Rightarrow> 32 word option" where
  "parse_u32 s = (case read_number None True (2 ^ 32) s of Some (n, []) \<Rightarrow> Some (word_of_nat n) | _ \<Rightarrow> None)"

definition log_line :: "testnet_env \<Rightarrow> path \<Rightarrow> (path, log_info) btree_map \<Rightarrow> string \<Rightarrow> report failure + (path, log_info) btree_map" where
  "log_line E log_path nodes line =
     bind_result (case re_node E line of
         None \<Rightarrow> Inr nodes
       | Some (pid_text, peer_text) \<Rightarrow>
           bind_result (ok_or Panic (parse_u32 pid_text)) (\<lambda>pid.
           bind_result (ok_or Panic (peer_id_from_str E peer_text)) (\<lambda>peer.
             Inr (update_node_info E nodes log_path (Some (pid, peer)) None)))) (\<lambda>nodes.
     case re_listener E line of
       None \<Rightarrow> Inr nodes
     | Some text \<Rightarrow> bind_result (ok_or Panic (te_multiaddr E text)) (\<lambda>a. Inr (update_node_info E nodes log_path None (Some a))))"

definition nodes_info_from_logs :: "testnet_env \<Rightarrow> path \<Rightarrow> file_system \<Rightarrow> report failure + (32 word, log_info) btree_map" where
  "nodes_info_from_logs E p fs =
     bind_result (try_fold (\<lambda>nodes (file_path, content).
         if prefix LOG_FILENAME_PREFIX (last file_path)
         then (case te_faults E (ReadFile file_path) of
                 Some e \<Rightarrow> Inl (Err (IoReport (IoErr e)))
               | None \<Rightarrow> try_fold (log_line E (butlast file_path)) nodes (file_lines E content))
         else Inr nodes) [] (filter (\<lambda>(q, _). q \<noteq> [] \<and> prefix p q) (fs_files fs))) (\<lambda>nodes.
       Inr (bm_collect (map (\<lambda>info. (li_pid info, info)) (bm_values nodes))))"

definition send_rpc_queries_to_node :: "testnet_env \<Rightarrow> ipv4 \<times> 16 word \<Rightarrow> report failure + log_info \<times> peer_id btree_set" where
  "send_rpc_queries_to_node E addr =
     bind_result (map_err (\<lambda>e. Err (Msg e)) (query_node_info E addr)) (\<lambda>info.
     bind_result (map_err (\<lambda>e. Err (Msg e)) (peer_id_from_bytes E (ni_peer_id info))) (\<lambda>peer.
     bind_result (map_err (\<lambda>e. Err (Msg e)) (query_network_info E addr)) (\<lambda>(connected, listening_on).
     bind_result (try_fold (\<lambda>as text. bind_result (ok_or Panic (te_multiaddr E text)) (\<lambda>a. Inr (as @ [a @ [P2p peer]]))) [] listening_on) (\<lambda>addrs.
     bind_result (try_fold (\<lambda>ps b. case peer_id_from_bytes E b of Inl _ \<Rightarrow> Inl Panic | Inr q \<Rightarrow> Inr (ps @ [q])) [] connected) (\<lambda>peers.
       Inr (\<lparr>li_pid = ni_pid info, li_peer_id = peer, li_listeners = addrs, li_log_path = path_from_text (ni_log_dir info)\<rparr>,
            bs_collect peers))))))"

text \<open>The port is computed with 16 bits. Listeners and connections that differ are only printed.\<close>

fun check_nodes :: "testnet_env \<Rightarrow> (32 word, log_info) btree_map \<Rightarrow> nat list \<Rightarrow> report failure + unit" where
  "check_nodes E nodes [] = Inr ()"
| "check_nodes E nodes (i # rest) =
     bind_result (parse_socket (rpc_text (unat (12000 + of_nat i :: 16 word)))) (\<lambda>rpc_addr.
     bind_result (send_rpc_queries_to_node E rpc_addr) (\<lambda>(info, connected).
     bind_result (ok_or Panic (bm_get nodes (li_pid info))) (\<lambda>log.
       if li_peer_id info \<noteq> li_peer_id log then Inl Panic
       else check_nodes E nodes rest)))"

definition check_testnet_run :: "testnet_env \<Rightarrow> path \<Rightarrow> nat \<Rightarrow> file_system \<Rightarrow> report failure + unit" where
  "check_testnet_run E logs_path expected_node_count fs =
     bind_result (nodes_info_from_logs E logs_path fs) (\<lambda>nodes.
       if length nodes \<noteq> expected_node_count then Inl Panic
       else check_nodes E nodes [1..<length nodes + 1])"

section \<open>The binary\<close>

definition DEFAULT_NODE_COUNT :: "32 word" where
  "DEFAULT_NODE_COUNT = 25"

text \<open>A path argument: whether it is absolute, and its components.\<close>

record testnet_cmd =
  tc_join_network :: bool
  tc_node_launch_interval :: "u64 option"
  tc_flame :: bool
  tc_build_node :: bool
  tc_node_path :: "(bool \<times> path) option"
  tc_build_faucet :: bool
  tc_faucet_path :: "(bool \<times> path) option"
  tc_node_count :: "32 word option"
  tc_clean :: bool
  tc_node_args :: "string list"

definition push_path :: "path \<Rightarrow> bool \<times> path \<Rightarrow> path" where
  "push_path base p = (if fst p then snd p else base @ snd p)"

definition contains_text :: "string \<Rightarrow> string \<Rightarrow> bool" where
  "contains_text t pat \<longleftrightarrow> (\<exists>k \<in> set [0..<Suc (length t)]. prefix pat (drop k t))"

definition check_flamegraph_prerequisites :: "testnet_env \<Rightarrow> report failure + unit" where
  "check_flamegraph_prerequisites E =
     bind_result (map_err (\<lambda>e. Err (IoReport (IoErr e))) (cargo_install_list E)) (\<lambda>stdout.
       if \<not> contains_text stdout ''flamegraph'' then Inl (Err (Msg ''You do not appear to have an installation of flamegraph''))
       else bind_result (map_err (\<lambda>e. Err (IoReport (IoErr e))) (which_perf E)) (\<lambda>success.
         if \<not> success then Inl (Err (Msg ''You do not appear to have the 'perf' tool installed, which is required for using flamegraph''))
         else Inr ()))"

definition build_binaries :: "testnet_env \<Rightarrow> string list \<Rightarrow> report failure + unit" where
  "build_binaries E binaries_to_build =
     (let args = [''build'', ''--release''] @ concat (map (\<lambda>bin. [''--bin'', bin]) binaries_to_build) @
            concat (map (\<lambda>f. if f \<in> set (features E) then [''--features'', f] else []) [''chaos'', ''statemap'', ''otlp'', ''local-discovery''])
      in bind_result (map_err (\<lambda>e. Err (IoReport (IoErr e))) (cargo_build E args)) (\<lambda>success.
           if \<not> success then Inl (Err (Msg ''Failed to build binaries'')) else Inr ()))"

definition run_faucet :: "testnet_env \<Rightarrow> string \<Rightarrow> path \<Rightarrow> file_system \<Rightarrow> command_line list \<Rightarrow> (report failure + unit) \<times> command_line list" where
  "run_faucet E gen_multi_addr bin fs launched =
     (case testnet_build E (set_node_bin_path bin testnet_builder_new) fs of
        Inl e \<Rightarrow> (Inl (Err e), launched)
      | Inr (t, _) \<Rightarrow>
          (case te_data_dir E of
             None \<Rightarrow> (Inl (Err (Msg ''could not obtain data directory path'')), launched)
           | Some base \<Rightarrow>
               launch E (node_bin_path t) [''--log-output-dest'', show_path (base @ [''safe'', ''test_faucet'', ''server_logs'']),
                 ''--peer'', gen_multi_addr, ''server''] launched))"

text \<open>\<open>fs'\<close> is the file system after the nodes ran for a while, whose log files are checked.\<close>

definition run_network :: "testnet_env \<Rightarrow> path \<Rightarrow> u64 \<Rightarrow> 32 word \<Rightarrow> string list \<Rightarrow> bool \<Rightarrow> file_system \<Rightarrow> file_system \<Rightarrow> command_line list
    \<Rightarrow> (report failure + string) \<times> command_line list" where
  "run_network E bin interval num node_args flame fs fs' launched =
     (case testnet_build E (set_flamegraph_mode flame (set_node_launch_interval interval (set_node_bin_path bin testnet_builder_new))) fs of
        Inl e \<Rightarrow> (Inl (Err e), launched)
      | Inr (t, _) \<Rightarrow>
          (case launch_genesis E t node_args launched of
             (Inl e, launched) \<Rightarrow> (Inl e, launched)
           | (Inr gen_multi_addr, launched) \<Rightarrow>
               (case launch_nodes E t (unat num) (node_args @ [''--peer'', gen_multi_addr]) launched of
                  (Inl e, _, launched) \<Rightarrow> (Inl e, launched)
                | (Inr _, t, launched) \<Rightarrow>
                    (bind_result (check_testnet_run E (nodes_dir_path t) (unat num) fs') (\<lambda>_. Inr gen_multi_addr), launched))))"

definition join_network :: "testnet_env \<Rightarrow> path \<Rightarrow> u64 \<Rightarrow> 32 word \<Rightarrow> string list \<Rightarrow> file_system \<Rightarrow> command_line list
    \<Rightarrow> (report failure + unit) \<times> command_line list" where
  "join_network E bin interval num node_args fs launched =
     (case testnet_build E (set_node_launch_interval interval (set_node_bin_path bin testnet_builder_new)) fs of
        Inl e \<Rightarrow> (Inl (Err e), launched)
      | Inr (t, _) \<Rightarrow>
          (case launch_nodes E t (unat num + 1) node_args launched of (res, _, launched) \<Rightarrow> (res, launched)))"

definition bin_path :: "testnet_env \<Rightarrow> path \<Rightarrow> (bool \<times> path) option \<Rightarrow> bool \<Rightarrow> string \<Rightarrow> report failure + path" where
  "bin_path E base given build name =
     (case given of
        Some p \<Rightarrow> Inr (push_path base p)
      | None \<Rightarrow> if build then bind_result (build_binaries E [name]) (\<lambda>_. Inr (base @ [''target'', ''release'', name]))
                else Inr (base @ [name]))"

definition testnet_main :: "testnet_env \<Rightarrow> testnet_cmd \<Rightarrow> file_system \<Rightarrow> (file_system \<Rightarrow> file_system)
    \<Rightarrow> (report failure + unit) \<times> command_line list" where
  "testnet_main E args fs later =
     (let cleaned = (if tc_clean args
            then bind_result (ok_or (Err (Msg ''could not obtain root directory path'')) (te_data_dir E)) (\<lambda>base.
                   case fs_remove_dir_all (te_faults E) (base @ [''safe'']) fs of
                     Inr fs \<Rightarrow> Inr fs
                   | Inl None \<Rightarrow> Inr fs
                   | Inl (Some e) \<Rightarrow> Inl (Err (IoReport (IoErr e))))
            else Inr fs);
          base = (case cargo_target_dir_var E of Some dir \<Rightarrow> butlast dir | None \<Rightarrow> []);
          interval = (case tc_node_launch_interval args of Some i \<Rightarrow> i | None \<Rightarrow> DEFAULT_NODE_LAUNCH_INTERVAL)
      in case bind_result cleaned (\<lambda>fs.
              bind_result (if tc_flame args then check_flamegraph_prerequisites E else Inr ()) (\<lambda>_.
              bind_result (bin_path E base (tc_node_path args) (tc_build_node args) SAFENODE_BIN_NAME) (\<lambda>bin. Inr (fs, bin)))) of
           Inl e \<Rightarrow> (Inl e, [])
         | Inr (fs, bin) \<Rightarrow>
             if tc_join_network args
             then (case tc_node_count args of
                     None \<Rightarrow> (Inl (Err (Msg ''A node count must be specified for joining an existing network'')), [])
                   | Some num \<Rightarrow> join_network E bin interval num (tc_node_args args) fs [])
             else (case run_network E bin interval (case tc_node_count args of Some c \<Rightarrow> c | None \<Rightarrow> DEFAULT_NODE_COUNT)
                        (tc_node_args args) (tc_flame args) fs (later fs) [] of
                     (Inl e, launched) \<Rightarrow> (Inl e, launched)
                   | (Inr gen_multi_addr, launched) \<Rightarrow>
                       (case bin_path E base (tc_faucet_path args) (tc_build_faucet args) FAUCET_BIN_NAME of
                          Inl e \<Rightarrow> (Inl e, launched)
                        | Inr faucet \<Rightarrow> run_faucet E gen_multi_addr faucet (later fs) launched)))"

section \<open>Lemmas\<close>

abbreviation localhost :: ipv4 where
  "localhost \<equiv> (127, 0, 0, 1)"

definition rpc_socket :: "nat \<Rightarrow> ipv4 \<times> 16 word" where
  "rpc_socket i = (localhost, of_nat (12000 + i))"

lemma show_localhost:
  assumes "k < 65536"
  shows "show_socket_addr localhost (of_nat k) = rpc_text k"
proof -
  have "decimal 127 = ''127''" "decimal 1 = ''1''" "decimal 0 = ''0''" by code_simp+
  moreover have "unat (of_nat k :: 16 word) = k" using assms by (simp add: unat_of_nat)
  ultimately show ?thesis by (simp add: show_socket_addr_def rpc_text_def)
qed

lemma parse_rpc_text:
  assumes "12000 + i < 65536"
  shows "parse_socket (rpc_text (12000 + i)) = Inr (rpc_socket i)"
  unfolding show_localhost [OF assms, symmetric] by (simp add: parse_socket_def ok_or_def socket_addr_v4_show rpc_socket_def)

text \<open>The command line of the i-th node.\<close>

definition node_command :: "testnet \<Rightarrow> string list \<Rightarrow> nat \<Rightarrow> command_line" where
  "node_command t node_args i = (get_launch_bin t, get_launch_args t (''safenode-'' @ decimal i) (Some (rpc_socket i)) node_args)"

lemma launch_loop_ok:
  assumes "\<And>n. launch_result E n = Inr ()" and "\<forall>i \<in> set js. 12000 + i < 65536"
  shows "launch_loop E t node_args js launched = (Inr (), launched @ map (node_command t node_args) js)"
  using assms(2)
proof (induction js arbitrary: launched)
  case (Cons i js)
  then have "parse_socket (rpc_text (12000 + i)) = Inr (rpc_socket i)" by (intro parse_rpc_text) simp
  with Cons show ?case by (simp add: launch_def assms(1) node_command_def)
qed simp

lemma launch_nodes_ok:
  assumes "\<And>n. launch_result E n = Inr ()" and "12000 + (node_count t + num) < 65536"
  shows "launch_nodes E t num node_args launched = (Inr (), t\<lparr>node_count := node_count t + num\<rparr>, launched @ map (node_command t node_args)
    [node_count t + (if node_count t = 0 then 2 else 1)..<Suc (node_count t + num)])"
  using assms(2) by (simp add: launch_nodes_def launch_loop_ok [OF assms(1)] Let_def del: upt_Suc)

definition fresh_dir :: "testnet_env \<Rightarrow> path \<Rightarrow> file_system \<Rightarrow> bool" where
  "fresh_dir E base fs \<longleftrightarrow> te_data_dir E = Some base \<and> (\<forall>p. te_faults E p = None) \<and> \<not> fs_is_file (base @ [''safe'', ''node'']) fs"

lemma testnet_build_ok:
  assumes "fresh_dir E base fs"
  shows "testnet_build E (set_node_launch_interval interval (set_node_bin_path bin testnet_builder_new)) fs =
      Inr (\<lparr>node_bin_path = bin, node_launch_interval = interval, nodes_dir_path = base @ [''safe'', ''node''], flamegraph_mode = False,
        node_count = (if base @ [''safe'', ''node''] \<in> set (fs_dirs fs) then length (child_dirs (base @ [''safe'', ''node'']) fs) else 0)\<rparr>, fs)"
  using assms by (simp add: fresh_dir_def testnet_build_def testnet_new_def set_node_launch_interval_def set_node_bin_path_def testnet_builder_new_def
      ok_or_def Let_def)

lemma decimal_ports: "decimal 12001 = ''12001''" "decimal 11101 = ''11101''"
  by (simp_all add: decimal.simps char_of_def bit_Suc_0_iff)

lemma launch_genesis_ok:
  assumes "\<And>n. launch_result E n = Inr ()" and "te_obtain_peer_id E (rpc_socket 1) = Inr peer" and "node_count t = 0"
  shows "launch_genesis E t node_args [] = (Inr (genesis_multi_addr E peer),
    [(get_launch_bin t, get_launch_args t ''safenode-1'' (Some (rpc_socket 1)) node_args @ [''--port'', ''11101''])])"
proof -
  have "parse_socket ''127.0.0.1:12001'' = Inr (rpc_socket 1)"
    using parse_rpc_text [of 1] by (simp add: decimal_ports rpc_text_def)
  with assms show ?thesis by (simp add: launch_genesis_def launch_def decimal_ports Let_def)
qed

text \<open>The processes of a new network.\<close>

lemma run_network_launches:
  assumes "fresh_dir E base fs" and "child_dirs (base @ [''safe'', ''node'']) fs = []" and "\<And>n. launch_result E n = Inr ()"
    and "te_obtain_peer_id E (rpc_socket 1) = Inr peer" and "unat num \<le> 53535"
    and "addr = genesis_multi_addr E peer"
  obtains t where "node_bin_path t = bin" and "\<not> flamegraph_mode t"
    and "snd (run_network E bin interval num node_args False fs fs' []) =
      (bin, get_launch_args t ''safenode-1'' (Some (rpc_socket 1)) node_args @ [''--port'', ''11101'']) #
      map (node_command t (node_args @ [''--peer'', addr])) [2..<Suc (unat num)]"
proof -
  let ?t = "\<lparr>node_bin_path = bin, node_launch_interval = interval, nodes_dir_path = base @ [''safe'', ''node''], flamegraph_mode = False, node_count = 0\<rparr>"
  have "set_flamegraph_mode False b = b" if "\<not> tb_flamegraph_mode b" for b using that by (simp add: set_flamegraph_mode_def)
  then have flame: "set_flamegraph_mode False (set_node_launch_interval interval (set_node_bin_path bin testnet_builder_new)) =
      set_node_launch_interval interval (set_node_bin_path bin testnet_builder_new)"
    by (simp add: set_node_launch_interval_def set_node_bin_path_def testnet_builder_new_def)
  have "snd (run_network E bin interval num node_args False fs fs' []) =
      (bin, get_launch_args ?t ''safenode-1'' (Some (rpc_socket 1)) node_args @ [''--port'', ''11101'']) #
      map (node_command ?t (node_args @ [''--peer'', addr])) [2..<Suc (unat num)]"
    using assms by (simp add: run_network_def flame testnet_build_ok launch_genesis_ok launch_nodes_ok get_launch_bin_def numeral_2_eq_2 del: upt_Suc)
  then show thesis by (rule that [rotated 2]) simp_all
qed

lemma nth_four: "(a # b # c # d # e # xs) ! 4 = e"
  by (simp add: numeral_eq_Suc)

lemma node_command_parts:
  assumes "\<not> flamegraph_mode t" and "12000 + i < 65536"
  shows "fst (node_command t args i) = node_bin_path t" and "snd (node_command t args i) ! 4 = rpc_text (12000 + i)"
    and "suffix args (snd (node_command t args i))"
  using assms show_localhost [OF assms(2)]
  by (simp_all add: node_command_def get_launch_bin_def get_launch_args_def rpc_socket_def suffix_def nth_four del: of_nat_add)

section \<open>Properties\<close>

text \<open>C33: Running a new network of n nodes launches n processes: a genesis node that listens on port 11101
  and n - 1 nodes that are given its address, in this order, each with an admin service of its
  own on the ports from 12001 on. This holds for up to 53535 nodes, when the data directory has
  no nodes yet and the processes start.\<close>

theorem network_launch:
  assumes "fresh_dir E base fs" and "child_dirs (base @ [''safe'', ''node'']) fs = []" and "\<And>n. launch_result E n = Inr ()"
    and "te_obtain_peer_id E (rpc_socket 1) = Inr peer" and "1 \<le> unat num" and "unat num \<le> 53535"
    and "launched = snd (run_network E bin interval num node_args False fs fs' [])"
    and "addr = genesis_multi_addr E peer"
  shows "length launched = unat num \<and> (\<forall>c \<in> set launched. fst c = bin) \<and>
    map (\<lambda>c. snd c ! 4) launched = map (\<lambda>i. rpc_text (12000 + i)) [1..<Suc (unat num)] \<and>
    suffix [''--port'', ''11101''] (snd (hd launched)) \<and> (\<forall>c \<in> set (tl launched). suffix [''--peer'', addr] (snd c))"
proof -
  obtain t where t: "node_bin_path t = bin" "\<not> flamegraph_mode t"
    and l: "launched = (bin, get_launch_args t ''safenode-1'' (Some (rpc_socket 1)) node_args @ [''--port'', ''11101'']) #
      map (node_command t (node_args @ [''--peer'', addr])) [2..<Suc (unat num)]" (is "_ = ?g # map ?c ?is")
    unfolding assms(7) by (rule run_network_launches [OF assms(1-4,6,8)])
  have cmd: "fst (?c i) = bin" "snd (?c i) ! 4 = rpc_text (12000 + i)" "suffix [''--peer'', addr] (snd (?c i))"
    if "i \<in> set ?is" for i
    using that assms(6) t node_command_parts [OF t(2), of i "node_args @ [''--peer'', addr]"]
    by (auto intro: suffix_order.trans [OF suffixI])
  have "snd ?g ! 4 = rpc_text (12000 + 1)"
    using t(2) show_localhost [of 12001] by (simp add: get_launch_args_def rpc_socket_def nth_four del: of_nat_add)
  moreover have "[1..<Suc (unat num)] = 1 # ?is" using assms(5) upt_conv_Cons [of 1 "Suc (unat num)"] by (simp add: numeral_2_eq_2)
  ultimately show ?thesis using cmd assms(5) unfolding l by (auto simp: suffix_def simp del: upt_Suc)
qed

definition demo_testnet :: testnet_env where
  "demo_testnet = \<lparr>te_faults = no_faults, te_data_dir = Some [''data''], launch_result = (\<lambda>_. Inr ()),
     query_node_info = (\<lambda>_. Inr (rpc_node_info demo_safenode \<lparr>nw_peer_id = [1], root_dir_path = [''node''], keypair = [1]\<rparr> ''stdout'' 3)),
     query_network_info = (\<lambda>_. Inr ([], [])), peer_id_from_bytes = Inr, peer_id_from_str = (\<lambda>_. None), te_peer_text = (\<lambda>_. ''p''),
     te_multiaddr = (\<lambda>_. None), file_lines = (\<lambda>_. []), re_node = (\<lambda>_. None), re_listener = (\<lambda>_. None), random_peer = [],
     cargo_install_list = Inr [], which_perf = Inr True, cargo_build = (\<lambda>_. Inr True), features = [], cargo_target_dir_var = None\<rparr>"

lemma demo_testnet_laws:
  "fresh_dir demo_testnet [''data''] demo_fs" "launch_result demo_testnet n = Inr ()" "te_obtain_peer_id demo_testnet a = Inr [1]"
  by (simp_all add: demo_testnet_def fresh_dir_def demo_fs_def fs_is_file_def te_obtain_peer_id_def rpc_node_info_def running_peer_id_def)

theorem network_launch_witness:
  "length (snd (run_network demo_testnet [''safenode''] 1000 25 [] False demo_fs demo_fs [])) = 25"
proof -
  have "child_dirs ([''data''] @ [''safe'', ''node'']) demo_fs = []" by (simp add: child_dirs_def demo_fs_def)
  from network_launch [OF demo_testnet_laws(1) this demo_testnet_laws(2,3), of 25 _ "[''safenode'']" 1000 "[]" demo_fs, OF _ _ refl refl]
  show ?thesis by simp
qed

text \<open>Nodes that join a network with nodes in the data directory are one more than asked for: the
  offset that makes up for a genesis node is added although the directory of the genesis node was
  already counted.\<close>

theorem join_launches_one_more:
  assumes "fresh_dir E base fs" and "base @ [''safe'', ''node''] \<in> set (fs_dirs fs)" and "child_dirs (base @ [''safe'', ''node'']) fs \<noteq> []"
    and "\<And>n. launch_result E n = Inr ()" and "12000 + length (child_dirs (base @ [''safe'', ''node'']) fs) + unat num + 1 < 65536"
  shows "fst (join_network E bin interval num node_args fs []) = Inr () \<and>
    length (snd (join_network E bin interval num node_args fs [])) = unat num + 1"
  using assms by (simp add: join_network_def testnet_build_ok launch_nodes_ok del: upt_Suc)

theorem join_launches_one_more_witness:
  "length (snd (join_network demo_testnet [''safenode''] 1000 5 []
     \<lparr>fs_files = [], fs_dirs = [[''data'', ''safe'', ''node''], [''data'', ''safe'', ''node'', ''a''], [''data'', ''safe'', ''node'', ''b'']]\<rparr> [])) = 6"
proof -
  let ?fs = "\<lparr>fs_files = [], fs_dirs = [[''data'', ''safe'', ''node''], [''data'', ''safe'', ''node'', ''a''], [''data'', ''safe'', ''node'', ''b'']]\<rparr>"
  have "fresh_dir demo_testnet [''data''] ?fs" by (simp add: demo_testnet_def fresh_dir_def fs_is_file_def)
  moreover have "[''data''] @ [''safe'', ''node''] \<in> set (fs_dirs ?fs)" by simp
  moreover have "length (child_dirs ([''data''] @ [''safe'', ''node'']) ?fs) = 2" by (simp add: child_dirs_def)
  ultimately show ?thesis
    using join_launches_one_more [OF _ _ _ demo_testnet_laws(2), of "[''data'']" ?fs 5 "[''safenode'']" 1000 "[]"] by force
qed

end
