(* ===== verification/Store_Refinement.thy ===== *)
theory Store_Refinement
  imports Record_Store
begin

text \<open>
  What the record store promises: a map from keys to values of bounded size, in which a new
  record takes the place of a furthest one when there is no room. The store of
  \<open>record_store.rs\<close> refines it although its files are written and removed by tasks that run
  later, as long as the tasks of one file run in the order in which they were spawned.
\<close>

section \<open>The abstract store\<close>

datatype store_op = PutOp "record_key list" kad_record | RemoveOp record_key | TaskOp nat

text \<open>A bounded map of a node \<open>self\<close>; the tasks of the file system are invisible.\<close>

inductive map_step :: "('d, 's) wire_env \<Rightarrow> bytes \<Rightarrow> nat \<Rightarrow> store_op \<Rightarrow> (record_key \<rightharpoonup> bytes) \<Rightarrow> (record_key \<rightharpoonup> bytes) \<Rightarrow> bool"
  for W self cap where
  put_room: "card (dom m) < cap \<Longrightarrow> map_step W self cap (PutOp iter r) m (m(rec_key r \<mapsto> rec_value r))"
| put_evict: "card (dom m) = cap \<Longrightarrow> far \<in> dom m \<Longrightarrow> \<forall>k \<in> dom m. kad_distance W self k \<le> kad_distance W self far \<Longrightarrow>
    kad_distance W self (rec_key r) < kad_distance W self far \<Longrightarrow>
    map_step W self cap (PutOp iter r) m (m(far := None, rec_key r \<mapsto> rec_value r))"
| put_refused: "card (dom m) = cap \<Longrightarrow> \<forall>k \<in> dom m. kad_distance W self k \<le> kad_distance W self (rec_key r) \<Longrightarrow>
    map_step W self cap (PutOp iter r) m m"
| removed: "map_step W self cap (RemoveOp k) m (m(k := None))"
| task_done: "map_step W self cap (TaskOp i) m m"

section \<open>The store as a system\<close>

text \<open>A call of the store, or the completion of a spawned task. A refused record leaves the store as it is.\<close>

definition store_step :: "('d, 's) wire_env \<Rightarrow> store_op \<Rightarrow> record_store \<Rightarrow> record_store" where
  "store_step W op s = (case op of
     PutOp iter r \<Rightarrow> (case put_verified W iter s r of Inr s' \<Rightarrow> s' | Inl _ \<Rightarrow> s)
   | RemoveOp k \<Rightarrow> remove_record s k
   | TaskOp i \<Rightarrow> run_task True i s)"

text \<open>The tasks of one file run in the order in which they were spawned.\<close>

definition op_allowed :: "store_op \<Rightarrow> record_store \<Rightarrow> bool" where
  "op_allowed op s = (case op of
     PutOp iter r \<Rightarrow> iterates iter s
   | RemoveOp k \<Rightarrow> True
   | TaskOp i \<Rightarrow> i < length (tasks s) \<longrightarrow> (\<forall>t \<in> set (take i (tasks s)). task_file t \<noteq> task_file (tasks s ! i)))"

text \<open>What a file holds once the tasks that are pending for it have run.\<close>

fun task_effect :: "disk_task \<Rightarrow> bytes option \<Rightarrow> bytes option" where
  "task_effect (WriteTask f v) _ = Some v"
| "task_effect (RemoveTask f) _ = None"

definition settled :: "record_store \<Rightarrow> string \<Rightarrow> bytes option" where
  "settled s f = fold task_effect (filter (\<lambda>t. task_file t = f) (tasks s)) (bm_get (disk s) f)"

definition contents :: "record_store \<Rightarrow> record_key \<rightharpoonup> bytes" where
  "contents s = (\<lambda>k. if rs_contains s k then settled s (key_to_hex k) else None)"

definition store_inv :: "bytes \<Rightarrow> nat \<Rightarrow> record_store \<Rightarrow> bool" where
  "store_inv self cap s \<longleftrightarrow> store_ok s \<and> bm_ok (disk s) \<and> local_key s = self \<and> max_records (config s) = cap \<and>
     (\<forall>k \<in> set (records s). settled s (key_to_hex k) \<noteq> None)"

section \<open>Refinement\<close>

lemma settled_put:
  "settled (s\<lparr>records := R, tasks := tasks s @ ts\<rparr>) f = fold task_effect (filter (\<lambda>t. task_file t = f) ts) (settled s f)"
  by (simp add: settled_def)

lemma settled_remove: "settled (remove_record s k) f = (if f = key_to_hex k then None else settled s f)"
  by (simp add: settled_def)

text \<open>Running the oldest task of a file leaves what the file will hold.\<close>

lemma run_disk_task_get:
  "bm_ok d \<Longrightarrow> bm_get (run_disk_task True t d) f = (if f = task_file t then task_effect t (bm_get d f) else bm_get d f)"
  by (cases t) (simp_all add: run_disk_task_def map_of_bm_insert map_of_bm_remove)

lemma bm_ok_run_disk_task: "bm_ok d \<Longrightarrow> bm_ok (run_disk_task ok t d)"
  by (cases t) (simp_all add: run_disk_task_def bm_ok_insert bm_ok_remove)

lemma settled_run_task:
  assumes "bm_ok (disk s)" and "op_allowed (TaskOp i) s"
  shows "settled (run_task True i s) f = settled s f"
proof (cases "i < length (tasks s)")
  case True
  note split = filter_drop_nth [OF True, of "\<lambda>t. task_file t = f"]
  have "filter (\<lambda>t. task_file t = f) (take i (tasks s)) = []" if "task_file (tasks s ! i) = f"
    using assms(2) True that by (auto simp: op_allowed_def filter_empty_conv)
  then show ?thesis
    using True split by (auto simp: settled_def run_task_def run_disk_task_get [OF assms(1)])
qed (simp add: run_task_def)

lemma store_inv_dom: "store_inv self cap s \<Longrightarrow> dom (contents s) = set (records s)"
  by (auto simp: store_inv_def contents_def rs_contains_def split: if_splits)

lemma store_inv_card: "store_inv self cap s \<Longrightarrow> card (dom (contents s)) = length (records s)"
  using store_inv_dom by (auto simp: store_inv_def store_ok_def bs_ok_def distinct_card)

text \<open>A call that puts a record, in the three cases of the abstract store.\<close>

lemma put_refines:
  assumes "distance_law W" and inv: "store_inv self cap s" and "iterates iter s"
  shows "store_inv self cap (store_step W (PutOp iter r) s) \<and>
    map_step W self cap (PutOp iter r) (contents s) (contents (store_step W (PutOp iter r) s))"
proof -
  have ok: "store_ok s" and self: "local_key s = self" and cap: "max_records (config s) = cap" and "distinct (records s)"
    using inv by (auto simp: store_inv_def store_ok_def bs_ok_def)
  note dom = store_inv_dom [OF inv] and card = store_inv_card [OF inv]
  show ?thesis
    using assms(3) ok assms(1)
  proof (cases rule: put_verified_cases [where r = r])
    case stored
    let ?s = "store_step W (PutOp iter r) s"
    have "contents ?s = (contents s)(rec_key r \<mapsto> rec_value r)"
      using stored by (auto simp: store_step_def contents_def rs_contains_def settled_put fun_eq_iff)
    moreover have "store_inv self cap ?s"
      using inv stored store_ok_put_verified [OF stored(1) assms(3) ok assms(1)]
      by (auto simp: store_inv_def store_step_def settled_put)
    ultimately show ?thesis using put_room [of "contents s" cap W self iter r] stored(2) card cap by simp
  next
    case (evicted far)
    let ?s = "store_step W (PutOp iter r) s"
    have "far \<noteq> rec_key r" using evicted(5) by auto
    then have "contents ?s = (contents s)(far := None, rec_key r \<mapsto> rec_value r)"
      using evicted \<open>distinct (records s)\<close> by (auto simp: store_step_def contents_def rs_contains_def settled_put fun_eq_iff)
    moreover have "store_inv self cap ?s"
      using inv evicted \<open>distinct (records s)\<close> store_ok_put_verified [OF evicted(1) assms(3) ok assms(1)]
      by (auto simp: store_inv_def store_step_def settled_put)
    ultimately show ?thesis
      using put_evict [of "contents s" cap far W self r iter] evicted card cap dom self by (simp add: key_distance_def)
  next
    case refused
    then show ?thesis
      using inv put_refused [of "contents s" cap W self r iter] card cap dom self by (simp add: store_step_def key_distance_def)
  qed
qed

lemma store_refines:
  assumes "distance_law W" and inv: "store_inv self cap s" and "op_allowed op s"
  shows "store_inv self cap (store_step W op s) \<and> map_step W self cap op (contents s) (contents (store_step W op s))"
proof (cases op)
  case (PutOp iter r)
  with put_refines [OF assms(1,2)] assms(3) show ?thesis by (simp add: op_allowed_def)
next
  case (RemoveOp k)
  have "distinct (records s)" using inv by (simp add: store_inv_def store_ok_def bs_ok_def)
  then have "contents (remove_record s k) = (contents s)(k := None)"
    by (auto simp: contents_def rs_contains_def settled_remove fun_eq_iff)
  moreover have "store_inv self cap (remove_record s k)"
    using inv \<open>distinct (records s)\<close> by (auto simp: store_inv_def settled_remove store_ok_remove)
  ultimately show ?thesis using removed [of W self cap k "contents s"] RemoveOp by (simp add: store_step_def)
next
  case (TaskOp i)
  with inv assms(3) have eq: "settled (run_task True i s) f = settled s f" for f
    by (intro settled_run_task) (auto simp: store_inv_def)
  have "contents (run_task True i s) = contents s" by (simp add: contents_def rs_contains_def eq fun_eq_iff)
  moreover have "bm_ok (disk (run_task True i s))"
    using inv by (auto simp: store_inv_def run_task_def bm_ok_run_disk_task)
  then have "store_inv self cap (run_task True i s)"
    using inv eq by (auto simp: store_inv_def store_ok_def)
  ultimately show ?thesis using task_done [of W self cap i "contents s"] TaskOp by (simp add: store_step_def)
qed

interpretation store: refining_system "store_step W" "\<lambda>op s. op_allowed op s \<and> distance_law W" "store_inv self cap" contents
    "map_step W self cap"
  by unfold_locales (use store_refines in blast)+

text \<open>A file with no pending task holds what the abstract store holds.\<close>

lemma settled_read:
  assumes "store_inv self cap s" and "\<forall>t \<in> set (tasks s). task_file t \<noteq> key_to_hex k"
  shows "rs_get s k = map_option (\<lambda>v. \<lparr>rec_key = k, rec_value = v, rec_publisher = None, rec_expires = None\<rparr>) (contents s k)"
proof -
  have "filter (\<lambda>t. task_file t = key_to_hex k) (tasks s) = []" using assms(2) by (simp add: filter_empty_conv)
  then show ?thesis by (simp add: rs_get_def contents_def settled_def read_from_disk_def)
qed

lemma store_inv_new: "max_records cfg > 0 \<Longrightarrow> store_inv self (max_records cfg) (with_config self cfg sender)"
  by (simp add: store_inv_def with_config_def store_ok_def bs_ok_def)

lemma contents_new: "contents (with_config self cfg sender) = Map.empty"
  by (simp add: contents_def rs_contains_def with_config_def)

section \<open>Property\<close>

text \<open>C6: The record store refines a bounded map: over any sequence of puts, removals and completed
  file tasks, where the tasks of one file complete in the order they were spawned, what the store
  will hold is what the map holds that adds each record, evicting a furthest one when it is full,
  refuses a record when nothing is further away, and forgets the removed keys. The map never
  exceeds the capacity, its keys are the store's key set, and a record with no pending task is
  read from the disk as the map has it.\<close>

theorem store_refines_bounded_map:
  assumes "distance_law W" and "max_records cfg > 0"
    and "guarded op_allowed (store_step W) calls (with_config self cfg sender)"
    and "s = fold (store_step W) calls (with_config self cfg sender)"
  shows "abstract_run (map_step W self (max_records cfg)) calls Map.empty (contents s) \<and>
    card (dom (contents s)) \<le> max_records cfg \<and> dom (contents s) = set (records s) \<and>
    (\<forall>k. (\<forall>t \<in> set (tasks s). task_file t \<noteq> key_to_hex k) \<longrightarrow>
      rs_get s k = map_option (\<lambda>v. \<lparr>rec_key = k, rec_value = v, rec_publisher = None, rec_expires = None\<rparr>) (contents s k))"
proof -
  let ?new = "with_config self cfg sender" and ?cap = "max_records cfg"
  have allowed: "guarded (\<lambda>op s. op_allowed op s \<and> distance_law W) (store_step W) calls ?new"
    using assms(1,3) by simp
  note new = store_inv_new [OF assms(2), of self sender]
  have inv: "store_inv self ?cap s" unfolding assms(4) by (rule store.run_inv [OF new allowed])
  have "abstract_run (map_step W self ?cap) calls (contents ?new) (contents s)"
    unfolding assms(4) by (rule store.run_refines [OF new allowed])
  moreover have "length (records s) \<le> ?cap" using inv by (auto simp: store_inv_def store_ok_def)
  ultimately show ?thesis
    using settled_read [OF inv] store_inv_dom [OF inv] store_inv_card [OF inv] by (simp add: contents_new)
qed

definition demo_ops :: "store_op list" where
  "demo_ops = [PutOp [] \<lparr>rec_key = [1], rec_value = [7], rec_publisher = None, rec_expires = None\<rparr>,
     PutOp [[1]] \<lparr>rec_key = [9], rec_value = [8], rec_publisher = None, rec_expires = None\<rparr>, TaskOp 1,
     PutOp [[9], [1]] \<lparr>rec_key = [5], rec_value = [6], rec_publisher = None, rec_expires = None\<rparr>, TaskOp 2, TaskOp 0, TaskOp 0]"

definition demo_new :: record_store where
  "demo_new = with_config [0] ((default_config 200 ''tmp'')\<lparr>max_records := 2\<rparr>) True"

lemma demo_run: "guarded op_allowed (store_step demo_wire) demo_ops demo_new"
  "tasks (fold (store_step demo_wire) demo_ops demo_new) = []"
  "contents (fold (store_step demo_wire) demo_ops demo_new) [5] = Some [6]"
  by (simp_all add: demo_ops_def demo_new_def op_allowed_def store_step_def put_verified_def prune_storage_if_needed_for_record_def
      with_config_def default_config_def demo_wire_def key_distance_def Let_def remove_record_def run_task_def run_disk_task_def
      bs_insert_def insort_insert_key_def iterates_def contents_def rs_contains_def settled_def bm_remove_def hex_digit_def
      insert_commute)

theorem store_refines_bounded_map_witness:
  "\<exists>m. abstract_run (map_step demo_wire [0] 2) demo_ops Map.empty m \<and> m [5] = Some [6] \<and>
     rs_get (fold (store_step demo_wire) demo_ops demo_new) [5] =
       Some \<lparr>rec_key = [5], rec_value = [6], rec_publisher = None, rec_expires = None\<rparr>"
  using store_refines_bounded_map [OF demo_wire_laws(3) _ _ refl, of "(default_config 200 ''tmp'')\<lparr>max_records := 2\<rparr>" demo_ops "[0]" True]
    demo_run by (auto simp: demo_new_def)

end
