(* ===== verification/Payment_Flow.thy ===== *)
theory Payment_Flow
  imports Client_Wallet Client_Files Network_Handle
begin

text \<open>
  How a paid chunk travels: from the client that pays for it (\<open>sn_client/src/wallet.rs\<close>,
  \<open>file_apis.rs\<close>) through the validation of a node (\<open>sn_node/src/put_validation.rs\<close>) into the
  record store of its swarm driver, and back to a client.
\<close>

section \<open>Paying\<close>

text \<open>What \<open>pay_for_storage\<close> did when it returned proofs.\<close>

lemma pay_for_storage_Inr:
  assumes "pay_for_storage N D C addrs v target idx wc n = (Inr (proofs, Some cost), wc', n')"
  obtains root trails w transfer where "addrs \<noteq> []" "build_payment_proofs (merkle N) addrs = Inr (root, trails)"
    "local_send_storage_payment D (wc_wallet wc) (word_of_nat (length addrs) * cost) root None idx = Inr (w, transfer)"
    "client_send N C transfer v n = (Inr (), n')"
    "proofs = bm_append [] (proofs_of_trails (map in_dbc_id (inputs (tx transfer))) trails)"
proof -
  from assms have "addrs \<noteq> []" by (auto simp: pay_for_storage_def)
  with assms obtain root trails where b: "build_payment_proofs (merkle N) addrs = Inr (root, trails)"
    by (auto simp: pay_for_storage_def split: sum.splits)
  obtain res wc1 where s: "set_store_cost_from_random_address C target wc n = (res, wc1)" by fastforce
  then have wal: "wc_wallet wc1 = wc_wallet wc"
    by (auto simp: set_store_cost_from_random_address_def split: prod.splits)
  from assms \<open>addrs \<noteq> []\<close> b s obtain t where res: "res = Inr t"
    by (cases res) (auto simp: pay_for_storage_def)
  let ?cost = "overpaid_cost (wc_store_cost wc1) (word_of_nat (length trails))"
  from assms \<open>addrs \<noteq> []\<close> b s res obtain w transfer where
    l: "local_send_storage_payment D (wc_wallet wc1) (word_of_nat (length addrs) * ?cost) root None idx = Inr (w, transfer)"
    by (cases "local_send_storage_payment D (wc_wallet wc1) (word_of_nat (length addrs) * ?cost) root None idx")
      (auto simp: pay_for_storage_def Let_def)
  obtain sent n1 where c: "client_send N C transfer v n = (sent, n1)" by fastforce
  from assms \<open>addrs \<noteq> []\<close> b s res l c have "sent = Inr () \<and> n1 = n' \<and> cost = ?cost \<and>
      proofs = bm_append [] (proofs_of_trails (map in_dbc_id (inputs (tx transfer))) trails)"
    by (cases sent) (auto simp: pay_for_storage_def Let_def split: failure.splits)
  with that \<open>addrs \<noteq> []\<close> b l c wal show thesis by simp
qed

text \<open>What a payment is good for: a node that sees its transaction validates each of its proofs.\<close>

lemma paid_chunk_validates:
  fixes N :: "('d, 's::linorder, 't, 'p) node_env" and D :: "('dbc, 's, 'b) dbc_env"
  assumes "merkle_laws (merkle N)" and "tx_builder_law D" and "sn_hash D = hash_bytes N"
    and free: "\<forall>f. fee_is_free N f \<longleftrightarrow> fee_token f = 0"
    and "distinct addrs"
    and pay: "pay_for_storage N D C addrs v target idx wc n = (Inr (proofs, Some cost), wc', n')"
    and "cost \<noteq> 0" and fits: "unat cost * length addrs < 2 ^ 64"
  obtains root trails w and transfer :: "('dbc, 's) transfer_outputs" where "build_payment_proofs (merkle N) addrs = Inr (root, trails)"
    "local_send_storage_payment D (wc_wallet wc) (word_of_nat (length addrs) * cost) root None idx = Inr (w, transfer)"
    "client_send N C transfer v n = (Inr (), n')"
    "\<And>I price c. knows_payment N I (tx transfer) \<Longrightarrow> local_storecost I = Answer price \<Longrightarrow> price \<le> cost \<Longrightarrow>
       chunk_name (cwp_chunk c) \<in> set addrs \<Longrightarrow> bm_get proofs (chunk_name (cwp_chunk c)) = Some (cwp_payment c) \<Longrightarrow>
       chunk_payment_validation N I c True = Inr ()"
    "\<forall>a \<in> set addrs. \<exists>p. bm_get proofs a = Some p"
proof -
  from pay_for_storage_Inr [OF pay] obtain root trails w transfer where addrs: "addrs \<noteq> []"
    and b: "build_payment_proofs (merkle N) addrs = Inr (root, trails)"
    and l: "local_send_storage_payment D (wc_wallet wc) (word_of_nat (length addrs) * cost) root None idx = Inr (w, transfer)"
    and c: "client_send N C transfer v n = (Inr (), n')"
    and proofs: "proofs = bm_append [] (proofs_of_trails (map in_dbc_id (inputs (tx transfer))) trails)" by blast
  let ?t = "tx transfer" and ?amount = "word_of_nat (length addrs) * cost"
  have "?amount = word_of_nat (unat cost * length addrs)" by (simp add: mult.commute)
  then have unat_amount: "unat ?amount = unat cost * length addrs"
    using fits by (simp only: unat_of_nat) simp
  then have "?amount \<noteq> 0" using addrs \<open>cost \<noteq> 0\<close> by (metis length_0_conv mult_is_0 unat_0 unat_eq_zero)
  from l obtain av ch rh where "create_storage_payment_transfer D av ch ?amount root rh idx = Inr transfer"
    by (auto simp: local_send_storage_payment_def)
  note t = storage_payment_tx [OF this assms(2) \<open>?amount \<noteq> 0\<close>]
  from built_proofs_validate [OF assms(1) addrs assms(5)] b have
    valid: "\<forall>i < length addrs. \<exists>trail path. map_of trails (addrs ! i) = Some (trail, path) \<and>
       validate_payment_proof (merkle N) (addrs ! i) root trail path = Inr (word_of_nat i)" by auto
  note get = map_of_proofs_of_trails [OF build_proofs_ok [OF b], of "map in_dbc_id (inputs ?t)", folded proofs]
  have "chunk_payment_validation N I ch True = Inr ()"
    if node: "knows_payment N I ?t" "local_storecost I = Answer price" "price \<le> cost"
      and ch: "chunk_name (cwp_chunk ch) \<in> set addrs" "bm_get proofs (chunk_name (cwp_chunk ch)) = Some (cwp_payment ch)" for I price ch
  proof -
    from ch(1) obtain i where i: "i < length addrs" "addrs ! i = chunk_name (cwp_chunk ch)" by (auto simp: in_set_conv_nth)
    with valid obtain trail path where tr: "map_of trails (chunk_name (cwp_chunk ch)) = Some (trail, path)"
      "validate_payment_proof (merkle N) (chunk_name (cwp_chunk ch)) root trail path = Inr (word_of_nat i)" by metis
    with ch(2) get have p: "cwp_payment ch = \<lparr>spent_ids = map in_dbc_id (inputs ?t), audit_trail = trail, proof_path = path\<rparr>"
      by simp
    have "price * (word_of_nat i + 1) \<le> ?amount" by (rule fee_covers_leaf [OF fits i(1) node(3)])
    then have "verify_fee_output_and_proof N (chunk_name (cwp_chunk ch)) price ?t trail path = Inr ()"
      using tr(2) t(2) free \<open>?amount \<noteq> 0\<close> assms(3)
      by (simp add: verify_fee_output_and_proof_def verify_fee_output_id_def Let_def not_less)
    with p show ?thesis by (intro chunk_payment_complete [OF node(1) t(1) _ node(2)]) simp_all
  qed
  moreover have "\<exists>p. bm_get proofs a = Some p" if "a \<in> set addrs" for a
    using that valid get by (fastforce simp: in_set_conv_nth)
  ultimately show thesis using that [OF b l c] by blast
qed

section \<open>Storing\<close>

text \<open>The record in which a chunk is sent is the one a node that accepts the payment puts into its store.\<close>

lemma chunk_record_stored:
  fixes N :: "('d, 's::linorder, 't, 'p) node_env"
  assumes "rmp_laws (wire N)" and "chunk_ok (wire N) (cwp_chunk c)"
    and "try_serialize_record (wire N) (enc_chunk (wire N) c) ChunkKind = (Inr bs :: 's protocol_error + bytes)"
    and "key_present I (chunk_address (cwp_chunk c)) = Answer False" and "chunk_payment_validation N I c True = Inr ()" and "cmd_room I 0"
    and "r = local_kad_record (chunk_address (cwp_chunk c)) bs"
  shows "handle_network_event N I (UnverifiedRecordEvent r) =
    [Send (PutLocalRecord r), Broadcast (ChunkStored (chunk_address (cwp_chunk c)))]"
proof -
  have "try_serialize_record (wire N) (enc_chunk (wire N) c) ChunkKind = (Inr (rec_value r) :: 's protocol_error + bytes)"
    using assms(3,7) by (simp add: local_kad_record_def)
  note read = chunk_record_read [OF assms(1,2) this]
  have "rec_key r = chunk_address (cwp_chunk c)" using assms(7) by (simp add: local_kad_record_def)
  with read validated_chunk_put [OF assms(4-6,3)] assms(7) show ?thesis
    by (simp add: handle_network_event_def validate_and_store_record_def or_fail_def from_chunk_address_def)
qed

text \<open>There is room, or a record further away to evict.\<close>

definition takes_key :: "('d, 's) wire_env \<Rightarrow> record_store \<Rightarrow> record_key \<Rightarrow> bool" where
  "takes_key W st k \<longleftrightarrow> length (records st) < max_records (config st) \<or> (\<exists>far \<in> set (records st). key_distance W st k < key_distance W st far)"

lemma put_verified_takes:
  assumes "iterates iter st" and "store_ok st" and "distance_law W" and "takes_key W st (rec_key r)"
  obtains st' where "put_verified W iter st r = Inr st'"
  using assms(1-3)
proof (cases rule: put_verified_cases [where r = r])
  case refused
  with assms(4) show ?thesis by (auto simp: takes_key_def not_less [symmetric])
qed (use that in auto)

lemma held_of_holds:
  fixes N :: "('d, 's, 't, 'p) node_env" and C :: "('n, 'd, 's) client_net"
  assumes "holds C n (local_kad_record (chunk_address c) bs)"
    and "try_serialize_record (wire N) (enc_chunk (wire N) \<lparr>cwp_chunk = c, cwp_payment = p\<rparr>) ChunkKind = (Inr bs :: 's protocol_error + bytes)"
  shows "held N C n c"
  using assms by (auto simp: held_def)

section \<open>A concrete payment\<close>

definition demo_root :: hash where
  "demo_root = 5 # 6 # replicate 32 0 @ replicate 32 0"

definition demo_paid_tx :: dbc_tx where
  "demo_paid_tx = \<lparr>inputs = [\<lparr>in_dbc_id = [1, 10], in_token = 100\<rparr>], outputs = [],
     fee = \<lparr>fee_id = demo_root @ [1, 10], fee_token = 40, fee_root_hash = demo_root\<rparr>\<rparr>"

text \<open>The builder of this environment also writes the fee output into the transaction.\<close>

definition demo_fee_env :: "(dbc_id \<times> token, bytes, tx_builder) dbc_env" where
  "demo_fee_env = demo_dbc_env\<lparr>built_tx := (\<lambda>B. \<lparr>inputs = map fst (tb_inputs B), outputs = [],
     fee = (case tb_fee B of Some f \<Rightarrow> f | None \<Rightarrow> \<lparr>fee_id = [], fee_token = 0, fee_root_hash = []\<rparr>)\<rparr>)\<rparr>"

text \<open>The proofs for the two addresses, and a codec that writes chunks with one of them.\<close>

definition demo_first_proof :: payment_proof where
  "demo_first_proof = \<lparr>spent_ids = [[1, 10]], audit_trail = [[5], demo_root], proof_path = [0, 0]\<rparr>"

definition demo_paid_proof :: payment_proof where
  "demo_paid_proof = \<lparr>spent_ids = [[1, 10]], audit_trail = [[6], demo_root], proof_path = [1, 0]\<rparr>"

definition demo_chunk_wire :: "((bytes list \<times> bytes) btree_set, bytes) wire_env" where
  "demo_chunk_wire = demo_wire\<lparr>
     rmp_chunk_enc := (\<lambda>(v, p). if p = demo_paid_proof then Some (1 # v) else if p = demo_first_proof then Some (2 # v) else None),
     rmp_chunk_dec := (\<lambda>b. Some (tl b, if hd b = 2 then demo_first_proof else demo_paid_proof))\<rparr>"

definition demo_paying_node :: "((bytes list \<times> bytes) btree_set, bytes, bytes list, bytes list \<times> u64 list) node_env" where
  "demo_paying_node = demo_node\<lparr>wire := demo_chunk_wire, spent_tx := (\<lambda>_. demo_paid_tx)\<rparr>"

definition demo_payer :: "(dbc_id \<times> token, bytes) wallet_client" where
  "demo_payer = \<lparr>wc_client = client_new [1], wc_wallet = \<lparr>wal_key = [1],
     wallet = keyless_wallet_new\<lparr>available_dbcs := [([1, 10], ([1, 10], 100))], balance := 100\<rparr>, wallet_dir = [''r'', ''wallet'']\<rparr>,
     unconfirmed_txs = []\<rparr>"

definition demo_payment :: "(dbc_id \<times> token, bytes) transfer_outputs" where
  "demo_payment = \<lparr>tx = demo_paid_tx, created_dbcs = [], change_dbc = Some ([1, 4], 60),
       all_spend_requests = [\<lparr>signed_spend = [1, 10], parent_tx = Transfers.demo_tx\<rparr>]\<rparr>"

lemma demo_fee_env_sel [simp]:
  "dbc_id_of demo_fee_env = fst" "dbc_token demo_fee_env d = Inr (snd d)"
  "dbc_derived_key demo_fee_env d k = (if prefix k (fst d) then Inr k else Inl ''not the owner'')"
  "dbc_src_tx demo_fee_env d = Transfers.demo_tx" "main_public_address demo_fee_env k = k" "sn_hash demo_fee_env = (\<lambda>b. b)"
  "new_dbc_id demo_fee_env a i = a @ i" "tb_build demo_fee_env B rh = Inr B"
  "built_tx demo_fee_env B = \<lparr>inputs = map fst (tb_inputs B), outputs = [],
     fee = (case tb_fee B of Some f \<Rightarrow> f | None \<Rightarrow> \<lparr>fee_id = [], fee_token = 0, fee_root_hash = []\<rparr>)\<rparr>"
  "built_spends demo_fee_env B = map (\<lambda>(i, _, _). in_dbc_id i) (tb_inputs B)"
  "built_dbcs demo_fee_env B = Inr (map (\<lambda>(t, a, i). ((a @ i, t), t)) (tb_outputs B))" "ss_dbc_id demo_fee_env sp = sp"
  by (simp_all add: demo_fee_env_def demo_dbc_env_def fun_eq_iff)

lemma demo_paying_node_sel [simp]:
  "wire demo_paying_node = demo_chunk_wire" "merkle demo_paying_node = demo_merkle" "spent_tx demo_paying_node sp = demo_paid_tx"
  "hash_bytes demo_paying_node = (\<lambda>b. b)" "fee_is_free demo_paying_node f \<longleftrightarrow> fee_token f = 0"
  by (simp_all add: demo_paying_node_def demo_node_def)

lemma demo_chunk_wire_sel [simp]:
  "rmp_u32_dec demo_chunk_wire b = (if length b \<ge> 2 then Some (word_of_nat (unat (b ! 1))) else None)"
  "rmp_u32_enc demo_chunk_wire n = (if unat n < 128 then Some [0x91, word_of_nat (unat n)] else None)"
  "rmp_spends_enc demo_chunk_wire [x] = Some (1 # x)" "rmp_spends_dec demo_chunk_wire b = Some [tl b]"
  "kad_distance demo_chunk_wire = kad_distance demo_wire" "xor_content demo_chunk_wire b = b"
  by (simp_all add: demo_chunk_wire_def demo_wire_def)

lemma demo_chunk_wire_laws: "rmp_laws demo_chunk_wire" "distance_law demo_chunk_wire"
  using demo_wire_laws by (auto simp: rmp_laws_def demo_chunk_wire_def codec_law_def distance_law_def split: if_splits)

lemma demo_chunk_serialized:
  "try_serialize_record demo_chunk_wire (enc_chunk demo_chunk_wire \<lparr>cwp_chunk = \<lparr>chunk_address = [6], chunk_value = [6]\<rparr>, cwp_payment = demo_paid_proof\<rparr>)
     ChunkKind = Inr [0x91, 0, 1, 6]"
  by (simp add: try_serialize_record_def header_try_serialize_def enc_chunk_def chunk_serialize_def) (simp add: demo_chunk_wire_def)

lemma demo_knows_payment: "knows_payment demo_paying_node demo_node_in demo_paid_tx"
proof -
  have "node_get_spend demo_paying_node demo_node_in call a re_attempt = Inr [4, 1]" for call a re_attempt
    by (simp add: node_get_spend_def get_record_at_once demo_node_in_def spends_from_record_def header_from_record_def
        map_failure_def RECORD_HEADER_SIZE_def header_try_deserialize_def kind_from_u32_def try_deserialize_record_def local_kad_record_def)
  then show ?thesis by (simp add: knows_payment_def)
qed

lemma demo_proofs:
  "build_payment_proofs demo_merkle [[5], [6]] = Inr (demo_root, [([5], [[5], demo_root], [0, 0]), ([6], [[6], demo_root], [1, 0])])"
  by code_simp

lemma demo_local_payment:
  "local_send_storage_payment demo_fee_env (wc_wallet demo_payer) 40 demo_root None [4] = Inr
    (update_local_wallet demo_fee_env (wc_wallet demo_payer) demo_payment, demo_payment)"
proof -
  have av: "wallet_available_dbcs demo_fee_env (wc_wallet demo_payer) = [(([1, 10], 100), [1])]"
    "wallet_address demo_fee_env (wc_wallet demo_payer) = [1]"
    by (simp_all add: wallet_available_dbcs_def wallet_address_def demo_payer_def bm_values_def)
  have "select_inputs demo_fee_env [(([1, 10], 100), [1])] 40 = Inr ([(([1, 10], 100), [1])], 60)"
    by (simp add: select_inputs_def checked_add_def checked_sub_def)
  then have "create_storage_payment_transfer demo_fee_env [(([1, 10], 100), [1])] [1] 40 demo_root hash_default [4] = Inr demo_payment"
    by (simp add: create_storage_payment_transfer_def create_transfer_with_def transfer_builder_def bm_collect_def bm_append_def
        bm_contains_key_def storage_fee_id_def demo_paid_tx_def demo_payment_def)
  with av show ?thesis by (simp add: local_send_storage_payment_def)
qed

lemma demo_quote:
  "get_store_cost_at_address map_net a False cl n = (Inr 10, cl\<lparr>network_store_cost := 10\<rparr>)"
  by (simp add: get_store_cost_at_address_def get_store_cost_from_network_def map_net_def await_with_def map_filter_simps
      get_fee_from_store_cost_quotes_def list_get_def CLOSE_GROUP_SIZE_def Let_def)

lemma demo_pay:
  "\<exists>proofs wc' n'. pay_for_storage demo_paying_node demo_fee_env map_net [[5], [6]] True [0] [4] demo_payer Map.empty
     = (Inr (proofs, Some 20), wc', n') \<and> bm_get proofs [5] = Some demo_first_proof \<and> bm_get proofs [6] = Some demo_paid_proof"
proof -
  have send: "\<exists>n'. client_send demo_paying_node map_net demo_payment True Map.empty = (Inr (), n')"
    by (simp add: client_send_def network_store_spend_def Let_def op_bind_def op_return_def map_net_put demo_payment_def
        try_serialize_record_def header_try_serialize_def)
  have cost: "overpaid_cost (10 :: token) 2 = 20" by (simp add: overpaid_cost_def powf_as_u64_def)
  from send cost demo_local_payment show ?thesis
    by (auto simp: pay_for_storage_def wc_store_cost_def set_store_cost_from_random_address_def demo_quote Let_def demo_proofs
        demo_payment_def demo_paid_tx_def demo_first_proof_def demo_paid_proof_def proofs_of_trails_def bm_append_def bm_collect_def)
qed

end
