(* ===== verification/Cli_Upload.thy ===== *)
theory Cli_Upload
  imports Cli_Files Payment_Flow
begin

text \<open>
  What the \<open>files\<close> commands of sn_cli achieve together: the contents of the files that an upload
  command found, and did not report as failed, come back from the network when they are
  downloaded by their address.
\<close>

section \<open>The chunks of files\<close>

definition chunks_of :: "('d, 's) wire_env \<Rightarrow> 'm se_env \<Rightarrow> bytes \<Rightarrow> xorname \<Rightarrow> chunk list \<Rightarrow> bool" where
  "chunks_of W S bs address chunks \<longleftrightarrow> chunk_bytes W S bs = Some (Inr (address, chunks) :: 's client_error failure + _)"

definition all_chunks :: "('d, 's) wire_env \<Rightarrow> 'm se_env \<Rightarrow> bytes set \<Rightarrow> chunk set" where
  "all_chunks W S F = {c. \<exists>bs \<in> F. \<exists>address chunks. chunks_of W S bs address chunks \<and> c \<in> set chunks}"

text \<open>
  No two chunks of the contents in \<open>F\<close> share their name or the file they are written to, and no
  two contents share their address.
\<close>

definition collision_free :: "('d, 's) wire_env \<Rightarrow> 'm se_env \<Rightarrow> cli_env \<Rightarrow> bytes set \<Rightarrow> bool" where
  "collision_free W S E F \<longleftrightarrow> inj (hex_string E) \<and>
     (\<forall>c \<in> all_chunks W S F. \<forall>d \<in> all_chunks W S F. chunk_address c = chunk_address d \<longrightarrow> c = d) \<and>
     (\<forall>bs \<in> F. \<forall>bs' \<in> F. \<forall>address chunks chunks'. chunks_of W S bs address chunks \<and> chunks_of W S bs' address chunks' \<longrightarrow> bs = bs')"

definition chunk_file :: "cli_env \<Rightarrow> chunk \<Rightarrow> path" where
  "chunk_file E c = temp_dir E @ [hex_string E (chunk_name c)]"

definition saved :: "cli_env \<Rightarrow> file_system \<Rightarrow> chunk \<Rightarrow> bool" where
  "saved E fs c \<longleftrightarrow> map_of (fs_files fs) (chunk_file E c) = Some (chunk_value c)"

abbreviation chunk_entries :: "cli_env \<Rightarrow> chunk list \<Rightarrow> (xorname \<times> path) list" where
  "chunk_entries E cs \<equiv> map (\<lambda>c. (chunk_name c, chunk_file E c)) cs"

lemma chunk_file_inj:
  "collision_free W S E F \<Longrightarrow> c \<in> all_chunks W S F \<Longrightarrow> d \<in> all_chunks W S F \<Longrightarrow> chunk_file E c = chunk_file E d \<Longrightarrow> c = d"
  by (auto simp: collision_free_def chunk_file_def chunk_name_def inj_def)

section \<open>Chunks on disk\<close>

lemma write_chunks_saved:
  assumes "write_chunks E cs paths w = Some (Inr paths', w')" and "collision_free W S E F" and "set cs \<subseteq> all_chunks W S F"
  shows "paths' = paths @ chunk_entries E cs \<and> w_net w' = w_net w \<and> printed w' = printed w \<and> fs_frame (temp_dir E) (w_fs w) (w_fs w') \<and>
     (\<forall>d \<in> all_chunks W S F. saved E (w_fs w) d \<or> d \<in> set cs \<longrightarrow> saved E (w_fs w') d)"
  using assms(1,3)
proof (induction cs arbitrary: paths w)
  case (Cons c cs)
  from Cons.prems(1) obtain fs where fs: "fs_write (cli_faults E) (chunk_file E c) (chunk_value c) (w_fs w) = Inr fs"
    and rest: "write_chunks E cs (paths @ [(chunk_name c, chunk_file E c)]) (w\<lparr>w_fs := fs\<rparr>) = Some (Inr paths', w')"
    by (auto simp: Let_def cli_simps chunk_file_def)
  have "saved E fs d" if "d \<in> all_chunks W S F" "saved E (w_fs w) d \<or> d = c" for d
  proof (cases "d = c")
    case False
    with that(1) Cons.prems(2) chunk_file_inj [OF assms(2), of d c] have "chunk_file E d \<noteq> chunk_file E c" by auto
    with False that(2) fs_write_files [OF fs] show ?thesis by (simp add: saved_def)
  qed (use fs_write_files [OF fs] in \<open>simp add: saved_def\<close>)
  moreover have "fs_frame (temp_dir E) (w_fs w) fs" by (rule fs_frame_write [OF fs]) (simp add: chunk_file_def)
  ultimately show ?case using Cons.IH [OF rest] Cons.prems(2) fs_frame_trans [of "temp_dir E" "w_fs w" fs "w_fs w'"] by simp
qed (simp add: cli_simps)

lemma read_chunks_saved:
  assumes "cli_faults E = no_faults" and "\<forall>c \<in> set cs. saved E (w_fs w) c"
  shows "read_chunks E name (chunk_entries E cs) w = Some (Inr cs, w)"
  using assms(2)
proof (induction cs)
  case (Cons c cs)
  then show ?case by (cases c) (simp add: cli_bind_def cli_file_def fs_read_def assms(1) saved_def cli_return_def chunk_name_def ok_or_def)
qed (simp add: cli_return_def)

section \<open>Chunking the files of a directory\<close>

text \<open>An entry stands for a file whose chunks are in their files.\<close>

definition entry_ok :: "('d, 's) wire_env \<Rightarrow> 'm se_env \<Rightarrow> cli_env \<Rightarrow> bytes set \<Rightarrow> file_system \<Rightarrow> xorname \<times> chunked_file \<Rightarrow> bool" where
  "entry_ok W S E F fs e \<longleftrightarrow> (\<exists>bs \<in> F. \<exists>chunks. chunks_of W S bs (fst e) chunks \<and> cf_chunks (snd e) = chunk_entries E chunks \<and>
     (\<forall>c \<in> set chunks. saved E fs c))"

lemma entry_ok_mono:
  "entry_ok W S E F fs e \<Longrightarrow> (\<And>d. d \<in> all_chunks W S F \<Longrightarrow> saved E fs d \<Longrightarrow> saved E fs' d) \<Longrightarrow> entry_ok W S E F fs' e"
  unfolding entry_ok_def all_chunks_def by blast

lemma bm_insert_entries: "set (bm_insert k v m) \<subseteq> insert (k, v) (set m)"
  by (induction k v m rule: bm_insert.induct) (auto split: if_splits)

text \<open>
  The files that are chunked keep their contents, since only chunks are written, and below the
  temporary directory; every one of them that can be named gets an entry.
\<close>

lemma chunk_files_entries:
  fixes w :: "('n, 's) world" and W :: "('d, 's) wire_env"
  assumes "chunk_files W S E ps m w = Some (Inr m', w')" and "collision_free W S E F" and "cli_faults E = no_faults"
    and "\<forall>p \<in> set ps. \<not> prefix (temp_dir E) p \<and> (\<forall>bs. map_of (fs_files (w_fs w)) p = Some bs \<longrightarrow> bs \<in> F)"
    and "\<forall>e \<in> set m. entry_ok W S E F (w_fs w) e"
  shows "(\<forall>e \<in> set m'. entry_ok W S E F (w_fs w') e) \<and> w_net w' = w_net w \<and> fst ` set m \<subseteq> fst ` set m' \<and>
    fs_frame (temp_dir E) (w_fs w) (w_fs w') \<and>
    (\<forall>p \<in> set ps. utf8_name E (last p) \<longrightarrow> (\<exists>bs address chunks. map_of (fs_files (w_fs w)) p = Some bs \<and> chunks_of W S bs address chunks \<and>
       address \<in> fst ` set m'))"
  using assms(1,4,5)
proof (induction ps arbitrary: m w)
  case Nil
  then show ?case by (simp add: cli_simps)
next
  case (Cons p ps)
  show ?case
  proof (cases "utf8_name E (last p)")
    case False
    with Cons.prems(1) have "chunk_files W S E ps m (w\<lparr>printed := printed w @ [SkippedFile (last p)]\<rparr>) = Some (Inr m', w')"
      by (simp add: cli_simps)
    from Cons.IH [OF this] Cons.prems False show ?thesis by auto
  next
    case True
    with Cons.prems(1) obtain bs address chunks paths w1 where bs: "map_of (fs_files (w_fs w)) p = Some bs"
      and chunks: "chunks_of W S bs address chunks" and wr: "write_chunks E chunks [] w = Some (Inr paths, w1)"
      and rest: "chunk_files W S E ps (bm_insert address \<lparr>cf_name = last p, cf_size = length bs, cf_chunks = paths\<rparr> m) w1 = Some (Inr m', w')"
      by (auto simp: cli_simps fs_read_def assms(3) cli_chunk_bytes_def chunks_of_def split: option.splits)
    let ?cf = "\<lparr>cf_name = last p, cf_size = length bs, cf_chunks = paths\<rparr>"
    have F: "bs \<in> F" using Cons.prems(2) bs by simp
    with chunks have sub: "set chunks \<subseteq> all_chunks W S F" by (auto simp: all_chunks_def)
    note written = write_chunks_saved [OF wr assms(2) sub]
    have same: "map_of (fs_files (w_fs w1)) q = map_of (fs_files (w_fs w)) q" if "q \<in> set (p # ps)" for q
      using that Cons.prems(2) written by (auto simp: fs_frame_def)
    have "entry_ok W S E F (w_fs w1) (address, ?cf)" using chunks F sub written by (auto simp: entry_ok_def)
    moreover have "entry_ok W S E F (w_fs w1) e" if "e \<in> set m" for e
      by (rule entry_ok_mono [OF bspec [OF Cons.prems(3) that]]) (use written in blast)
    ultimately have "\<forall>e \<in> set (bm_insert address ?cf m). entry_ok W S E F (w_fs w1) e"
      using bm_insert_entries [of address ?cf m] by auto
    note ih = Cons.IH [OF rest _ this]
    have "fs_frame (temp_dir E) (w_fs w) (w_fs w')"
      by (rule fs_frame_trans [of _ _ "w_fs w1"]) (use ih written Cons.prems(2) same in auto)
    then show ?thesis using ih bs chunks same written Cons.prems(2) by auto
  qed
qed

section \<open>Uploading\<close>

text \<open>A content of which all chunks are held.\<close>

definition content_held :: "('d, 's, 't, 'p) node_env \<Rightarrow> ('n, 'd, 's) client_net \<Rightarrow> 'm se_env \<Rightarrow> bytes set \<Rightarrow> 'n \<Rightarrow> xorname \<Rightarrow> bool" where
  "content_held N C S F n address \<longleftrightarrow> (\<exists>bs \<in> F. \<exists>chunks. chunks_of (wire N) S bs address chunks \<and> all_held N C n (set chunks))"

text \<open>When no file is reported as not stored, the chunks of all of them are held afterwards.\<close>

lemma read_chunks_printed:
  "read_chunks E name ps w = Some (Inr cs, w1) \<Longrightarrow> set (printed w) \<subseteq> set (printed w1)"
proof (induction ps arbitrary: w cs)
  case (Cons q ps)
  obtain a b where q: "q = (a, b)" by (cases q)
  show ?case
  proof (cases "fs_read (cli_faults E) b (w_fs w)")
    case (Inl err)
    with Cons.prems q have "read_chunks E name ps (w\<lparr>printed := printed w @ [ChunkNotRead name]\<rparr>) = Some (Inr cs, w1)"
      by (simp add: cli_simps)
    from Cons.IH [OF this] show ?thesis by simp
  next
    case (Inr bs)
    with Cons.prems q obtain cs' where "read_chunks E name ps w = Some (Inr cs', w1)" by (auto simp: cli_simps)
    then show ?thesis by (rule Cons.IH)
  qed
qed (simp add: cli_simps)

lemma upload_each_printed:
  "upload_each N E C proofs v m w = Some (Inr listed, w') \<Longrightarrow> set (printed w) \<subseteq> set (printed w')"
proof (induction m arbitrary: w listed)
  case (Cons e m)
  obtain address cf where e: "e = (address, cf)" by (cases e)
  from Cons.prems e obtain r w1 where up: "upload_chunks N E C (cf_name cf) (cf_chunks cf) proofs v w = Some (Inr r, w1)"
    by (auto simp: cli_bind_Inr)
  then have "set (printed w) \<subseteq> set (printed w1)" by (auto simp: upload_chunks_def cli_simps dest!: read_chunks_printed)
  moreover from Cons.prems e up obtain line listed' where
    "upload_each N E C proofs v m (w1\<lparr>printed := printed w1 @ [line]\<rparr>) = Some (Inr listed', w')"
    by (cases r) (auto simp: cli_simps split: failure.splits)
  note Cons.IH [OF this]
  ultimately show ?case by auto
qed (simp add: cli_simps)

lemma upload_each_held:
  fixes N :: "('d, 's, 't, 'p) node_env" and C :: "('n, 'd, 's) client_net" and w :: "('n, 's) world"
  assumes "upload_each N E C proofs v m w = Some (Inr listed, w')" and "keeps_records C" and "collision_free (wire N) S E F"
    and "cli_faults E = no_faults" and "\<forall>e \<in> set m. entry_ok (wire N) S E F (w_fs w) e" and "\<And>name. FileNotStored name \<notin> set (printed w')"
  shows "(\<forall>e \<in> set m. content_held N C S F (w_net w') (fst e) \<and> FileStored (cf_name (snd e)) (fst e) \<in> set (printed w')) \<and>
    (\<forall>d \<in> all_chunks (wire N) S F. held N C (w_net w) d \<longrightarrow> held N C (w_net w') d)"
  using assms(1,5)
proof (induction m arbitrary: w listed)
  case Nil
  then show ?case by (simp add: cli_simps)
next
  case (Cons e m)
  let ?A = "all_chunks (wire N) S F"
  obtain address cf where e: "e = (address, cf)" by (cases e)
  from Cons.prems(2) e obtain bs chunks where entry: "bs \<in> F" "chunks_of (wire N) S bs address chunks"
    "cf_chunks cf = chunk_entries E chunks" "\<forall>c \<in> set chunks. saved E (w_fs w) c" by (auto simp: entry_ok_def)
  then have sub: "set chunks \<subseteq> ?A" by (auto simp: all_chunks_def)
  have read: "read_chunks E (cf_name cf) (cf_chunks cf) w = Some (Inr chunks, w)"
    unfolding entry(3) by (rule read_chunks_saved [OF assms(4) entry(4)])
  obtain r n where up: "upload_loop N C proofs v [] chunks (w_net w) = (r, n)" by fastforce
  let ?w = "\<lambda>line. w\<lparr>w_net := n, printed := printed w @ [line]\<rparr>"
  from Cons.prems(1) e read up obtain line listed' where
    rest: "upload_each N E C proofs v m (?w line) = Some (Inr listed', w')" and "r = Inr () \<and> line = FileStored (cf_name cf) address \<or> line = FileNotStored (cf_name cf)"
    by (cases r) (auto simp: cli_simps upload_chunks_def upload_chunks_in_batches_def split: failure.splits)
  moreover have "line \<in> set (printed w')" using upload_each_printed [OF rest] by simp
  ultimately have r: "r = Inr ()" "FileStored (cf_name cf) address \<in> set (printed w')" using assms(6) by auto
  with up have "upload_loop N C proofs v [] chunks (w_net w) = (Inr (), n)" by simp
  from upload_loop_held [OF assms(2) _ this sub] assms(3)
  have held: "\<forall>c \<in> set chunks. held N C n c" "\<forall>d \<in> ?A. held N C (w_net w) d \<longrightarrow> held N C n d" by (auto simp: collision_free_def)
  have ih: "(\<forall>e \<in> set m. content_held N C S F (w_net w') (fst e) \<and> FileStored (cf_name (snd e)) (fst e) \<in> set (printed w')) \<and>
    (\<forall>d \<in> ?A. held N C n d \<longrightarrow> held N C (w_net w') d)" using Cons.IH [OF rest] Cons.prems(2) by simp
  then have "all_held N C (w_net w') (set chunks)" using held(1) sub by (auto simp: all_held_def)
  then have "content_held N C S F (w_net w') address" using entry(1,2) by (auto simp: content_held_def)
  with ih held(2) e r(2) show ?case by auto
qed

text \<open>Paying for the chunks changes the wallet's directory and the network only.\<close>

lemma pay_for_storage_dir:
  assumes "pay_for_storage N D C addrs v target idx wc n = (Inr x, wc', n')"
  shows "wallet_dir (wc_wallet wc') = wallet_dir (wc_wallet wc)"
proof -
  obtain res wc1 where s: "set_store_cost_from_random_address C target wc n = (res, wc1)" by fastforce
  then have "wc_wallet wc1 = wc_wallet wc" by (auto simp: set_store_cost_from_random_address_def split: prod.splits)
  with assms s show ?thesis
    by (auto simp: pay_for_storage_def local_send_storage_payment_def update_local_wallet_sel add_payment_proofs_def Let_def split: if_splits sum.splits prod.splits failure.splits)
qed

lemma cli_pay_Inr [cli_simps]:
  "cli_pay N D C addrs v target idx wc w = Some (Inr r, w') \<longleftrightarrow>
    (\<exists>n. pay_for_storage N D C addrs v target idx wc (w_net w) = (Inr (fst r), snd r, n) \<and> w' = w\<lparr>w_net := n\<rparr>)"
  by (cases r) (auto simp: cli_pay_def split: prod.splits)

lemma chunk_and_pay_Inr:
  assumes "chunk_and_pay_for_storage N D K S E C cl rk target idx root files_path v w = Some (Inr (m, proofs), w')"
  obtains wal fs1 w2 where "load_from D K (cli_faults E) rk root (w_fs w) = Inr (wal, fs1)"
    "chunk_files (wire N) S E (walk files_path fs1) [] (w\<lparr>w_fs := fs1\<rparr>) = Some (Inr m, w2)" "fs_frame root (w_fs w2) (w_fs w')"
proof -
  from assms obtain wal fs1 w2 cost wc w3 w4 r line where load: "load_from D K (cli_faults E) rk root (w_fs w) = Inr (wal, fs1)"
    and chunk: "chunk_files (wire N) S E (walk files_path fs1) [] (w\<lparr>w_fs := fs1\<rparr>) = Some (Inr m, w2)"
    and pay: "cli_pay N D C (addrs_of m) v target idx (wallet_client_new cl wal) w2 = Some (Inr ((proofs, cost), wc), w3)"
    and st: "cli_store K E (wc_wallet wc) (w3\<lparr>printed := line\<rparr>) = Some (Inr r, w4)"
    and w': "w_fs w' = w_fs w4"
    by (auto simp: chunk_and_pay_for_storage_def cli_bind_Inr cli_return_Inr cli_fail_Inr say_Inr cli_load_from_Inr split: if_splits)
  from pay obtain n where p: "pay_for_storage N D C (addrs_of m) v target idx (wallet_client_new cl wal) (w_net w2) = (Inr (proofs, cost), wc, n)"
    "w3 = w2\<lparr>w_net := n\<rparr>" by (auto simp: cli_pay_Inr)
  from st w' p(2) have st: "w_fs w' = w_fs w2 \<or> wallet_store K (cli_faults E) (wc_wallet wc) (w_fs w2) = Inr (w_fs w')"
    by (auto simp: cli_store_Inr split: sum.splits)
  have "wallet_dir wal = root @ [''wallet'']" using load by (auto simp: load_from_def Let_def)
  with pay_for_storage_dir [OF p(1)] have "prefix root (wallet_dir (wc_wallet wc))" by (simp add: wallet_client_new_def)
  with st have "fs_frame root (w_fs w2) (w_fs w')" by (auto simp: wallet_store_def intro: fs_frame_store_wallet)
  with load chunk that show thesis by blast
qed

text \<open>An upload command that ends: what it chunked, from which files, and the upload of each.\<close>

lemma upload_files_Inr:
  assumes "upload_files N D K S E C cl rk target idx files_path root v w = Some (Inr (), w')"
  obtains fs1 m w2 w3 proofs listed w4 where "fs_frame root (w_fs w) fs1"
    "chunk_files (wire N) S E (walk files_path fs1) [] (w\<lparr>w_fs := fs1\<rparr>) = Some (Inr m, w2)" "fs_frame root (w_fs w2) (w_fs w3)"
    "upload_each N E C proofs v m w3 = Some (Inr listed, w4)" "w_net w' = w_net w4" "printed w' = printed w4"
proof -
  from assms obtain m proofs w3 listed w4 where
    paid: "chunk_and_pay_for_storage N D K S E C cl rk target idx root files_path True w = Some (Inr (m, proofs), w3)"
    and up: "upload_each N E C proofs v m w3 = Some (Inr listed, w4)" and "w_net w' = w_net w4" "printed w' = printed w4"
    by (auto simp: upload_files_def cli_simps)
  with chunk_and_pay_Inr [OF paid] fs_frame_load_from that show thesis by metis
qed

section \<open>Property\<close>

text \<open>C11: What \<open>files upload\<close> stored, \<open>files download\<close> brings back: when the command ends and reports no file as
  failed, every file it found below the given path (with a name in UTF-8) has an address, which
  the command printed, and downloading that address afterwards writes the contents the file had.
  This is shown for: a network that keeps every record it has accepted and serves it, and is unchanged in
  between; a disk without faults (a chunk that cannot be read back from the temporary directory is
  not uploaded, and this is not reported as a failure); an existing directory to download to;
  directories of the wallet, the files and the temporary chunks that do not overlap; files and chunks
  without collisions of their hashes; files too small to be encrypted that are not by
  chance a serialised data map; and a self-encryption whose data maps shrink and which decrypts what it encrypted.\<close>

theorem cli_upload_download:
  fixes N :: "('d, 's::linorder, 't, 'p) node_env" and C :: "('n, 'd, 's) client_net" and w :: "('n, 's) world"
  assumes laws: "keeps_records C" "rmp_laws (wire N)" "se_laws (wire N) S" and "data_maps_shrink S" and "cli_faults E = no_faults"
    and F: "F = {bs. \<exists>p. prefix files_path p \<and> map_of (fs_files (w_fs w)) p = Some bs}"
    and "collision_free (wire N) S E F" and small: "\<forall>bs \<in> F. length bs < MIN_ENCRYPTABLE_BYTES S \<longrightarrow> level_de S bs = None"
    and apart: "parallel root files_path" "parallel root (temp_dir E)" "parallel (temp_dir E) files_path"
    and up: "upload_files N D K S E C cl rk target idx files_path root v w = Some (Inr (), w')"
    and stored: "\<And>name. FileNotStored name \<notin> set (printed w')"
    and found: "map_of (fs_files (w_fs w)) p = Some bs" "prefix files_path p" "utf8_name E (last p)"
  shows "\<exists>address chunks name. chunk_bytes (wire N) S bs = Some (Inr (address, chunks) :: 's client_error failure + _) \<and>
    FileStored name address \<in> set (printed w') \<and>
    (\<forall>w2 dir name. w_net w2 = w_net w' \<and> dir \<in> set (fs_dirs (w_fs w2)) \<and> dir @ [name] \<notin> set (fs_dirs (w_fs w2)) \<longrightarrow>
      (\<exists>w3. download_file N S E C address name dir w2 = Some (Inr (), w3) \<and> map_of (fs_files (w_fs w3)) (dir @ [name]) = Some bs))"
proof -
  from upload_files_Inr [OF up] obtain fs1 m w2 w3 proofs listed w4 where fs1: "fs_frame root (w_fs w) fs1"
    and chunk: "chunk_files (wire N) S E (walk files_path fs1) [] (w\<lparr>w_fs := fs1\<rparr>) = Some (Inr m, w2)"
    and fs2: "fs_frame root (w_fs w2) (w_fs w3)"
    and each: "upload_each N E C proofs v m w3 = Some (Inr listed, w4)" and fin: "w_net w' = w_net w4" "printed w' = printed w4" .
  have below: "\<not> prefix d q" if "parallel d files_path" "prefix files_path q" for d q
    using that by (metis parallel_def prefix_same_cases)
  have src: "map_of (fs_files fs1) q = map_of (fs_files (w_fs w)) q" if "prefix files_path q" for q
    using fs1 below [OF apart(1) that] by (simp add: fs_frame_def)
  have "\<forall>q \<in> set (walk files_path fs1). \<not> prefix (temp_dir E) q \<and> (\<forall>bs. map_of (fs_files fs1) q = Some bs \<longrightarrow> bs \<in> F)"
    using below [OF apart(3)] src F by (auto simp: walk_def)
  with chunk_files_entries [OF chunk assms(7,5)]
  have entries: "\<forall>e \<in> set m. entry_ok (wire N) S E F (w_fs w2) e" and
    all: "\<forall>q \<in> set (walk files_path fs1). utf8_name E (last q) \<longrightarrow> (\<exists>bs address chunks. map_of (fs_files fs1) q = Some bs \<and>
      chunks_of (wire N) S bs address chunks \<and> address \<in> fst ` set m)" by simp_all
  have "saved E (w_fs w3) d" if "saved E (w_fs w2) d" for d
  proof -
    have "\<not> prefix root (chunk_file E d)" using parallel_append [OF apart(2), of "[]" "[hex_string E (chunk_name d)]"] by (simp add: chunk_file_def parallel_def)
    with that fs2 show ?thesis by (simp add: saved_def fs_frame_def)
  qed
  with entries have "\<forall>e \<in> set m. entry_ok (wire N) S E F (w_fs w3) e" by (auto intro: entry_ok_mono)
  with upload_each_held [OF each laws(1) assms(7,5)] stored fin have
    held: "\<forall>e \<in> set m. content_held N C S F (w_net w') (fst e) \<and> FileStored (cf_name (snd e)) (fst e) \<in> set (printed w')" by simp
  have "p \<in> set (walk files_path fs1)" using found src [OF found(2)] by (auto simp: walk_def dest!: map_of_SomeD intro: rev_image_eqI)
  with all found src [OF found(2)] obtain address chunks cf where chunks: "chunks_of (wire N) S bs address chunks" and "(address, cf) \<in> set m" by fastforce
  with held obtain bs' chunks' where h: "bs' \<in> F" "chunks_of (wire N) S bs' address chunks'" "all_held N C (w_net w') (set chunks')"
    "FileStored (cf_name cf) address \<in> set (printed w')" by (fastforce simp: content_held_def)
  have "bs \<in> F" using found(1,2) F by auto
  with h chunks assms(7) have "bs' = bs" unfolding collision_free_def by blast
  with h have "\<exists>n'. read_bytes N C S address (w_net w') = Some (Inr bs, n')"
    using held_chunks_read [OF laws assms(4), of bs address chunks'] small \<open>bs \<in> F\<close> by (simp add: chunks_of_def)
  then obtain n' where "read_bytes N C S address (w_net w') = Some (Inr bs, n')" by blast
  then have "\<exists>w3. download_file N S E C address name dir w2 = Some (Inr (), w3) \<and> map_of (fs_files (w_fs w3)) (dir @ [name]) = Some bs"
    if "w_net w2 = w_net w'" "dir \<in> set (fs_dirs (w_fs w2))" "dir @ [name] \<notin> set (fs_dirs (w_fs w2))" for w2 dir name
    using that by (simp add: download_file_def assms(5) cli_bind_def say_def cli_file_def fs_write_def cli_return_def map_of_fs_put)
  with chunks h(4) show ?thesis unfolding chunks_of_def by blast
qed

text \<open>Two files of one byte each, in a working directory beside the wallet's.\<close>

definition demo_small_se :: "nat se_env" where
  "demo_small_se = demo_se\<lparr>se_encrypt := (\<lambda>_. Inl ''too small''), level_ser := (\<lambda>_. None), level_de := (\<lambda>_. None), bytes_ser := (\<lambda>_. None)\<rparr>"

definition demo_upload_env :: cli_env where
  "demo_upload_env = demo_cli_env\<lparr>temp_dir := [''t''], hex_string := key_to_hex\<rparr>"

definition demo_upload_codec :: "(dbc_id \<times> token) codec" where
  "demo_upload_codec = listed_codec [wallet (wc_wallet demo_payer)]"

definition demo_upload_world :: "(record_key \<rightharpoonup> kad_record, bytes) world" where
  "demo_upload_world = \<lparr>w_fs = \<lparr>fs_files = [([''f'', ''a''], [5]), ([''f'', ''b''], [6]), ([''r'', ''wallet'', ''main_key''], [1]),
     ([''r'', ''wallet'', ''wallet''], [0])], fs_dirs = [[''r'', ''wallet''], [''r''], [''f''], [''t''], []]\<rparr>, w_net = Map.empty, printed = []\<rparr>"

lemma demo_chunk_bytes: "chunk_bytes demo_chunk_wire demo_small_se [b] = Some (Inr ([b], [\<lparr>chunk_address = [b], chunk_value = [b]\<rparr>]))"
  by (simp add: chunk_bytes_def demo_small_se_def demo_se_def small_file_new_def package_small_def Let_def chunk_name_def to_chunk_def chunk_new_def)

lemma demo_collision_free: "collision_free demo_chunk_wire demo_small_se demo_upload_env {[5], [6]}"
proof -
  have "inj key_to_hex" by (simp add: inj_def)
  then show ?thesis by (auto simp: collision_free_def chunks_of_def all_chunks_def demo_chunk_bytes demo_upload_env_def)
qed

lemma demo_upload_load: "\<exists>ds. load_from demo_fee_env demo_upload_codec no_faults [7] [''r''] (w_fs demo_upload_world)
   = Inr (wc_wallet demo_payer, (w_fs demo_upload_world)\<lparr>fs_dirs := ds\<rparr>) \<and> set ds = set (fs_dirs (w_fs demo_upload_world))"
  by (simp add: load_from_def load_from_path_def fs_create_dir_all_def fs_is_file_def get_main_key_def get_wallet_def fs_read_def
      bls_secret_from_hex_def demo_upload_world_def Let_def atLeastLessThanSuc demo_upload_codec_def) (simp add: demo_payer_def)

abbreviation demo_entries :: "(xorname, chunked_file) btree_map" where
  "demo_entries \<equiv> [([5], \<lparr>cf_name = ''a'', cf_size = 1, cf_chunks = [([5], [''t'', key_to_hex [5]])]\<rparr>),
     ([6], \<lparr>cf_name = ''b'', cf_size = 1, cf_chunks = [([6], [''t'', key_to_hex [6]])]\<rparr>)]"

lemma demo_upload_chunked:
  assumes "set ds = set (fs_dirs (w_fs demo_upload_world))" and "w = demo_upload_world\<lparr>w_fs := (w_fs demo_upload_world)\<lparr>fs_dirs := ds\<rparr>\<rparr>"
  shows "\<exists>fs. chunk_files demo_chunk_wire demo_small_se demo_upload_env (walk [''f''] (w_fs w)) [] w = Some (Inr demo_entries, w\<lparr>w_fs := fs\<rparr>) \<and>
    fs_dirs fs = ds \<and> map_of (fs_files fs) [''t'', key_to_hex [5]] = Some [5] \<and> map_of (fs_files fs) [''t'', key_to_hex [6]] = Some [6] \<and>
    (\<forall>p \<in> {[], [''r''], [''r'', ''uploaded_files'']}. map_of (fs_files fs) p = None)"
proof -
  have env: "utf8_name demo_upload_env x" "temp_dir demo_upload_env = [''t'']" "hex_string demo_upload_env = key_to_hex"
    "cli_faults demo_upload_env = no_faults" for x by (simp_all add: demo_upload_env_def demo_cli_env_def)
  have "key_to_hex [5] \<noteq> key_to_hex [6]" by (simp del: key_to_hex_simps)
  moreover have "walk [''f''] (w_fs w) = [[''f'', ''a''], [''f'', ''b'']]" by (simp add: assms(2) walk_def demo_upload_world_def)
  moreover have "[''t''] \<in> set ds" "[''t'', x] \<notin> set ds" for x by (simp_all add: assms(1) demo_upload_world_def)
  ultimately show ?thesis
    by (simp add: assms(2) env cli_run cli_io_def cli_return_def cli_chunk_bytes_def demo_chunk_bytes fs_read_def fs_write_def fs_put_def Let_def chunk_name_def demo_upload_world_def
        del: key_to_hex_simps)
qed

lemma demo_chunk_sent:
  "store_chunk demo_paying_node map_net \<lparr>chunk_address = [5], chunk_value = [5]\<rparr> demo_first_proof v n =
     (Inr (), n([5] \<mapsto> local_kad_record [5] [0x91, 0, 2, 5]))"
  "store_chunk demo_paying_node map_net \<lparr>chunk_address = [6], chunk_value = [6]\<rparr> demo_paid_proof v n =
     (Inr (), n([6] \<mapsto> local_kad_record [6] [0x91, 0, 1, 6]))"
proof -
  have "rmp_chunk_enc demo_chunk_wire ([5], demo_first_proof) = Some [2, 5]" "rmp_chunk_enc demo_chunk_wire ([6], demo_paid_proof) = Some [1, 6]"
    by (simp_all add: demo_chunk_wire_def demo_first_proof_def demo_paid_proof_def)
  then show
    "store_chunk demo_paying_node map_net \<lparr>chunk_address = [5], chunk_value = [5]\<rparr> demo_first_proof v n =
     (Inr (), n([5] \<mapsto> local_kad_record [5] [0x91, 0, 2, 5]))"
    "store_chunk demo_paying_node map_net \<lparr>chunk_address = [6], chunk_value = [6]\<rparr> demo_paid_proof v n =
     (Inr (), n([6] \<mapsto> local_kad_record [6] [0x91, 0, 1, 6]))"
    by (simp_all add: store_chunk_def enc_chunk_def chunk_serialize_def try_serialize_record_def header_try_serialize_def op_bind_def
        op_return_def map_net_put from_chunk_address_def local_kad_record_def)
qed

lemma demo_upload_each:
  assumes "map_of (fs_files (w_fs w)) [''t'', key_to_hex [5]] = Some [5]" and "map_of (fs_files (w_fs w)) [''t'', key_to_hex [6]] = Some [6]"
    and "bm_get proofs [5] = Some demo_first_proof" and "bm_get proofs [6] = Some demo_paid_proof"
  shows "upload_each demo_paying_node demo_upload_env map_net proofs v demo_entries w = Some (Inr [([5], ''a''), ([6], ''b'')],
    w\<lparr>w_net := (w_net w)([5] \<mapsto> local_kad_record [5] [0x91, 0, 2, 5], [6] \<mapsto> local_kad_record [6] [0x91, 0, 1, 6]),
      printed := printed w @ [FileStored ''a'' [5], FileStored ''b'' [6]]\<rparr>)"
proof -
  have "cli_faults demo_upload_env = no_faults" by (simp add: demo_upload_env_def demo_cli_env_def)
  with assms show ?thesis
    by (simp add: upload_chunks_def upload_chunks_in_batches_def cli_run cli_net_def cli_return_def fs_read_def demo_chunk_sent
        CHUNKS_BATCH_MAX_SIZE_def del: key_to_hex_simps)
qed

lemma demo_upload_done:
  "\<exists>w'. upload_files demo_paying_node demo_fee_env demo_upload_codec demo_small_se demo_upload_env map_net (client_new [1]) [7] [0] [4] [''f''] [''r''] True
     demo_upload_world = Some (Inr (), w') \<and> (\<forall>name. FileNotStored name \<notin> set (printed w'))"
proof -
  obtain ds where load: "load_from demo_fee_env demo_upload_codec no_faults [7] [''r''] (w_fs demo_upload_world)
     = Inr (wc_wallet demo_payer, (w_fs demo_upload_world)\<lparr>fs_dirs := ds\<rparr>)" and ds: "set ds = set (fs_dirs (w_fs demo_upload_world))"
    using demo_upload_load by blast
  let ?w = "demo_upload_world\<lparr>w_fs := (w_fs demo_upload_world)\<lparr>fs_dirs := ds\<rparr>\<rparr>"
  obtain fs where chunked: "chunk_files demo_chunk_wire demo_small_se demo_upload_env (walk [''f''] (w_fs ?w)) [] ?w = Some (Inr demo_entries, ?w\<lparr>w_fs := fs\<rparr>)"
    and fs: "fs_dirs fs = ds" "map_of (fs_files fs) [''t'', key_to_hex [5]] = Some [5]" "map_of (fs_files fs) [''t'', key_to_hex [6]] = Some [6]"
      "map_of (fs_files fs) [] = None" "map_of (fs_files fs) [''r''] = None" "map_of (fs_files fs) [''r'', ''uploaded_files''] = None"
    using demo_upload_chunked [OF ds refl] by auto
  obtain proofs wc' n' where pay: "pay_for_storage demo_paying_node demo_fee_env map_net [[5], [6]] True [0] [4] demo_payer Map.empty
     = (Inr (proofs, Some 20), wc', n')" and proofs: "bm_get proofs [5] = Some demo_first_proof" "bm_get proofs [6] = Some demo_paid_proof"
    using demo_pay by blast
  have env: "cli_faults demo_upload_env = no_faults" "index_ser demo_upload_env x = Some []" "date_time demo_upload_env = ''now''" for x
    by (simp_all add: demo_upload_env_def demo_cli_env_def)
  have payer: "wallet_client_new (client_new [1]) (wc_wallet demo_payer) = demo_payer" by (simp add: wallet_client_new_def demo_payer_def)
  obtain stored where st: "wallet_store demo_upload_codec no_faults (wc_wallet wc') fs = stored" by blast
  define fs2 where "fs2 = (case stored of Inl _ \<Rightarrow> fs | Inr fs2 \<Rightarrow> fs2)"
  have "wallet_dir (wc_wallet wc') = [''r'', ''wallet'']" using pay_for_storage_dir [OF pay] by (simp add: demo_payer_def)
  then have fs2: "fs_dirs fs2 = ds" "map_of (fs_files fs2) p = map_of (fs_files fs) p" if "p \<noteq> [''r'', ''wallet'', ''wallet'']" for p
    using fs(1) that by (auto simp: fs2_def st [symmetric] wallet_store_def store_wallet_def dest!: fs_write_files split: sum.splits)
  let ?paid = "?w\<lparr>w_fs := fs2, w_net := n', printed := [PaidLine (word_of_nat (length proofs) * 20) (length proofs) 20,
      case stored of Inl _ \<Rightarrow> WalletNotStored | Inr _ \<Rightarrow> WalletStored (wallet_balance (wc_wallet wc'))]\<rparr>"
  have "chunk_and_pay_for_storage demo_paying_node demo_fee_env demo_upload_codec demo_small_se demo_upload_env map_net (client_new [1]) [7] [0] [4]
      [''r''] [''f''] True demo_upload_world = Some (Inr (demo_entries, proofs), ?paid)"
    using load chunked pay payer st
    by (cases stored) (simp_all add: chunk_and_pay_for_storage_def cli_run env cli_pay_def addrs_of_def bm_values_def cli_return_def fs2_def
        demo_upload_world_def del: key_to_hex_simps)
  moreover note demo_upload_each [of ?paid proofs True]
  moreover have "[''r''] \<in> set ds" "[''r'', ''uploaded_files'', x] \<notin> set ds" for x using ds by (simp_all add: demo_upload_world_def)
  ultimately show ?thesis
    using fs fs2(2) fs2(1) [of "[]"] proofs by (simp add: upload_files_def cli_run cli_io_def env fs_create_dir_all_def fs_is_file_def fs_write_def index_path_def atLeastLessThanSuc
        split: sum.splits)
qed

theorem cli_upload_download_witness:
  "\<exists>w' w3. upload_files demo_paying_node demo_fee_env demo_upload_codec demo_small_se demo_upload_env map_net (client_new [1]) [7] [0] [4] [''f''] [''r''] True
     demo_upload_world = Some (Inr (), w') \<and>
    download_file demo_paying_node demo_small_se demo_upload_env map_net [6] ''copy'' [''f''] (demo_upload_world\<lparr>w_net := w_net w'\<rparr>) = Some (Inr (), w3) \<and>
    map_of (fs_files (w_fs w3)) [''f'', ''copy''] = Some [6]"
proof -
  obtain w' where up: "upload_files demo_paying_node demo_fee_env demo_upload_codec demo_small_se demo_upload_env map_net (client_new [1]) [7] [0] [4]
     [''f''] [''r''] True demo_upload_world = Some (Inr (), w')" and stored: "\<And>name. FileNotStored name \<notin> set (printed w')"
    using demo_upload_done by blast
  let ?fs = "w_fs demo_upload_world"
  have files: "map_of (fs_files ?fs) [''f'', ''a''] = Some [5]" "map_of (fs_files ?fs) [''f'', ''b''] = Some [6]"
    by (simp_all add: demo_upload_world_def)
  have F: "{bs. \<exists>p. prefix [''f''] p \<and> map_of (fs_files ?fs) p = Some bs} = {[5], [6]}" (is "?F = _")
  proof
    show "?F \<subseteq> {[5], [6]}" by (auto simp: demo_upload_world_def split: if_splits)
    have "prefix [''f''] [''f'', x]" for x :: string by simp
    with files show "{[5], [6]} \<subseteq> ?F" by blast
  qed
  have se: "se_laws (wire demo_paying_node) demo_small_se" "data_maps_shrink demo_small_se" "\<forall>bs \<in> {[5], [6]}. length bs < MIN_ENCRYPTABLE_BYTES demo_small_se \<longrightarrow> level_de demo_small_se bs = None"
    by (simp_all add: se_laws_def data_maps_shrink_def demo_small_se_def)
  have env: "cli_faults demo_upload_env = no_faults" "parallel [''r''] [''f'']" "parallel [''r''] (temp_dir demo_upload_env)"
    "parallel (temp_dir demo_upload_env) [''f'']" "prefix [''f''] [''f'', ''b'']" "utf8_name demo_upload_env (last [''f'', ''b''])"
    by (simp_all add: demo_upload_env_def demo_cli_env_def parallel_def)
  have wire: "rmp_laws (wire demo_paying_node)" "collision_free (wire demo_paying_node) demo_small_se demo_upload_env {[5], [6]}"
    using demo_chunk_wire_laws(1) demo_collision_free by simp_all
  from cli_upload_download [OF map_net_keeps wire(1) se(1,2) env(1) F [symmetric] wire(2) se(3) env(2-4) up stored files(2) env(5,6)]
  obtain address chunks where "chunk_bytes demo_chunk_wire demo_small_se [6] = Some (Inr (address, chunks) :: bytes client_error failure + _)"
    and dl: "\<And>w2 dir name. w_net w2 = w_net w' \<Longrightarrow> dir \<in> set (fs_dirs (w_fs w2)) \<Longrightarrow> dir @ [name] \<notin> set (fs_dirs (w_fs w2)) \<Longrightarrow>
      \<exists>w3. download_file demo_paying_node demo_small_se demo_upload_env map_net address name dir w2 = Some (Inr (), w3) \<and>
        map_of (fs_files (w_fs w3)) (dir @ [name]) = Some [6]" by auto
  then have "address = [6]" by (simp add: demo_chunk_bytes)
  with up dl [of "demo_upload_world\<lparr>w_net := w_net w'\<rparr>" "[''f'']" "''copy''"] show ?thesis by (simp add: demo_upload_world_def)
qed

end
