(* ===== verification/Register_Chat.thy ===== *)
theory Register_Chat
  imports Cli_Main
begin

text \<open>
  The interactive example of sn_node (\<open>examples/registers.rs\<close>): it opens a register by a nickname,
  writes each line it is given to its replica, merging branches where it finds them, and
  synchronises the replica with the network after each line. What \<open>read_line\<close> returns, the
  trimming of white space and the validity of UTF-8 are arguments; the connected client too.
\<close>

section \<open>The program\<close>

datatype 's chat_error = ChatClientErr "'s client_error" | ChatUtf8Err

definition chat_failure :: "'s client_error failure \<Rightarrow> 's chat_error failure" where
  "chat_failure f = (case f of Err e \<Rightarrow> Err (ChatClientErr e) | Panic \<Rightarrow> Panic)"

definition prompt_user :: "(bytes \<Rightarrow> bytes) \<Rightarrow> string + bytes \<Rightarrow> 's chat_error failure + bytes" where
  "prompt_user trim line = (case line of Inl _ \<Rightarrow> Inl Panic | Inr input_text \<Rightarrow> Inr (trim input_text))"

definition open_register :: "('d, 's, 't, 'p) node_env \<Rightarrow> ('n, 'd, 's) client_net \<Rightarrow> client \<Rightarrow> string
    \<Rightarrow> ('n, 's, 'd client_register) client_op" where
  "open_register N C cl reg_nickname = (\<lambda>n.
     let m = xorname_of_text (wire N) reg_nickname;
         address = address_new m (signer_pk N cl)
     in case client_get_register N C cl address n of
          (Inr register, n') \<Rightarrow> (Inr register, n')
        | (Inl Panic, n') \<Rightarrow> (Inl Panic, n')
        | (Inl (Err _), n') \<Rightarrow> client_create_register N C cl m True n')"

definition print_entries :: "('d, 's, 't, 'p) node_env \<Rightarrow> (bytes \<Rightarrow> bool) \<Rightarrow> 'd client_register \<Rightarrow> 's chat_error failure + unit" where
  "print_entries N is_utf8 cr =
     try_all (\<lambda>(_, entry). if is_utf8 entry then Inr () else Inl (Err ChatUtf8Err)) (register_read (w_reg (wire N)) (cr_register cr))"

definition chat_message :: "string \<Rightarrow> bytes \<Rightarrow> bytes" where
  "chat_message user input_text = map of_char (''['' @ user @ '']: '') @ input_text"

definition chat_write :: "('d, 's, 't, 'p) node_env \<Rightarrow> 'd client_register \<Rightarrow> bytes \<Rightarrow> 's client_error failure + 'd client_register" where
  "chat_write N cr msg =
     (case cr_write N cr msg of
        Inr cr' \<Rightarrow> Inr cr'
      | Inl (Err (ContentBranchDetected branches)) \<Rightarrow> write_merging_branches N cr msg
      | Inl f \<Rightarrow> Inl f)"

definition chat_round :: "('d, 's, 't, 'p) node_env \<Rightarrow> ('n, 'd, 's) client_net \<Rightarrow> (bytes \<Rightarrow> bool) \<Rightarrow> (bytes \<Rightarrow> bytes) \<Rightarrow> string
    \<Rightarrow> string + bytes \<Rightarrow> 'd client_register \<Rightarrow> 'n \<Rightarrow> ('s chat_error failure + 'd client_register) \<times> 'n" where
  "chat_round N C is_utf8 trim user line cr n =
     (case bind_result (print_entries N is_utf8 cr) (\<lambda>_.
           bind_result (prompt_user trim line) (\<lambda>input_text.
             map_err chat_failure (chat_write N cr (chat_message user input_text)))) of
        Inl f \<Rightarrow> (Inl f, n)
      | Inr cr' \<Rightarrow> (case sync N C True cr' n of (res, cr'', n') \<Rightarrow> (map_err chat_failure (bind_result res (\<lambda>_. Inr cr'')), n')))"

text \<open>The loop, on the lines it is given; it only ends with an error.\<close>

fun chat_loop :: "('d, 's, 't, 'p) node_env \<Rightarrow> ('n, 'd, 's) client_net \<Rightarrow> (bytes \<Rightarrow> bool) \<Rightarrow> (bytes \<Rightarrow> bytes) \<Rightarrow> string
    \<Rightarrow> (string + bytes) list \<Rightarrow> 'd client_register \<Rightarrow> 'n \<Rightarrow> ('s chat_error failure + 'd client_register) \<times> 'n" where
  "chat_loop N C is_utf8 trim user [] cr n = (Inr cr, n)"
| "chat_loop N C is_utf8 trim user (line # lines) cr n =
     (case chat_round N C is_utf8 trim user line cr n of
        (Inl f, n') \<Rightarrow> (Inl f, n')
      | (Inr cr', n') \<Rightarrow> chat_loop N C is_utf8 trim user lines cr' n')"

definition registers_main :: "('d, 's, 't, 'p) node_env \<Rightarrow> ('n, 'd, 's) client_net \<Rightarrow> (bytes \<Rightarrow> bool) \<Rightarrow> (bytes \<Rightarrow> bytes)
    \<Rightarrow> 's client_error failure + client \<Rightarrow> string \<Rightarrow> string \<Rightarrow> (string + bytes) list \<Rightarrow> 'n
    \<Rightarrow> ('s chat_error failure + 'd client_register) \<times> 'n" where
  "registers_main N C is_utf8 trim connected user reg_nickname lines n =
     (case connected of
        Inl f \<Rightarrow> (Inl (chat_failure f), n)
      | Inr cl \<Rightarrow>
          (case open_register N C cl reg_nickname n of
             (Inl f, n') \<Rightarrow> (Inl (chat_failure f), n')
           | (Inr reg_replica, n') \<Rightarrow> chat_loop N C is_utf8 trim user lines reg_replica n'))"

section \<open>Lemmas\<close>

text \<open>Merging a replica into one that is a node ahead of it changes nothing.\<close>

definition merge_absorbs :: "'d reg_env \<Rightarrow> bool" where
  "merge_absorbs E \<longleftrightarrow> (\<forall>d m. mr_merge E (mr_apply E d m) d = mr_apply E d m)"

lemma register_merge_behind: "merge_absorbs E \<Longrightarrow> register_merge E (apply_effect E r op) r = apply_effect E r op"
  by (simp add: merge_absorbs_def register_merge_def crdt_merge_def apply_effect_def)

lemma chat_write_Inr:
  assumes "chat_write N cr msg = Inr cr'"
  obtains children where "write_atop N cr msg children = Inr cr'"
  using assms by (auto simp: chat_write_def cr_write_def write_merging_branches_def Let_def
      split: sum.splits failure.splits client_error.splits if_splits)

text \<open>Synchronising a replica that is one write ahead of the network is pushing this write.\<close>

lemma sync_ahead:
  fixes N :: "('d, 's, 't, 'p) node_env" and C :: "('n, 'd, 's) client_net"
  assumes "rmp_laws (wire N)" "keeps_records C" "merge_absorbs (w_reg (wire N))" and "in_step N C cr n k"
    and "write_atop N cr msg children = Inr cr1"
  shows "\<exists>n1. in_step N C cr n1 k \<and> sync N C v cr1 n = then_push N C v cr (write_atop N cr msg children) n1"
proof -
  from write_atop_Inr [OF assms(5)] obtain op os where cr1: "cr1 = cr\<lparr>cr_register := apply_effect (w_reg (wire N)) (cr_register cr) op, cr_ops := os\<rparr>"
    by metis
  from in_step_retrieve [OF assms(1,2,4), of undefined] obtain n1 where
    "get_register_from_network N C (register_address (cr_register cr)) n = (Inr (cr_register cr), n1)" and step: "in_step N C cr n1 k"
    by (auto simp: cr_retrieve_def op_bind_def split: prod.splits sum.splits)
  then have "fetch_or_create N C v cr1 n = (Inr (cr_register cr), n1)" by (simp add: fetch_or_create_def cr1)
  moreover have "cr1\<lparr>cr_register := register_merge (w_reg (wire N)) (cr_register cr1) (cr_register cr)\<rparr> = cr1"
    using register_merge_behind [OF assms(3), of "cr_register cr" op] by (simp add: cr1)
  ultimately have "sync N C v cr1 n = push N C v cr1 n1" by (simp add: sync_def)
  with step assms(5) show ?thesis by (auto simp: then_push_def)
qed

lemma chat_round_in_step:
  fixes N :: "('d, 's, 't, 'p) node_env" and C :: "('n, 'd, 's) client_net"
  assumes laws: "merkle_reg_laws (w_reg (wire N))" "rmp_laws (wire N)" "keeps_records C" "merge_absorbs (w_reg (wire N))"
    and step: "in_step N C cr n k" and "k < MAX_REG_NUM_ENTRIES" and "cr_ops cr = []"
    and owner: "signer_pk N (cr_client cr) = register_owner (cr_register cr)"
    and run: "chat_round N C is_utf8 trim user line cr n = (Inr cr', n')"
  obtains op said where "line = Inr said" "node_value (op_crdt_op op) = chat_message user (trim said)"
    "cr' = cr\<lparr>cr_register := apply_effect (w_reg (wire N)) (cr_register cr) op\<rparr>" "in_step N C cr' n' (Suc k)"
proof -
  from run obtain said cr1 where line: "line = Inr said" and w: "chat_write N cr (chat_message user (trim said)) = Inr cr1"
    and s: "sync N C True cr1 n = (Inr (), cr', n')"
    by (auto simp: chat_round_def prompt_user_def split: sum.splits prod.splits)
  from chat_write_Inr [OF w] obtain ch where ch: "write_atop N cr (chat_message user (trim said)) ch = Inr cr1" .
  from sync_ahead [OF laws(2-4) step ch, of True] s obtain n1 where s1: "in_step N C cr n1 k"
    and p: "then_push N C True cr (write_atop N cr (chat_message user (trim said)) ch) n1 = (Inr (), cr', n')" by auto
  from owner_write_pushed [OF owner assms(7) _ p] laws(1) obtain op where
    op: "publish_register N C (RegEdit op) True n1 = (Inr (), n')" "cr' = cr\<lparr>cr_register := apply_effect (w_reg (wire N)) (cr_register cr) op, cr_ops := []\<rparr>"
      "op_address op = register_address (cr_register cr)" "length (node_value (op_crdt_op op)) \<le> MAX_REG_ENTRY_SIZE"
      "node_value (op_crdt_op op) = chat_message user (trim said)" by (auto simp: merkle_reg_laws_def)
  with publish_edit_in_step [OF _ _ _ laws(2,3) s1 assms(6) op(1,3,4), of "[]"] laws(1) have "in_step N C cr' n' (Suc k)"
    by (simp add: merkle_reg_laws_def)
  moreover have "cr' = cr\<lparr>cr_register := apply_effect (w_reg (wire N)) (cr_register cr) op\<rparr>" using op(2) assms(7) by simp
  ultimately show thesis using that [OF line op(5)] by blast
qed

lemma chat_loop_in_step:
  fixes N :: "('d, 's, 't, 'p) node_env" and C :: "('n, 'd, 's) client_net"
  assumes laws: "merkle_reg_laws (w_reg (wire N))" "rmp_laws (wire N)" "keeps_records C" "merge_absorbs (w_reg (wire N))"
    and "in_step N C cr n k" and "k + length lines \<le> MAX_REG_NUM_ENTRIES" and "cr_ops cr = []"
    and "signer_pk N (cr_client cr) = register_owner (cr_register cr)"
    and "chat_loop N C is_utf8 trim user lines cr n = (Inr cr', n')"
  shows "\<exists>os texts. lines = map Inr texts \<and> map (\<lambda>op. node_value (op_crdt_op op)) os = map (\<lambda>t. chat_message user (trim t)) texts \<and>
    cr' = cr\<lparr>cr_register := foldl (apply_effect (w_reg (wire N))) (cr_register cr) os\<rparr> \<and> in_step N C cr' n' (k + length lines)"
  using assms(5-)
proof (induction lines arbitrary: cr n k)
  case Nil
  then show ?case by auto
next
  case (Cons line lines)
  let ?E = "w_reg (wire N)"
  from Cons.prems(5) obtain cr1 n1 where one: "chat_round N C is_utf8 trim user line cr n = (Inr cr1, n1)"
    and more: "chat_loop N C is_utf8 trim user lines cr1 n1 = (Inr cr', n')" by (auto split: prod.splits sum.splits)
  have "k < MAX_REG_NUM_ENTRIES" using Cons.prems(2) by simp
  from chat_round_in_step [OF laws Cons.prems(1) this Cons.prems(3,4) one] obtain op said where
    op: "line = Inr said" "node_value (op_crdt_op op) = chat_message user (trim said)"
      "cr1 = cr\<lparr>cr_register := apply_effect ?E (cr_register cr) op\<rparr>" "in_step N C cr1 n1 (Suc k)" .
  from Cons.IH [OF op(4) _ _ _ more] Cons.prems(2-4) op(3) obtain os texts where
    "lines = map Inr texts" "map (\<lambda>op. node_value (op_crdt_op op)) os = map (\<lambda>t. chat_message user (trim t)) texts"
    "cr' = cr\<lparr>cr_register := foldl (apply_effect ?E) (cr_register cr) (op # os)\<rparr>" "in_step N C cr' n' (k + length (line # lines))" by auto
  with op(1,2) show ?case by (intro exI [of _ "op # os"] exI [of _ "said # texts"]) auto
qed

section \<open>What readers see\<close>

text \<open>The example started on a free address writes exactly the lines it is given, trimmed, marked with the
  user's name and in their order, and after each of them every reader retrieves the register as
  the program's replica has it (up to the number of entries a register has room for).\<close>

lemma registers_chat:
  fixes N :: "('d, 's, 't, 'p) node_env" and C :: "('n, 'd, 's) client_net"
  assumes laws: "sig_correct (w_reg (wire N))" "merkle_reg_laws (w_reg (wire N))" "rmp_laws (wire N)" "keeps_records C" "merge_absorbs (w_reg (wire N))"
    and a: "a = address_new (xorname_of_text (wire N) reg_nickname) (signer_pk N cl)"
    and absent: "get_signed_register_from_network N C a n = (Inl (Err e0), n0)" "get_signed_register_from_network N C a n0 = (Inl (Err e1), n1)"
      "get_signed_register_from_network N C a n1 = (Inl (Err e2), n2)"
    and run: "registers_main N C is_utf8 trim (Inr cl) user reg_nickname lines n = (Inr cr, n')" and room: "length lines \<le> MAX_REG_NUM_ENTRIES"
  shows "\<exists>os texts. lines = map Inr texts \<and> map (\<lambda>op. node_value (op_crdt_op op)) os = map (\<lambda>t. chat_message user (trim t)) texts \<and>
    cr_register cr = foldl (apply_effect (w_reg (wire N))) (cr_register (cr_create N cl (xorname_of_text (wire N) reg_nickname))) os \<and>
    fst (cr_retrieve N C reader a n') = Inr \<lparr>cr_client = reader, cr_register = cr_register cr, cr_ops = []\<rparr>"
proof -
  let ?m = "xorname_of_text (wire N) reg_nickname" and ?E = "w_reg (wire N)"
  let ?cr = "cr_create N cl ?m"
  have addr: "a = RegisterAddress ?m (signer_pk N cl)" by (simp add: a address_new_def)
  have "cr_retrieve N C cl a n = (Inl (Err e0), n0)"
    using absent(1) by (simp add: cr_retrieve_def get_register_from_network_def op_bind_def Let_def)
  with run obtain cr0 n3 where cr0: "create_online N C cl ?m True n0 = (Inr cr0, n3)"
    and loop: "chat_loop N C is_utf8 trim user lines cr0 n3 = (Inr cr, n')"
    by (auto simp: registers_main_def open_register_def a Let_def split: prod.splits sum.splits)
  from create_online_in_step [OF laws(1-4) absent(2,3) [unfolded addr] cr0] have start: "in_step N C ?cr n3 0" and "cr0 = ?cr" by auto
  have new: "register_address (cr_register ?cr) = a" "cr_ops ?cr = []" "signer_pk N (cr_client ?cr) = register_owner (cr_register ?cr)"
    by (simp_all add: a cr_create_def cr_create_register_def register_owner_def register_address_def register_new_def crdt_new_def address_new_def)
  from chat_loop_in_step [OF laws(2-5) start _ new(2,3) loop [unfolded \<open>cr0 = ?cr\<close>]] room obtain os texts where
    os: "lines = map Inr texts" "map (\<lambda>op. node_value (op_crdt_op op)) os = map (\<lambda>t. chat_message user (trim t)) texts"
      "cr = ?cr\<lparr>cr_register := foldl (apply_effect ?E) (cr_register ?cr) os\<rparr>" "in_step N C cr n' (length lines)" by auto
  have "register_address (foldl (apply_effect ?E) (cr_register ?cr) os) = a"
    using new(1) by (induction os rule: rev_induct) simp_all
  with in_step_retrieve [OF laws(3,4) os(4), of reader] os(3) have
    "fst (cr_retrieve N C reader a n') = Inr \<lparr>cr_client = reader, cr_register = cr_register cr, cr_ops = []\<rparr>" by auto
  with os show ?thesis by auto
qed

end
