(* ===== verification/Rpc_Client.thy ===== *)
theory Rpc_Client
  imports Safenode
begin

text \<open>
  The command line client of the node's admin service (\<open>examples/safenode_rpc_client.rs\<close> of
  sn_node). The gRPC channel is generated code: \<open>rpc_service\<close> holds what its calls do, as
  functions on the state of whatever answers them, and \<open>safenode_service\<close> is the instance in
  which the modelled service of \<open>bin/safenode/rpc.rs\<close> answers. What the program prints is the
  list of its lines; those that show a value by its \<open>Display\<close> or \<open>Debug\<close> text carry the value.
\<close>

section \<open>The program\<close>

datatype rpc_line = Line string | PeerLine string peer_id | ListenerLine multiaddr | PidLine "32 word" | UptimeLine nat
  | EventLine node_event | KeyLine bytes | DelayLine string u64

datatype rpc_error = RpcLogging logging_error | RpcConnect string | RpcStatus string | BadPeerId bytes | BadMultiaddr string

text \<open>Each call of the stub; \<open>rs_connect\<close> opens the channel. The stream of events is the list of its items.\<close>

record 'n rpc_service =
  rs_connect :: "string \<Rightarrow> 'n \<Rightarrow> (string + unit) \<times> 'n"
  rs_node_info :: "'n \<Rightarrow> (string + node_info_response) \<times> 'n"
  rs_network_info :: "'n \<Rightarrow> (string + bytes list \<times> string list) \<times> 'n"
  rs_node_events :: "'n \<Rightarrow> (string + (string + bytes) list) \<times> 'n"
  rs_record_addresses :: "'n \<Rightarrow> (string + bytes list) \<times> 'n"
  rs_restart :: "u64 \<Rightarrow> 'n \<Rightarrow> (string + unit) \<times> 'n"
  rs_stop :: "u64 \<Rightarrow> 'n \<Rightarrow> (string + unit) \<times> 'n"
  rs_update :: "u64 \<Rightarrow> 'n \<Rightarrow> (string + unit) \<times> 'n"

datatype rpc_cmd = CmdInfo | CmdNetinfo | CmdEvents | CmdRestart u64 | CmdStop u64 | CmdUpdate u64

definition rpc_endpoint :: "string \<Rightarrow> string" where
  "rpc_endpoint addr = ''https://'' @ addr"

text \<open>Connecting and making one call, as every command begins; nothing is printed before the answer is there.\<close>

definition rpc_call :: "'n rpc_service \<Rightarrow> string \<Rightarrow> ('n \<Rightarrow> (string + 'a) \<times> 'n) \<Rightarrow> ('a \<Rightarrow> (rpc_error + unit) \<times> rpc_line list) \<Rightarrow> 'n
    \<Rightarrow> ((rpc_error + unit) \<times> rpc_line list) \<times> 'n" where
  "rpc_call S addr request answer n =
     (case rs_connect S (rpc_endpoint addr) n of
        (Inl e, n) \<Rightarrow> ((Inl (RpcConnect e), []), n)
      | (Inr _, n) \<Rightarrow>
          (case request n of
             (Inl status, n) \<Rightarrow> ((Inl (RpcStatus status), []), n)
           | (Inr response, n) \<Rightarrow> (answer response, n)))"

definition cli_node_info :: "(bytes \<Rightarrow> peer_id option) \<Rightarrow> 'n rpc_service \<Rightarrow> string \<Rightarrow> 'n \<Rightarrow> ((rpc_error + unit) \<times> rpc_line list) \<times> 'n" where
  "cli_node_info peer_of S addr = rpc_call S addr (rs_node_info S) (\<lambda>node_info.
     case peer_of (ni_peer_id node_info) of
       None \<Rightarrow> (Inl (BadPeerId (ni_peer_id node_info)), [])
     | Some peer_id \<Rightarrow> (Inr (),
         [Line ''Node info:'', Line ''=========='', Line (''RPC endpoint: '' @ rpc_endpoint addr), PeerLine ''Peer Id: '' peer_id,
          Line (''Logs dir: '' @ ni_log_dir node_info), PidLine (ni_pid node_info), Line (''Binary version: '' @ ni_bin_version node_info),
          UptimeLine (ni_uptime_secs node_info)]))"

text \<open>A loop that prints a line for each item until one of them cannot be parsed.\<close>

fun print_each :: "('a \<Rightarrow> rpc_error + rpc_line) \<Rightarrow> 'a list \<Rightarrow> (rpc_error + unit) \<times> rpc_line list" where
  "print_each line [] = (Inr (), [])"
| "print_each line (x # xs) =
     (case line x of Inl e \<Rightarrow> (Inl e, []) | Inr l \<Rightarrow> (case print_each line xs of (res, ls) \<Rightarrow> (res, l # ls)))"

definition peer_line :: "(bytes \<Rightarrow> peer_id option) \<Rightarrow> bytes \<Rightarrow> rpc_error + rpc_line" where
  "peer_line peer_of b = (case peer_of b of None \<Rightarrow> Inl (BadPeerId b) | Some p \<Rightarrow> Inr (PeerLine ''Peer: '' p))"

definition listener_line :: "(string \<Rightarrow> multiaddr option) \<Rightarrow> string \<Rightarrow> rpc_error + rpc_line" where
  "listener_line multiaddr_of s = (case multiaddr_of s of None \<Rightarrow> Inl (BadMultiaddr s) | Some m \<Rightarrow> Inr (ListenerLine m))"

definition cli_network_info :: "(bytes \<Rightarrow> peer_id option) \<Rightarrow> (string \<Rightarrow> multiaddr option) \<Rightarrow> 'n rpc_service \<Rightarrow> string \<Rightarrow> 'n
    \<Rightarrow> ((rpc_error + unit) \<times> rpc_line list) \<times> 'n" where
  "cli_network_info peer_of multiaddr_of S addr = rpc_call S addr (rs_network_info S) (\<lambda>(peers, addrs).
     let head = [Line (''Node'' @ CHR 0x27 # ''s connections to the Network:''), Line '''', Line ''Connected peers:'']
     in case print_each (peer_line peer_of) peers of
          (Inl e, ls) \<Rightarrow> (Inl e, head @ ls)
        | (Inr _, ls) \<Rightarrow>
            (case print_each (listener_line multiaddr_of) addrs of
               (res, ls') \<Rightarrow> (res, head @ ls @ [Line '''', Line (''Node'' @ CHR 0x27 # ''s listeners:'')] @ ls')))"

text \<open>The loop over the stream of events ends with the stream or at its first error.\<close>

fun print_events :: "(bytes \<Rightarrow> node_event option) \<Rightarrow> (string + bytes) list \<Rightarrow> rpc_line list" where
  "print_events event_of (Inr e # items) =
     (case event_of e of None \<Rightarrow> Line ''Error while parsing received NodeEvent'' | Some event \<Rightarrow> EventLine event) # print_events event_of items"
| "print_events event_of _ = []"

definition cli_node_events :: "(bytes \<Rightarrow> node_event option) \<Rightarrow> 'n rpc_service \<Rightarrow> string \<Rightarrow> 'n \<Rightarrow> ((rpc_error + unit) \<times> rpc_line list) \<times> 'n" where
  "cli_node_events event_of S addr = rpc_call S addr (rs_node_events S) (\<lambda>items.
     (Inr (), Line ''Listening to node events... (press Ctrl+C to exit)'' # print_events event_of items))"

definition cli_record_addresses :: "'n rpc_service \<Rightarrow> string \<Rightarrow> 'n \<Rightarrow> ((rpc_error + unit) \<times> rpc_line list) \<times> 'n" where
  "cli_record_addresses S addr = rpc_call S addr (rs_record_addresses S) (\<lambda>addresses.
     (Inr (), Line ''Records held by the node:'' # map KeyLine addresses))"

definition cli_node_restart :: "'n rpc_service \<Rightarrow> string \<Rightarrow> u64 \<Rightarrow> 'n \<Rightarrow> ((rpc_error + unit) \<times> rpc_line list) \<times> 'n" where
  "cli_node_restart S addr delay_millis = rpc_call S addr (rs_restart S delay_millis) (\<lambda>_.
     (Inr (), [DelayLine ''Node successfully received the request to restart in '' delay_millis]))"

definition cli_node_stop :: "'n rpc_service \<Rightarrow> string \<Rightarrow> u64 \<Rightarrow> 'n \<Rightarrow> ((rpc_error + unit) \<times> rpc_line list) \<times> 'n" where
  "cli_node_stop S addr delay_millis = rpc_call S addr (rs_stop S delay_millis) (\<lambda>_.
     (Inr (), [DelayLine ''Node successfully received the request to stop in '' delay_millis]))"

definition cli_node_update :: "'n rpc_service \<Rightarrow> string \<Rightarrow> u64 \<Rightarrow> 'n \<Rightarrow> ((rpc_error + unit) \<times> rpc_line list) \<times> 'n" where
  "cli_node_update S addr delay_millis = rpc_call S addr (rs_update S delay_millis) (\<lambda>_.
     (Inr (), [DelayLine ''Node successfully received the request to try to update in '' delay_millis]))"

definition rpc_client_main :: "io_faults \<Rightarrow> string option \<Rightarrow> (bytes \<Rightarrow> peer_id option) \<Rightarrow> (string \<Rightarrow> multiaddr option) \<Rightarrow> (bytes \<Rightarrow> node_event option)
    \<Rightarrow> 'n rpc_service \<Rightarrow> string \<Rightarrow> rpc_cmd \<Rightarrow> file_system \<Rightarrow> 'n \<Rightarrow> ((rpc_error + unit) \<times> rpc_line list) \<times> 'n" where
  "rpc_client_main F sn_log peer_of multiaddr_of event_of S addr cmd fs n =
     (case init_logging F sn_log [(''safenode'', INFO), (''sn_transfers'', INFO), (''sn_networking'', INFO), (''sn_node'', INFO)] LogStdout LogDefault fs of
        Inl e \<Rightarrow> ((Inl (RpcLogging e), []), n)
      | Inr _ \<Rightarrow>
          (case cmd of
             CmdInfo \<Rightarrow> cli_node_info peer_of S addr n
           | CmdNetinfo \<Rightarrow> cli_network_info peer_of multiaddr_of S addr n
           | CmdEvents \<Rightarrow> cli_node_events event_of S addr n
           | CmdRestart delay_millis \<Rightarrow> cli_node_restart S addr delay_millis n
           | CmdStop delay_millis \<Rightarrow> cli_node_stop S addr delay_millis n
           | CmdUpdate delay_millis \<Rightarrow> cli_node_update S addr delay_millis n))"

section \<open>The node's service behind the stub\<close>

text \<open>
  The state is the swarm driver and the control messages sent so far. A panic of a handler
  reaches the caller as an error of the channel, \<open>broken\<close>. \<open>there\<close> tells whether the control loop still
  receives, \<open>rs\<close> what the service's subscription gives and \<open>sends\<close> whether the client still listens.
\<close>

definition unpanic :: "string \<Rightarrow> (report failure + 'a) \<times> 'm \<Rightarrow> (string + 'a) \<times> 'm" where
  "unpanic broken r = (case r of (Inl _, d) \<Rightarrow> (Inl broken, d) | (Inr x, d) \<Rightarrow> (Inr x, d))"

definition safenode_control :: "bool \<Rightarrow> rpc_request \<Rightarrow> 'm \<times> node_ctrl list \<Rightarrow> (string + unit) \<times> 'm \<times> node_ctrl list" where
  "safenode_control there req = (\<lambda>(d, ms). case rpc_control there req of (res, ms') \<Rightarrow> (res, d, ms @ ms'))"

definition safenode_service :: "safenode_env \<Rightarrow> network \<Rightarrow> string \<Rightarrow> nat \<Rightarrow> (multiaddr \<Rightarrow> string) \<Rightarrow> nat \<Rightarrow> ('d, 's) wire_env \<Rightarrow> swarm_in \<Rightarrow> sender
    \<Rightarrow> (node_event \<Rightarrow> string + bytes) \<Rightarrow> bool list \<Rightarrow> event_recv list \<Rightarrow> bool \<Rightarrow> string option \<Rightarrow> string
    \<Rightarrow> (('d, 's) driver \<times> node_ctrl list) rpc_service" where
  "safenode_service E nw log_dir uptime show_multiaddr capacity W I s to_bytes sends rs there remote broken =
     \<lparr>rs_connect = (\<lambda>_ n. (Inr (), n)),
      rs_node_info = (\<lambda>n. (Inr (rpc_node_info E nw log_dir uptime), n)),
      rs_network_info = (\<lambda>(d, ms). case unpanic broken (rpc_network_info show_multiaddr capacity W I s d) of (r, d) \<Rightarrow> (r, d, ms)),
      rs_node_events = (\<lambda>n. (Inr (map Inr (rpc_node_events to_bytes sends rs)), n)),
      rs_record_addresses = (\<lambda>(d, ms). case unpanic broken (rpc_record_addresses capacity W I s d) of (r, d) \<Rightarrow> (r, d, ms)),
      rs_restart = (\<lambda>delay_millis. safenode_control there (RpcRestart delay_millis)),
      rs_stop = (\<lambda>delay_millis. safenode_control there (RpcStop remote delay_millis)),
      rs_update = (\<lambda>delay_millis. safenode_control there (RpcUpdate delay_millis))\<rparr>"

section \<open>Lemmas\<close>

lemma logging_to_stdout:
  "init_logging F None targets LogStdout LogDefault fs = Inr ((False, \<lparr>layer_dest = LogStdout, layer_format = LogDefault, layer_targets = targets\<rparr>), fs)"
  by (simp add: init_logging_def fmt_layer_def)

lemma print_each_all: "(\<And>x. x \<in> set xs \<Longrightarrow> line x = Inr (g x)) \<Longrightarrow> print_each line xs = (Inr (), map g xs)"
  by (induction xs) auto

text \<open>What a listener is told: the encodable events up to the first error of the channel, as many of them as it
  stays to receive.\<close>

fun events_until_error :: "event_recv list \<Rightarrow> node_event list" where
  "events_until_error (Received event # rs) = event # events_until_error rs"
| "events_until_error _ = []"

definition events_told :: "(node_event \<Rightarrow> string + bytes) \<Rightarrow> bool list \<Rightarrow> event_recv list \<Rightarrow> node_event list" where
  "events_told to_bytes sends rs = take (length (takeWhile id sends)) (filter (\<lambda>e. \<not> isl (to_bytes e)) (events_until_error rs))"

lemma print_events_told:
  assumes "\<And>e b. to_bytes e = Inr b \<Longrightarrow> event_of b = Some e"
  shows "print_events event_of (map Inr (rpc_node_events to_bytes sends rs)) = map EventLine (events_told to_bytes sends rs)"
  using assms by (induction to_bytes sends rs rule: rpc_node_events.induct)
    (auto simp: events_told_def split: sum.splits list.splits bool.splits)

section \<open>Commands against the running node\<close>

fun control_request :: "string option \<Rightarrow> rpc_cmd \<Rightarrow> rpc_request option" where
  "control_request remote (CmdRestart delay_millis) = Some (RpcRestart delay_millis)"
| "control_request remote (CmdStop delay_millis) = Some (RpcStop remote delay_millis)"
| "control_request remote (CmdUpdate delay_millis) = Some (RpcUpdate delay_millis)"
| "control_request remote _ = None"

text \<open>A control command is acknowledged to the user exactly when its control message is in the node's channel.\<close>

lemma control_command:
  fixes W :: "('d, 's) wire_env"
  assumes "control_request remote cmd = Some req"
  shows "\<exists>line status. rpc_client_main F None peer_of multiaddr_of event_of
      (safenode_service E nw log_dir uptime show_multiaddr capacity W I s to_bytes sends rs there remote broken) addr cmd fs (d, ms) =
    (if there then ((Inr (), [line]), d, ms @ [rpc_ctrl req]) else ((Inl (RpcStatus status), []), d, ms))"
  using assms by (cases cmd) (auto simp: rpc_client_main_def logging_to_stdout cli_node_restart_def cli_node_stop_def cli_node_update_def
    rpc_call_def safenode_service_def safenode_control_def rpc_control_def)

text \<open>The network information shows the driver's connected peers and listeners, in their order.\<close>

lemma netinfo_command:
  fixes W :: "('d, 's) wire_env"
  assumes "running_swarm_local_state capacity W I s d = (Inr st, d')"
    and "\<And>p. p \<in> set (connected_peers st) \<Longrightarrow> peer_of p = Some p" and "\<And>m. multiaddr_of (show_multiaddr m) = Some m"
  shows "rpc_client_main F None peer_of multiaddr_of event_of
      (safenode_service E nw log_dir uptime show_multiaddr capacity W I s to_bytes sends rs there remote broken) addr CmdNetinfo fs (d, ms) =
    ((Inr (), [Line (''Node'' @ CHR 0x27 # ''s connections to the Network:''), Line '''', Line ''Connected peers:'']
       @ map (PeerLine ''Peer: '') (connected_peers st)
       @ [Line '''', Line (''Node'' @ CHR 0x27 # ''s listeners:'')] @ map ListenerLine (listeners st)), d', ms)"
proof -
  have "print_each (peer_line peer_of) (connected_peers st) = (Inr (), map (PeerLine ''Peer: '') (connected_peers st))"
    using assms(2) by (intro print_each_all) (simp add: peer_line_def)
  moreover have "print_each (listener_line multiaddr_of) (map show_multiaddr (listeners st)) =
      (Inr (), map (\<lambda>x. case multiaddr_of x of Some m \<Rightarrow> ListenerLine m) (map show_multiaddr (listeners st)))"
    using assms(3) by (intro print_each_all) (auto simp: listener_line_def)
  ultimately show ?thesis using assms(1,3)
    by (simp add: rpc_client_main_def logging_to_stdout cli_network_info_def rpc_call_def safenode_service_def rpc_network_info_def
        unpanic_def comp_def Let_def)
qed

text \<open>The admin client listening to a running node prints the node's events, and nothing else: in the order in which
  they were broadcast, each once, all that can be encoded, up to the first error of the broadcast
  channel (falling behind by more than the channel's capacity is one) or as long as it listens. What the node encodes is what
  the client decodes (rmp-serde's round trip). The node's state is not touched.\<close>

lemma rpc_events_listed:
  fixes W :: "('d, 's) wire_env"
  assumes "\<And>e b. to_bytes e = Inr b \<Longrightarrow> event_of b = Some e"
  shows "rpc_client_main F None peer_of multiaddr_of event_of
      (safenode_service E nw log_dir uptime show_multiaddr capacity W I s to_bytes sends rs there remote broken) addr CmdEvents fs n =
    ((Inr (), Line ''Listening to node events... (press Ctrl+C to exit)'' # map EventLine (events_told to_bytes sends rs)), n)"
  by (simp add: rpc_client_main_def logging_to_stdout cli_node_events_def rpc_call_def safenode_service_def print_events_told [OF assms])

end
