(* ===== verification/Spec2Isabelle.thy ===== *)
theory Spec2Isabelle
  imports Prelude Registers Transfers Payment_Proof Wallet Wallet_Disk Protocol Record_Store Replication_Fetcher
    Networking Swarm_Driver Swarm_Votes Swarm_State Node Node_Validation Node_Replication Client Client_Register Genesis Client_Wallet
    Client_Files Client_Faucet Cli_Wallet Cli_Files Cli_Main Network_Handle Swarm_Start Peers Logging Safenode Client_Start Faucet_Server
    Testnet Store_Refinement Payment_Flow Cli_Upload Register_Chat Rpc_Client
begin

text \<open>
  A verification of the safe network: nodes that store chunks, registers and spends of DBCs, the
  client library that pays for and uploads them, and the binaries around both. The sources are
  the crates under src/. Every theory opens with a note on what it models.

  \<^bold>\<open>Parts and their theories.\<close> A node is a swarm driver that owns the record store and the
  replication fetcher and talks to libp2p, a \<open>Network\<close> handle whose calls are commands to the
  driver, and handlers of the events the driver emits. A client uses the same handle in client
  mode; wallets, registers and files are built on it, and the command line on these.

  \<^item> \<open>Prelude\<close>: words with checked arithmetic, results and panics, sorted sets and maps, runs of systems
    with an invariant or a refinement.
  \<^item> \<open>Registers\<close> (sn_registers): addresses, permissions, signed operations, replicas.
  \<^item> \<open>Transfers\<close>, \<open>Payment_Proof\<close>, \<open>Wallet\<close>, \<open>Wallet_Disk\<close>, \<open>Genesis\<close> (sn_transfers): input selection,
    Merkle proofs of storage payments, the wallet and its files, the genesis and faucet wallets.
  \<^item> \<open>Protocol\<close> (sn_protocol): addresses, distances, records, messages.
  \<^item> \<open>Record_Store\<close>, \<open>Store_Refinement\<close>, \<open>Replication_Fetcher\<close>, \<open>Networking\<close>, \<open>Swarm_Driver\<close>, \<open>Swarm_Votes\<close>,
    \<open>Swarm_State\<close>, \<open>Network_Handle\<close>, \<open>Swarm_Start\<close> (sn_networking): the store, the bounded map it
    implements, the fetcher, fetching and putting records
    with retries, the driver as a function on its state, the votes it counts for a fetched record,
    its invariants, the calls of the handle, and how a swarm is built and run.
  \<^item> \<open>Node\<close>, \<open>Node_Validation\<close>, \<open>Node_Replication\<close> (sn_node): the handlers, what they store, what they
    replicate on churn. \<open>Safenode\<close>: \<open>Node::run\<close>, the node's process and its admin service.
    \<open>Rpc_Client\<close>, \<open>Register_Chat\<close>: the crate's example programs, the client of the admin service
    and the interactive register.
  \<^item> \<open>Client\<close>, \<open>Client_Start\<close>, \<open>Client_Wallet\<close>, \<open>Client_Register\<close>, \<open>Client_Files\<close>, \<open>Client_Faucet\<close>
    (sn_client), \<open>Faucet_Server\<close> (the faucet binary). \<open>Payment_Flow\<close>: a client's payment as a node's
    validation and store see it, for the theorems of this theory.
  \<^item> \<open>Cli_Wallet\<close>, \<open>Cli_Files\<close>, \<open>Cli_Upload\<close>, \<open>Cli_Main\<close> (sn_cli), \<open>Peers\<close> (sn_peers_acquisition), \<open>Logging\<close> (sn_logging),
    \<open>Testnet\<close> (sn_testnet).

  \<^bold>\<open>What the lemmas show.\<close> Registers: only operations of permitted, signing users pass
  verification, what the constructors build verifies, replicas with the same operations agree.
  Transfers and wallets: selected inputs cover the outputs and the change exactly, a wallet's
  balance is the value of its DBCs along every history, a stored wallet is loaded back. Payments:
  a proof made by the client is accepted by a node that sees its transaction, and the chunk paid
  for is stored, read back and served (in this theory). The store never exceeds its capacity,
  evicts only the furthest key, and once its file tasks have run reads as a bounded map; the driver keeps the close
  group the eight nearest peers; a record is handed out only with a majority of reports or, on the
  last attempt, as one with too few copies; every call to the driver is answered once or still pending. Nodes store only validated records, aggregate spends to the
  same result in any order, and detect double spends. Clients read back the registers and files
  they stored, from the library and from the command line; uploads end. The processes keep their identity over a restart, restart only on
  request and end when the network is gone; a client connects exactly when eight peers are known.
  Some lemmas show what the code does although it should not: they are named in the manifest's
  findings.

  \<^bold>\<open>Interfaces.\<close> Where several operations share a contract it is a locale, interpreted on the
  model's own definitions: \<open>ordered_set\<close> and \<open>ordered_map\<close> (\<open>Prelude\<close>, on the sorted lists that stand for
  BTreeSet and BTreeMap); \<open>invariant_system\<close>, a step function that keeps an invariant (\<open>settling\<close> on the
  file tasks of the record store, \<open>typed\<close> on the types of the driver's reply channels, \<open>reachable\<close>
  and \<open>fixed\<close> on the running swarm); \<open>refining_system\<close>, which extends it by an abstract step (\<open>store\<close> on
  the record store and the bounded map); \<open>accounted_system\<close>, in which a quantity changes by exactly
  the charge of each input (\<open>calls\<close> on the calls the driver has answered or keeps pending); and \<open>persistent\<close> (\<open>Wallet_Disk\<close>), a state that is
  loaded and stored, on the wallet's directory.

  \<^bold>\<open>Parameters.\<close> Third-party crates (libp2p, crdts, bls, sn_dbc, merkletree, self_encryption,
  serialisers), the operating system and the rest of the network are fields of records such as
  \<open>reg_env\<close>, \<open>dbc_env\<close>, \<open>merkle_env\<close>, \<open>wire_env\<close>, \<open>node_env\<close>, \<open>se_env\<close>, \<open>codec\<close>, \<open>client_net\<close>, \<open>swarm_env\<close>. What
  a theorem relies on is a named predicate: the inverse of a serialiser, the symmetry of
  distances (\<open>distance_law\<close>), a builder that builds what it was given (\<open>builder_faithful\<close>), a network
  that keeps what it accepted (\<open>keeps_records\<close>). Every such predicate has an instance in a witness.

  \<^bold>\<open>Conventions.\<close> A fallible operation returns a sum; an unwrap, expect, assertion or index out of
  range is \<open>Inl Panic\<close>. Words wrap around as in a release build. Random draws, clocks, iteration
  orders of hash sets and the answers of other tasks are arguments, so that the theorems hold for
  all of them. Tasks joined or spawned together run one after the other; the file tasks of the
  record store are the exception, they run in any order. A call of the handle is run with the
  driver that answers it. A failing file operation leaves the files as they are, but for the key
  file of a node. A result \<open>None\<close> of a loop means that it has not ended.

  \<^bold>\<open>Bounds and fuel.\<close> Retry loops have the number of attempts of the source. Packing a file's data
  maps and unpacking them are partial functions, \<open>None\<close> where the source would not end; that an
  upload ends is a theorem for encryptions that shrink. Loops over channels consume a list of
  what they receive.

  \<^bold>\<open>Not modelled.\<close> Parsing of command lines by clap, the texts of logs and of \<open>Debug\<close> and \<open>Display\<close>
  implementations (but for those that are parsed again), log rotation, metrics and telemetry,
  generated gRPC code, sn_build_info, tests and benches.
\<close>

section \<open>A payment made by a client, as a node sees it\<close>

text \<open>A storage payment a client has made is accepted: when \<open>pay_for_storage\<close> returns proofs, the
  spends of one transaction have been stored on the network, and a node that can fetch them, and
  whose current store cost does not exceed the cost per record the client computed, validates the
  payment proof of a chunk under every address paid for. (The total must fit in 64 bits, since
  the code multiplies without checking.)\<close>

theorem client_payment_accepted:
  fixes N :: "('d, 's::linorder, 't, 'p) node_env" and D :: "('dbc, 's, 'b) dbc_env"
  assumes "merkle_laws (merkle N)" and "tx_builder_law D" and "sn_hash D = hash_bytes N"
    and free: "\<forall>f. fee_is_free N f \<longleftrightarrow> fee_token f = 0"
    and "distinct addrs"
    and pay: "pay_for_storage N D C addrs v target idx wc n = (Inr (proofs, Some cost), wc', n')"
    and "cost \<noteq> 0" and fits: "unat cost * length addrs < 2 ^ 64"
  shows "\<exists>root trails w (transfer :: ('dbc, 's) transfer_outputs). build_payment_proofs (merkle N) addrs = Inr (root, trails) \<and>
    local_send_storage_payment D (wc_wallet wc) (word_of_nat (length addrs) * cost) root None idx = Inr (w, transfer) \<and>
    client_send N C transfer v n = (Inr (), n') \<and>
    (\<forall>I price c. knows_payment N I (tx transfer) \<and> local_storecost I = Answer price \<and> price \<le> cost \<and>
       chunk_name (cwp_chunk c) \<in> set addrs \<and> bm_get proofs (chunk_name (cwp_chunk c)) = Some (cwp_payment c) \<longrightarrow>
       chunk_payment_validation N I c True = Inr ()) \<and>
    (\<forall>a \<in> set addrs. \<exists>p. bm_get proofs a = Some p)"
  by (rule paid_chunk_validates [OF assms]) metis

lemma demo_payment_laws:
  "merkle_laws (merkle demo_paying_node)" "tx_builder_law demo_fee_env" "sn_hash demo_fee_env = hash_bytes demo_paying_node"
  "\<forall>f. fee_is_free demo_paying_node f \<longleftrightarrow> fee_token f = 0" "distinct [[5], [6 :: byte]]" "(20 :: token) \<noteq> 0"
  "unat (20 :: token) * length [[5], [6 :: byte]] < 2 ^ 64"
  using demo_merkle_laws by (simp_all add: tx_builder_law_def)

theorem client_payment_accepted_witness:
  "\<exists>proofs wc' n' p. pay_for_storage demo_paying_node demo_fee_env map_net [[5], [6]] True [0] [4] demo_payer Map.empty
      = (Inr (proofs, Some 20), wc', n') \<and> bm_get proofs [6] = Some p \<and>
    chunk_payment_validation demo_paying_node demo_node_in
      \<lparr>cwp_chunk = \<lparr>chunk_address = [6], chunk_value = [6]\<rparr>, cwp_payment = p\<rparr> True = Inr ()"
proof -
  obtain proofs wc' n' where pay: "pay_for_storage demo_paying_node demo_fee_env map_net [[5], [6]] True [0] [4] demo_payer Map.empty
     = (Inr (proofs, Some 20), wc', n')" and p: "bm_get proofs [6] = Some demo_paid_proof" using demo_pay by blast
  from client_payment_accepted [OF demo_payment_laws(1-5) pay demo_payment_laws(6,7)] demo_local_payment demo_proofs
  have "\<forall>I price c. knows_payment demo_paying_node I demo_paid_tx \<and> local_storecost I = Answer price \<and> price \<le> 20 \<and>
       chunk_name (cwp_chunk c) \<in> set [[5], [6]] \<and> bm_get proofs (chunk_name (cwp_chunk c)) = Some (cwp_payment c) \<longrightarrow>
       chunk_payment_validation demo_paying_node I c True = Inr ()"
    by (auto simp: demo_payment_def)
  from this [rule_format, of demo_node_in 10 "\<lparr>cwp_chunk = \<lparr>chunk_address = [6], chunk_value = [6]\<rparr>, cwp_payment = demo_paid_proof\<rparr>"]
    demo_knows_payment pay p show ?thesis by (auto simp: chunk_name_def)
qed

section \<open>The way of a paid chunk\<close>

text \<open>C8: A chunk that was paid for is stored and served: when \<open>pay_for_storage\<close> returned a proof for its
  address, the record in which \<open>store_chunk\<close> sends it is handed by the store of a receiving node to
  the node's validation, which, given that the node sees the payment's transaction and asks no
  more than the client computed, puts the same record into the store; if the store has room or
  holds a record further away, the node reads the record back once the file tasks have run, and
  a client that is given it by the network gets the chunk. This is shown for: a payment for distinct addresses
  at a cost that is not zero and whose total fits in 64 bits (the code multiplies without a check, so a larger
  upload pays a wrapped-around amount); a content-addressed chunk whose record serialises to less than the
  store's limit for a value; a node that does not hold the key, has room in its command channel and a
  listener for the store's events; and a well-formed store with no file task of that key pending
  (a removal spawned earlier may otherwise delete the record). The Merkle tree, the
  transaction builder and the serialisers keep their laws, and the hash functions of client and
  node agree.\<close>

theorem paid_chunk_served:
  fixes N :: "('d, 's::linorder, 't, 'p) node_env" and D :: "('dbc, 's, 'b) dbc_env" and C :: "('n, 'd, 's) client_net"
  assumes "merkle_laws (merkle N)" and "tx_builder_law D" and "sn_hash D = hash_bytes N"
    and "\<forall>f. fee_is_free N f \<longleftrightarrow> fee_token f = 0" and "distinct addrs"
    and "pay_for_storage N D C addrs v target idx wc n = (Inr (proofs, Some cost), wc', n')"
    and "cost \<noteq> 0" and "unat cost * length addrs < 2 ^ 64"
    and laws: "rmp_laws (wire N)" "distance_law (wire N)"
    and chunk: "chunk_ok (wire N) c" "chunk_address c \<in> set addrs" "bm_get proofs (chunk_address c) = Some p"
    and sent: "try_serialize_record (wire N) (enc_chunk (wire N) \<lparr>cwp_chunk = c, cwp_payment = p\<rparr>) ChunkKind = (Inr bs :: 's protocol_error + bytes)"
      "r = local_kad_record (chunk_address c) bs"
    and node: "key_present I (chunk_address c) = Answer False" "cmd_room I 0" "local_storecost I = Answer price" "price \<le> cost"
    and st: "store_ok (store d)" "iterates (store_iter J) (store d)" "bm_ok (disk (store d))"
      "\<forall>t \<in> set (tasks (store d)). task_file t \<noteq> key_to_hex (chunk_address c)" "takes_key (wire N) (store d) (chunk_address c)"
      "event_sender (store d)" "length bs < max_value_bytes (config (store d))"
    and put: "cap > 0" "put_local_record cap (wire N) J r d = (res, d1)"
  shows "\<exists>root trails w (transfer :: ('dbc, 's) transfer_outputs). build_payment_proofs (merkle N) addrs = Inr (root, trails) \<and>
    local_send_storage_payment D (wc_wallet wc) (word_of_nat (length addrs) * cost) root None idx = Inr (w, transfer) \<and>
    client_send N C transfer v n = (Inr (), n') \<and> (knows_payment N I (tx transfer) \<longrightarrow>
    (\<forall>w. store_chunk N C c p w = net_put C r w) \<and>
    rs_put (store d) r = Inr ((store d)\<lparr>sent_events := sent_events (store d) @ [UnverifiedRecord r]\<rparr>) \<and>
    handle_network_event N I (UnverifiedRecordEvent r) = [Send (PutLocalRecord r), Broadcast (ChunkStored (chunk_address c))] \<and>
    res = Inr () \<and>
    (\<forall>order K s. tasks (run_schedule order (store d1)) = [] \<and> receiver_alive K s \<longrightarrow>
       fst (get_local_record cap (wire N) K (chunk_address c) s (settle order d1)) = Inr (Some r)) \<and>
    (\<forall>m. holds C m r \<longrightarrow> fst (get_chunk N C (chunk_address c) m) = Inr c))"
proof -
  let ?cwp = "\<lparr>cwp_chunk = c, cwp_payment = p\<rparr>"
  from paid_chunk_validates [OF assms(1-8)] obtain root trails w and transfer :: "('dbc, 's) transfer_outputs" where
    made: "build_payment_proofs (merkle N) addrs = Inr (root, trails)"
      "local_send_storage_payment D (wc_wallet wc) (word_of_nat (length addrs) * cost) root None idx = Inr (w, transfer)"
    and pay: "client_send N C transfer v n = (Inr (), n')"
    and valid: "\<And>I price c. knows_payment N I (tx transfer) \<Longrightarrow> local_storecost I = Answer price \<Longrightarrow> price \<le> cost \<Longrightarrow>
       chunk_name (cwp_chunk c) \<in> set addrs \<Longrightarrow> bm_get proofs (chunk_name (cwp_chunk c)) = Some (cwp_payment c) \<Longrightarrow>
       chunk_payment_validation N I c True = Inr ()" by metis
  have r: "rec_key r = chunk_address c" "rec_value r = bs" "\<lparr>rec_key = rec_key r, rec_value = rec_value r, rec_publisher = None, rec_expires = None\<rparr> = r"
    by (simp_all add: sent(2) local_kad_record_def)
  have "store_chunk N C c p w = net_put C r w" for w
    using sent by (simp add: store_chunk_def op_bind_def op_return_def from_chunk_address_def)
  moreover have "rs_put (store d) r = Inr ((store d)\<lparr>sent_events := sent_events (store d) @ [UnverifiedRecord r]\<rparr>)"
    using st(6,7) r(2) by (simp add: rs_put_def)
  moreover have "handle_network_event N I (UnverifiedRecordEvent r) = [Send (PutLocalRecord r), Broadcast (ChunkStored (chunk_address c))]"
    if "knows_payment N I (tx transfer)"
    using chunk_record_stored [OF laws(1), of ?cwp bs I r] chunk sent node valid [OF that node(3,4), of ?cwp] by (simp add: chunk_name_def)
  moreover have "res = Inr ()" by (rule put_local_record_store(1) [OF put])
  moreover obtain st' where st': "put_verified (wire N) (store_iter J) (store d) r = Inr st'"
    using put_verified_takes [OF st(2,1) laws(2)] st(5) r(1) by metis
  have "fst (get_local_record cap (wire N) K (chunk_address c) s (settle order d1)) = Inr (Some r)"
    if "tasks (run_schedule order (store d1)) = []" "receiver_alive K s" for order K s
    using put_local_record_read(1) [OF laws(2) st(1-3) _ put st' that(1)] st(4) r
    by (simp add: local_reads(1) [OF put(1) that(2)] settle_def)
  moreover have "fst (get_chunk N C (chunk_address c) m) = Inr c" if "holds C m r" for m
    using get_chunk_held [OF laws(1) held_of_holds [OF that [unfolded sent(2)] sent(1)] chunk(1)] by simp
  ultimately show ?thesis using made pay by blast
qed

theorem paid_chunk_served_witness:
  "\<exists>d1. put_local_record 1 demo_chunk_wire demo_in (local_kad_record [6] [0x91, 0, 1, 6]) demo_driver = (Inr (), d1) \<and>
    handle_network_event demo_paying_node demo_node_in (UnverifiedRecordEvent (local_kad_record [6] [0x91, 0, 1, 6])) =
      [Send (PutLocalRecord (local_kad_record [6] [0x91, 0, 1, 6])), Broadcast (ChunkStored [6])] \<and>
    fst (get_local_record 1 demo_chunk_wire demo_in [6] 3 (settle [1, 0] d1)) = Inr (Some (local_kad_record [6] [0x91, 0, 1, 6]))"
proof -
  let ?c = "\<lparr>chunk_address = [6], chunk_value = [6]\<rparr> :: chunk" and ?r = "local_kad_record [6] [0x91, 0, 1, 6]"
  obtain proofs wc' n' where pay: "pay_for_storage demo_paying_node demo_fee_env map_net [[5], [6]] True [0] [4] demo_payer Map.empty
     = (Inr (proofs, Some 20), wc', n')" and p: "bm_get proofs [6] = Some demo_paid_proof" using demo_pay by blast
  obtain res d1 where put: "put_local_record 1 demo_chunk_wire demo_in ?r demo_driver = (res, d1)" by fastforce
  have dr: "store demo_driver = demo_store" "store_iter demo_in = [[9], [1]]" "receiver_alive demo_in 3"
    by (simp_all add: demo_driver_def driver_new_def demo_in_def)
  have st: "bm_ok (disk demo_store)" "event_sender demo_store" "4 < max_value_bytes (config demo_store)" "takes_key demo_chunk_wire demo_store [6]"
    by (simp_all add: demo_store_def with_config_def default_config_def takes_key_def key_distance_def demo_wire_def)
  have "put_verified demo_chunk_wire [[9], [1]] demo_store ?r =
     Inr (demo_store\<lparr>records := [[1], [6]], tasks := [RemoveTask (key_to_hex [9]), WriteTask (key_to_hex [6]) [0x91, 0, 1, 6]]\<rparr>)"
    by (simp add: put_verified_def prune_storage_if_needed_for_record_def demo_store_def with_config_def local_kad_record_def
        default_config_def demo_wire_def key_distance_def Let_def remove_record_def bs_insert_def insort_insert_key_def)
  with put_local_record_store [OF _ put] dr
  have "tasks (run_schedule [1, 0] (store d1)) = []" by (simp add: run_schedule_def run_task_def)
  then show ?thesis
    using paid_chunk_served [OF demo_payment_laws(1-5) pay demo_payment_laws(6,7), of ?c demo_paid_proof "[0x91, 0, 1, 6]" ?r
        demo_node_in 10 demo_driver demo_in 1 res d1] demo_chunk_wire_laws demo_chunk_serialized demo_knows_payment p put st dr demo_store_ok
      demo_local_payment demo_proofs by (auto simp: chunk_ok_def demo_payment_def)
qed

end
